(* ===== verification/Opaq_Prelude.thy ===== *)
theory Opaq_Prelude
  imports Main "HOL-Library.Word"
begin

unbundle bit_operations_syntax

text \<open>
  Vocabulary shared by every component.

  \<^item> Machine integers keep their width: \<open>u8\<close>, \<open>u32\<close>, \<open>u64\<close> are words. A \<open>[u8; 32]\<close> value
    of the code (a hash, a public key, a nullifier, a field element) is the 256-bit word that the
    32 bytes spell in big-endian order, which is how the code reads every one of them;
    \<open>b32_bytes\<close> and \<open>bytes_b32\<close> convert, and \<open>bytes_b32_inverse\<close> / \<open>b32_bytes_inverse\<close> show
    that nothing is lost. Buffers (\<open>&[u8]\<close>, \<open>Vec<u8>\<close>, account data) are byte lists.
  \<^item> A call either returns a value, returns an error value (\<open>Err\<close>), or panics (\<open>Panic\<close>: an index
    out of range, a failed \<open>expect\<close>); \<open>and_then\<close> is the \<open>?\<close> operator.
  \<^item> \<open>sub\<close>, \<open>read_at\<close> and \<open>write_at\<close> are slice reads and \<open>copy_from_slice\<close> into a slice.
\<close>

section \<open>Types\<close>

type_synonym byte = "8 word"
type_synonym u8 = "8 word"
type_synonym bytes = "byte list"
type_synonym u32 = "32 word"
type_synonym u64 = "64 word"
type_synonym bytes32 = "256 word"
type_synonym pubkey = bytes32

datatype 'e exec_error = Failed 'e | Panicked

type_synonym ('e, 'a) outcome = "'e exec_error + 'a"

abbreviation Ok :: "'a \<Rightarrow> ('e, 'a) outcome" where
  "Ok \<equiv> Inr"

abbreviation Err :: "'e \<Rightarrow> ('e, 'a) outcome" where
  "Err e \<equiv> Inl (Failed e)"

abbreviation Panic :: "('e, 'a) outcome" where
  "Panic \<equiv> Inl Panicked"

named_theorems outcome_simps "unfolding of the sequencing of fallible calls"
named_theorems bytes_simps "lengths and contents of slices and encodings"

section \<open>Sequencing of fallible calls\<close>

definition and_then :: "('e, 'a) outcome \<Rightarrow> ('a \<Rightarrow> ('e, 'b) outcome) \<Rightarrow> ('e, 'b) outcome" where
  "and_then m k = (case m of Inl e \<Rightarrow> Inl e | Inr x \<Rightarrow> k x)"

definition expect :: "'a option \<Rightarrow> ('e, 'a) outcome" where
  "expect m = (case m of None \<Rightarrow> Panic | Some x \<Rightarrow> Ok x)"

definition map_err :: "('e \<Rightarrow> 'f) \<Rightarrow> ('e, 'a) outcome \<Rightarrow> ('f, 'a) outcome" where
  "map_err g m = (case m of Inl (Failed e) \<Rightarrow> Err (g e) | Inl Panicked \<Rightarrow> Panic | Inr x \<Rightarrow> Ok x)"

definition map_ok :: "('a \<Rightarrow> 'b) \<Rightarrow> ('e, 'a) outcome \<Rightarrow> ('e, 'b) outcome" where
  "map_ok f m = (case m of Inl e \<Rightarrow> Inl e | Inr x \<Rightarrow> Ok (f x))"

lemma and_then_simps [simp]:
  "and_then (Inr x) k = k x"
  "and_then (Inl e) k = Inl e"
  by (simp_all add: and_then_def)

lemma expect_simps [simp]:
  "expect (Some x) = Ok x"
  "expect None = Panic"
  by (simp_all add: expect_def)

lemma map_ok_simps [simp]:
  "map_ok f (Inr x) = Ok (f x)"
  "map_ok f (Inl e) = Inl e"
  by (simp_all add: map_ok_def)

lemma map_err_simps [simp]:
  "map_err g (Inr x) = Ok x"
  "map_err g (Err e) = Err (g e)"
  "map_err g Panic = Panic"
  by (simp_all add: map_err_def)

lemma and_then_Ok_iff [outcome_simps]:
  "and_then m k = Inr y \<longleftrightarrow> (\<exists>x. m = Inr x \<and> k x = Inr y)"
  by (cases m) auto

lemma and_then_okE:
  assumes "and_then m k = Inr y"
  obtains x where "m = Inr x" and "k x = Inr y"
  using assms by (cases m) auto

lemma map_ok_Ok_iff [outcome_simps]:
  "map_ok f m = Inr y \<longleftrightarrow> (\<exists>x. m = Inr x \<and> y = f x)"
  by (cases m) auto

lemma expect_Ok_iff [outcome_simps]: "expect m = Inr x \<longleftrightarrow> m = Some x"
  by (cases m) auto

lemma map_err_Ok_iff [outcome_simps]: "map_err g m = Inr x \<longleftrightarrow> m = Inr x"
  by (auto simp: map_err_def split: sum.splits exec_error.splits)

lemma and_then_assoc: "and_then (and_then m f) g = and_then m (\<lambda>x. and_then (f x) g)"
  by (cases m) auto

lemma and_then_cong [fundef_cong]:
  "m = m' \<Longrightarrow> (\<And>x. m' = Inr x \<Longrightarrow> k x = k' x) \<Longrightarrow> and_then m k = and_then m' k'"
  by (cases m') auto

lemma map_ok_and_then: "map_ok f (and_then m k) = and_then m (\<lambda>x. map_ok f (k x))"
  by (cases m) auto

lemma and_then_map_ok: "and_then (map_ok f m) k = and_then m (\<lambda>x. k (f x))"
  by (cases m) auto

lemma map_ok_map_ok: "map_ok f (map_ok g m) = map_ok (\<lambda>x. f (g x)) m"
  by (cases m) auto

section \<open>Integers as byte strings\<close>

text \<open>\<open>to_le_bytes\<close> / \<open>from_le_bytes\<close> and their big-endian counterparts, over \<open>nat\<close>.\<close>

fun le_of_nat :: "nat \<Rightarrow> nat \<Rightarrow> bytes" where
  "le_of_nat 0 n = []"
| "le_of_nat (Suc k) n = word_of_nat (n mod 256) # le_of_nat k (n div 256)"

fun nat_of_le :: "bytes \<Rightarrow> nat" where
  "nat_of_le [] = 0"
| "nat_of_le (b # bs) = unat b + 256 * nat_of_le bs"

definition be_of_nat :: "nat \<Rightarrow> nat \<Rightarrow> bytes" where
  "be_of_nat k n = rev (le_of_nat k n)"

definition nat_of_be :: "bytes \<Rightarrow> nat" where
  "nat_of_be bs = nat_of_le (rev bs)"

lemma length_le_of_nat [simp]: "length (le_of_nat k n) = k"
  by (induction k arbitrary: n) auto

lemma length_be_of_nat [simp]: "length (be_of_nat k n) = k"
  by (simp add: be_of_nat_def)

lemma unat_bound: "unat (w :: 'a::len word) < 2 ^ LENGTH('a)"
  by (rule unsigned_less)

lemma unat_byte_less [simp]: "unat (b :: byte) < 256"
  using unat_bound [of b] by simp

lemma unat_byte_of_nat: "unat (word_of_nat n :: byte) = n mod 256"
  by (simp add: unat_of_nat)

lemma nat_of_le_of_nat: "nat_of_le (le_of_nat k n) = n mod 256 ^ k"
proof (induction k arbitrary: n)
  case 0
  then show ?case by simp
next
  case (Suc k)
  have "n mod (256 * 256 ^ k) = 256 * (n div 256 mod 256 ^ k) + n mod 256"
    by (rule mod_mult2_eq)
  then show ?case by (simp add: Suc.IH unat_byte_of_nat)
qed

lemma le_of_nat_of_le: "le_of_nat (length bs) (nat_of_le bs) = bs"
proof (induction bs)
  case Nil
  then show ?case by simp
next
  case (Cons b bs)
  have "(unat b + 256 * nat_of_le bs) mod 256 = unat b"
    and "(unat b + 256 * nat_of_le bs) div 256 = nat_of_le bs"
    by simp_all
  then show ?case by (simp add: Cons.IH)
qed

lemma nat_of_le_less: "nat_of_le bs < 256 ^ length bs"
  using nat_of_le_of_nat [of "length bs" "nat_of_le bs"]
  by (metis le_of_nat_of_le mod_less_divisor zero_less_numeral zero_less_power)

lemma nat_of_be_of_nat: "nat_of_be (be_of_nat k n) = n mod 256 ^ k"
  by (simp add: nat_of_be_def be_of_nat_def nat_of_le_of_nat)

lemma be_of_nat_of_be: "be_of_nat (length bs) (nat_of_be bs) = bs"
  using le_of_nat_of_le [of "rev bs"] by (simp add: nat_of_be_def be_of_nat_def)

lemma nat_of_be_less: "nat_of_be bs < 256 ^ length bs"
  using nat_of_le_less [of "rev bs"] by (simp add: nat_of_be_def)

lemma nat_of_le_append: "nat_of_le (xs @ ys) = nat_of_le xs + 256 ^ length xs * nat_of_le ys"
  by (induction xs) (auto simp: algebra_simps)

lemma nat_of_be_append: "nat_of_be (xs @ ys) = nat_of_be xs * 256 ^ length ys + nat_of_be ys"
  by (simp add: nat_of_be_def nat_of_le_append)

lemma nat_of_le_zeros [simp]: "nat_of_le (replicate k 0) = 0"
  by (induction k) auto

lemma nat_of_be_zeros [simp]: "nat_of_be (replicate k 0) = 0"
  by (simp add: nat_of_be_def)

lemma le_of_nat_zero [simp]: "le_of_nat k 0 = replicate k 0"
  by (induction k) auto

lemma be_of_nat_zero [simp]: "be_of_nat k 0 = replicate k 0"
  by (simp add: be_of_nat_def)

subsection \<open>The widths the code uses\<close>

definition u64_to_le :: "u64 \<Rightarrow> bytes" where
  "u64_to_le w = le_of_nat 8 (unat w)"

definition u64_from_le :: "bytes \<Rightarrow> u64" where
  "u64_from_le bs = word_of_nat (nat_of_le bs)"

definition u64_to_be :: "u64 \<Rightarrow> bytes" where
  "u64_to_be w = be_of_nat 8 (unat w)"

definition u64_from_be :: "bytes \<Rightarrow> u64" where
  "u64_from_be bs = word_of_nat (nat_of_be bs)"

definition u32_to_le :: "u32 \<Rightarrow> bytes" where
  "u32_to_le w = le_of_nat 4 (unat w)"

definition u32_from_be :: "bytes \<Rightarrow> u32" where
  "u32_from_be bs = word_of_nat (nat_of_be bs)"

definition b32_bytes :: "bytes32 \<Rightarrow> bytes" where
  "b32_bytes w = be_of_nat 32 (unat w)"

definition bytes_b32 :: "bytes \<Rightarrow> bytes32" where
  "bytes_b32 bs = word_of_nat (nat_of_be bs)"

lemma length_encodings [simp, bytes_simps]:
  "length (u64_to_le w) = 8"
  "length (u64_to_be w) = 8"
  "length (u32_to_le v) = 4"
  "length (b32_bytes x) = 32"
  by (simp_all add: u64_to_le_def u64_to_be_def u32_to_le_def b32_bytes_def)

lemma u64_from_to_le [simp]: "u64_from_le (u64_to_le w) = w"
  using unat_bound [of w] by (simp add: u64_from_le_def u64_to_le_def nat_of_le_of_nat)

lemma u64_from_to_be [simp]: "u64_from_be (u64_to_be w) = w"
  using unat_bound [of w] by (simp add: u64_from_be_def u64_to_be_def nat_of_be_of_nat)

lemma bytes_b32_inverse [simp]: "bytes_b32 (b32_bytes x) = x"
  using unat_bound [of x] by (simp add: bytes_b32_def b32_bytes_def nat_of_be_of_nat)

lemma b32_bytes_inverse:
  assumes "length bs = 32"
  shows "b32_bytes (bytes_b32 bs) = bs"
proof -
  have "nat_of_be bs < 256 ^ 32"
    using nat_of_be_less [of bs] assms by simp
  then have "unat (bytes_b32 bs) = nat_of_be bs"
    by (simp add: bytes_b32_def unat_of_nat)
  then show ?thesis
    using be_of_nat_of_be [of bs] assms by (simp add: b32_bytes_def)
qed

lemma u64_to_from_le:
  assumes "length bs = 8"
  shows "u64_to_le (u64_from_le bs) = bs"
proof -
  have "nat_of_le bs < 256 ^ 8"
    using nat_of_le_less [of bs] assms by simp
  then have "unat (u64_from_le bs) = nat_of_le bs"
    by (simp add: u64_from_le_def unat_of_nat)
  then show ?thesis
    using le_of_nat_of_le [of bs] assms by (simp add: u64_to_le_def)
qed

lemma b32_bytes_inj [simp]: "b32_bytes x = b32_bytes y \<longleftrightarrow> x = y"
  by (metis bytes_b32_inverse)

lemma b32_bytes_zero [simp]: "b32_bytes 0 = replicate 32 0"
  by (simp add: b32_bytes_def)

lemma bytes_b32_zeros [simp]: "bytes_b32 (replicate k 0) = 0"
  by (simp add: bytes_b32_def)

lemma b32_eq_iff: "length bs = 32 \<Longrightarrow> bs = b32_bytes x \<longleftrightarrow> bytes_b32 bs = x"
  by (metis b32_bytes_inverse bytes_b32_inverse)

section \<open>Slices\<close>

text \<open>\<open>&data[off..off + n]\<close>: \<open>sub\<close> is the contents, \<open>read_at\<close> panics out of range.\<close>

definition sub :: "bytes \<Rightarrow> nat \<Rightarrow> nat \<Rightarrow> bytes" where
  "sub bs off n = take n (drop off bs)"

definition read_at :: "bytes \<Rightarrow> nat \<Rightarrow> nat \<Rightarrow> ('e, bytes) outcome" where
  "read_at bs off n = (if off + n \<le> length bs then Ok (sub bs off n) else Panic)"

text \<open>\<open>data[off..off + v.len()].copy_from_slice(&v)\<close>.\<close>

definition patch :: "bytes \<Rightarrow> nat \<Rightarrow> bytes \<Rightarrow> bytes" where
  "patch bs off v = take off bs @ v @ drop (off + length v) bs"

definition write_at :: "bytes \<Rightarrow> nat \<Rightarrow> bytes \<Rightarrow> ('e, bytes) outcome" where
  "write_at bs off v = (if off + length v \<le> length bs then Ok (patch bs off v) else Panic)"

lemma length_sub [bytes_simps]: "off + n \<le> length bs \<Longrightarrow> length (sub bs off n) = n"
  by (simp add: sub_def)

lemma length_patch [simp, bytes_simps]:
  "off + length v \<le> length bs \<Longrightarrow> length (patch bs off v) = length bs"
  by (simp add: patch_def)

lemma read_at_in [simp]: "off + n \<le> length bs \<Longrightarrow> read_at bs off n = Ok (sub bs off n)"
  by (simp add: read_at_def)

lemma write_at_in [simp]:
  "off + length v \<le> length bs \<Longrightarrow> write_at bs off v = Ok (patch bs off v)"
  by (simp add: write_at_def)

lemma write_at_Ok_iff [outcome_simps]:
  "write_at bs off v = Inr r \<longleftrightarrow> off + length v \<le> length bs \<and> r = patch bs off v"
  by (auto simp: write_at_def)

lemma read_at_Ok_iff [outcome_simps]:
  "read_at bs off n = Inr r \<longleftrightarrow> off + n \<le> length bs \<and> r = sub bs off n"
  by (auto simp: read_at_def)

lemma sub_patch_same [bytes_simps]:
  "off + length v \<le> length bs \<Longrightarrow> n = length v \<Longrightarrow> sub (patch bs off v) off n = v"
  by (simp add: sub_def patch_def)

lemma sub_patch_before [bytes_simps]:
  "off' + n \<le> off \<Longrightarrow> off \<le> length bs \<Longrightarrow> sub (patch bs off v) off' n = sub bs off' n"
  by (simp add: sub_def patch_def drop_take)

lemma sub_patch_after [bytes_simps]:
  assumes "off + length v \<le> off'" and "off + length v \<le> length bs"
  shows "sub (patch bs off v) off' n = sub bs off' n"
proof -
  have "drop off' (patch bs off v) = drop (off' - off - length v) (drop (off + length v) bs)"
    using assms by (simp add: patch_def)
  also have "\<dots> = drop off' bs"
    using assms by simp
  finally show ?thesis by (simp add: sub_def)
qed

lemma nth_patch_outside:
  assumes "i < off \<or> off + length v \<le> i" and "off + length v \<le> length bs"
  shows "patch bs off v ! i = bs ! i"
  using assms by (auto simp: patch_def nth_append)

lemma sub_append_left: "off + n \<le> length xs \<Longrightarrow> sub (xs @ ys) off n = sub xs off n"
  by (simp add: sub_def)

lemma sub_append_right:
  "length xs \<le> off \<Longrightarrow> sub (xs @ ys) off n = sub ys (off - length xs) n"
  by (simp add: sub_def)

lemma sub_full [simp]: "sub bs 0 (length bs) = bs"
  by (simp add: sub_def)

lemma sub_all: "length bs = n \<Longrightarrow> sub bs 0 n = bs"
  by (simp add: sub_def)

lemma sub_sub: "off + k \<le> n \<Longrightarrow> sub (sub bs o1 n) off k = sub bs (o1 + off) k"
  by (simp add: sub_def drop_take add.commute min_def)

text \<open>\<open>data[i]\<close> read and assigned.\<close>

definition byte_at :: "bytes \<Rightarrow> nat \<Rightarrow> ('e, byte) outcome" where
  "byte_at bs i = (if i < length bs then Ok (bs ! i) else Panic)"

definition set_byte :: "bytes \<Rightarrow> nat \<Rightarrow> byte \<Rightarrow> ('e, bytes) outcome" where
  "set_byte bs i b = (if i < length bs then Ok (bs[i := b]) else Panic)"

lemma byte_at_in [simp]: "i < length bs \<Longrightarrow> byte_at bs i = Ok (bs ! i)"
  by (simp add: byte_at_def)

lemma set_byte_in [simp]: "i < length bs \<Longrightarrow> set_byte bs i b = Ok (bs[i := b])"
  by (simp add: set_byte_def)

lemma byte_at_Ok_iff [outcome_simps]: "byte_at bs i = Inr b \<longleftrightarrow> i < length bs \<and> b = bs ! i"
  by (auto simp: byte_at_def)

lemma set_byte_Ok_iff [outcome_simps]:
  "set_byte bs i b = Inr r \<longleftrightarrow> i < length bs \<and> r = bs[i := b]"
  by (auto simp: set_byte_def)

lemma sub_update_outside [bytes_simps]:
  assumes "i < off \<or> off + n \<le> i"
  shows "sub (bs[i := b]) off n = sub bs off n"
proof -
  have "drop off (bs[i := b]) = (if i < off then drop off bs else (drop off bs)[i - off := b])"
    by (simp add: drop_update_swap drop_update_cancel)
  then show ?thesis using assms by (auto simp: sub_def take_update_cancel)
qed

text \<open>\<open>read32\<close> of the programs: 32 bytes as one value.\<close>

definition read32 :: "bytes \<Rightarrow> nat \<Rightarrow> ('e, bytes32) outcome" where
  "read32 data off = map_ok bytes_b32 (read_at data off 32)"

definition write32 :: "bytes \<Rightarrow> nat \<Rightarrow> bytes32 \<Rightarrow> ('e, bytes) outcome" where
  "write32 data off v = write_at data off (b32_bytes v)"

definition b32_at :: "bytes \<Rightarrow> nat \<Rightarrow> bytes32" where
  "b32_at data off = bytes_b32 (sub data off 32)"

lemma read32_in [simp]: "off + 32 \<le> length data \<Longrightarrow> read32 data off = Ok (b32_at data off)"
  by (simp add: read32_def b32_at_def)

lemma write32_in [simp]:
  "off + 32 \<le> length data \<Longrightarrow> write32 data off v = Ok (patch data off (b32_bytes v))"
  by (simp add: write32_def)

lemma read32_Ok_iff [outcome_simps]:
  "read32 data off = Inr r \<longleftrightarrow> off + 32 \<le> length data \<and> r = b32_at data off"
  by (auto simp: read32_def b32_at_def outcome_simps)

lemma b32_at_patch [bytes_simps]:
  "off + 32 \<le> length data \<Longrightarrow> b32_at (patch data off (b32_bytes v)) off = v"
  "off' + 32 \<le> off \<Longrightarrow> off \<le> length data \<Longrightarrow> b32_at (patch data off w) off' = b32_at data off'"
  "off + length w \<le> off' \<Longrightarrow> off + length w \<le> length data \<Longrightarrow>
    b32_at (patch data off w) off' = b32_at data off'"
  by (simp_all add: b32_at_def bytes_simps)

lemma b32_at_update [bytes_simps]:
  "i < off \<or> off + 32 \<le> i \<Longrightarrow> b32_at (data[i := b]) off = b32_at data off"
  by (simp add: b32_at_def bytes_simps)

lemma sub_eq_b32:
  "off + 32 \<le> length data \<Longrightarrow> sub data off 32 = b32_bytes x \<longleftrightarrow> b32_at data off = x"
  by (simp add: b32_at_def b32_eq_iff length_sub)

text \<open>Two entries of a table with stride \<open>s\<close> are one or do not overlap.\<close>

lemma stride_le: "(i :: nat) < j \<Longrightarrow> i * s + s \<le> j * s"
  using mult_le_mono1 [of "Suc i" j s] by simp

lemma slot_cases:
  fixes i j s :: nat
  obtains "i = j" | "i * s + s \<le> j * s" | "j * s + s \<le> i * s"
  by (rule linorder_cases [of i j]) (auto intro: stride_le)

text \<open>Tables of fixed-size entries: \<open>concat cs\<close> with every entry \<open>s\<close> bytes long.\<close>

lemma length_chunks:
  "\<forall>c \<in> set cs. length c = s \<Longrightarrow> length (concat cs) = length cs * s"
  by (induction cs) auto

lemma sub_chunk:
  "\<forall>c \<in> set cs. length c = s \<Longrightarrow> i < length cs \<Longrightarrow> sub (concat cs) (i * s) s = cs ! i"
proof (induction cs arbitrary: i)
  case (Cons c cs)
  then show ?case
    by (cases i) (simp_all add: sub_append_left sub_append_right sub_all)
qed simp

lemma patch_append: "length xs = off \<Longrightarrow> patch (xs @ ys) off v = xs @ v @ drop (length v) ys"
  by (simp add: patch_def)

lemma patch_prefix: "length v = length u \<Longrightarrow> patch (u @ ys) 0 v = v @ ys"
  by (simp add: patch_def)

lemma patch_middle:
  "length xs = off \<Longrightarrow> length v = length u \<Longrightarrow> patch (xs @ u @ ys) off v = xs @ v @ ys"
  by (simp add: patch_def)

lemma sub_prefix: "length xs = n \<Longrightarrow> sub (xs @ ys) 0 n = xs"
  by (simp add: sub_def)

lemma sub_middle: "length xs = off \<Longrightarrow> length ys = n \<Longrightarrow> sub (xs @ ys @ zs) off n = ys"
  by (simp add: sub_def)

text \<open>An offset \<open>base + i * stride\<close> computed in \<open>u64\<close> that does not wrap.\<close>

lemma unat_offset:
  assumes "a + n * s < 2 ^ 64"
  shows "unat (word_of_nat a + word_of_nat n * word_of_nat s :: u64) = a + n * s"
proof -
  have "unat (word_of_nat (a + n * s) :: u64) = a + n * s"
    using assms by (simp add: unat_of_nat del: of_nat_add of_nat_mult)
  then show ?thesis by simp
qed

text \<open>\<open>Iterator::position\<close>.\<close>

fun position :: "('a \<Rightarrow> bool) \<Rightarrow> 'a list \<Rightarrow> nat option" where
  "position p [] = None"
| "position p (x # xs) = (if p x then Some 0 else map_option Suc (position p xs))"

lemma position_Some:
  "position p xs = Some i \<Longrightarrow> i < length xs \<and> p (xs ! i) \<and> (\<forall>j < i. \<not> p (xs ! j))"
  by (induction xs arbitrary: i) (auto simp: nth_Cons split: if_splits nat.splits)

end
