(* ===== verification/Nullifier_Set.thy ===== *)
theory Nullifier_Set
  imports Opaq_Prelude
begin

text \<open>
  The nullifier set of \<open>crates/common/src/nullifier.rs\<close>: \<open>new\<close>, \<open>contains\<close>, \<open>try_insert\<close>, \<open>len\<close>
  and \<open>is_empty\<close>, and the contract \<open>nullifier_store\<close> of a set in which a nullifier can be
  recorded once. The contract is interpreted here for the crate's set and in \<open>Pool_Nullifiers\<close>
  for the account of the on-chain program.
\<close>

section \<open>State and operations\<close>

record nullifier_set =
  nullifiers :: "bytes32 list"

datatype nullifier_error = AlreadySpent

definition nullifier_set_new :: nullifier_set where
  "nullifier_set_new = \<lparr>nullifiers = []\<rparr>"

definition contains :: "nullifier_set \<Rightarrow> bytes32 \<Rightarrow> bool" where
  "contains s n = list_ex (\<lambda>x. x = n) (nullifiers s)"

definition try_insert ::
    "nullifier_set \<Rightarrow> bytes32 \<Rightarrow> (nullifier_error, nullifier_set) outcome" where
  "try_insert s n =
     (if contains s n then Err AlreadySpent
      else Ok (s\<lparr>nullifiers := nullifiers s @ [n]\<rparr>))"

definition nullifier_set_len :: "nullifier_set \<Rightarrow> nat" where
  "nullifier_set_len s = length (nullifiers s)"

definition nullifier_set_is_empty :: "nullifier_set \<Rightarrow> bool" where
  "nullifier_set_is_empty s \<longleftrightarrow> nullifiers s = []"

section \<open>The contract\<close>

text \<open>Recording several nullifiers, one call after the other.\<close>

fun add_all :: "('s \<Rightarrow> bytes32 \<Rightarrow> ('e, 's) outcome) \<Rightarrow> 's \<Rightarrow> bytes32 list \<Rightarrow> ('e, 's) outcome" where
  "add_all add s [] = Ok s"
| "add_all add s (n # ns) = and_then (add s n) (\<lambda>s'. add_all add s' ns)"

locale nullifier_store =
  fixes has :: "'s \<Rightarrow> bytes32 \<Rightarrow> bool"
    and add :: "'s \<Rightarrow> bytes32 \<Rightarrow> ('e, 's) outcome"
    and spent :: 'e
    and holds :: "'s \<Rightarrow> bytes32 list \<Rightarrow> bool"
  assumes has_iff: "holds s ns \<Longrightarrow> has s n \<longleftrightarrow> n \<in> set ns"
    and add_fresh: "holds s ns \<Longrightarrow> add s n = Inr s' \<Longrightarrow> n \<notin> set ns \<and> holds s' (ns @ [n])"
    and add_again: "holds s ns \<Longrightarrow> n \<in> set ns \<Longrightarrow> add s n = Err spent"
begin

lemma add_all_holds:
  assumes "holds s ns" and "distinct ns" and "add_all add s xs = Inr s'"
  shows "holds s' (ns @ xs) \<and> distinct (ns @ xs)"
  using assms
proof (induction xs arbitrary: s ns)
  case Nil
  then show ?case by simp
next
  case (Cons x xs)
  then obtain s1 where one: "add s x = Inr s1" and rest: "add_all add s1 xs = Inr s'"
    by (auto elim!: and_then_okE)
  have "x \<notin> set ns" and "holds s1 (ns @ [x])"
    using add_fresh [OF Cons.prems(1) one] by simp_all
  with Cons.IH [of s1 "ns @ [x]"] Cons.prems(2) rest show ?case by simp
qed

text \<open>Once recorded, a nullifier is refused whatever else was recorded in between.\<close>

lemma no_second_add:
  assumes "holds s ns" and "distinct ns" and "add_all add s (xs @ [n] @ ys) = Inr s'"
  shows "add s' n = Err spent"
  using add_all_holds [OF assms] by (intro add_again) auto

end

interpretation host_nullifiers:
  nullifier_store contains try_insert AlreadySpent "\<lambda>s ns. nullifiers s = ns"
  by standard (auto simp: contains_def try_insert_def list_ex_iff split: if_splits)

end
