(* ===== verification/Merkle_Tree.thy ===== *)
theory Merkle_Tree
  imports Opaq_Prelude "HOL-Library.Monad_Syntax"
begin

text \<open>
  Hashing and Merkle trees: the helpers of \<open>crates/common/src/lib.rs\<close> (\<open>poseidon_be\<close>,
  \<open>to_field_be\<close>, \<open>merkle_root_be\<close>, \<open>be32\<close>), the empty-subtree table of
  \<open>crates/common/src/tree.rs\<close> (\<open>zero_hashes\<close>, \<open>empty_root\<close>), and the specification the rest
  of the development measures the code against: \<open>node H ls l i\<close>, node number \<open>i\<close> of level \<open>l\<close> of
  the full binary tree over the leaves \<open>ls\<close> padded with the empty leaf.

  Poseidon is not under \<open>src/\<close>: it is a parameter \<open>P\<close> from a list of field elements to an
  optional field element (\<open>None\<close> is the library's error, which the code turns into a panic with
  \<open>expect\<close>). A function whose only failure is a panic returns an \<open>option\<close>, \<open>None\<close> for the panic. A hash closure \<open>Fn(&[u8;32], &[u8;32]) -> [u8;32]\<close> is likewise a function to
  \<open>option\<close>, \<open>None\<close> being a panic inside the closure. What the library documents, that canonical
  field elements hash to a canonical field element, is the hypothesis \<open>hashes_to\<close>.
\<close>

section \<open>Field elements and hashing\<close>

type_synonym poseidon = "bytes32 list \<Rightarrow> bytes32 option"
type_synonym hasher = "bytes32 \<Rightarrow> bytes32 \<Rightarrow> bytes32 option"
type_synonym hash2_fun = "bytes32 \<Rightarrow> bytes32 \<Rightarrow> bytes32"

text \<open>The order of the BN254 scalar field.\<close>

definition bn254_fr :: nat where
  "bn254_fr = 21888242871839275222246405745257275088548364400416034343698204186575808495617"

definition field_elem :: "bytes32 \<Rightarrow> bool" where
  "field_elem x \<longleftrightarrow> unat x < bn254_fr"

definition hashes_to :: "hasher \<Rightarrow> hash2_fun \<Rightarrow> bool" where
  "hashes_to h H \<longleftrightarrow>
     (\<forall>a b. field_elem a \<longrightarrow> field_elem b \<longrightarrow> h a b = Some (H a b) \<and> field_elem (H a b))"

lemma field_elem_zero [simp]: "field_elem 0"
  by (simp add: field_elem_def bn254_fr_def)

lemma hashes_toD:
  assumes "hashes_to h H" and "field_elem a" and "field_elem b"
  shows "h a b = Some (H a b)" and "field_elem (H a b)"
  using assms by (simp_all add: hashes_to_def)

definition poseidon_be :: "poseidon \<Rightarrow> bytes32 list \<Rightarrow> bytes32 option" where
  "poseidon_be P inputs = P inputs"

definition poseidon_hash2_be :: "poseidon \<Rightarrow> bytes32 \<Rightarrow> bytes32 \<Rightarrow> bytes32 option" where
  "poseidon_hash2_be P a b = poseidon_be P [a, b]"

text \<open>The closure \<open>poseidon2\<close> that the callers pass to the tree.\<close>

definition poseidon2 :: "poseidon \<Rightarrow> hasher" where
  "poseidon2 P = (\<lambda>a b. P [a, b])"

definition to_field_be :: "poseidon \<Rightarrow> bytes32 \<Rightarrow> bytes32 option" where
  "to_field_be P bytes32 =
     (let hi = patch (replicate 32 0) 16 (sub (b32_bytes bytes32) 0 16);
          lo = patch (replicate 32 0) 16 (sub (b32_bytes bytes32) 16 16)
      in poseidon_be P [bytes_b32 hi, bytes_b32 lo])"

definition be32 :: "128 word \<Rightarrow> bytes32" where
  "be32 n = bytes_b32 (patch (replicate 32 0) 16 (be_of_nat 16 (unat n)))"

fun merkle_fold :: "poseidon \<Rightarrow> bytes32 \<Rightarrow> (bytes32 \<times> bool) list \<Rightarrow> bytes32 option" where
  "merkle_fold P cur [] = Some cur"
| "merkle_fold P cur ((sib, is_right) # path) =
     do {
       cur' \<leftarrow> if is_right then poseidon_be P [sib, cur] else poseidon_be P [cur, sib];
       merkle_fold P cur' path
     }"

definition merkle_root_be :: "poseidon \<Rightarrow> bytes32 \<Rightarrow> bytes32 list \<Rightarrow> bool list \<Rightarrow> bytes32 option"
  where "merkle_root_be P leaf siblings right = merkle_fold P leaf (zip siblings right)"

subsection \<open>The limbs of \<open>to_field_be\<close>\<close>

lemma b32_limbs:
  shows "nat_of_be (sub (b32_bytes x) 0 16) = unat x div 2 ^ 128"
    and "nat_of_be (sub (b32_bytes x) 16 16) = unat x mod 2 ^ 128"
proof -
  let ?hi = "sub (b32_bytes x) 0 16" and ?lo = "sub (b32_bytes x) 16 16"
  have split: "b32_bytes x = ?hi @ ?lo"
    using append_take_drop_id [of 16 "b32_bytes x"] by (simp add: sub_def)
  have lo: "length ?lo = 16"
    by (simp add: length_sub)
  have "nat_of_be (b32_bytes x) = unat x"
    using unat_bound [of x] by (simp add: b32_bytes_def nat_of_be_of_nat)
  moreover have "nat_of_be (b32_bytes x) = nat_of_be ?hi * 256 ^ 16 + nat_of_be ?lo"
    using nat_of_be_append [of ?hi ?lo] split lo by simp
  ultimately have "unat x = nat_of_be ?hi * 2 ^ 128 + nat_of_be ?lo"
    by simp
  moreover have "nat_of_be ?lo < 2 ^ 128"
    using nat_of_be_less [of ?lo] lo by simp
  ultimately show "nat_of_be ?hi = unat x div 2 ^ 128" and "nat_of_be ?lo = unat x mod 2 ^ 128"
    by simp_all
qed

lemma bytes_b32_limb:
  "length v = 16 \<Longrightarrow> bytes_b32 (patch (replicate 32 0) 16 v) = word_of_nat (nat_of_be v)"
  by (simp add: patch_def bytes_b32_def nat_of_be_append)

lemma word_limbs:
  fixes x :: bytes32
  shows "word_of_nat (unat x div 2 ^ 128) = drop_bit 128 x"
    and "word_of_nat (unat x mod 2 ^ 128) = take_bit 128 x"
proof -
  have "unat x div 2 ^ 128 = unat (drop_bit 128 x)"
    unfolding unat_drop_bit_eq by (rule drop_bit_eq_div [symmetric])
  then show "word_of_nat (unat x div 2 ^ 128) = drop_bit 128 x"
    by simp
  have "unat x mod 2 ^ 128 = unat (take_bit 128 x)"
    unfolding unsigned_take_bit_eq by (rule take_bit_eq_mod [symmetric])
  then show "word_of_nat (unat x mod 2 ^ 128) = take_bit 128 x"
    by simp
qed

lemma to_field_be_limbs: "to_field_be P x = poseidon_be P [drop_bit 128 x, take_bit 128 x]"
  unfolding to_field_be_def Let_def
  by (simp only: bytes_b32_limb length_sub length_encodings b32_limbs word_limbs
      numeral_le_iff add_0 numeral_plus_numeral semiring_norm order_refl)

lemma unat_b32_of_nat: "n < 2 ^ 256 \<Longrightarrow> unat (word_of_nat n :: bytes32) = n"
  by (simp add: unat_of_nat)

text \<open>Both limbs are canonical, and together they determine the value.\<close>

lemma field_elem_limbs: "field_elem (drop_bit 128 x)" "field_elem (take_bit 128 x)"
proof -
  have "unat x < 2 ^ 128 * 2 ^ 128"
    using unat_bound [of x] by simp
  then have "unat x div 2 ^ 128 < 2 ^ 128"
    by (rule less_mult_imp_div_less)
  moreover have "unat x mod 2 ^ 128 < 2 ^ 128"
    by simp
  moreover have "unat (word_of_nat k :: bytes32) < 2 ^ 128" if "k < 2 ^ 128" for k
    using that by (subst unat_b32_of_nat) simp_all
  ultimately have "unat (drop_bit 128 x) < 2 ^ 128" and "unat (take_bit 128 x) < 2 ^ 128"
    unfolding word_limbs [symmetric] by blast+
  then show "field_elem (drop_bit 128 x)" and "field_elem (take_bit 128 x)"
    by (simp_all add: field_elem_def bn254_fr_def)
qed

lemma limbs_eq_iff:
  "x = y \<longleftrightarrow> drop_bit 128 x = drop_bit 128 y \<and> take_bit 128 x = take_bit 128 (y :: bytes32)"
  by (metis bits_ident)

section \<open>The full tree\<close>

definition TREE_DEPTH :: nat where
  "TREE_DEPTH = 24"

definition ZERO_LEAF :: bytes32 where
  "ZERO_LEAF = 0"

text \<open>The specification: node \<open>i\<close> of level \<open>l\<close> over the leaves \<open>ls\<close>, level 0 being the leaves.\<close>

fun node :: "hash2_fun \<Rightarrow> bytes32 list \<Rightarrow> nat \<Rightarrow> nat \<Rightarrow> bytes32" where
  "node H ls 0 i = (if i < length ls then ls ! i else ZERO_LEAF)"
| "node H ls (Suc l) i = H (node H ls l (2 * i)) (node H ls l (Suc (2 * i)))"

fun zero_node :: "hash2_fun \<Rightarrow> nat \<Rightarrow> bytes32" where
  "zero_node H 0 = ZERO_LEAF"
| "zero_node H (Suc l) = H (zero_node H l) (zero_node H l)"

definition merkle_root :: "hash2_fun \<Rightarrow> bytes32 list \<Rightarrow> bytes32" where
  "merkle_root H ls = node H ls TREE_DEPTH 0"

text \<open>A subtree with no leaf below it is an empty subtree.\<close>

lemma node_empty: "length ls \<le> i * 2 ^ l \<Longrightarrow> node H ls l i = zero_node H l"
proof (induction l arbitrary: i)
  case 0
  then show ?case by simp
next
  case (Suc l)
  have "length ls \<le> (2 * i) * 2 ^ l" and "length ls \<le> Suc (2 * i) * 2 ^ l"
    using Suc.prems by (simp_all add: algebra_simps)
  then show ?case by (simp only: node.simps zero_node.simps Suc.IH)
qed

text \<open>A subtree whose leaves are all present does not change when leaves are appended.\<close>

lemma node_append: "Suc i * 2 ^ l \<le> length ls \<Longrightarrow> node H (ls @ xs) l i = node H ls l i"
proof (induction l arbitrary: i)
  case 0
  then show ?case by (simp add: nth_append)
next
  case (Suc l)
  have "Suc (2 * i) * 2 ^ l \<le> length ls" and "Suc (Suc (2 * i)) * 2 ^ l \<le> length ls"
    using Suc.prems by (simp_all add: algebra_simps)
  then show ?case by (simp only: node.simps Suc.IH)
qed

lemma field_elem_zero_leaf [simp]: "field_elem ZERO_LEAF"
  by (simp add: ZERO_LEAF_def)

lemma field_elem_zero_node: "hashes_to h H \<Longrightarrow> field_elem (zero_node H l)"
  by (induction l) (auto intro: hashes_toD(2))

lemma field_elem_node:
  "hashes_to h H \<Longrightarrow> list_all field_elem ls \<Longrightarrow> field_elem (node H ls l i)"
  by (induction l arbitrary: i) (auto intro: hashes_toD(2) simp: list_all_length)

section \<open>The empty-subtree table\<close>

text \<open>\<open>for i in 1..TREE_DEPTH { z[i] = hash(&z[i - 1], &z[i - 1]); }\<close>\<close>

fun zero_levels :: "hasher \<Rightarrow> nat list \<Rightarrow> bytes32 list \<Rightarrow> bytes32 list option" where
  "zero_levels hash [] z = Some z"
| "zero_levels hash (i # is) z =
     do { c \<leftarrow> hash (z ! (i - 1)) (z ! (i - 1)); zero_levels hash is (z[i := c]) }"

definition zero_hashes :: "hasher \<Rightarrow> bytes32 list option" where
  "zero_hashes hash =
     zero_levels hash [1..<TREE_DEPTH] ((replicate TREE_DEPTH 0)[0 := ZERO_LEAF])"

definition empty_root :: "hasher \<Rightarrow> bytes32 list \<Rightarrow> bytes32 option" where
  "empty_root hash zeros =
     hash (zeros ! (TREE_DEPTH - 1)) (zeros ! (TREE_DEPTH - 1))"

text \<open>The table the code means: the empty subtree of every level below the root.\<close>

definition zeros_of :: "hash2_fun \<Rightarrow> bytes32 list" where
  "zeros_of H = map (zero_node H) [0..<TREE_DEPTH]"

lemma length_zeros_of [simp]: "length (zeros_of H) = TREE_DEPTH"
  by (simp add: zeros_of_def)

lemma nth_zeros_of [simp]: "i < TREE_DEPTH \<Longrightarrow> zeros_of H ! i = zero_node H i"
  by (simp add: zeros_of_def)

lemma zero_levels_fill:
  assumes "hashes_to h H" and "0 < m" and "m \<le> length z"
    and "\<And>j. j < m \<Longrightarrow> z ! j = zero_node H j"
  shows "zero_levels h [m..<length z] z =
    Some (map (zero_node H) [0..<length z])"
  using assms(2-4)
proof (induction "length z - m" arbitrary: m z)
  case 0
  then have "z = map (zero_node H) [0..<length z]"
    by (intro nth_equalityI) auto
  with 0 show ?case by simp
next
  case (Suc k)
  let ?c = "zero_node H m"
  have m: "m < length z" and [simp]: "z ! (m - Suc 0) = zero_node H (m - Suc 0)"
    using Suc by auto
  have "h (zero_node H (m - 1)) (zero_node H (m - 1)) = Some ?c"
    using hashes_toD(1) [OF assms(1)] field_elem_zero_node [OF assms(1)] Suc.prems(1)
    by (cases m) auto
  moreover have "zero_levels h [Suc m..<length (z[m := ?c])] (z[m := ?c]) = Some (map (zero_node H) [0..<length (z[m := ?c])])"
  proof (rule Suc.hyps(1))
    show "k = length (z[m := ?c]) - Suc m" using Suc.hyps(2) by simp
    show "0 < Suc m" and "Suc m \<le> length (z[m := ?c])" using m by simp_all
    show "z[m := ?c] ! j = zero_node H j" if "j < Suc m" for j
      using that Suc.prems(3) m by (cases "j = m") auto
  qed
  ultimately show ?case
    using m by (simp add: upt_conv_Cons)
qed

lemma TREE_DEPTH_Suc: "TREE_DEPTH = Suc 23"
  by (simp add: TREE_DEPTH_def)

lemma zero_hashes_spec:
  assumes "hashes_to h H"
  shows "zero_hashes h = Some (zeros_of H)"
proof -
  let ?z = "(replicate TREE_DEPTH 0)[0 := ZERO_LEAF]"
  have "zero_levels h [1..<length ?z] ?z =
      Some (map (zero_node H) [0..<length ?z])"
    by (rule zero_levels_fill [OF assms]) (simp_all add: TREE_DEPTH_Suc)
  then show ?thesis
    by (simp add: zero_hashes_def zeros_of_def)
qed

lemma merkle_root_Nil: "merkle_root H [] = zero_node H TREE_DEPTH"
  by (simp add: merkle_root_def node_empty)

lemma empty_root_spec:
  assumes "hashes_to h H"
  shows "empty_root h (zeros_of H) = Some (merkle_root H [])"
proof -
  have "h (zero_node H 23) (zero_node H 23) = Some (zero_node H (Suc 23))"
    unfolding zero_node.simps by (intro hashes_toD(1) [OF assms] field_elem_zero_node [OF assms])
  moreover have "zeros_of H ! (TREE_DEPTH - 1) = zero_node H 23"
    by (simp add: TREE_DEPTH_Suc)
  ultimately show ?thesis
    by (simp only: empty_root_def merkle_root_Nil TREE_DEPTH_Suc)
qed

section \<open>Authentication paths\<close>

text \<open>
  The path of leaf \<open>i\<close>: at every level the sibling of the node above the leaf, and whether that
  node is a right child, as \<open>merkle_root_be\<close> consumes them.
\<close>

definition sibling :: "nat \<Rightarrow> nat" where
  "sibling k = (if even k then Suc k else k - 1)"

definition auth_path :: "hash2_fun \<Rightarrow> bytes32 list \<Rightarrow> nat \<Rightarrow> nat list \<Rightarrow> (bytes32 \<times> bool) list" where
  "auth_path H ls i levels =
     map (\<lambda>l. (node H ls l (sibling (i div 2 ^ l)), odd (i div 2 ^ l))) levels"

lemma node_parent:
  "node H ls (Suc l) (k div 2) =
     (if odd k then H (node H ls l (sibling k)) (node H ls l k)
      else H (node H ls l k) (node H ls l (sibling k)))"
  by (cases "even k") (auto elim!: evenE oddE simp: sibling_def)

lemma div_pow_Suc: "(i :: nat) div 2 ^ Suc l = i div 2 ^ l div 2"
  by (metis div_mult2_eq power_Suc2)

lemma merkle_fold_auth_path:
  assumes "hashes_to (poseidon2 P) H" and "list_all field_elem ls"
  shows "merkle_fold P (node H ls l (i div 2 ^ l)) (auth_path H ls i [l..<l + k])
    = Some (node H ls (l + k) (i div 2 ^ (l + k)))"
proof (induction k arbitrary: l)
  case 0
  then show ?case by (simp add: auth_path_def)
next
  case (Suc k)
  let ?k = "i div 2 ^ l"
  have step: "P [a, b] = Some (H a b)" if "field_elem a" and "field_elem b" for a b
    using hashes_toD(1) [OF assms(1) that] by (simp add: poseidon2_def)
  have fe: "field_elem (node H ls l j)" for j
    by (rule field_elem_node [OF assms])
  have "[l..<l + Suc k] = l # [Suc l..<Suc l + k]"
    by (simp add: upt_conv_Cons)
  moreover have "node H ls (Suc l) (?k div 2) = node H ls (Suc l) (i div 2 ^ Suc l)"
    by (simp only: div_pow_Suc)
  ultimately show ?case
    using Suc.IH [of "Suc l"] node_parent [of H ls l ?k]
    by (simp add: auth_path_def poseidon_be_def step fe del: node.simps power_Suc split: if_splits)
qed

text \<open>
  Two openings to one root with the same left/right pattern either open the same leaf or contain
  a collision of the hash, which \<open>path_collision\<close> computes: the lowest level where the inputs
  differ and the outputs agree.
\<close>

fun path_collision ::
    "poseidon \<Rightarrow> bytes32 \<Rightarrow> bytes32 \<Rightarrow> bytes32 list \<Rightarrow> bytes32 list \<Rightarrow> bool list
      \<Rightarrow> (bytes32 list \<times> bytes32 list) option" where
  "path_collision P a b (s # ss) (t # ts) (r # rs) =
     (let x = (if r then [s, a] else [a, s]); y = (if r then [t, b] else [b, t])
      in case P x of None \<Rightarrow> None
         | Some c \<Rightarrow> (case P y of None \<Rightarrow> None
             | Some d \<Rightarrow> if x \<noteq> y \<and> c = d then Some (x, y)
                         else path_collision P c d ss ts rs))"
| "path_collision P a b _ _ _ = None"

lemma merkle_root_be_Cons:
  "merkle_root_be P a (s # ss) (r # rs) =
     do { c \<leftarrow> poseidon_be P (if r then [s, a] else [a, s]); merkle_root_be P c ss rs }"
  by (simp add: merkle_root_be_def)

lemma path_collision_found:
  assumes "merkle_root_be P a ss rs = Some root" and "merkle_root_be P b ts rs = Some root"
    and "length ss = length rs" and "length ts = length rs" and "a \<noteq> b"
  shows "\<exists>x y. path_collision P a b ss ts rs = Some (x, y) \<and> x \<noteq> y \<and> P x = P y \<and> P x \<noteq> None"
  using assms
proof (induction P a b ss ts rs rule: path_collision.induct)
  case (1 P a b s ss t ts r rs)
  let ?x = "if r then [s, a] else [a, s]" and ?y = "if r then [t, b] else [b, t]"
  obtain c where c: "P ?x = Some c" and ra: "merkle_root_be P c ss rs = Some root"
    using 1(2) by (auto simp: merkle_root_be_Cons poseidon_be_def bind_eq_Some_conv)
  obtain d where d: "P ?y = Some d" and rb: "merkle_root_be P d ts rs = Some root"
    using 1(3) by (auto simp: merkle_root_be_Cons poseidon_be_def bind_eq_Some_conv)
  show ?case
  proof (cases "c = d")
    case True
    then show ?thesis using c d 1(6) by (auto simp: Let_def)
  next
    case False
    have "\<exists>x y. path_collision P c d ss ts rs = Some (x, y) \<and> x \<noteq> y \<and> P x = P y \<and> P x \<noteq> None"
      using 1(4,5) False by (intro 1(1) [OF refl refl c d _ ra rb]) auto
    then show ?thesis using c d False by (simp add: Let_def del: if_distrib)
  qed
qed (auto simp: merkle_root_be_def)

end
