(* ===== verification/Commitment_Tree.thy ===== *)
theory Commitment_Tree
  imports Merkle_Tree
begin

text \<open>
  The incremental tree of \<open>crates/common/src/tree.rs\<close>: the state \<open>CommitmentTree\<close> (next index,
  frontier of filled subtrees, ring buffer of recent roots), \<open>new\<close>, \<open>insert\<close>, \<open>current_root\<close>,
  \<open>known_roots\<close> and \<open>is_known_root\<close>. The lemmas show that the frontier and the ring buffer
  represent the list of inserted leaves (\<open>represents\<close>), that \<open>insert\<close> keeps the representation
  and stores the root of the full tree, and that \<open>is_known_root\<close> accepts exactly the roots of
  the last 32 tree states. The interface \<open>root_history\<close> collects these laws; it is interpreted
  here for the host tree and in \<open>Pool_Tree\<close> for the on-chain bytes.
\<close>

section \<open>State and operations\<close>

definition ROOT_HISTORY :: nat where
  "ROOT_HISTORY = 32"

record commitment_tree =
  next_index :: u64
  filled_subtrees :: "bytes32 list"
  roots :: "bytes32 list"
  current_root_index :: u8

datatype tree_error = Full

text \<open>\<open>CommitmentTree::new\<close>.\<close>

definition tree_new :: "hasher \<Rightarrow> commitment_tree option" where
  "tree_new hash =
     do {
       zeros \<leftarrow> zero_hashes hash;
       r \<leftarrow> empty_root hash zeros;
       Some \<lparr>next_index = 0, filled_subtrees = zeros,
             roots = (replicate ROOT_HISTORY 0)[0 := r], current_root_index = 0\<rparr>
     }"

text \<open>The loop \<open>for i in 0..TREE_DEPTH\<close> of \<open>insert\<close>, over the levels still to do.\<close>

fun insert_levels ::
    "hasher \<Rightarrow> bytes32 list \<Rightarrow> nat list \<Rightarrow> u64 \<Rightarrow> bytes32 \<Rightarrow> bytes32 list
      \<Rightarrow> (bytes32 \<times> bytes32 list) option" where
  "insert_levels hash zeros [] index current filled = Some (current, filled)"
| "insert_levels hash zeros (i # is) index current filled =
     (if index AND 1 = 0
      then do {
        c \<leftarrow> hash current (zeros ! i);
        insert_levels hash zeros is (drop_bit 1 index) c (filled[i := current])
      }
      else do {
        c \<leftarrow> hash (filled ! i) current;
        insert_levels hash zeros is (drop_bit 1 index) c filled
      })"

definition insert_leaf ::
    "hasher \<Rightarrow> bytes32 list \<Rightarrow> commitment_tree \<Rightarrow> bytes32 \<Rightarrow> (tree_error, commitment_tree \<times> u64) outcome"
  where
  "insert_leaf hash zeros t leaf =
     (if push_bit TREE_DEPTH 1 \<le> next_index t then Err Full
      else
        let leaf_index = next_index t in
        and_then (expect (insert_levels hash zeros [0..<TREE_DEPTH] (next_index t) leaf
            (filled_subtrees t)))
          (\<lambda>(current, filled).
             let cri = word_of_nat ((unat (current_root_index t) + 1) mod ROOT_HISTORY)
             in Ok (t\<lparr>filled_subtrees := filled, current_root_index := cri,
                      roots := (roots t)[unat cri := current], next_index := next_index t + 1\<rparr>,
                    leaf_index)))"

definition current_root :: "commitment_tree \<Rightarrow> bytes32" where
  "current_root t = roots t ! unat (current_root_index t)"

definition known_roots :: "commitment_tree \<Rightarrow> bytes32 list" where
  "known_roots t = filter (\<lambda>r. r \<noteq> 0) (roots t)"

definition is_known_root :: "commitment_tree \<Rightarrow> bytes32 \<Rightarrow> bool" where
  "is_known_root t root \<longleftrightarrow> root \<noteq> 0 \<and> list_ex (\<lambda>r. r = root) (roots t)"

lemma is_known_root_iff: "is_known_root t r \<longleftrightarrow> r \<in> set (known_roots t)"
  by (auto simp: is_known_root_def known_roots_def list_ex_iff)

section \<open>The frontier\<close>

text \<open>
  \<open>filled_subtrees[i]\<close> matters at the levels where the next leaf falls below a right child:
  there it is the complete left sibling.
\<close>

definition frontier :: "hash2_fun \<Rightarrow> bytes32 list \<Rightarrow> bytes32 list \<Rightarrow> bool" where
  "frontier H ls filled \<longleftrightarrow>
     length filled = TREE_DEPTH \<and>
     (\<forall>i < TREE_DEPTH. odd (length ls div 2 ^ i) \<longrightarrow>
        filled ! i = node H ls i (length ls div 2 ^ i - 1))"

lemma and_1_eq_0_iff: "index AND 1 = 0 \<longleftrightarrow> even (unat (index :: u64))"
proof -
  have "odd index = odd (unat index)"
    by (simp add: bit_unsigned_iff flip: bit_0)
  then show ?thesis by (simp add: and_one_eq mod_2_eq_odd)
qed

lemma unat_shift_1: "unat (drop_bit 1 (w :: u64)) = unat w div 2"
  by (metis drop_bit_eq_div power_one_right unat_drop_bit_eq)

lemma insert_level_step:
  assumes "hashes_to h H" and "list_all field_elem (ls @ [leaf])" and "frontier H ls filled0"
    and "l < TREE_DEPTH" and "unat index = length ls div 2 ^ l" and "filled ! l = filled0 ! l"
  defines "q \<equiv> length ls div 2 ^ l" and "cur \<equiv> node H (ls @ [leaf]) l (length ls div 2 ^ l)"
  shows "insert_levels h (zeros_of H) (l # levels) index cur filled =
    insert_levels h (zeros_of H) levels (drop_bit 1 index)
      (node H (ls @ [leaf]) (Suc l) (length ls div 2 ^ Suc l)) (if even q then filled[l := cur] else filled)"
proof -
  let ?ls = "ls @ [leaf]" and ?next = "node H (ls @ [leaf]) (Suc l) (q div 2)"
  have fe: "field_elem (node H ?ls i j)" for i j
    by (rule field_elem_node [OF assms(1,2)])
  have q2: "length ls div 2 ^ Suc l = q div 2"
    unfolding q_def by (rule div_pow_Suc)
  show ?thesis
  proof (cases "even q")
    case True
    have "length ls < Suc q * 2 ^ l"
      using dividend_less_div_times [of "2 ^ l" "length ls"] by (simp add: q_def algebra_simps)
    then have "node H ?ls l (Suc q) = zeros_of H ! l"
      using assms(4) by (simp add: node_empty)
    then have "h cur (zeros_of H ! l) = Some ?next"
      using hashes_toD(1) [OF assms(1) fe fe, of l q l "Suc q"] node_parent [of H ?ls l q] True
      by (simp add: sibling_def cur_def q_def)
    then show ?thesis
      using True by (simp only: insert_levels.simps and_1_eq_0_iff assms(5) q_def [symmetric] q2 if_True
          Option.bind.bind_lunit)
  next
    case False
    have "q * 2 ^ l \<le> length ls" by (simp add: q_def)
    moreover have "Suc (q - 1) = q" using False by (auto elim: oddE)
    ultimately have "node H ?ls l (q - 1) = node H ls l (q - 1)"
      by (intro node_append) simp
    then have left: "filled ! l = node H ?ls l (q - 1)"
      using assms(3,4,6) False by (simp add: frontier_def q_def)
    have "h (filled ! l) cur = Some ?next"
      using hashes_toD(1) [OF assms(1) fe fe, of l "q - 1" l q] node_parent [of H ?ls l q] False
      by (simp add: sibling_def left cur_def q_def)
    then show ?thesis
      using False by (simp only: insert_levels.simps and_1_eq_0_iff assms(5) q_def [symmetric] q2 if_False
          Option.bind.bind_lunit)
  qed
qed

lemma insert_levels_correct:
  assumes "hashes_to h H" and "list_all field_elem (ls @ [leaf])"
    and "frontier H ls filled0"
    and "l + k \<le> TREE_DEPTH" and "unat index = length ls div 2 ^ l"
    and "length filled = TREE_DEPTH" and "\<And>i. l \<le> i \<Longrightarrow> filled ! i = filled0 ! i"
  shows "\<exists>filled'. insert_levels h (zeros_of H) [l..<l + k] index
             (node H (ls @ [leaf]) l (length ls div 2 ^ l)) filled
           = Some (node H (ls @ [leaf]) (l + k) (length ls div 2 ^ (l + k)), filled') \<and>
         length filled' = TREE_DEPTH \<and>
         (\<forall>i. filled' ! i = (if l \<le> i \<and> i < l + k \<and> even (length ls div 2 ^ i)
                           then node H (ls @ [leaf]) i (length ls div 2 ^ i) else filled ! i))"
  using assms(4-7)
proof (induction k arbitrary: l index filled)
  case 0
  then show ?case by auto
next
  case (Suc k)
  let ?ls = "ls @ [leaf]"
  let ?filled = "if even (length ls div 2 ^ l) then filled[l := node H ?ls l (length ls div 2 ^ l)] else filled"
  have l: "l < TREE_DEPTH" using Suc.prems(1) by simp
  have ix: "unat (drop_bit 1 index) = length ls div 2 ^ Suc l"
    by (simp only: unat_shift_1 Suc.prems(2) div_pow_Suc)
  have lv: "[l..<l + Suc k] = l # [Suc l..<Suc l + k]"
    by (simp add: upt_conv_Cons)
  note step = insert_level_step [OF assms(1-3) l Suc.prems(2) Suc.prems(4) [of l, simplified]]
  have bound: "Suc l + k \<le> TREE_DEPTH" and lenf: "length ?filled = TREE_DEPTH"
    and same: "\<And>i. Suc l \<le> i \<Longrightarrow> ?filled ! i = filled0 ! i"
    using Suc.prems by simp_all
  obtain filled' where run: "insert_levels h (zeros_of H) [Suc l..<Suc l + k] (drop_bit 1 index)
      (node H ?ls (Suc l) (length ls div 2 ^ Suc l)) ?filled
      = Some (node H ?ls (Suc l + k) (length ls div 2 ^ (Suc l + k)), filled')"
    and len: "length filled' = TREE_DEPTH"
    and nth: "\<forall>i. filled' ! i = (if Suc l \<le> i \<and> i < Suc l + k \<and> even (length ls div 2 ^ i)
           then node H ?ls i (length ls div 2 ^ i) else ?filled ! i)"
    using Suc.IH [OF bound ix lenf same] by blast
  have "filled' ! i = (if l \<le> i \<and> i < l + Suc k \<and> even (length ls div 2 ^ i)
           then node H ?ls i (length ls div 2 ^ i) else filled ! i)" for i
    using nth [rule_format, of i] l Suc.prems(3)
    by (cases "i = l") (auto simp: nth_list_update)
  with run len show ?case
    unfolding lv step by (intro exI [of _ filled']) (simp only: add_Suc_right add_Suc simp_thms)
qed

text \<open>After the insertion the frontier is the frontier of the longer list.\<close>

lemma frontier_append:
  assumes "frontier H ls filled" and "length filled' = TREE_DEPTH"
    and "\<And>i. i < TREE_DEPTH \<Longrightarrow> filled' ! i =
           (if even (length ls div 2 ^ i) then node H (ls @ [leaf]) i (length ls div 2 ^ i)
            else filled ! i)"
  shows "frontier H (ls @ [leaf]) filled'"
  unfolding frontier_def
proof (intro conjI allI impI)
  fix i assume i: "i < TREE_DEPTH" and odd: "odd (length (ls @ [leaf]) div 2 ^ i)"
  let ?n = "length ls"
  have suc: "Suc ?n div 2 ^ i = (if Suc ?n mod 2 ^ i = 0 then Suc (?n div 2 ^ i) else ?n div 2 ^ i)"
    by (rule div_Suc)
  show "filled' ! i = node H (ls @ [leaf]) i (length (ls @ [leaf]) div 2 ^ i - 1)"
  proof (cases "even (?n div 2 ^ i)")
    case True
    with odd suc have "Suc ?n div 2 ^ i = Suc (?n div 2 ^ i)"
      by (auto split: if_splits)
    with True show ?thesis using assms(3) [OF i] by simp
  next
    case False
    with odd suc have eq: "Suc ?n div 2 ^ i = ?n div 2 ^ i"
      by (auto split: if_splits)
    have "?n div 2 ^ i * 2 ^ i \<le> ?n" by simp
    moreover have "Suc (?n div 2 ^ i - 1) = ?n div 2 ^ i"
      using False by (auto elim: oddE)
    ultimately have "Suc (?n div 2 ^ i - 1) * 2 ^ i \<le> ?n" by simp
    then have "node H (ls @ [leaf]) i (?n div 2 ^ i - 1) = node H ls i (?n div 2 ^ i - 1)"
      by (rule node_append)
    with False show ?thesis
      using assms(1) assms(3) [OF i] i by (simp add: eq frontier_def)
  qed
qed (use assms in simp)

lemma frontier_Nil: "frontier H [] (zeros_of H)"
  by (simp add: frontier_def)

section \<open>The ring buffer of recent roots\<close>

text \<open>
  Slot \<open>j\<close> holds the root of the latest tree state whose number is congruent to \<open>j\<close>, and zero
  while there is none.
\<close>

definition history :: "hash2_fun \<Rightarrow> bytes32 list \<Rightarrow> bytes32 list \<Rightarrow> bool" where
  "history H ls rs \<longleftrightarrow>
     length rs = ROOT_HISTORY \<and>
     (\<forall>j < ROOT_HISTORY. rs ! j =
        (if j \<le> length ls
         then merkle_root H (take (length ls - (length ls - j) mod ROOT_HISTORY) ls) else 0))"

lemma history_append:
  assumes "history H ls rs"
  shows "history H (ls @ [leaf])
           (rs[(length ls mod ROOT_HISTORY + 1) mod ROOT_HISTORY := merkle_root H (ls @ [leaf])])"
  unfolding history_def
proof (intro conjI allI impI)
  let ?n = "length ls"
  let ?s = "(?n mod ROOT_HISTORY + 1) mod ROOT_HISTORY" and ?ls = "ls @ [leaf]"
  have s: "?s = Suc ?n mod ROOT_HISTORY"
    by (simp add: mod_Suc_eq)
  show "length (rs[?s := merkle_root H ?ls]) = ROOT_HISTORY"
    using assms by (simp add: history_def)
  fix j assume j: "j < ROOT_HISTORY"
  show "rs[?s := merkle_root H ?ls] ! j =
      (if j \<le> length ?ls
       then merkle_root H (take (length ?ls - (length ?ls - j) mod ROOT_HISTORY) ?ls) else 0)"
  proof (cases "j = ?s")
    case True
    have "(Suc ?n - Suc ?n mod ROOT_HISTORY) mod ROOT_HISTORY = 0"
      by (simp add: minus_mod_eq_mult_div)
    with True s j assms show ?thesis
      by (simp add: history_def)
  next
    case False
    have le: "j \<le> Suc ?n \<longleftrightarrow> j \<le> ?n"
      using False s j by (auto simp: le_Suc_eq)
    have "(Suc ?n - j) mod ROOT_HISTORY = Suc ((?n - j) mod ROOT_HISTORY)" if "j \<le> ?n"
    proof -
      have "(Suc ?n - j) mod ROOT_HISTORY \<noteq> 0"
      proof
        assume "(Suc ?n - j) mod ROOT_HISTORY = 0"
        then have "Suc ?n mod ROOT_HISTORY = j mod ROOT_HISTORY"
          using that by (metis add.right_neutral le_SucI le_add_diff_inverse mod_add_right_eq)
        with False s j show False by simp
      qed
      then show ?thesis using that by (simp add: Suc_diff_le mod_Suc split: if_splits)
    qed
    with False le j assms show ?thesis
      by (simp add: history_def)
  qed
qed

lemma history_known:
  assumes "history H ls rs" and "r \<noteq> 0"
  shows "r \<in> set rs \<longleftrightarrow>
    (\<exists>m \<le> length ls. length ls < m + ROOT_HISTORY \<and> r = merkle_root H (take m ls))"
proof
  let ?n = "length ls"
  assume "r \<in> set rs"
  then obtain j where j: "j < ROOT_HISTORY" and "r = rs ! j"
    using assms by (auto simp: in_set_conv_nth history_def)
  with assms have "j \<le> ?n" and "r = merkle_root H (take (?n - (?n - j) mod ROOT_HISTORY) ls)"
    by (auto simp: history_def split: if_splits)
  moreover have "(?n - j) mod ROOT_HISTORY < ROOT_HISTORY"
    by (simp add: ROOT_HISTORY_def)
  ultimately show "\<exists>m \<le> ?n. ?n < m + ROOT_HISTORY \<and> r = merkle_root H (take m ls)"
    using mod_less_eq_dividend [of "?n - j" ROOT_HISTORY]
    by (intro exI [of _ "?n - (?n - j) mod ROOT_HISTORY"]) auto
next
  let ?n = "length ls"
  assume "\<exists>m \<le> ?n. ?n < m + ROOT_HISTORY \<and> r = merkle_root H (take m ls)"
  then obtain m where m: "m \<le> ?n" "?n < m + ROOT_HISTORY" and r: "r = merkle_root H (take m ls)"
    by blast
  let ?j = "m mod ROOT_HISTORY"
  have j: "?j < ROOT_HISTORY" and jm: "?j \<le> m"
    by (simp_all add: ROOT_HISTORY_def)
  have "?n - ?j = (?n - m) + ROOT_HISTORY * (m div ROOT_HISTORY)"
    using m(1) by (simp add: minus_mod_eq_mult_div [symmetric])
  moreover have "?n - m < ROOT_HISTORY"
    using m by simp
  ultimately have "(?n - ?j) mod ROOT_HISTORY = ?n - m"
    by simp
  moreover have "?j \<le> ?n"
    by (rule le_trans [OF jm m(1)])
  ultimately have "rs ! ?j = r"
    using assms(1) j m(1) by (simp add: history_def r)
  then show "r \<in> set rs"
    using assms(1) j by (auto simp: history_def in_set_conv_nth)
qed

lemma history_Nil: "history H [] ((replicate ROOT_HISTORY 0)[0 := merkle_root H []])"
  by (auto simp: history_def nth_list_update ROOT_HISTORY_def)

section \<open>What the tree represents\<close>

definition represents :: "hasher \<Rightarrow> hash2_fun \<Rightarrow> commitment_tree \<Rightarrow> bytes32 list \<Rightarrow> bool" where
  "represents h H t ls \<longleftrightarrow>
     hashes_to h H \<and> list_all field_elem ls \<and> length ls \<le> 2 ^ TREE_DEPTH \<and>
     next_index t = word_of_nat (length ls) \<and>
     frontier H ls (filled_subtrees t) \<and> history H ls (roots t) \<and>
     unat (current_root_index t) = length ls mod ROOT_HISTORY"

lemma ROOT_HISTORY_pos [simp]: "0 < ROOT_HISTORY"
  by (simp add: ROOT_HISTORY_def)

lemma push_bit_depth: "push_bit TREE_DEPTH (1 :: u64) = 2 ^ TREE_DEPTH"
  by (simp add: push_bit_eq_mult)

lemma unat_leaf_count:
  assumes "n \<le> 2 ^ TREE_DEPTH"
  shows "unat (word_of_nat n :: u64) = n"
  using assms by (simp add: unat_of_nat TREE_DEPTH_def)

lemma full_iff:
  assumes "n \<le> 2 ^ TREE_DEPTH"
  shows "push_bit TREE_DEPTH 1 \<le> (word_of_nat n :: u64) \<longleftrightarrow> n = 2 ^ TREE_DEPTH"
proof -
  have "unat (2 ^ TREE_DEPTH :: u64) = 2 ^ TREE_DEPTH"
    by (simp add: TREE_DEPTH_def)
  then show ?thesis
    using assms by (auto simp: push_bit_depth word_le_nat_alt unat_leaf_count)
qed

lemma represents_new:
  assumes "hashes_to h H"
  shows "\<exists>t. tree_new h = Some t \<and> represents h H t []"
  using assms frontier_Nil [of H] history_Nil [of H]
  by (simp add: tree_new_def zero_hashes_spec empty_root_spec represents_def)

lemma insert_leaf_full:
  assumes "represents h H t ls" and "length ls = 2 ^ TREE_DEPTH"
  shows "insert_leaf h zeros t leaf = Err Full"
  using assms full_iff [of "length ls"] by (simp add: insert_leaf_def represents_def)

lemma insert_leaf_represents:
  assumes "represents h H t ls" and "field_elem leaf" and "length ls < 2 ^ TREE_DEPTH"
  shows "\<exists>t'. insert_leaf h (zeros_of H) t leaf = Ok (t', word_of_nat (length ls)) \<and>
           represents h H t' (ls @ [leaf]) \<and>
           current_root t' = merkle_root H (ls @ [leaf])"
proof -
  let ?n = "length ls" and ?ls = "ls @ [leaf]"
  have rep: "hashes_to h H" "list_all field_elem ?ls" "frontier H ls (filled_subtrees t)"
    and nx: "next_index t = word_of_nat ?n" and hist: "history H ls (roots t)"
    and cri: "unat (current_root_index t) = ?n mod ROOT_HISTORY"
    using assms by (simp_all add: represents_def)
  have small: "?n div 2 ^ TREE_DEPTH = 0" and un: "unat (next_index t) = ?n"
    using assms(3) by (simp_all add: nx unat_leaf_count)
  have nf: "\<not> push_bit TREE_DEPTH 1 \<le> next_index t"
    using full_iff [of ?n] assms(3) by (simp add: nx)
  obtain filled' where run: "insert_levels h (zeros_of H) [0..<TREE_DEPTH] (next_index t) leaf
        (filled_subtrees t) = Some (merkle_root H ?ls, filled')"
    and len: "length filled' = TREE_DEPTH"
    and nth: "\<forall>i. filled' ! i = (if i < TREE_DEPTH \<and> even (?n div 2 ^ i)
                then node H ?ls i (?n div 2 ^ i) else filled_subtrees t ! i)"
    using insert_levels_correct [OF rep, of 0 TREE_DEPTH "next_index t" "filled_subtrees t"]
      rep(3) un small by (auto simp: merkle_root_def frontier_def)
  let ?i = "(?n mod ROOT_HISTORY + 1) mod ROOT_HISTORY"
  let ?cri = "word_of_nat ?i :: u8"
  have ucri: "unat ?cri = ?i"
    by (simp add: unat_of_nat ROOT_HISTORY_def)
  define t' where "t' = t\<lparr>filled_subtrees := filled', current_root_index := ?cri,
      roots := (roots t)[unat ?cri := merkle_root H ?ls], next_index := next_index t + 1\<rparr>"
  have ins: "insert_leaf h (zeros_of H) t leaf = Ok (t', word_of_nat ?n)"
    using nf by (simp add: insert_leaf_def Let_def run cri t'_def nx [symmetric])
  have "frontier H ?ls filled'"
    using nth by (intro frontier_append [OF rep(3) len]) auto
  moreover have "roots t' = (roots t)[?i := merkle_root H ?ls]"
    unfolding t'_def ucri by simp
  then have "history H ?ls (roots t')"
    using history_append [OF hist, of leaf] by (simp only:)
  moreover have "current_root_index t' = ?cri"
    by (simp add: t'_def)
  then have "unat (current_root_index t') = length ?ls mod ROOT_HISTORY"
    using ucri by (simp add: mod_Suc_eq)
  ultimately have "represents h H t' ?ls"
    using assms(3) rep by (simp add: represents_def t'_def nx)
  moreover have "current_root t' = merkle_root H ?ls"
    using hist \<open>roots t' = _\<close> ucri by (simp add: current_root_def t'_def history_def)
  ultimately show ?thesis using ins by blast
qed

lemma is_known_root_represents:
  assumes "represents h H t ls"
  shows "is_known_root t r \<longleftrightarrow> r \<noteq> 0 \<and>
    (\<exists>m \<le> length ls. length ls < m + ROOT_HISTORY \<and> r = merkle_root H (take m ls))"
  using history_known [of H ls "roots t" r] assms
  by (auto simp: is_known_root_def represents_def list_ex_iff)

section \<open>The interface\<close>

text \<open>Inserting several leaves, one call after the other.\<close>

fun insert_all ::
    "('t \<Rightarrow> bytes32 \<Rightarrow> ('e, 't \<times> u64) outcome) \<Rightarrow> 't \<Rightarrow> bytes32 list \<Rightarrow> ('e, 't) outcome" where
  "insert_all ins t [] = Ok t"
| "insert_all ins t (x # xs) = and_then (ins t x) (\<lambda>(t', _). insert_all ins t' xs)"

text \<open>
  What a tree with a window of recent roots promises its clients: \<open>rep t ls\<close> says that \<open>t\<close> holds
  the leaves \<open>ls\<close>; a leaf that is a field element is appended and its index returned while there
  is room; a full tree reports it; the roots accepted are those of the last 32 states.
\<close>

locale root_history =
  fixes ins :: "'t \<Rightarrow> bytes32 \<Rightarrow> ('e, 't \<times> u64) outcome"
    and known :: "'t \<Rightarrow> bytes32 \<Rightarrow> bool"
    and rep :: "'t \<Rightarrow> bytes32 list \<Rightarrow> bool"
    and full :: 'e
    and H :: hash2_fun
  assumes rep_bound: "rep t ls \<Longrightarrow> length ls \<le> 2 ^ TREE_DEPTH"
    and ins_ok: "rep t ls \<Longrightarrow> field_elem x \<Longrightarrow> length ls < 2 ^ TREE_DEPTH \<Longrightarrow>
      \<exists>t'. ins t x = Inr (t', word_of_nat (length ls)) \<and> rep t' (ls @ [x])"
    and ins_full: "rep t ls \<Longrightarrow> length ls = 2 ^ TREE_DEPTH \<Longrightarrow> ins t x = Err full"
    and known_iff: "rep t ls \<Longrightarrow> known t r \<longleftrightarrow> r \<noteq> 0 \<and>
      (\<exists>m \<le> length ls. length ls < m + ROOT_HISTORY \<and> r = merkle_root H (take m ls))"
begin

lemma ins_cases:
  assumes "rep t ls" and "field_elem x" and "ins t x = Inr (t', i)"
  shows "rep t' (ls @ [x]) \<and> i = word_of_nat (length ls) \<and> length ls < 2 ^ TREE_DEPTH"
proof -
  have "length ls \<noteq> 2 ^ TREE_DEPTH"
    using ins_full [OF assms(1), of x] assms(3) by auto
  then have "length ls < 2 ^ TREE_DEPTH"
    using rep_bound [OF assms(1)] by simp
  with ins_ok [OF assms(1,2)] assms(3) show ?thesis by auto
qed

lemma insert_all_rep:
  assumes "rep t ls" and "list_all field_elem xs" and "insert_all ins t xs = Inr t'"
  shows "rep t' (ls @ xs)"
  using assms
proof (induction xs arbitrary: t ls)
  case Nil
  then show ?case by simp
next
  case (Cons x xs)
  then obtain t1 i where one: "ins t x = Inr (t1, i)" and rest: "insert_all ins t1 xs = Inr t'"
    by (auto elim!: and_then_okE)
  have "rep t1 (ls @ [x])"
    using ins_cases [OF Cons.prems(1) _ one] Cons.prems(2) by simp
  then have "rep t' ((ls @ [x]) @ xs)"
    using Cons.prems(2) by (intro Cons.IH [OF _ _ rest]) simp_all
  then show ?case by simp
qed

lemma insert_all_ok:
  assumes "rep t ls" and "list_all field_elem xs" and "length ls + length xs \<le> 2 ^ TREE_DEPTH"
  shows "\<exists>t'. insert_all ins t xs = Inr t' \<and> rep t' (ls @ xs)"
  using assms
proof (induction xs arbitrary: t ls)
  case Nil
  then show ?case by simp
next
  case (Cons x xs)
  then obtain t1 where "ins t x = Inr (t1, word_of_nat (length ls))" and r: "rep t1 (ls @ [x])"
    using ins_ok [OF Cons.prems(1), of x] by auto
  then show ?case using Cons.IH [OF r] Cons.prems(2,3) by simp
qed

lemma current_known:
  assumes "rep t ls" and "merkle_root H ls \<noteq> 0"
  shows "known t (merkle_root H ls)"
  unfolding known_iff [OF assms(1)]
  using assms(2) by (intro conjI exI [of _ "length ls"]) simp_all

text \<open>A root stays accepted while fewer than 32 leaves follow it.\<close>

lemma root_survives:
  assumes "rep t ls" and "list_all field_elem xs" and "insert_all ins t xs = Inr t'"
    and "length xs < ROOT_HISTORY" and "merkle_root H ls \<noteq> 0"
  shows "known t' (merkle_root H ls)"
  unfolding known_iff [OF insert_all_rep [OF assms(1-3)]]
  using assms(4,5) by (intro conjI exI [of _ "length ls"]) simp_all

text \<open>After 32 insertions it is gone, unless one of the last 32 trees has the same root.\<close>

lemma root_expires:
  assumes "rep t ls" and "list_all field_elem xs" and "insert_all ins t xs = Inr t'"
    and "ROOT_HISTORY \<le> length xs" and "known t' (merkle_root H ls)"
  shows "\<exists>ys. (\<exists>zs. xs = ys @ zs \<and> ys \<noteq> []) \<and> merkle_root H (ls @ ys) = merkle_root H ls"
proof -
  obtain m where m: "m \<le> length (ls @ xs)" "length (ls @ xs) < m + ROOT_HISTORY"
    and eq: "merkle_root H ls = merkle_root H (take m (ls @ xs))"
    using known_iff [OF insert_all_rep [OF assms(1-3)]] assms(5) by auto
  have "length ls < m" using m assms(4) by simp
  then have "take m (ls @ xs) = ls @ take (m - length ls) xs" and "take (m - length ls) xs \<noteq> []"
    using m(1) by auto
  then show ?thesis
    using eq by (intro exI [of _ "take (m - length ls) xs"]) (metis append_take_drop_id)
qed

end

interpretation host_tree:
  root_history "insert_leaf h (zeros_of H)" is_known_root "represents h H" Full H for h H
proof
  show "length ls \<le> 2 ^ TREE_DEPTH" if "represents h H t ls" for t ls
    using that by (simp add: represents_def)
  show "\<exists>t'. insert_leaf h (zeros_of H) t x = Inr (t', word_of_nat (length ls)) \<and>
      represents h H t' (ls @ [x])"
    if "represents h H t ls" "field_elem x" "length ls < 2 ^ TREE_DEPTH" for t ls x
    using insert_leaf_represents [OF that] by blast
qed (rule insert_leaf_full is_known_root_represents; assumption)+

text \<open>The invariant is satisfiable and inductive: \<open>new\<close> followed by any insertions keeps it.\<close>

lemma tree_new_insert_all:
  assumes "hashes_to h H" and "list_all field_elem xs" and "length xs \<le> 2 ^ TREE_DEPTH"
  shows "\<exists>t t'. tree_new h = Some t \<and> insert_all (insert_leaf h (zeros_of H)) t xs = Ok t' \<and>
    represents h H t' xs"
  using represents_new [OF assms(1)] host_tree.insert_all_ok [of h H _ "[]" xs] assms(2,3)
  by fastforce

lemma represents_current_root:
  assumes "represents h H t ls"
  shows "current_root t = merkle_root H ls"
proof -
  let ?j = "length ls mod ROOT_HISTORY"
  have "roots t ! ?j = merkle_root H (take (length ls - (length ls - ?j) mod ROOT_HISTORY) ls)"
    using assms by (simp add: represents_def history_def)
  moreover have "(length ls - ?j) mod ROOT_HISTORY = 0"
    by (simp add: minus_mod_eq_mult_div)
  ultimately show ?thesis
    using assms by (simp add: current_root_def represents_def)
qed

end
