(* ===== verification/Solana_Runtime.thy ===== *)
theory Solana_Runtime
  imports Merkle_Tree
begin

text \<open>
  What the on-chain program uses of the Solana runtime. The ledger maps a public key to an account
  (lamports, data, owner); account infos of one instruction carry a key and a signer flag, so two
  infos with the same key name the same account, as in the runtime, where they share one buffer.

  The libraries the program calls are not under \<open>src/\<close> and are the fields of the record
  \<open>runtime\<close>, an argument of every definition that uses them: the Poseidon syscall, the Groth16
  verifier, \<open>find_program_address\<close>, \<open>Rent::get\<close>, cross-program invocation and
  \<open>AccountInfo::resize\<close>. What the code relies on of them is stated in \<open>Pool_Safety\<close>.

  An instruction that returns \<open>Err\<close> or panics leaves the ledger as it was, since the runtime
  discards its writes; so an operation returns the new ledger only with \<open>Ok\<close>.
\<close>

section \<open>Errors, accounts and instructions\<close>

text \<open>\<open>ProgramError\<close>: the variants the code names; \<open>RuntimeError\<close> stands for those the runtime
  and invoked programs return.\<close>

datatype program_error =
  Custom u32
| InvalidInstructionData
| InvalidAccountData
| AccountDataTooSmall
| IncorrectProgramId
| MissingRequiredSignature
| NotEnoughAccountKeys
| InvalidSeeds
| UninitializedAccount
| RuntimeError u64

record account =
  acc_lamports :: u64
  acc_data :: bytes
  acc_owner :: pubkey

type_synonym ledger = "pubkey \<Rightarrow> account"

record account_info =
  ai_key :: pubkey
  is_signer :: bool

record account_meta =
  am_key :: pubkey
  am_signer :: bool
  am_writable :: bool

record instruction =
  ix_program :: pubkey
  ix_accounts :: "account_meta list"
  ix_data :: bytes

definition meta_new :: "pubkey \<Rightarrow> bool \<Rightarrow> account_meta" where
  "meta_new k s = \<lparr>am_key = k, am_signer = s, am_writable = True\<rparr>"

definition meta_readonly :: "pubkey \<Rightarrow> bool \<Rightarrow> account_meta" where
  "meta_readonly k s = \<lparr>am_key = k, am_signer = s, am_writable = False\<rparr>"

text \<open>The System Program's id, \<open>Pubkey::default()\<close>.\<close>

definition SYSTEM_PROGRAM :: pubkey where
  "SYSTEM_PROGRAM = 0"

text \<open>A verifying key: which generated module it comes from and the declared number of public
  inputs. Its curve points are used by the verifier only.\<close>

datatype vk_module = vk_deposit | vk_withdraw | vk_transfer | vk_burn | vk_xburn

record verifying_key =
  nr_pubinputs :: nat
  vk_points :: vk_module

record runtime =
  poseidon_syscall :: poseidon
  groth16_verify :: "verifying_key \<Rightarrow> bytes \<Rightarrow> bytes \<Rightarrow> bytes \<Rightarrow> bytes32 list \<Rightarrow> bool"
  find_program_address :: "bytes list \<Rightarrow> pubkey \<Rightarrow> pubkey \<times> u8"
  rent_get :: "(program_error, nat \<Rightarrow> u64) outcome"
  cpi :: "instruction \<Rightarrow> account_info list \<Rightarrow> bytes list list \<Rightarrow> ledger
           \<Rightarrow> (program_error, ledger) outcome"
  resize :: "pubkey \<Rightarrow> nat \<Rightarrow> ledger \<Rightarrow> (program_error, ledger) outcome"

section \<open>Access\<close>

definition data_of :: "ledger \<Rightarrow> account_info \<Rightarrow> bytes" where
  "data_of L a = acc_data (L (ai_key a))"

definition set_data :: "ledger \<Rightarrow> pubkey \<Rightarrow> bytes \<Rightarrow> ledger" where
  "set_data L k d = L(k := (L k)\<lparr>acc_data := d\<rparr>)"

text \<open>\<open>next_account_info(iter)?\<close>.\<close>

fun next_account_info ::
    "account_info list \<Rightarrow> (program_error, account_info \<times> account_info list) outcome" where
  "next_account_info [] = Err NotEnoughAccountKeys"
| "next_account_info (a # rest) = Ok (a, rest)"

text \<open>An early return \<open>if c { return Err(e) }\<close>.\<close>

definition reject_if :: "bool \<Rightarrow> program_error \<Rightarrow> (program_error, unit) outcome" where
  "reject_if c e = (if c then Err e else Ok ())"

lemma reject_if_simps [simp]:
  "reject_if False e = Ok ()"
  "reject_if True e = Err e"
  by (simp_all add: reject_if_def)

lemma reject_if_Ok_iff [outcome_simps]: "reject_if c e = Inr u \<longleftrightarrow> \<not> c"
  by (simp add: reject_if_def)

lemma next_account_info_Ok_iff [outcome_simps]:
  "next_account_info as = Inr (a, rest) \<longleftrightarrow> as = a # rest"
  by (cases as) auto

lemma set_data_same [simp]: "acc_data (set_data L k d k) = d"
  by (simp add: set_data_def)

lemma set_data_other [simp]: "k' \<noteq> k \<Longrightarrow> set_data L k d k' = L k'"
  by (simp add: set_data_def)

lemma set_data_owner [simp]: "acc_owner (set_data L k d k') = acc_owner (L k')"
  by (simp add: set_data_def)

lemma set_data_lamports [simp]: "acc_lamports (set_data L k d k') = acc_lamports (L k')"
  by (simp add: set_data_def)

lemma set_data_apply: "acc_data (set_data L k d k') = (if k' = k then d else acc_data (L k'))"
  by simp

end
