(* ===== verification/Pool_Constants.thy ===== *)
theory Pool_Constants
  imports Solana_Runtime
begin

text \<open>
  The constants of the on-chain program (\<open>programs/opaq/src/lib.rs\<close>): PDA seeds, the chain id,
  the custom error codes, the two pinned program ids and the five verifying keys. A public key is
  the 256-bit number of its 32 bytes.
\<close>

definition TREE_SEED :: bytes where
  "TREE_SEED = [116, 114, 101, 101]"

definition NULLIFIER_SEED :: bytes where
  "NULLIFIER_SEED = [110, 117, 108, 108, 105, 102, 105, 101, 114, 115]"

definition VAULT_SEED :: bytes where
  "VAULT_SEED = [118, 97, 117, 108, 116]"

definition XBURN_PENDING_SEED :: bytes where
  "XBURN_PENDING_SEED = [120, 112, 101, 110, 100, 105, 110, 103]"

definition SOLANA_CHAIN_ID :: u64 where
  "SOLANA_CHAIN_ID = 101"

definition E_PROOF_INVALID :: u32 where "E_PROOF_INVALID = 1"
definition E_TREE_FULL :: u32 where "E_TREE_FULL = 2"
definition E_ALREADY_SPENT :: u32 where "E_ALREADY_SPENT = 3"
definition E_UNKNOWN_ROOT :: u32 where "E_UNKNOWN_ROOT = 4"
definition E_WRONG_VAULT :: u32 where "E_WRONG_VAULT = 5"
definition E_WRONG_RECIPIENT :: u32 where "E_WRONG_RECIPIENT = 6"
definition E_WRONG_MINT :: u32 where "E_WRONG_MINT = 7"
definition E_WRONG_OPERATOR :: u32 where "E_WRONG_OPERATOR = 8"
definition E_NOT_PENDING :: u32 where "E_NOT_PENDING = 9"
definition E_WRONG_CHAIN :: u32 where "E_WRONG_CHAIN = 10"
definition E_WRONG_DESTINATION :: u32 where "E_WRONG_DESTINATION = 11"

lemmas error_codes =
  E_PROOF_INVALID_def E_TREE_FULL_def E_ALREADY_SPENT_def E_UNKNOWN_ROOT_def E_WRONG_VAULT_def
  E_WRONG_RECIPIENT_def E_WRONG_MINT_def E_WRONG_OPERATOR_def E_NOT_PENDING_def
  E_WRONG_CHAIN_def E_WRONG_DESTINATION_def

definition SPL_TOKEN_PROGRAM_ID :: pubkey where
  "SPL_TOKEN_PROGRAM_ID = 0x06ddf6e1d765a193d9cbe146ceeb79ac1cb485ed5f5b37913a8cf5857eff00a9"

definition ASSOCIATED_TOKEN_PROGRAM_ID :: pubkey where
  "ASSOCIATED_TOKEN_PROGRAM_ID =
     0x8c97258f4e2489f1bb3d1029148e0d830b5a1399daff1084048e7bd8dbe9f859"

definition canonical_vault_ata :: "runtime \<Rightarrow> pubkey \<Rightarrow> bytes32 \<Rightarrow> pubkey" where
  "canonical_vault_ata rt vault_authority mint =
     fst (find_program_address rt
       [b32_bytes vault_authority, b32_bytes SPL_TOKEN_PROGRAM_ID, b32_bytes mint]
       ASSOCIATED_TOKEN_PROGRAM_ID)"

definition DEPOSIT_VK :: verifying_key where
  "DEPOSIT_VK = \<lparr>nr_pubinputs = 3, vk_points = vk_deposit\<rparr>"

definition WITHDRAW_VK :: verifying_key where
  "WITHDRAW_VK = \<lparr>nr_pubinputs = 5, vk_points = vk_withdraw\<rparr>"

definition TRANSFER_VK :: verifying_key where
  "TRANSFER_VK = \<lparr>nr_pubinputs = 5, vk_points = vk_transfer\<rparr>"

definition BURN_VK :: verifying_key where
  "BURN_VK = \<lparr>nr_pubinputs = 6, vk_points = vk_burn\<rparr>"

definition XBURN_VK :: verifying_key where
  "XBURN_VK = \<lparr>nr_pubinputs = 4, vk_points = vk_xburn\<rparr>"

lemma SPL_not_system [simp]: "SPL_TOKEN_PROGRAM_ID \<noteq> SYSTEM_PROGRAM"
  by (simp add: SPL_TOKEN_PROGRAM_ID_def SYSTEM_PROGRAM_def)

end
