(* ===== verification/Pool_Tree.thy ===== *)
theory Pool_Tree
  imports Commitment_Tree Tree_Consts Pool_Constants
begin

text \<open>
  The commitment tree of the on-chain program (\<open>programs/opaq/src/lib.rs\<close>): \<open>hash2\<close>, \<open>to_field\<close>,
  \<open>be32\<close>, the borsh layout of \<open>CommitmentTree\<close>, and the zero-copy \<open>tree_insert\<close> and
  \<open>tree_is_known_root\<close> that work on the account's bytes. \<open>tree_of_bytes\<close> reads the bytes as a host
  tree; the refinement lemmas show that the zero-copy code is the host code seen through it, so
  the host tree's laws carry over: the interface \<open>root_history\<close> is interpreted on the bytes.
\<close>

section \<open>Hashing and field encodings\<close>

definition hash2 :: "poseidon \<Rightarrow> bytes32 \<Rightarrow> bytes32 \<Rightarrow> bytes32 option" where
  "hash2 P a b = P [a, b]"

definition to_field :: "poseidon \<Rightarrow> bytes32 \<Rightarrow> bytes32 option" where
  "to_field P b =
     (let hi = patch (replicate 32 0) 16 (sub (b32_bytes b) 0 16);
          lo = patch (replicate 32 0) 16 (sub (b32_bytes b) 16 16)
      in hash2 P (bytes_b32 hi) (bytes_b32 lo))"

definition be32_u64 :: "u64 \<Rightarrow> bytes32" where
  "be32_u64 n = bytes_b32 (patch (replicate 32 0) 24 (u64_to_be n))"

lemma hash2_eq: "hash2 P = poseidon2 P"
  by (simp add: fun_eq_iff hash2_def poseidon2_def)

text \<open>The program and the host encode a 32-byte value alike.\<close>

lemma to_field_eq: "to_field P = to_field_be P"
  by (simp add: fun_eq_iff to_field_def to_field_be_def hash2_def poseidon_be_def Let_def)

lemma be32_u64_ucast: "be32_u64 n = ucast n"
proof -
  have "nat_of_be (u64_to_be n) = unat n"
    using unat_bound [of n] by (simp add: u64_to_be_def nat_of_be_of_nat)
  then have "be32_u64 n = word_of_nat (unat n)"
    by (simp add: be32_u64_def patch_def bytes_b32_def nat_of_be_append)
  then show ?thesis by simp
qed

lemma be32_u64_inj: "be32_u64 m = be32_u64 n \<longleftrightarrow> m = n"
proof -
  have "unat (be32_u64 k) = unat k" for k :: u64
    by (simp add: be32_u64_ucast unsigned_ucast_eq take_bit_nat_eq_self
        order_less_le_trans [OF unat_bound])
  then show ?thesis by (metis word_unat_eq_iff)
qed

section \<open>Layout\<close>

definition COMMITMENT_TREE_SIZE :: nat where
  "COMMITMENT_TREE_SIZE = 8 + TREE_DEPTH * 32 + ROOT_HISTORY * 32 + 1"

definition OFF_FILLED :: nat where
  "OFF_FILLED = 8"

definition OFF_ROOTS :: nat where
  "OFF_ROOTS = 8 + TREE_DEPTH * 32"

definition OFF_CRI :: nat where
  "OFF_CRI = OFF_ROOTS + ROOT_HISTORY * 32"

text \<open>The borsh serialisation of \<open>CommitmentTree\<close>: the fields in order, fixed arrays without a
  length prefix.\<close>

definition tree_to_bytes :: "commitment_tree \<Rightarrow> bytes" where
  "tree_to_bytes t =
     u64_to_le (next_index t) @ concat (map b32_bytes (filled_subtrees t)) @
     concat (map b32_bytes (roots t)) @ [current_root_index t]"

definition tree_of_bytes :: "bytes \<Rightarrow> commitment_tree" where
  "tree_of_bytes data =
     \<lparr>next_index = u64_from_le (sub data 0 8),
      filled_subtrees = map (\<lambda>i. b32_at data (OFF_FILLED + i * 32)) [0..<TREE_DEPTH],
      roots = map (\<lambda>j. b32_at data (OFF_ROOTS + j * 32)) [0..<ROOT_HISTORY],
      current_root_index = data ! OFF_CRI\<rparr>"

section \<open>Operations\<close>

text \<open>The loop of \<open>tree_insert\<close> over the levels still to do.\<close>

fun tree_insert_levels ::
    "poseidon \<Rightarrow> nat list \<Rightarrow> u64 \<Rightarrow> bytes32 \<Rightarrow> bytes
      \<Rightarrow> (program_error, bytes32 \<times> bytes) outcome" where
  "tree_insert_levels P [] index current data = Ok (current, data)"
| "tree_insert_levels P (i # is) index current data =
     (let off = OFF_FILLED + i * 32 in
      and_then
        (if index AND 1 = 0
         then and_then (write32 data off current) (\<lambda>d. Ok (current, ZEROS ! i, d))
         else and_then (read32 data off) (\<lambda>l. Ok (l, current, data)))
        (\<lambda>(left, right, d).
           and_then (expect (hash2 P left right))
             (\<lambda>c. tree_insert_levels P is (drop_bit 1 index) c d)))"

definition tree_insert ::
    "poseidon \<Rightarrow> bytes \<Rightarrow> bytes32 \<Rightarrow> (program_error, bytes \<times> u64) outcome" where
  "tree_insert P data leaf =
     and_then (read_at data 0 8) (\<lambda>n.
       let next_index = u64_from_le n in
       if push_bit TREE_DEPTH 1 \<le> next_index then Err (Custom E_TREE_FULL)
       else
         let leaf_index = next_index in
         and_then (tree_insert_levels P [0..<TREE_DEPTH] next_index leaf data)
           (\<lambda>(current, data).
              and_then (byte_at data OFF_CRI) (\<lambda>b.
                let cri = word_of_nat ((unat b + 1) mod ROOT_HISTORY) :: u8;
                    root_off = OFF_ROOTS + unat cri * 32
                in and_then (write32 data root_off current) (\<lambda>data.
                     and_then (set_byte data OFF_CRI cri) (\<lambda>data.
                       and_then (write_at data 0 (u64_to_le (next_index + 1))) (\<lambda>data.
                         Ok (data, leaf_index)))))))"

text \<open>\<open>(0..ROOT_HISTORY).any(..)\<close>: the slices are read until one matches.\<close>

fun any_slot :: "bytes \<Rightarrow> bytes32 \<Rightarrow> nat list \<Rightarrow> (program_error, bool) outcome" where
  "any_slot data x [] = Ok False"
| "any_slot data x (off # offs) =
     and_then (read_at data off 32) (\<lambda>s. if s = b32_bytes x then Ok True else any_slot data x offs)"

definition tree_is_known_root :: "bytes \<Rightarrow> bytes32 \<Rightarrow> (program_error, bool) outcome" where
  "tree_is_known_root data root =
     (if root = 0 then Ok False
      else any_slot data root (map (\<lambda>j. OFF_ROOTS + j * 32) [0..<ROOT_HISTORY]))"

section \<open>The bytes as a host tree\<close>

lemma layout:
  "OFF_FILLED = 8" "OFF_ROOTS = 776" "OFF_CRI = 1800" "COMMITMENT_TREE_SIZE = 1801"
  by (simp_all add: OFF_FILLED_def OFF_ROOTS_def OFF_CRI_def COMMITMENT_TREE_SIZE_def
      TREE_DEPTH_def ROOT_HISTORY_def)

lemma slot_bounds:
  "i < TREE_DEPTH \<Longrightarrow> i * 32 + 32 \<le> 768"
  "j < ROOT_HISTORY \<Longrightarrow> j * 32 + 32 \<le> 1024"
  by (simp_all add: TREE_DEPTH_def ROOT_HISTORY_def)

lemma length_tree_of_bytes [simp]:
  "length (filled_subtrees (tree_of_bytes data)) = TREE_DEPTH"
  "length (roots (tree_of_bytes data)) = ROOT_HISTORY"
  by (simp_all add: tree_of_bytes_def)

lemma tree_of_bytes_sel:
  "next_index (tree_of_bytes data) = u64_from_le (sub data 0 8)"
  "i < TREE_DEPTH \<Longrightarrow> filled_subtrees (tree_of_bytes data) ! i = b32_at data (8 + i * 32)"
  "j < ROOT_HISTORY \<Longrightarrow> roots (tree_of_bytes data) ! j = b32_at data (776 + j * 32)"
  "current_root_index (tree_of_bytes data) = data ! 1800"
  by (simp_all add: tree_of_bytes_def layout)

lemma tree_eqI:
  assumes "next_index s = next_index t" and "filled_subtrees s = filled_subtrees t"
    and "roots s = roots t" and "current_root_index s = current_root_index t"
  shows "(s :: commitment_tree) = t"
  using assms by (cases s; cases t) simp

lemma nth_update_slots:
  "i < n \<Longrightarrow> (map f [0..<n])[i := v] = map (\<lambda>k. if k = i then v else f k) [0..<n]"
  by (rule nth_equalityI) (auto simp: nth_list_update)

lemma tree_of_bytes_filled:
  assumes "i < TREE_DEPTH" and "COMMITMENT_TREE_SIZE \<le> length data"
  shows "tree_of_bytes (patch data (OFF_FILLED + i * 32) (b32_bytes v)) =
    (tree_of_bytes data)\<lparr>filled_subtrees := (filled_subtrees (tree_of_bytes data))[i := v]\<rparr>"
proof (rule tree_eqI)
  let ?off = "8 + i * 32"
  have b: "?off + 32 \<le> 776" and len: "1801 \<le> length data"
    using assms slot_bounds(1) [of i] by (simp_all add: layout)
  have "b32_at (patch data ?off (b32_bytes v)) (8 + k * 32) =
      (if k = i then v else b32_at data (8 + k * 32))" if "k < TREE_DEPTH" for k
    using slot_bounds(1) [OF that] b len
    by (cases rule: slot_cases [where i = k and j = i and s = 32]) (auto simp: bytes_simps)
  then show "filled_subtrees (tree_of_bytes (patch data (OFF_FILLED + i * 32) (b32_bytes v))) =
      filled_subtrees ((tree_of_bytes data)\<lparr>filled_subtrees :=
        (filled_subtrees (tree_of_bytes data))[i := v]\<rparr>)"
    using assms(1) by (intro nth_equalityI) (auto simp: tree_of_bytes_sel layout nth_list_update)
  have "b32_at (patch data ?off (b32_bytes v)) (776 + j * 32) = b32_at data (776 + j * 32)" for j
    using b len by (simp add: bytes_simps)
  then show "roots (tree_of_bytes (patch data (OFF_FILLED + i * 32) (b32_bytes v))) =
      roots ((tree_of_bytes data)\<lparr>filled_subtrees :=
        (filled_subtrees (tree_of_bytes data))[i := v]\<rparr>)"
    by (intro nth_equalityI) (auto simp: tree_of_bytes_sel layout)
  show "next_index (tree_of_bytes (patch data (OFF_FILLED + i * 32) (b32_bytes v))) =
      next_index ((tree_of_bytes data)\<lparr>filled_subtrees :=
        (filled_subtrees (tree_of_bytes data))[i := v]\<rparr>)"
    using b len by (simp add: tree_of_bytes_sel layout bytes_simps)
  show "current_root_index (tree_of_bytes (patch data (OFF_FILLED + i * 32) (b32_bytes v))) =
      current_root_index ((tree_of_bytes data)\<lparr>filled_subtrees :=
        (filled_subtrees (tree_of_bytes data))[i := v]\<rparr>)"
    using b len by (simp add: tree_of_bytes_sel layout nth_patch_outside)
qed

lemma tree_of_bytes_root:
  assumes "j < ROOT_HISTORY" and "COMMITMENT_TREE_SIZE \<le> length data"
  shows "tree_of_bytes (patch data (OFF_ROOTS + j * 32) (b32_bytes v)) =
    (tree_of_bytes data)\<lparr>roots := (roots (tree_of_bytes data))[j := v]\<rparr>"
proof (rule tree_eqI)
  let ?off = "776 + j * 32"
  have b: "?off + 32 \<le> 1800" and len: "1801 \<le> length data"
    using assms slot_bounds(2) [of j] by (simp_all add: layout)
  have "b32_at (patch data ?off (b32_bytes v)) (776 + k * 32) =
      (if k = j then v else b32_at data (776 + k * 32))" if "k < ROOT_HISTORY" for k
    using slot_bounds(2) [OF that] b len
    by (cases rule: slot_cases [where i = k and j = j and s = 32]) (auto simp: bytes_simps)
  then show "roots (tree_of_bytes (patch data (OFF_ROOTS + j * 32) (b32_bytes v))) =
      roots ((tree_of_bytes data)\<lparr>roots := (roots (tree_of_bytes data))[j := v]\<rparr>)"
    using assms(1) by (intro nth_equalityI) (auto simp: tree_of_bytes_sel layout nth_list_update)
  have "b32_at (patch data ?off (b32_bytes v)) (8 + i * 32) = b32_at data (8 + i * 32)"
    if "i < TREE_DEPTH" for i
    using slot_bounds(1) [OF that] b len by (simp add: bytes_simps)
  then show "filled_subtrees (tree_of_bytes (patch data (OFF_ROOTS + j * 32) (b32_bytes v))) =
      filled_subtrees ((tree_of_bytes data)\<lparr>roots := (roots (tree_of_bytes data))[j := v]\<rparr>)"
    by (intro nth_equalityI) (auto simp: tree_of_bytes_sel layout)
  show "next_index (tree_of_bytes (patch data (OFF_ROOTS + j * 32) (b32_bytes v))) =
      next_index ((tree_of_bytes data)\<lparr>roots := (roots (tree_of_bytes data))[j := v]\<rparr>)"
    using b len by (simp add: tree_of_bytes_sel layout bytes_simps)
  show "current_root_index (tree_of_bytes (patch data (OFF_ROOTS + j * 32) (b32_bytes v))) =
      current_root_index ((tree_of_bytes data)\<lparr>roots := (roots (tree_of_bytes data))[j := v]\<rparr>)"
    using b len by (simp add: tree_of_bytes_sel layout nth_patch_outside)
qed

lemma tree_of_bytes_cri:
  assumes "COMMITMENT_TREE_SIZE \<le> length data"
  shows "tree_of_bytes (data[OFF_CRI := c]) = (tree_of_bytes data)\<lparr>current_root_index := c\<rparr>"
proof -
  have "b32_at (data[1800 := c]) (8 + i * 32) = b32_at data (8 + i * 32)" if "i < TREE_DEPTH" for i
    using slot_bounds(1) [OF that] by (simp add: bytes_simps)
  moreover have "b32_at (data[1800 := c]) (776 + j * 32) = b32_at data (776 + j * 32)"
    if "j < ROOT_HISTORY" for j
    using slot_bounds(2) [OF that] by (simp add: bytes_simps)
  moreover have "sub (data[1800 := c]) 0 8 = sub data 0 8"
    by (simp add: bytes_simps)
  ultimately show ?thesis
    using assms by (intro tree_eqI) (auto simp: tree_of_bytes_def layout cong: map_cong)
qed

lemma tree_of_bytes_next:
  assumes "COMMITMENT_TREE_SIZE \<le> length data"
  shows "tree_of_bytes (patch data 0 (u64_to_le n)) = (tree_of_bytes data)\<lparr>next_index := n\<rparr>"
  using assms
  by (intro tree_eqI) (simp_all add: tree_of_bytes_def layout bytes_simps nth_patch_outside)

text \<open>The round trip of the serialisation, with any bytes behind it.\<close>

lemma b32_table_at:
  assumes "length xs = off" and "i < length ns"
  shows "b32_at (xs @ concat (map b32_bytes ns) @ ys) (off + i * 32) = ns ! i"
proof -
  have "i * 32 + 32 \<le> length (concat (map b32_bytes ns))"
    using stride_le [of i "length ns" 32] assms(2) length_chunks [of "map b32_bytes ns" 32] by simp
  then have "sub (xs @ concat (map b32_bytes ns) @ ys) (off + i * 32) 32 =
      sub (concat (map b32_bytes ns)) (i * 32) 32"
    using assms(1) by (simp add: sub_append_right sub_append_left)
  also have "\<dots> = b32_bytes (ns ! i)"
    using sub_chunk [of "map b32_bytes ns" 32 i] assms(2) by simp
  finally show ?thesis by (simp add: b32_at_def)
qed

lemma length_b32_chunks [simp]: "length (concat (map b32_bytes xs)) = length xs * 32"
  by (induction xs) auto

lemma length_tree_to_bytes:
  assumes "length (filled_subtrees t) = TREE_DEPTH" and "length (roots t) = ROOT_HISTORY"
  shows "length (tree_to_bytes t) = COMMITMENT_TREE_SIZE"
  using assms by (simp add: tree_to_bytes_def COMMITMENT_TREE_SIZE_def)

lemma tree_of_to_bytes:
  assumes "length (filled_subtrees t) = TREE_DEPTH" and "length (roots t) = ROOT_HISTORY"
  shows "tree_of_bytes (tree_to_bytes t @ rest) = t"
proof (rule tree_eqI)
  let ?n = "u64_to_le (next_index t)" and ?f = "concat (map b32_bytes (filled_subtrees t))"
    and ?r = "concat (map b32_bytes (roots t))"
  let ?d = "?n @ ?f @ ?r @ [current_root_index t] @ rest"
  have d: "tree_to_bytes t @ rest = ?d"
    by (simp add: tree_to_bytes_def)
  have lf: "length (?n @ ?f) = 776" and lr: "length (?n @ ?f @ ?r) = 1800"
    using assms by (simp_all add: TREE_DEPTH_def ROOT_HISTORY_def)
  show "next_index (tree_of_bytes (tree_to_bytes t @ rest)) = next_index t"
    unfolding d by (simp add: tree_of_bytes_sel sub_prefix)
  show "filled_subtrees (tree_of_bytes (tree_to_bytes t @ rest)) = filled_subtrees t"
    unfolding d using assms(1) b32_table_at [of ?n 8 _ "filled_subtrees t" "?r @ [current_root_index t] @ rest"]
    by (intro nth_equalityI) (simp_all add: tree_of_bytes_sel)
  have "b32_at ?d (776 + j * 32) = roots t ! j" if "j < ROOT_HISTORY" for j
    using assms(2) that b32_table_at [OF lf, of j "roots t" "[current_root_index t] @ rest"] by simp
  then show "roots (tree_of_bytes (tree_to_bytes t @ rest)) = roots t"
    unfolding d using assms(2) by (intro nth_equalityI) (simp_all add: tree_of_bytes_sel)
  have "?d ! 1800 = current_root_index t"
    using nth_append_length [of "?n @ ?f @ ?r" "current_root_index t" rest] lr by simp
  then show "current_root_index (tree_of_bytes (tree_to_bytes t @ rest)) = current_root_index t"
    unfolding d by (simp add: tree_of_bytes_sel)
qed

section \<open>Refinement\<close>

text \<open>The loop on the bytes is the loop on the host tree; nothing outside the 1801 bytes changes.\<close>

lemma tree_insert_levels_refines:
  assumes "set is \<subseteq> {..<TREE_DEPTH}" and "COMMITMENT_TREE_SIZE \<le> length data"
  shows "case insert_levels (poseidon2 P) ZEROS is index current
             (filled_subtrees (tree_of_bytes data)) of
           None \<Rightarrow> tree_insert_levels P is index current data = Panic
         | Some (c, f) \<Rightarrow> \<exists>d. tree_insert_levels P is index current data = Ok (c, d) \<and>
             length d = length data \<and> drop COMMITMENT_TREE_SIZE d = drop COMMITMENT_TREE_SIZE data \<and>
             tree_of_bytes d = (tree_of_bytes data)\<lparr>filled_subtrees := f\<rparr>"
  using assms
proof (induction "is" arbitrary: index current data)
  case Nil
  then show ?case by simp
next
  case (Cons i "is")
  let ?off = "OFF_FILLED + i * 32"
  have i: "i < TREE_DEPTH" and rest: "set is \<subseteq> {..<TREE_DEPTH}"
    using Cons.prems(1) by auto
  have b: "?off + 32 \<le> 776" and len: "1801 \<le> length data"
    using Cons.prems(2) slot_bounds(1) [OF i] by (simp_all add: layout)
  show ?case
  proof (cases "index AND 1 = 0")
    case True
    let ?d = "patch data ?off (b32_bytes current)"
    have ld: "length ?d = length data"
      using b len by simp
    have t: "tree_of_bytes ?d = (tree_of_bytes data)\<lparr>filled_subtrees :=
        (filled_subtrees (tree_of_bytes data))[i := current]\<rparr>"
      by (rule tree_of_bytes_filled [OF i Cons.prems(2)])
    have dr: "drop COMMITMENT_TREE_SIZE ?d = drop COMMITMENT_TREE_SIZE data"
      using b len by (simp add: patch_def layout)
    have w: "write32 data ?off current = (Ok ?d :: (program_error, bytes) outcome)"
      using b len by simp
    show ?thesis
    proof (cases "P [current, ZEROS ! i]")
      case None
      with True w show ?thesis by (simp add: poseidon2_def hash2_def)
    next
      case (Some c)
      show ?thesis
        using Cons.IH [OF rest, where data = ?d and current = c and index = "drop_bit 1 index"] Cons.prems(2) True Some w
        by (auto simp: poseidon2_def hash2_def t ld dr split: option.splits)
    qed
  next
    case False
    have l: "filled_subtrees (tree_of_bytes data) ! i = b32_at data ?off"
      using i by (simp add: tree_of_bytes_sel layout)
    have r: "read32 data ?off = (Ok (b32_at data ?off) :: (program_error, bytes32) outcome)"
      using b len by simp
    show ?thesis
    proof (cases "P [b32_at data ?off, current]")
      case None
      with False r l show ?thesis by (simp add: poseidon2_def hash2_def)
    next
      case (Some c)
      show ?thesis
        using Cons.IH [OF rest, where data = data and current = c and index = "drop_bit 1 index"] Cons.prems(2) False Some r l
        by (auto simp: poseidon2_def hash2_def split: option.splits)
    qed
  qed
qed

text \<open>\<open>tree_insert\<close> on an account of at least 1801 bytes is \<open>insert\<close> on the tree it holds.\<close>

text \<open>The three writes after the loop.\<close>

lemma tree_commit:
  fixes c :: bytes32 and i :: u64
  assumes "COMMITMENT_TREE_SIZE \<le> length d" and "unat cri < ROOT_HISTORY"
  defines "d1 \<equiv> patch d (OFF_ROOTS + unat cri * 32) (b32_bytes c)"
  defines "d2 \<equiv> d1[OFF_CRI := cri]"
  defines "d3 \<equiv> patch d2 0 (u64_to_le i)"
  shows "byte_at d OFF_CRI = (Ok (d ! OFF_CRI) :: (program_error, byte) outcome)"
    and "write32 d (OFF_ROOTS + unat cri * 32) c = (Ok d1 :: (program_error, bytes) outcome)"
    and "set_byte d1 OFF_CRI cri = (Ok d2 :: (program_error, bytes) outcome)"
    and "write_at d2 0 (u64_to_le i) = (Ok d3 :: (program_error, bytes) outcome)"
    and "tree_of_bytes d3 = (tree_of_bytes d)\<lparr>roots := (roots (tree_of_bytes d))[unat cri := c],
           current_root_index := cri, next_index := i\<rparr>"
proof -
  have b: "OFF_ROOTS + unat cri * 32 + 32 \<le> 1800" and len: "1801 \<le> length d"
    using assms(1) slot_bounds(2) [OF assms(2)] by (simp_all add: layout)
  have l: "length d1 = length d" "length d2 = length d"
    unfolding d2_def d1_def using b len by simp_all
  show "byte_at d OFF_CRI = (Ok (d ! OFF_CRI) :: (program_error, byte) outcome)"
    "write32 d (OFF_ROOTS + unat cri * 32) c = (Ok d1 :: (program_error, bytes) outcome)"
    "set_byte d1 OFF_CRI cri = (Ok d2 :: (program_error, bytes) outcome)"
    "write_at d2 0 (u64_to_le i) = (Ok d3 :: (program_error, bytes) outcome)"
    using b len l unfolding d3_def d2_def d1_def by (simp_all add: layout)
  have "tree_of_bytes d1 = (tree_of_bytes d)\<lparr>roots := (roots (tree_of_bytes d))[unat cri := c]\<rparr>"
    using tree_of_bytes_root [OF assms(2)] len by (simp add: layout d1_def)
  moreover have "tree_of_bytes d2 = (tree_of_bytes d1)\<lparr>current_root_index := cri\<rparr>"
    using tree_of_bytes_cri len l by (simp only: layout d2_def)
  moreover have "tree_of_bytes d3 = (tree_of_bytes d2)\<lparr>next_index := i\<rparr>"
    using tree_of_bytes_next len l by (simp only: layout d3_def)
  ultimately show "tree_of_bytes d3 = (tree_of_bytes d)\<lparr>roots := (roots (tree_of_bytes d))[unat cri := c],
      current_root_index := cri, next_index := i\<rparr>"
    by simp
qed

lemma tree_insert_refines_host:
  assumes "COMMITMENT_TREE_SIZE \<le> length data"
  shows "map_ok (\<lambda>(d, i). (tree_of_bytes d, i)) (tree_insert P data leaf) =
    map_err (\<lambda>_. Custom E_TREE_FULL) (insert_leaf (poseidon2 P) ZEROS (tree_of_bytes data) leaf)"
proof -
  let ?t = "tree_of_bytes data"
  have n: "read_at data 0 8 = (Ok (sub data 0 8) :: (program_error, bytes) outcome)"
    using assms by (simp add: layout)
  have nx: "next_index ?t = u64_from_le (sub data 0 8)"
    by (simp add: tree_of_bytes_sel)
  have "set [0..<TREE_DEPTH] \<subseteq> {..<TREE_DEPTH}" by auto
  note loop = tree_insert_levels_refines [OF this assms, of P "next_index ?t" leaf]
  show ?thesis
  proof (cases "push_bit TREE_DEPTH 1 \<le> next_index ?t \<or> insert_levels (poseidon2 P) ZEROS
      [0..<TREE_DEPTH] (next_index ?t) leaf (filled_subtrees ?t) = None")
    case True
    with loop show ?thesis
      by (auto simp: tree_insert_def insert_leaf_def n Let_def nx)
  next
    case False
    then obtain c f where Some: "insert_levels (poseidon2 P) ZEROS [0..<TREE_DEPTH] (next_index ?t) leaf
        (filled_subtrees ?t) = Some (c, f)" and room: "\<not> push_bit TREE_DEPTH 1 \<le> next_index ?t"
      by auto
    with loop obtain d where run: "tree_insert_levels P [0..<TREE_DEPTH] (next_index ?t) leaf data
        = Ok (c, d)" and ld: "length d = length data"
      and t: "tree_of_bytes d = ?t\<lparr>filled_subtrees := f\<rparr>"
      by auto
    let ?cri = "word_of_nat ((unat (d ! OFF_CRI) + 1) mod ROOT_HISTORY) :: u8"
    have cri: "d ! OFF_CRI = current_root_index ?t"
      using arg_cong [OF t, of current_root_index] by (simp add: tree_of_bytes_sel layout)
    have lt: "unat ?cri < ROOT_HISTORY"
      by (simp add: unat_of_nat ROOT_HISTORY_def)
    have "COMMITMENT_TREE_SIZE \<le> length d"
      using assms ld by simp
    note commit = tree_commit [OF this lt]
    obtain d3 where "tree_insert P data leaf = Ok (d3, next_index ?t)"
      and "tree_of_bytes d3 = ?t\<lparr>filled_subtrees := f, roots := (roots ?t)[unat ?cri := c],
        current_root_index := ?cri, next_index := next_index ?t + 1\<rparr>"
      using room run commit by (simp add: tree_insert_def n Let_def nx t)
    then show ?thesis
      using room by (simp add: insert_leaf_def Some cri Let_def)
  qed
qed

text \<open>The bytes behind the tree and the length of the account do not change.\<close>

lemma tree_insert_frame:
  assumes "COMMITMENT_TREE_SIZE \<le> length data" and "tree_insert P data leaf = Ok (d, i)"
  shows "length d = length data \<and> drop COMMITMENT_TREE_SIZE d = drop COMMITMENT_TREE_SIZE data"
proof -
  have "set [0..<TREE_DEPTH] \<subseteq> {..<TREE_DEPTH}" by auto
  note loop = tree_insert_levels_refines [OF this assms(1), of P "u64_from_le (sub data 0 8)" leaf]
  obtain c e where run: "tree_insert_levels P [0..<TREE_DEPTH] (u64_from_le (sub data 0 8)) leaf data
      = Ok (c, e)"
    using assms(2) by (auto simp: tree_insert_def Let_def outcome_simps split: if_splits)
  then have e: "length e = length data" "drop COMMITMENT_TREE_SIZE e = drop COMMITMENT_TREE_SIZE data"
    using loop by (auto split: option.splits)
  let ?cri = "word_of_nat ((unat (e ! OFF_CRI) + 1) mod ROOT_HISTORY) :: u8"
  have lt: "unat ?cri < ROOT_HISTORY"
    by (simp add: unat_of_nat ROOT_HISTORY_def)
  have b: "776 + unat ?cri * 32 + 32 \<le> 1800"
    using slot_bounds(2) [OF lt] by simp
  have "d = patch ((patch e (OFF_ROOTS + unat ?cri * 32) (b32_bytes c))[OFF_CRI := ?cri]) 0
      (u64_to_le (u64_from_le (sub data 0 8) + 1))"
    using assms run by (auto simp: tree_insert_def Let_def outcome_simps write32_def split: if_splits)
  then show ?thesis
    using e b assms(1) by (auto simp: patch_def layout drop_update_cancel)
qed

lemma any_slot_iff:
  assumes "\<And>off. off \<in> set offs \<Longrightarrow> off + 32 \<le> length data"
  shows "any_slot data x offs = Ok (x \<in> b32_at data ` set offs)"
  using assms by (induction offs) (auto simp: sub_eq_b32)

lemma tree_is_known_root_refines:
  assumes "COMMITMENT_TREE_SIZE \<le> length data"
  shows "tree_is_known_root data r = Ok (is_known_root (tree_of_bytes data) r)"
proof -
  let ?offs = "map (\<lambda>j. OFF_ROOTS + j * 32) [0..<ROOT_HISTORY]"
  have "off + 32 \<le> length data" if "off \<in> set ?offs" for off
    using that assms slot_bounds(2) by (fastforce simp: layout)
  then have "any_slot data r ?offs = Ok (r \<in> b32_at data ` set ?offs)"
    by (rule any_slot_iff)
  moreover have "b32_at data ` set ?offs = set (roots (tree_of_bytes data))"
    by (auto simp: tree_of_bytes_def)
  ultimately show ?thesis
    by (auto simp: tree_is_known_root_def is_known_root_def list_ex_iff)
qed

section \<open>The interface on the bytes\<close>

definition tree_holds :: "poseidon \<Rightarrow> hash2_fun \<Rightarrow> bytes \<Rightarrow> bytes32 list \<Rightarrow> bool" where
  "tree_holds P H data ls \<longleftrightarrow>
     COMMITMENT_TREE_SIZE \<le> length data \<and> consts_match H \<and>
     represents (poseidon2 P) H (tree_of_bytes data) ls"

lemma tree_insert_holds:
  assumes "tree_holds P H data ls" and "field_elem leaf" and "length ls < 2 ^ TREE_DEPTH"
  shows "\<exists>d. tree_insert P data leaf = Ok (d, word_of_nat (length ls)) \<and>
    tree_holds P H d (ls @ [leaf])"
proof -
  have len: "COMMITMENT_TREE_SIZE \<le> length data" and z: "zeros_of H = ZEROS"
    and r: "represents (poseidon2 P) H (tree_of_bytes data) ls"
    using assms(1) by (simp_all add: tree_holds_def consts_match_def)
  obtain t where "insert_leaf (poseidon2 P) ZEROS (tree_of_bytes data) leaf
      = (Ok (t, word_of_nat (length ls)) :: (tree_error, commitment_tree \<times> u64) outcome)"
    and t: "represents (poseidon2 P) H t (ls @ [leaf])"
    using insert_leaf_represents [OF r assms(2,3)] z by auto
  then obtain d where d: "tree_insert P data leaf = Ok (d, word_of_nat (length ls))"
    and "tree_of_bytes d = t"
    using tree_insert_refines_host [OF len, of P leaf] by (auto simp: outcome_simps)
  with t tree_insert_frame [OF len d] assms(1) show ?thesis
    by (auto simp: tree_holds_def)
qed

lemma tree_insert_full:
  assumes "tree_holds P H data ls" and "length ls = 2 ^ TREE_DEPTH"
  shows "tree_insert P data leaf = Err (Custom E_TREE_FULL)"
proof -
  have "insert_leaf (poseidon2 P) ZEROS (tree_of_bytes data) leaf = Err Full"
    using assms by (intro insert_leaf_full) (auto simp: tree_holds_def)
  moreover have len: "COMMITMENT_TREE_SIZE \<le> length data"
    using assms(1) by (simp add: tree_holds_def)
  ultimately have "map_ok (\<lambda>(d, i). (tree_of_bytes d, i)) (tree_insert P data leaf) =
      Err (Custom E_TREE_FULL)"
    by (simp add: tree_insert_refines_host [OF len])
  then show ?thesis
    by (cases "tree_insert P data leaf") auto
qed

definition known_in :: "bytes \<Rightarrow> bytes32 \<Rightarrow> bool" where
  "known_in data r \<longleftrightarrow> tree_is_known_root data r = Ok True"

text \<open>The account as \<open>initialize_pool\<close> writes it holds the empty tree.\<close>

definition initial_tree :: commitment_tree where
  "initial_tree =
     \<lparr>next_index = 0, filled_subtrees = ZEROS,
      roots = (replicate ROOT_HISTORY 0)[0 := EMPTY_ROOT], current_root_index = 0\<rparr>"

lemma initial_tree_holds:
  assumes "hashes_to (poseidon2 P) H" and "consts_match H"
  shows "tree_holds P H (tree_to_bytes initial_tree @ rest) []"
proof -
  have "represents (poseidon2 P) H initial_tree []"
    using assms frontier_Nil [of H] history_Nil [of H]
    by (simp add: represents_def initial_tree_def consts_match_def)
  then show ?thesis
    using assms(2) length_tree_to_bytes [of initial_tree] tree_of_to_bytes [of initial_tree rest]
    by (simp add: tree_holds_def initial_tree_def)
qed

interpretation pool_tree:
  root_history "tree_insert P" known_in "tree_holds P H" "Custom E_TREE_FULL" H for P H
proof
  fix data ls x r
  assume h: "tree_holds P H data ls"
  show "length ls \<le> 2 ^ TREE_DEPTH"
    using h by (simp add: tree_holds_def represents_def)
  show "\<exists>t'. tree_insert P data x = Inr (t', word_of_nat (length ls)) \<and> tree_holds P H t' (ls @ [x])"
    if "field_elem x" "length ls < 2 ^ TREE_DEPTH"
    by (rule tree_insert_holds [OF h that])
  show "tree_insert P data x = Err (Custom E_TREE_FULL)" if "length ls = 2 ^ TREE_DEPTH"
    by (rule tree_insert_full [OF h that])
  show "known_in data r \<longleftrightarrow> r \<noteq> 0 \<and>
      (\<exists>m \<le> length ls. length ls < m + ROOT_HISTORY \<and> r = merkle_root H (take m ls))"
    using h is_known_root_represents [of "poseidon2 P" H "tree_of_bytes data" ls r]
    by (simp add: known_in_def tree_is_known_root_refines tree_holds_def)
qed

end
