(* ===== verification/Runtime_Laws.thy ===== *)
theory Runtime_Laws
  imports Pool_Constants
begin

text \<open>
  The documented behaviour of the Solana runtime and the libraries that the on-chain program
  relies on, each as a named hypothesis over a \<open>runtime\<close>. Nothing here is assumed globally: a
  lemma that needs them says so, and \<open>Demo_Runtime\<close> builds a runtime that satisfies all.

  \<^item> \<open>system_transfer_law\<close>: the System Program's Transfer moves lamports and nothing else.
  \<^item> \<open>create_account_law\<close>: CreateAccount succeeds only on an account of the System Program and
    gives it the requested space, zero-filled, and owner; no other account changes but in lamports.
  \<^item> \<open>token_transfer_law\<close>: the SPL Token program's Transfer needs two accounts of the token program
    of one mint and the signature of the source's owner or delegate, moves the amount from the
    source to the destination and changes nothing else of their first 72 bytes, and no other
    account.
  \<^item> \<open>resize_law\<close>: \<open>AccountInfo::resize\<close> truncates or zero-extends the data of that one account
    and refuses more than the maximal account size.
  \<^item> \<open>transfer_served_law\<close>, \<open>resize_served_law\<close>: what these two do not refuse, for the lemmas that say
    an instruction succeeds. A Transfer of a signer without data that the System Program owns and that
    has the lamports goes through; \<open>resize\<close> serves every size up to the maximal one that adds at most
    10240 bytes.
  \<^item> \<open>verifier_law\<close>: an accepted proof has the key's number of public inputs and every one is a
    canonical field element (the verifier refuses inputs that are not reduced).
\<close>

section \<open>The frame of an operation\<close>

text \<open>\<open>changes_only K L L'\<close>: no account changes owner, and those outside \<open>K\<close> keep their data.\<close>

definition changes_only :: "pubkey set \<Rightarrow> ledger \<Rightarrow> ledger \<Rightarrow> bool" where
  "changes_only K L L' \<longleftrightarrow>
     (\<forall>k. acc_owner (L' k) = acc_owner (L k) \<and> (k \<notin> K \<longrightarrow> acc_data (L' k) = acc_data (L k)))"

lemma changes_only_refl [simp, intro]: "changes_only K L L"
  by (simp add: changes_only_def)

lemma changes_only_trans:
  "changes_only K L1 L2 \<Longrightarrow> changes_only K' L2 L3 \<Longrightarrow> changes_only (K \<union> K') L1 L3"
  by (simp add: changes_only_def)

lemma changes_only_mono:
  "changes_only K L L' \<Longrightarrow> K \<subseteq> K' \<Longrightarrow> changes_only K' L L'"
  by (auto simp: changes_only_def)

lemma changes_only_set_data [simp, intro]: "changes_only {k} L (set_data L k d)"
  by (auto simp: changes_only_def set_data_apply)

lemma changes_only_then_set [intro]:
  "changes_only K L L' \<Longrightarrow> k \<in> K \<Longrightarrow> changes_only K L (set_data L' k d)"
  by (auto simp: changes_only_def set_data_apply)

lemma changes_onlyD:
  assumes "changes_only K L L'"
  shows "acc_owner (L' k) = acc_owner (L k)" and "k \<notin> K \<Longrightarrow> acc_data (L' k) = acc_data (L k)"
  using assms by (simp_all add: changes_only_def)

section \<open>The laws\<close>

definition system_transfer_law :: "runtime \<Rightarrow> bool" where
  "system_transfer_law rt \<longleftrightarrow>
     (\<forall>ix infos seeds L L'.
        cpi rt ix infos seeds L = Ok L' \<longrightarrow> ix_program ix = SYSTEM_PROGRAM \<longrightarrow>
        take 4 (ix_data ix) = u32_to_le 2 \<longrightarrow> changes_only {} L L')"

definition create_account_ix :: "pubkey \<Rightarrow> pubkey \<Rightarrow> u64 \<Rightarrow> u64 \<Rightarrow> pubkey \<Rightarrow> instruction" where
  "create_account_ix payer new lamports space owner =
     \<lparr>ix_program = SYSTEM_PROGRAM,
      ix_accounts = [meta_new payer True, meta_new new True],
      ix_data = u32_to_le 0 @ u64_to_le lamports @ u64_to_le space @ b32_bytes owner\<rparr>"

definition create_account_law :: "runtime \<Rightarrow> bool" where
  "create_account_law rt \<longleftrightarrow>
     (\<forall>payer new lamports space owner infos seeds L L'.
        cpi rt (create_account_ix payer new lamports space owner) infos seeds L = Ok L' \<longrightarrow>
        acc_owner (L new) = SYSTEM_PROGRAM \<and>
        acc_data (L' new) = replicate (unat space) 0 \<and> acc_owner (L' new) = owner \<and>
        (\<forall>k. k \<noteq> new \<longrightarrow>
           acc_data (L' k) = acc_data (L k) \<and> acc_owner (L' k) = acc_owner (L k)))"

text \<open>The SPL token account: mint, owner, amount, delegate.\<close>

definition token_mint :: "bytes \<Rightarrow> bytes32" where
  "token_mint d = b32_at d 0"

definition token_owner :: "bytes \<Rightarrow> pubkey" where
  "token_owner d = b32_at d 32"

definition token_amount :: "bytes \<Rightarrow> nat" where
  "token_amount d = nat_of_le (sub d 64 8)"

definition token_delegate :: "bytes \<Rightarrow> pubkey option" where
  "token_delegate d = (if sub d 72 4 = replicate 4 0 then None else Some (b32_at d 76))"

definition token_transfer_ix :: "pubkey \<Rightarrow> pubkey \<Rightarrow> pubkey \<Rightarrow> u64 \<Rightarrow> instruction" where
  "token_transfer_ix source dest authority amount =
     \<lparr>ix_program = SPL_TOKEN_PROGRAM_ID,
      ix_accounts = [meta_new source False, meta_new dest False, meta_readonly authority True],
      ix_data = 3 # u64_to_le amount\<rparr>"

definition token_transfer_law :: "runtime \<Rightarrow> bool" where
  "token_transfer_law rt \<longleftrightarrow>
     (\<forall>s d a n infos seeds L L'.
        cpi rt (token_transfer_ix s d a n) infos seeds L = Ok L' \<longrightarrow>
        acc_owner (L s) = SPL_TOKEN_PROGRAM_ID \<and> acc_owner (L d) = SPL_TOKEN_PROGRAM_ID \<and>
        token_mint (acc_data (L s)) = token_mint (acc_data (L d)) \<and>
        (token_owner (acc_data (L s)) = a \<or> token_delegate (acc_data (L s)) = Some a) \<and>
        changes_only {s, d} L L' \<and>
        (\<forall>k. sub (acc_data (L' k)) 0 64 = sub (acc_data (L k)) 0 64) \<and>
        (\<forall>k. token_delegate (acc_data (L k)) = None \<longrightarrow> token_delegate (acc_data (L' k)) = None) \<and>
        unat n \<le> token_amount (acc_data (L s)) \<and>
        (s \<noteq> d \<longrightarrow>
           token_amount (acc_data (L' s)) = token_amount (acc_data (L s)) - unat n \<and>
           token_amount (acc_data (L' d)) = token_amount (acc_data (L d)) + unat n) \<and>
        (s = d \<longrightarrow> token_amount (acc_data (L' s)) = token_amount (acc_data (L s))))"

text \<open>The largest account, and so a bound on every counter kept in one.\<close>

definition MAX_ACCOUNT_SIZE :: nat where
  "MAX_ACCOUNT_SIZE = 10485760"

definition resize_law :: "runtime \<Rightarrow> bool" where
  "resize_law rt \<longleftrightarrow>
     (\<forall>k n L L'. resize rt k n L = Ok L' \<longrightarrow>
        n \<le> MAX_ACCOUNT_SIZE \<and>
        L' = set_data L k (take n (acc_data (L k)) @ replicate (n - length (acc_data (L k))) 0))"

definition system_transfer_ix :: "pubkey \<Rightarrow> pubkey \<Rightarrow> u64 \<Rightarrow> instruction" where
  "system_transfer_ix payer dest lamports =
     \<lparr>ix_program = SYSTEM_PROGRAM,
      ix_accounts = [meta_new payer True, meta_new dest False],
      ix_data = u32_to_le 2 @ u64_to_le lamports\<rparr>"

definition transfer_served_law :: "runtime \<Rightarrow> bool" where
  "transfer_served_law rt \<longleftrightarrow>
     (\<forall>payer dest n infos L.
        \<lparr>ai_key = payer, is_signer = True\<rparr> \<in> set infos \<longrightarrow> {dest, SYSTEM_PROGRAM} \<subseteq> ai_key ` set infos \<longrightarrow>
        acc_owner (L payer) = SYSTEM_PROGRAM \<longrightarrow> acc_data (L payer) = [] \<longrightarrow>
        n \<le> acc_lamports (L payer) \<longrightarrow> unat (acc_lamports (L dest)) + unat n < 2 ^ 64 \<longrightarrow>
        (\<exists>L'. cpi rt (system_transfer_ix payer dest n) infos [] L = Ok L'))"

definition MAX_PERMITTED_DATA_INCREASE :: nat where
  "MAX_PERMITTED_DATA_INCREASE = 10240"

definition resize_served_law :: "runtime \<Rightarrow> bool" where
  "resize_served_law rt \<longleftrightarrow>
     (\<forall>k n L. n \<le> MAX_ACCOUNT_SIZE \<longrightarrow>
        n \<le> length (acc_data (L k)) + MAX_PERMITTED_DATA_INCREASE \<longrightarrow> (\<exists>L'. resize rt k n L = Ok L'))"

definition verifier_law :: "runtime \<Rightarrow> bool" where
  "verifier_law rt \<longleftrightarrow>
     (\<forall>vk a b c public. groth16_verify rt vk a b c public \<longrightarrow>
        length public = nr_pubinputs vk \<and> list_all field_elem public)"

definition runtime_laws :: "runtime \<Rightarrow> bool" where
  "runtime_laws rt \<longleftrightarrow>
     system_transfer_law rt \<and> create_account_law rt \<and> token_transfer_law rt \<and> resize_law rt \<and>
     verifier_law rt"

lemma runtime_lawsD:
  assumes "runtime_laws rt"
  shows "system_transfer_law rt" and "create_account_law rt" and "token_transfer_law rt"
    and "resize_law rt" and "verifier_law rt"
  using assms by (simp_all add: runtime_laws_def)

section \<open>The laws as rules\<close>

lemma system_transfer_frame:
  assumes "system_transfer_law rt" and "cpi rt ix infos seeds L = Ok L'"
    and "ix_program ix = SYSTEM_PROGRAM" and "take 4 (ix_data ix) = u32_to_le 2"
  shows "changes_only {} L L'"
  using assms unfolding system_transfer_law_def by blast

lemma create_account_spec:
  assumes "create_account_law rt"
    and "cpi rt (create_account_ix payer new lamports space owner) infos seeds L = Ok L'"
  shows "acc_owner (L new) = SYSTEM_PROGRAM"
    and "acc_data (L' new) = replicate (unat space) 0" and "acc_owner (L' new) = owner"
    and "k \<noteq> new \<Longrightarrow> acc_data (L' k) = acc_data (L k)"
    and "k \<noteq> new \<Longrightarrow> acc_owner (L' k) = acc_owner (L k)"
  using assms unfolding create_account_law_def by blast+

lemma token_transfer_spec:
  assumes "token_transfer_law rt" and "cpi rt (token_transfer_ix s d a n) infos seeds L = Ok L'"
  shows "acc_owner (L s) = SPL_TOKEN_PROGRAM_ID" and "acc_owner (L d) = SPL_TOKEN_PROGRAM_ID"
    and "token_owner (acc_data (L s)) = a \<or> token_delegate (acc_data (L s)) = Some a"
    and "changes_only {s, d} L L'"
    and "sub (acc_data (L' k)) 0 64 = sub (acc_data (L k)) 0 64"
    and "token_delegate (acc_data (L k)) = None \<Longrightarrow> token_delegate (acc_data (L' k)) = None"
    and "unat n \<le> token_amount (acc_data (L s))"
    and "s \<noteq> d \<Longrightarrow> token_amount (acc_data (L' s)) = token_amount (acc_data (L s)) - unat n"
    and "s \<noteq> d \<Longrightarrow> token_amount (acc_data (L' d)) = token_amount (acc_data (L d)) + unat n"
    and "s = d \<Longrightarrow> token_amount (acc_data (L' s)) = token_amount (acc_data (L s))"
  using assms unfolding token_transfer_law_def by blast+

lemma resize_spec:
  assumes "resize_law rt" and "resize rt k n L = Ok L'"
  shows "n \<le> MAX_ACCOUNT_SIZE"
    and "L' = set_data L k (take n (acc_data (L k)) @ replicate (n - length (acc_data (L k))) 0)"
  using assms unfolding resize_law_def by blast+

lemma transfer_served:
  assumes "transfer_served_law rt" and "\<lparr>ai_key = payer, is_signer = True\<rparr> \<in> set infos"
    and "{dest, SYSTEM_PROGRAM} \<subseteq> ai_key ` set infos" and "acc_owner (L payer) = SYSTEM_PROGRAM"
    and "acc_data (L payer) = []" and "n \<le> acc_lamports (L payer)"
    and "unat (acc_lamports (L dest)) + unat n < 2 ^ 64"
  obtains L' where "cpi rt (system_transfer_ix payer dest n) infos [] L = Ok L'"
  using assms unfolding transfer_served_law_def by blast

lemma resize_served:
  assumes "resize_served_law rt" and "n \<le> MAX_ACCOUNT_SIZE"
    and "n \<le> length (acc_data (L k)) + MAX_PERMITTED_DATA_INCREASE"
  obtains L' where "resize rt k n L = Ok L'"
  using assms unfolding resize_served_law_def by blast

lemma verifier_fields:
  assumes "verifier_law rt" and "groth16_verify rt vk a b c public"
  shows "x \<in> set public \<Longrightarrow> field_elem x"
  using assms by (auto simp: verifier_law_def list_all_iff)

end
