(* ===== verification/Pool_Nullifiers.thy ===== *)
theory Pool_Nullifiers
  imports Nullifier_Set Pool_Tree Runtime_Laws
begin

text \<open>
  The nullifier account of the on-chain program (\<open>programs/opaq/src/lib.rs\<close>): its borsh layout,
  \<open>nullifier_contains\<close> and \<open>nullifier_append\<close> with the rent top-up both growing accounts share.
  The account's bytes are the serialisation of a list of nullifiers (\<open>nullifiers_hold\<close>); the scan
  decides membership in that list, and the append extends it. Offsets computed from the account's
  own counter are \<open>u64\<close> arithmetic, which wraps as in a release build.
\<close>

section \<open>Layout and operations\<close>

definition OFF_NULLIFIERS :: nat where
  "OFF_NULLIFIERS = 12"

definition NULLIFIER_INIT_SIZE :: nat where
  "NULLIFIER_INIT_SIZE = 8 + 4"

text \<open>The borsh serialisation of \<open>NullifierSet\<close>: the count, then the vector with its length.\<close>

definition nullifier_set_bytes :: "bytes32 list \<Rightarrow> bytes" where
  "nullifier_set_bytes ns =
     u64_to_le (word_of_nat (length ns)) @ u32_to_le (word_of_nat (length ns)) @
     concat (map b32_bytes ns)"

definition nullifier_contains :: "bytes \<Rightarrow> bytes32 \<Rightarrow> (program_error, bool) outcome" where
  "nullifier_contains data n =
     and_then (read_at data 0 8) (\<lambda>c.
       let count = unat (u64_from_le c)
       in any_slot data n (map (\<lambda>i. OFF_NULLIFIERS + i * 32) [0..<count]))"

text \<open>
  The rent top-up of \<open>nullifier_append\<close> and \<open>xpending_append\<close>: a System Program transfer of the
  missing lamports.
\<close>

definition fund_rent ::
    "runtime \<Rightarrow> account_info \<Rightarrow> account_info \<Rightarrow> account_info \<Rightarrow> nat \<Rightarrow> ledger
      \<Rightarrow> (program_error, ledger) outcome" where
  "fund_rent rt payer acct system new_len L =
     and_then (rent_get rt) (\<lambda>minimum_balance.
       let needed = minimum_balance new_len; have_now = acc_lamports (L (ai_key acct))
       in if have_now < needed
          then cpi rt
                 \<lparr>ix_program = SYSTEM_PROGRAM,
                  ix_accounts = [meta_new (ai_key payer) True, meta_new (ai_key acct) False],
                  ix_data = u32_to_le 2 @ u64_to_le (needed - have_now)\<rparr>
                 [payer, acct, system] [] L
          else Ok L)"

definition nullifier_append ::
    "runtime \<Rightarrow> account_info \<Rightarrow> account_info \<Rightarrow> account_info \<Rightarrow> bytes32 \<Rightarrow> ledger
      \<Rightarrow> (program_error, ledger) outcome" where
  "nullifier_append rt payer nf system nullifier L =
     and_then (read_at (data_of L nf) 0 8) (\<lambda>c.
       let count = u64_from_le c;
           new_len = unat (word_of_nat OFF_NULLIFIERS + (count + 1) * 32)
       in and_then (fund_rent rt payer nf system new_len L) (\<lambda>L.
          and_then (resize rt (ai_key nf) new_len L) (\<lambda>L.
            let off = unat (word_of_nat OFF_NULLIFIERS + count * 32); count2 = count + 1
            in and_then (write32 (data_of L nf) off nullifier) (\<lambda>data.
               and_then (write_at data 0 (u64_to_le count2)) (\<lambda>data.
               and_then (write_at data 8 (u32_to_le (ucast count2))) (\<lambda>data.
                 Ok (set_data L (ai_key nf) data)))))))"

section \<open>What the bytes hold\<close>

definition nullifiers_hold :: "bytes \<Rightarrow> bytes32 list \<Rightarrow> bool" where
  "nullifiers_hold data ns \<longleftrightarrow>
     data = nullifier_set_bytes ns \<and> length data \<le> MAX_ACCOUNT_SIZE \<and> distinct ns"

lemma length_nullifier_set_bytes [simp]: "length (nullifier_set_bytes ns) = 12 + length ns * 32"
  by (simp add: nullifier_set_bytes_def)

lemma unat_count:
  assumes "n \<le> MAX_ACCOUNT_SIZE"
  shows "unat (word_of_nat n :: u64) = n"
  using assms by (simp add: unat_of_nat MAX_ACCOUNT_SIZE_def)

lemma nullifier_contains_iff:
  assumes "nullifiers_hold data ns"
  shows "nullifier_contains data n = Ok (n \<in> set ns)"
proof -
  have data: "data = (u64_to_le (word_of_nat (length ns)) @ u32_to_le (word_of_nat (length ns))) @
      concat (map b32_bytes ns) @ []" and len: "length data = 12 + length ns * 32"
    and small: "length ns \<le> MAX_ACCOUNT_SIZE"
    using assms by (auto simp: nullifiers_hold_def nullifier_set_bytes_def)
  have "sub data 0 8 = u64_to_le (word_of_nat (length ns))"
    by (simp add: data sub_prefix)
  then have c: "unat (u64_from_le (sub data 0 8)) = length ns"
    by (simp add: unat_count small)
  let ?offs = "map (\<lambda>i. OFF_NULLIFIERS + i * 32) [0..<length ns]"
  have slot: "b32_at data (12 + i * 32) = ns ! i" if "i < length ns" for i
    using b32_table_at [of "u64_to_le (word_of_nat (length ns)) @ u32_to_le (word_of_nat (length ns))"
        12 i ns "[]"] that by (simp add: data)
  have "off + 32 \<le> length data" if "off \<in> set ?offs" for off
    using that stride_le [of _ "length ns" 32] by (auto simp: len OFF_NULLIFIERS_def)
  then have "any_slot data n ?offs = Ok (n \<in> b32_at data ` set ?offs)"
    by (rule any_slot_iff)
  moreover have "b32_at data ` set ?offs = set ns"
    by (force simp: OFF_NULLIFIERS_def slot set_conv_nth image_iff)
  ultimately show ?thesis
    using len by (simp add: nullifier_contains_def c)
qed

section \<open>Appending\<close>

lemma fund_rent_frame:
  assumes "system_transfer_law rt" and "fund_rent rt payer acct system n L = Ok L'"
  shows "changes_only {} L L'"
proof -
  obtain mb where mb: "rent_get rt = Inr mb"
    using assms(2) by (auto simp: fund_rent_def elim: and_then_okE)
  show ?thesis
  proof (cases "acc_lamports (L (ai_key acct)) < mb n")
    case True
    with assms(2) mb have "\<exists>ix. cpi rt ix [payer, acct, system] [] L = Ok L' \<and>
        ix_program ix = SYSTEM_PROGRAM \<and> take 4 (ix_data ix) = u32_to_le 2"
      by (simp add: fund_rent_def Let_def) (rule exI, rule conjI, assumption, simp)
    then show ?thesis
      by (elim exE conjE) (rule system_transfer_frame [OF assms(1)])
  next
    case False
    with assms(2) mb show ?thesis by (simp add: fund_rent_def Let_def)
  qed
qed

text \<open>A payer that can cover the missing lamports does.\<close>

lemma fund_rent_succeeds:
  assumes "transfer_served_law rt" and "rent_get rt = Ok minimum_balance"
    and "payer = \<lparr>ai_key = k, is_signer = True\<rparr>" and "ai_key system = SYSTEM_PROGRAM"
    and "acc_owner (L k) = SYSTEM_PROGRAM" and "acc_data (L k) = []"
    and "unat (minimum_balance n) \<le> unat (acc_lamports (L k)) + unat (acc_lamports (L (ai_key acct)))"
  obtains L' where "fund_rent rt payer acct system n L = Ok L'"
proof (cases "acc_lamports (L (ai_key acct)) < minimum_balance n")
  case True
  define m where "m = minimum_balance n - acc_lamports (L (ai_key acct))"
  have m: "unat m = unat (minimum_balance n) - unat (acc_lamports (L (ai_key acct)))"
    using True by (simp add: m_def unat_sub order.strict_implies_order)
  have "m \<le> acc_lamports (L k)" "unat (acc_lamports (L (ai_key acct))) + unat m < 2 ^ 64"
    using assms(7) True m unat_bound [of "minimum_balance n"] by (simp_all add: word_le_nat_alt word_less_nat_alt)
  then obtain L' where "cpi rt (system_transfer_ix k (ai_key acct) m) [payer, acct, system] [] L = Ok L'"
    by (rule transfer_served [OF assms(1), rotated 4]) (use assms(3-6) in auto)
  then show ?thesis
    using that True assms(2,3) by (simp add: fund_rent_def Let_def system_transfer_ix_def m_def)
qed (use that assms(2) in \<open>simp add: fund_rent_def Let_def\<close>)

text \<open>Growing an account by \<open>s\<close> bytes after the top-up.\<close>

lemma fund_and_grow:
  assumes "system_transfer_law rt" and "resize_law rt"
    and "fund_rent rt payer a system n L = Ok L1" and "resize rt (ai_key a) n L1 = Ok L2"
    and "length (acc_data (L (ai_key a))) + s = n"
  shows "n \<le> MAX_ACCOUNT_SIZE"
    and "acc_data (L2 (ai_key a)) = acc_data (L (ai_key a)) @ replicate s 0"
    and "changes_only {ai_key a} L L2"
proof -
  have f: "changes_only {} L L1"
    by (rule fund_rent_frame [OF assms(1,3)])
  have d: "acc_data (L1 (ai_key a)) = acc_data (L (ai_key a))"
    using changes_onlyD(2) [OF f] by simp
  show "n \<le> MAX_ACCOUNT_SIZE"
    by (rule resize_spec(1) [OF assms(2,4)])
  note L2 = resize_spec(2) [OF assms(2,4)]
  show "acc_data (L2 (ai_key a)) = acc_data (L (ai_key a)) @ replicate s 0"
    using assms(5) [symmetric] by (simp add: L2 d)
  show "changes_only {ai_key a} L L2"
    using changes_only_trans [OF f changes_only_set_data] by (simp add: L2)
qed

lemma nullifier_set_bytes_append:
  "patch (patch (patch (nullifier_set_bytes ns @ replicate 32 0) (12 + length ns * 32) (b32_bytes n))
      0 (u64_to_le (word_of_nat (Suc (length ns))))) 8 (u32_to_le (word_of_nat (Suc (length ns))))
    = nullifier_set_bytes (ns @ [n])"
proof -
  let ?c = "word_of_nat (length ns) :: u64" and ?v = "word_of_nat (length ns) :: u32"
  have "patch (nullifier_set_bytes ns @ replicate 32 0) (12 + length ns * 32) (b32_bytes n) =
      nullifier_set_bytes ns @ b32_bytes n"
    using patch_append [of "nullifier_set_bytes ns" "12 + length ns * 32" "replicate 32 0" "b32_bytes n"]
    by (simp only: length_nullifier_set_bytes length_encodings drop_all length_replicate order_refl
        append_Nil2 simp_thms)
  then show ?thesis
    by (simp add: nullifier_set_bytes_def patch_prefix patch_middle)
qed

text \<open>On a well-formed account the offsets are those of the table's end.\<close>

lemma nullifier_append_eq:
  assumes "nullifiers_hold (data_of L nf) ns"
  shows "nullifier_append rt payer nf system n L =
    and_then (fund_rent rt payer nf system (length (data_of L nf) + 32) L) (\<lambda>L1.
    and_then (resize rt (ai_key nf) (length (data_of L nf) + 32) L1) (\<lambda>L2.
    and_then (write32 (data_of L2 nf) (12 + length ns * 32) n) (\<lambda>data.
    and_then (write_at data 0 (u64_to_le (word_of_nat (length ns) + 1))) (\<lambda>data.
    and_then (write_at data 8 (u32_to_le (ucast (word_of_nat (length ns) + 1 :: u64)))) (\<lambda>data.
      Ok (set_data L2 (ai_key nf) data))))))"
proof -
  let ?c = "word_of_nat (length ns) :: u64" and ?d = "nullifier_set_bytes ns"
  have d: "acc_data (L (ai_key nf)) = ?d" and max: "12 + length ns * 32 \<le> 10485760"
    using assms by (auto simp: nullifiers_hold_def data_of_def MAX_ACCOUNT_SIZE_def)
  have cnt: "u64_from_le (sub ?d 0 8) = ?c"
    by (simp add: nullifier_set_bytes_def sub_prefix)
  have off: "unat (word_of_nat OFF_NULLIFIERS + ?c * 32) = 12 + length ns * 32"
    and grown: "unat (word_of_nat OFF_NULLIFIERS + (?c + 1) * 32) = length ?d + 32"
    using unat_offset [of OFF_NULLIFIERS "length ns" 32]
      unat_offset [of OFF_NULLIFIERS "Suc (length ns)" 32] max
    by (simp_all add: OFF_NULLIFIERS_def add.commute)
  have rd: "read_at ?d 0 8 = (Ok (sub ?d 0 8) :: (program_error, bytes) outcome)"
    by simp
  show ?thesis
    by (simp only: nullifier_append_def data_of_def d rd and_then_simps Let_def cnt off grown)
qed

lemma nullifier_append_holds:
  assumes "system_transfer_law rt" and "resize_law rt"
    and "nullifiers_hold (data_of L nf) ns" and "n \<notin> set ns"
    and "nullifier_append rt payer nf system n L = Ok L'"
  shows "nullifiers_hold (data_of L' nf) (ns @ [n]) \<and> changes_only {ai_key nf} L L'"
proof -
  let ?c = "word_of_nat (length ns) :: u64" and ?d = "nullifier_set_bytes ns"
  have d: "acc_data (L (ai_key nf)) = ?d" and max: "12 + length ns * 32 \<le> 10485760"
    and dist: "distinct ns"
    using assms(3) by (auto simp: nullifiers_hold_def data_of_def MAX_ACCOUNT_SIZE_def)
  obtain L1 L2 where fund: "fund_rent rt payer nf system (length ?d + 32) L = Ok L1"
    and grow: "resize rt (ai_key nf) (length ?d + 32) L1 = Ok L2"
    and L': "L' = set_data L2 (ai_key nf)
        (patch (patch (patch (data_of L2 nf) (12 + length ns * 32) (b32_bytes n)) 0
           (u64_to_le (?c + 1))) 8 (u32_to_le (ucast (?c + 1))))"
    using assms(5) unfolding nullifier_append_eq [OF assms(3)] data_of_def d
    by (elim and_then_okE) (simp only: write32_def write_at_Ok_iff sum.inject)
  note g = fund_and_grow [OF assms(1,2) fund grow, of 32, unfolded d]
  have "take_bit LENGTH(64) (Suc (length ns)) = Suc (length ns)"
    using max by (intro take_bit_nat_eq_self) simp
  then have "(ucast (?c + 1) :: u32) = word_of_nat (Suc (length ns))"
    using unsigned_of_nat [of "Suc (length ns)", where 'b = 64 and 'a = "32 word"]
    by (simp only: of_nat_Suc add.commute)
  then have "acc_data (L' (ai_key nf)) = nullifier_set_bytes (ns @ [n])"
    using g(2) nullifier_set_bytes_append [of ns n] by (simp add: L' data_of_def add.commute)
  then have "nullifiers_hold (data_of L' nf) (ns @ [n])"
    using g(1) dist assms(4) by (simp add: nullifiers_hold_def data_of_def)
  moreover have "changes_only {ai_key nf} L L'"
    unfolding L' by (intro changes_only_then_set g(3) singletonI refl)
  ultimately show ?thesis ..
qed

text \<open>The append succeeds whenever the top-up and the resize do.\<close>

lemma nullifier_append_succeeds:
  assumes "system_transfer_law rt" and "resize_law rt" and "nullifiers_hold (data_of L nf) ns"
    and "fund_rent rt payer nf system (length (data_of L nf) + 32) L = Ok L1"
    and "resize rt (ai_key nf) (length (data_of L nf) + 32) L1 = Ok L2"
  shows "\<exists>L'. nullifier_append rt payer nf system n L = Ok L'"
proof -
  have "length (data_of L2 nf) = 12 + length ns * 32 + 32"
    using fund_and_grow(2) [OF assms(1,2) assms(4,5), of 32] assms(3)
    by (simp add: data_of_def nullifiers_hold_def)
  then show ?thesis
    by (simp add: nullifier_append_eq [OF assms(3)] assms(4,5))
qed

section \<open>The interface on the account\<close>

text \<open>
  The double-spend check and the append, as the spending handlers have them in sequence.
\<close>

definition check_and_append ::
    "runtime \<Rightarrow> account_info \<Rightarrow> account_info \<Rightarrow> account_info \<Rightarrow> ledger \<Rightarrow> bytes32
      \<Rightarrow> (program_error, ledger) outcome" where
  "check_and_append rt payer nf system L nullifier =
     and_then (nullifier_contains (data_of L nf) nullifier) (\<lambda>b.
     and_then (reject_if b (Custom E_ALREADY_SPENT)) (\<lambda>_.
       nullifier_append rt payer nf system nullifier L))"

definition nullifier_account :: "runtime \<Rightarrow> pubkey \<Rightarrow> ledger \<Rightarrow> bytes32 list \<Rightarrow> bool" where
  "nullifier_account rt k L ns \<longleftrightarrow> runtime_laws rt \<and> nullifiers_hold (acc_data (L k)) ns"

lemma nullifier_append_account:
  assumes "nullifier_account rt (ai_key nf) L ns" and "n \<notin> set ns"
    and "nullifier_append rt payer nf system n L = Ok L'"
  shows "nullifier_account rt (ai_key nf) L' (ns @ [n])" and "changes_only {ai_key nf} L L'"
proof -
  have l: "runtime_laws rt" "nullifiers_hold (data_of L nf) ns"
    using assms(1) by (simp_all add: nullifier_account_def data_of_def)
  have h: "nullifiers_hold (data_of L' nf) (ns @ [n]) \<and> changes_only {ai_key nf} L L'"
    by (rule nullifier_append_holds [OF runtime_lawsD(1,4) [OF l(1)] l(2) assms(2,3)])
  then show "changes_only {ai_key nf} L L'" ..
  with h l(1) show "nullifier_account rt (ai_key nf) L' (ns @ [n])"
    by (simp add: nullifier_account_def data_of_def)
qed

lemma nullifier_account_contains:
  "nullifier_account rt (ai_key nf) L ns \<Longrightarrow>
    nullifier_contains (data_of L nf) n = Ok (n \<in> set ns)"
  by (simp add: nullifier_account_def data_of_def nullifier_contains_iff)

lemma check_and_append_account:
  assumes "nullifier_account rt (ai_key nf) L ns"
    and "check_and_append rt payer nf system L n = Ok L'"
  shows "n \<notin> set ns" and "nullifier_account rt (ai_key nf) L' (ns @ [n])"
    and "changes_only {ai_key nf} L L'"
proof -
  have n: "n \<notin> set ns" and a: "nullifier_append rt payer nf system n L = Ok L'"
    using assms(2) by (simp_all add: check_and_append_def nullifier_account_contains [OF assms(1)]
        reject_if_def split: if_splits)
  then show "n \<notin> set ns" by simp
  from nullifier_append_account [OF assms(1) n a]
  show "nullifier_account rt (ai_key nf) L' (ns @ [n])" and "changes_only {ai_key nf} L L'" .
qed

lemma check_and_append_spent:
  assumes "nullifier_account rt (ai_key nf) L ns" and "n \<in> set ns"
  shows "check_and_append rt payer nf system L n = Err (Custom E_ALREADY_SPENT)"
  using assms(2) by (simp add: check_and_append_def nullifier_account_contains [OF assms(1)])

interpretation pool_nullifiers:
  nullifier_store "\<lambda>L n. nullifier_contains (data_of L nf) n = Ok True"
    "check_and_append rt payer nf system" "Custom E_ALREADY_SPENT"
    "nullifier_account rt (ai_key nf)" for rt payer nf system
  by standard
    (auto simp: nullifier_account_contains check_and_append_spent
      dest: check_and_append_account)

end
