(* ===== verification/Pool_Spec.thy ===== *)
theory Pool_Spec
  imports Commitment_Tree
begin

text \<open>
  What the pool promises, without accounts and bytes: a state machine over the inserted leaves, the
  spent nullifiers and the registry of attested cross-chain burns. \<open>pool_step\<close> is one successful
  instruction, \<open>pool_run\<close> a sequence of them. The safety theorems of the pool are proved here once,
  by rule induction; \<open>Pool_Safety\<close> shows that the on-chain program is a refinement of this machine.
\<close>

section \<open>State and actions\<close>

record xburn_entry =
  xe_nullifier :: bytes32
  xe_expected :: bytes32
  xe_minted :: bool

definition fresh_entry :: "bytes32 \<Rightarrow> bytes32 \<Rightarrow> xburn_entry" where
  "fresh_entry n h = \<lparr>xe_nullifier = n, xe_expected = h, xe_minted = False\<rparr>"

definition mark_minted :: "bytes32 \<Rightarrow> xburn_entry list \<Rightarrow> xburn_entry list" where
  "mark_minted n = map (\<lambda>e. if xe_nullifier e = n then e\<lparr>xe_minted := True\<rparr> else e)"

record pool =
  leaves :: "bytes32 list"
  spent :: "bytes32 list"
  registry :: "(pubkey \<times> xburn_entry list) option"

datatype action =
  Deposit bytes32 u64 bytes32
| Withdraw bytes32 bytes32 bytes32 u64 bytes32
| Transfer bytes32 bytes32 bytes32 bytes32 bytes32
| Burn bytes32 bytes32 bytes32 u64 bytes32 bytes32
| InitRegistry pubkey
| Attest pubkey bytes32 bytes32 bytes32
| Mint bytes32 bytes32 bytes32 bytes32
| Xburn bytes32 bytes32 bytes32 bytes32

text \<open>The nullifiers an action records and the commitments it inserts.\<close>

fun action_spends :: "action \<Rightarrow> bytes32 list" where
  "action_spends (Withdraw r n token amount recipient) = [n]"
| "action_spends (Transfer r n0 n1 c0 c1) = [n0, n1]"
| "action_spends (Burn r n token amount chain address) = [n]"
| "action_spends (Xburn r n chain c) = [n]"
| "action_spends _ = []"

fun action_inserts :: "action \<Rightarrow> bytes32 list" where
  "action_inserts (Deposit token amount c) = [c]"
| "action_inserts (Transfer r n0 n1 c0 c1) = [c0, c1]"
| "action_inserts (Mint r n chain c) = [c]"
| "action_inserts _ = []"

fun action_mints :: "action \<Rightarrow> bytes32 list" where
  "action_mints (Mint r n chain c) = [n]"
| "action_mints _ = []"

definition spends_of :: "action list \<Rightarrow> bytes32 list" where
  "spends_of as = concat (map action_spends as)"

definition inserts_of :: "action list \<Rightarrow> bytes32 list" where
  "inserts_of as = concat (map action_inserts as)"

definition mints_of :: "action list \<Rightarrow> bytes32 list" where
  "mints_of as = concat (map action_mints as)"

lemma history_simps [simp]:
  "spends_of [] = []" "spends_of (as @ bs) = spends_of as @ spends_of bs"
  "spends_of (a # as) = action_spends a @ spends_of as"
  "inserts_of [] = []" "inserts_of (as @ bs) = inserts_of as @ inserts_of bs"
  "inserts_of (a # as) = action_inserts a @ inserts_of as"
  "mints_of [] = []" "mints_of (as @ bs) = mints_of as @ mints_of bs"
  "mints_of (a # as) = action_mints a @ mints_of as"
  by (simp_all add: spends_of_def inserts_of_def mints_of_def)

text \<open>The roots a spend may refer to: those of the last 32 states of the tree.\<close>

definition recent_root :: "hash2_fun \<Rightarrow> bytes32 list \<Rightarrow> bytes32 \<Rightarrow> bool" where
  "recent_root H ls r \<longleftrightarrow> r \<noteq> 0 \<and>
     (\<exists>m \<le> length ls. length ls < m + ROOT_HISTORY \<and> r = merkle_root H (take m ls))"

section \<open>Steps and runs\<close>

inductive pool_step :: "poseidon \<Rightarrow> hash2_fun \<Rightarrow> action \<Rightarrow> pool \<Rightarrow> pool \<Rightarrow> bool"
  for P :: poseidon and H :: hash2_fun where
  deposit: "pool_step P H (Deposit token amount c) s (s\<lparr>leaves := leaves s @ [c]\<rparr>)"
| withdraw: "recent_root H (leaves s) r \<Longrightarrow> n \<notin> set (spent s) \<Longrightarrow>
    pool_step P H (Withdraw r n token amount recipient) s (s\<lparr>spent := spent s @ [n]\<rparr>)"
| transfer: "recent_root H (leaves s) r \<Longrightarrow> n0 \<notin> set (spent s) \<Longrightarrow> n1 \<notin> set (spent s) \<Longrightarrow> n0 \<noteq> n1 \<Longrightarrow>
    pool_step P H (Transfer r n0 n1 c0 c1) s
      (s\<lparr>spent := spent s @ [n0, n1], leaves := leaves s @ [c0, c1]\<rparr>)"
| burn: "recent_root H (leaves s) r \<Longrightarrow> n \<notin> set (spent s) \<Longrightarrow>
    pool_step P H (Burn r n token amount chain address) s (s\<lparr>spent := spent s @ [n]\<rparr>)"
| xburn: "recent_root H (leaves s) r \<Longrightarrow> n \<notin> set (spent s) \<Longrightarrow>
    pool_step P H (Xburn r n chain c) s (s\<lparr>spent := spent s @ [n]\<rparr>)"
| init_registry: "registry s = None \<Longrightarrow>
    pool_step P H (InitRegistry op) s (s\<lparr>registry := Some (op, [])\<rparr>)"
| attest: "registry s = Some (op, es) \<Longrightarrow> n \<notin> xe_nullifier ` set es \<Longrightarrow> P [chain, c] = Some h \<Longrightarrow>
    pool_step P H (Attest op n chain c) s (s\<lparr>registry := Some (op, es @ [fresh_entry n h])\<rparr>)"
| mint: "registry s = Some (op, es) \<Longrightarrow> e \<in> set es \<Longrightarrow> xe_nullifier e = n \<Longrightarrow> \<not> xe_minted e \<Longrightarrow>
    P [chain, c] = Some (xe_expected e) \<Longrightarrow>
    pool_step P H (Mint r n chain c) s
      (s\<lparr>leaves := leaves s @ [c], registry := Some (op, mark_minted n es)\<rparr>)"

inductive_cases pool_step_MintE: "pool_step P H (Mint r n chain c) s s'"
inductive_cases pool_step_TransferE: "pool_step P H (Transfer r n0 n1 c0 c1) s s'"

inductive pool_run :: "poseidon \<Rightarrow> hash2_fun \<Rightarrow> pool \<Rightarrow> action list \<Rightarrow> pool \<Rightarrow> bool"
  for P :: poseidon and H :: hash2_fun and s0 :: pool where
  run_nil: "pool_run P H s0 [] s0"
| run_snoc: "pool_run P H s0 as s \<Longrightarrow> pool_step P H a s s' \<Longrightarrow> pool_run P H s0 (as @ [a]) s'"

inductive_simps pool_run_snoc_iff: "pool_run P H s0 (as @ [a]) s"
inductive_simps pool_run_Nil_iff [simp]: "pool_run P H s0 [] s"

section \<open>Safety of every run\<close>

lemma step_spent:
  assumes "pool_step P H a s s'"
  shows "spent s' = spent s @ action_spends a" and "leaves s' = leaves s @ action_inserts a"
    and "distinct (spent s) \<Longrightarrow> distinct (spent s')"
  using assms by (cases rule: pool_step.cases; simp)+

lemma run_history:
  assumes "pool_run P H s0 as s"
  shows "spent s = spent s0 @ spends_of as" and "leaves s = leaves s0 @ inserts_of as"
    and "distinct (spent s0) \<Longrightarrow> distinct (spent s)"
proof -
  show "spent s = spent s0 @ spends_of as"
    using assms by induction (simp_all add: step_spent)
  show "leaves s = leaves s0 @ inserts_of as"
    using assms by induction (simp_all add: step_spent)
  show "distinct (spent s)" if "distinct (spent s0)"
    using assms that by induction (auto dest: step_spent(3))
qed

lemma run_prefix:
  assumes "pool_run P H s0 (as @ bs) s"
  shows "\<exists>s1. pool_run P H s0 as s1 \<and> pool_run P H s1 bs s"
  using assms
proof (induction bs arbitrary: s rule: rev_induct)
  case Nil
  then show ?case by auto
next
  case (snoc b bs)
  then have "pool_run P H s0 ((as @ bs) @ [b]) s" by simp
  from this [unfolded pool_run_snoc_iff] obtain s2
    where "pool_run P H s0 (as @ bs) s2" and b: "pool_step P H b s2 s"
    by blast
  with snoc.IH obtain s1 where "pool_run P H s0 as s1" and "pool_run P H s1 bs s2"
    by blast
  with b show ?case by (blast intro: run_snoc)
qed

subsection \<open>The registry\<close>

lemma mark_minted_nullifiers [simp]: "map xe_nullifier (mark_minted n es) = map xe_nullifier es"
  by (simp add: mark_minted_def)

lemma mark_minted_elim:
  assumes "e' \<in> set (mark_minted n es)"
  obtains e where "e \<in> set es" and "xe_nullifier e' = xe_nullifier e"
    and "xe_expected e' = xe_expected e" and "xe_minted e' \<longleftrightarrow> xe_minted e \<or> xe_nullifier e = n"
  using assms by (auto simp: mark_minted_def split: if_splits)

lemma mark_minted_keys: "xe_nullifier ` set (mark_minted n es) = xe_nullifier ` set es"
  by (metis mark_minted_nullifiers image_set)

text \<open>
  \<open>explained P as op es\<close>: every entry comes from an attestation by the operator in \<open>as\<close> for the
  expected hash, nullifiers are listed once, an entry is marked iff its nullifier was minted in
  \<open>as\<close>, and no nullifier was minted twice.
\<close>

definition attested :: "poseidon \<Rightarrow> action list \<Rightarrow> pubkey \<Rightarrow> bytes32 \<Rightarrow> bytes32 \<Rightarrow> bool" where
  "attested P as op n h \<longleftrightarrow>
     (\<exists>chain c. Attest op n chain c \<in> set as \<and> P [chain, c] = Some h)"

definition explained :: "poseidon \<Rightarrow> action list \<Rightarrow> pubkey \<Rightarrow> xburn_entry list \<Rightarrow> bool" where
  "explained P as op es \<longleftrightarrow>
     InitRegistry op \<in> set as \<and> distinct (map xe_nullifier es) \<and>
     (\<forall>e \<in> set es. attested P as op (xe_nullifier e) (xe_expected e) \<and>
        (xe_minted e \<longleftrightarrow> xe_nullifier e \<in> set (mints_of as))) \<and>
     set (mints_of as) \<subseteq> xe_nullifier ` set es \<and> distinct (mints_of as)"

lemma attested_more: "attested P as op n h \<Longrightarrow> attested P (as @ bs) op n h"
  by (auto simp: attested_def)

lemma explained_more:
  assumes "explained P as op es" and "action_mints a = []"
  shows "explained P (as @ [a]) op es"
  using assms by (auto simp: explained_def attested_more)

lemma explained_attest:
  assumes "explained P as op es" and "n \<notin> xe_nullifier ` set es" and "P [chain, c] = Some h"
  shows "explained P (as @ [Attest op n chain c]) op (es @ [fresh_entry n h])"
proof -
  have "attested P (as @ [Attest op n chain c]) op n h"
    using assms(3) by (auto simp: attested_def)
  then show ?thesis
    using assms(1,2) by (auto simp: explained_def fresh_entry_def attested_more)
qed

lemma explained_mint:
  assumes "explained P as op es" and "e \<in> set es" and "xe_nullifier e = n" and "\<not> xe_minted e"
  shows "explained P (as @ [Mint r n chain c]) op (mark_minted n es)"
proof -
  have fresh: "n \<notin> set (mints_of as)" and n: "n \<in> xe_nullifier ` set es"
    using assms by (auto simp: explained_def)
  have "attested P (as @ [Mint r n chain c]) op (xe_nullifier e') (xe_expected e') \<and>
      (xe_minted e' \<longleftrightarrow> xe_nullifier e' \<in> set (mints_of as) \<or> xe_nullifier e' = n)"
    if "e' \<in> set (mark_minted n es)" for e'
    using that assms(1) by (elim mark_minted_elim) (auto simp: explained_def attested_more)
  with assms(1) fresh n show ?thesis
    by (auto simp: explained_def mark_minted_keys)
qed

lemma run_registry:
  assumes "pool_run P H s0 as s" and "registry s0 = None"
  shows "case registry s of
      None \<Rightarrow> mints_of as = []
    | Some (op, es) \<Rightarrow> explained P as op es"
  using assms
proof induction
  case run_nil
  then show ?case by simp
next
  case (run_snoc as s a s')
  note IH = run_snoc.IH [OF run_snoc.prems]
  from run_snoc.hyps(2) show ?case
  proof (cases rule: pool_step.cases)
    case (init_registry op)
    with IH show ?thesis by (simp add: explained_def)
  next
    case (attest op es n chain c h)
    with IH show ?thesis by (simp add: explained_attest)
  next
    case (mint op es e n chain c r)
    with IH show ?thesis by (simp add: explained_mint)
  qed (use IH in \<open>auto intro: explained_more split: option.splits\<close>)
qed

text \<open>
  A mint is preceded by the operator's attestation of its nullifier for a tuple with the same
  hash, and no nullifier is minted twice.
\<close>

lemma run_mint_attested:
  assumes "pool_run P H s0 (as @ Mint r n chain c # bs) s" and "registry s0 = None"
  shows "\<exists>op h. InitRegistry op \<in> set as \<and> attested P as op n h \<and> P [chain, c] = Some h"
proof -
  have "pool_run P H s0 ((as @ [Mint r n chain c]) @ bs) s"
    using assms(1) by simp
  from run_prefix [OF this] obtain s2 where "pool_run P H s0 (as @ [Mint r n chain c]) s2"
    by blast
  from this [unfolded pool_run_snoc_iff] obtain s1
    where run: "pool_run P H s0 as s1" and step: "pool_step P H (Mint r n chain c) s1 s2"
    by blast
  from step show ?thesis
    using run_registry [OF run assms(2)] by (elim pool_step_MintE) (auto simp: explained_def)
qed

lemma run_mints_distinct:
  assumes "pool_run P H s0 as s" and "registry s0 = None"
  shows "distinct (mints_of as)"
  using run_registry [OF assms] by (auto simp: explained_def split: option.splits)

lemma run_spends_distinct:
  assumes "pool_run P H s0 as s" and "distinct (spent s0)"
  shows "distinct (spent s0 @ spends_of as)"
  using run_history(1,3) [OF assms(1)] assms(2) by simp

end
