(* ===== verification/Pool_Xburn.thy ===== *)
theory Pool_Xburn
  imports Pool_Nullifiers Pool_Spec
begin

text \<open>
  The \<open>XburnPending\<close> account of the on-chain program (\<open>programs/opaq/src/lib.rs\<close>): operator,
  counter and a table of 65-byte entries (source nullifier, expected hash, minted flag), with
  \<open>xpending_operator\<close>, \<open>xpending_count\<close>, \<open>xpending_find\<close>, \<open>xpending_expected_hash\<close> and
  \<open>xpending_append\<close>. \<open>xpending_hold\<close> says which entries the bytes stand for; the lemmas give
  every operation on that list of entries.
\<close>

section \<open>Layout and operations\<close>

definition XP_OFF_OPERATOR :: nat where "XP_OFF_OPERATOR = 0"
definition XP_OFF_COUNT :: nat where "XP_OFF_COUNT = 32"
definition XP_OFF_ENTRIES :: nat where "XP_OFF_ENTRIES = 40"
definition XP_ENTRY_SIZE :: nat where "XP_ENTRY_SIZE = 65"
definition XBURN_PENDING_INIT_SIZE :: nat where "XBURN_PENDING_INIT_SIZE = XP_OFF_ENTRIES"

lemmas xp_layout =
  XP_OFF_OPERATOR_def XP_OFF_COUNT_def XP_OFF_ENTRIES_def XP_ENTRY_SIZE_def

definition xpending_operator :: "bytes \<Rightarrow> (program_error, pubkey) outcome" where
  "xpending_operator data = read32 data XP_OFF_OPERATOR"

definition xpending_count :: "bytes \<Rightarrow> (program_error, u64) outcome" where
  "xpending_count data = map_ok u64_from_le (read_at data XP_OFF_COUNT 8)"

text \<open>\<open>find\<close> over the entry offsets: the slices are read until one matches.\<close>

fun find_slot :: "bytes \<Rightarrow> bytes32 \<Rightarrow> nat list \<Rightarrow> (program_error, nat option) outcome" where
  "find_slot data x [] = Ok None"
| "find_slot data x (off # offs) =
     and_then (read_at data off 32)
       (\<lambda>s. if s = b32_bytes x then Ok (Some off) else find_slot data x offs)"

definition xpending_find :: "bytes \<Rightarrow> bytes32 \<Rightarrow> (program_error, nat option) outcome" where
  "xpending_find data nullifier =
     and_then (xpending_count data) (\<lambda>c.
       find_slot data nullifier
         (map (\<lambda>i. XP_OFF_ENTRIES + i * XP_ENTRY_SIZE) [0..<unat c]))"

definition xpending_expected_hash :: "bytes \<Rightarrow> nat \<Rightarrow> (program_error, bytes32) outcome" where
  "xpending_expected_hash data entry_off = read32 data (entry_off + 32)"

definition xpending_append ::
    "runtime \<Rightarrow> account_info \<Rightarrow> account_info \<Rightarrow> account_info \<Rightarrow> bytes32 \<Rightarrow> bytes32 \<Rightarrow> ledger
      \<Rightarrow> (program_error, ledger) outcome" where
  "xpending_append rt payer xp system nullifier expected_hash L =
     and_then (xpending_count (data_of L xp)) (\<lambda>count.
       let new_len = unat (word_of_nat XP_OFF_ENTRIES + (count + 1) * word_of_nat XP_ENTRY_SIZE)
       in and_then (fund_rent rt payer xp system new_len L) (\<lambda>L.
          and_then (resize rt (ai_key xp) new_len L) (\<lambda>L.
            let off = unat (word_of_nat XP_OFF_ENTRIES + count * word_of_nat XP_ENTRY_SIZE);
                count2 = count + 1
            in and_then (write32 (data_of L xp) off nullifier) (\<lambda>data.
               and_then (write32 data (off + 32) expected_hash) (\<lambda>data.
               and_then (set_byte data (off + 64) 0) (\<lambda>data.
               and_then (write_at data XP_OFF_COUNT (u64_to_le count2)) (\<lambda>data.
                 Ok (set_data L (ai_key xp) data))))))))"

section \<open>What the bytes hold\<close>

definition entry_bytes :: "xburn_entry \<Rightarrow> bytes" where
  "entry_bytes e =
     b32_bytes (xe_nullifier e) @ b32_bytes (xe_expected e) @ [if xe_minted e then 1 else 0]"

definition xpending_bytes :: "pubkey \<Rightarrow> xburn_entry list \<Rightarrow> bytes" where
  "xpending_bytes op es =
     b32_bytes op @ u64_to_le (word_of_nat (length es)) @ concat (map entry_bytes es)"

definition xpending_hold :: "bytes \<Rightarrow> pubkey \<Rightarrow> xburn_entry list \<Rightarrow> bool" where
  "xpending_hold data op es \<longleftrightarrow>
     data = xpending_bytes op es \<and> length data \<le> MAX_ACCOUNT_SIZE \<and>
     distinct (map xe_nullifier es)"

lemma length_entry_bytes [simp]: "length (entry_bytes e) = 65"
  by (simp add: entry_bytes_def)

lemma length_entries [simp]: "length (concat (map entry_bytes es)) = length es * 65"
  by (induction es) auto

lemma length_xpending_bytes [simp]: "length (xpending_bytes op es) = 40 + length es * 65"
  by (simp add: xpending_bytes_def)

lemma entry_bound: "i < length es \<Longrightarrow> 40 + i * 65 + 65 \<le> length (xpending_bytes op es)"
  using stride_le [of i "length es" 65] by simp

lemma entry_slice:
  assumes "i < length es"
  shows "sub (xpending_bytes op es) (40 + i * 65) 65 = entry_bytes (es ! i)"
proof -
  have "sub (xpending_bytes op es) (40 + i * 65) 65 = sub (concat (map entry_bytes es)) (i * 65) 65"
    by (simp add: xpending_bytes_def sub_append_right)
  then show ?thesis
    using sub_chunk [of "map entry_bytes es" 65 i] assms by simp
qed

lemma entry_fields:
  assumes "i < length es"
  shows "b32_at (xpending_bytes op es) (40 + i * 65) = xe_nullifier (es ! i)"
    and "b32_at (xpending_bytes op es) (40 + i * 65 + 32) = xe_expected (es ! i)"
    and "xpending_bytes op es ! (40 + i * 65 + 64) = (if xe_minted (es ! i) then 1 else 0)"
proof -
  let ?d = "xpending_bytes op es" and ?o = "40 + i * 65"
  have s: "sub ?d ?o 65 = entry_bytes (es ! i)"
    by (rule entry_slice [OF assms])
  have "sub ?d ?o 32 = sub (entry_bytes (es ! i)) 0 32"
    using sub_sub [of 0 32 65 ?d ?o] by (simp add: s)
  then show "b32_at ?d ?o = xe_nullifier (es ! i)"
    by (simp add: b32_at_def entry_bytes_def sub_prefix)
  have "sub ?d (?o + 32) 32 = sub (entry_bytes (es ! i)) 32 32"
    using sub_sub [of 32 32 65 ?d ?o] by (simp add: s)
  then show "b32_at ?d (?o + 32) = xe_expected (es ! i)"
    by (simp add: b32_at_def entry_bytes_def sub_middle)
  have "sub ?d ?o 65 ! 64 = ?d ! (?o + 64)"
    using entry_bound [OF assms, of op] by (simp add: sub_def)
  then show "?d ! (?o + 64) = (if xe_minted (es ! i) then 1 else 0)"
    by (simp add: s entry_bytes_def nth_append)
qed

lemma xpending_operator_holds:
  "xpending_hold data op es \<Longrightarrow> xpending_operator data = Ok op"
  by (auto simp: xpending_hold_def xpending_operator_def XP_OFF_OPERATOR_def xpending_bytes_def
      b32_at_def sub_prefix)

lemma xpending_count_holds:
  assumes "xpending_hold data op es"
  shows "xpending_count data = Ok (word_of_nat (length es))"
proof -
  have "sub (xpending_bytes op es) 32 8 = u64_to_le (word_of_nat (length es))"
    by (simp add: xpending_bytes_def sub_middle)
  then show ?thesis
    using assms by (simp add: xpending_count_def xpending_hold_def XP_OFF_COUNT_def)
qed

lemma find_slot_None:
  "\<forall>off \<in> set offs. off + 32 \<le> length data \<and> b32_at data off \<noteq> x \<Longrightarrow> find_slot data x offs = Ok None"
  by (induction offs) (auto simp: sub_eq_b32)

lemma find_slot_append:
  assumes "\<forall>off \<in> set offs. off + 32 \<le> length data \<and> b32_at data off \<noteq> x"
  shows "find_slot data x (offs @ rest) = find_slot data x rest"
  using assms by (induction offs) (auto simp: sub_eq_b32)

lemma xpending_offsets:
  assumes "xpending_hold data op es"
  shows "xpending_find data n =
    find_slot data n (map (\<lambda>i. 40 + i * 65) [0..<length es])"
proof -
  have "length es \<le> MAX_ACCOUNT_SIZE"
    using assms by (auto simp: xpending_hold_def)
  then show ?thesis
    by (simp add: xpending_find_def xpending_count_holds [OF assms] unat_count xp_layout)
qed

lemma xpending_find_absent:
  assumes "xpending_hold data op es" and "n \<notin> xe_nullifier ` set es"
  shows "xpending_find data n = Ok None"
proof -
  have "b32_at data (40 + i * 65) \<noteq> n \<and> 40 + i * 65 + 32 \<le> length data" if "i < length es" for i
    using assms that entry_fields(1) [OF that, of op] entry_bound [OF that, of op]
    by (auto simp: xpending_hold_def)
  then show ?thesis
    unfolding xpending_offsets [OF assms(1)] by (intro find_slot_None) auto
qed

lemma xpending_find_present:
  assumes "xpending_hold data op es" and "i < length es" and "xe_nullifier (es ! i) = n"
  shows "xpending_find data n = Ok (Some (40 + i * 65))"
proof -
  have data: "data = xpending_bytes op es" and dist: "distinct (map xe_nullifier es)"
    using assms(1) by (simp_all add: xpending_hold_def)
  have before: "b32_at data (40 + j * 65) \<noteq> n \<and> 40 + j * 65 + 32 \<le> length data" if "j < i" for j
  proof -
    have "map xe_nullifier es ! j \<noteq> map xe_nullifier es ! i"
      using dist that assms(2) by (subst nth_eq_iff_index_eq) auto
    then show ?thesis
      using that assms(2,3) entry_fields(1) [of j es op] entry_bound [of j es op] by (simp add: data)
  qed
  have split: "[0..<length es] = [0..<i] @ i # [Suc i..<length es]"
    using assms(2) by (metis le_add1 add_0 less_imp_le upt_add_eq_append upt_conv_Cons
        le_add_diff_inverse)
  have "sub data (40 + i * 65) 32 = b32_bytes n"
    using entry_fields(1) [OF assms(2), of op] entry_bound [OF assms(2), of op] assms(3)
    by (simp add: data sub_eq_b32)
  then have "find_slot data n (map (\<lambda>i. 40 + i * 65) (i # [Suc i..<length es])) =
      Ok (Some (40 + i * 65))"
    using entry_bound [OF assms(2), of op] by (simp add: data)
  then show ?thesis
    unfolding xpending_offsets [OF assms(1)] split map_append
    using before by (subst find_slot_append) auto
qed

section \<open>Appending and marking\<close>

lemma write_fresh_entry:
  "(patch (patch (xs @ replicate 65 0) (length xs) (b32_bytes n)) (length xs + 32) (b32_bytes h))
      [length xs + 64 := 0] = xs @ entry_bytes (fresh_entry n h)"
proof -
  have "replicate 65 (0 :: byte) = replicate 32 0 @ replicate 32 0 @ [0]"
    by (simp add: numeral_eq_Suc)
  then have "xs @ replicate 65 (0 :: byte) = xs @ replicate 32 0 @ replicate 32 0 @ [0]"
    by simp
  then have "patch (patch (xs @ replicate 65 0) (length xs) (b32_bytes n)) (length xs + 32) (b32_bytes h)
      = xs @ b32_bytes n @ b32_bytes h @ [0]"
    using patch_middle [of xs "length xs" "b32_bytes n" "replicate 32 0" "replicate 32 0 @ [0]"]
      patch_middle [of "xs @ b32_bytes n" "length xs + 32" "b32_bytes h" "replicate 32 0" "[0]"]
    by simp
  then show ?thesis
    by (simp add: entry_bytes_def fresh_entry_def list_update_append)
qed

lemma xpending_bytes_append:
  "patch (xpending_bytes op es @ entry_bytes e) 32 (u64_to_le (word_of_nat (Suc (length es)))) =
     xpending_bytes op (es @ [e])"
  by (simp add: xpending_bytes_def patch_middle)

lemma xpending_append_eq:
  assumes "xpending_hold (data_of L xp) op es"
  shows "xpending_append rt payer xp system n h L =
    and_then (fund_rent rt payer xp system (length (data_of L xp) + 65) L) (\<lambda>L1.
    and_then (resize rt (ai_key xp) (length (data_of L xp) + 65) L1) (\<lambda>L2.
    and_then (write32 (data_of L2 xp) (length (data_of L xp)) n) (\<lambda>data.
    and_then (write32 data (length (data_of L xp) + 32) h) (\<lambda>data.
    and_then (set_byte data (length (data_of L xp) + 64) 0) (\<lambda>data.
    and_then (write_at data XP_OFF_COUNT (u64_to_le (word_of_nat (length es) + 1))) (\<lambda>data.
      Ok (set_data L2 (ai_key xp) data)))))))"
proof -
  let ?c = "word_of_nat (length es) :: u64" and ?d = "xpending_bytes op es"
  have d: "acc_data (L (ai_key xp)) = ?d" and max: "40 + length es * 65 \<le> 10485760"
    using assms by (auto simp: xpending_hold_def data_of_def MAX_ACCOUNT_SIZE_def)
  have cnt: "xpending_count ?d = Ok ?c"
    using xpending_count_holds [OF assms] d by (simp add: data_of_def)
  have off: "unat (word_of_nat XP_OFF_ENTRIES + ?c * word_of_nat XP_ENTRY_SIZE) = length ?d"
    and grown: "unat (word_of_nat XP_OFF_ENTRIES + (?c + 1) * word_of_nat XP_ENTRY_SIZE) =
      length ?d + 65"
    using unat_offset [of XP_OFF_ENTRIES "length es" XP_ENTRY_SIZE]
      unat_offset [of XP_OFF_ENTRIES "Suc (length es)" XP_ENTRY_SIZE] max
    by (simp_all add: xp_layout add.commute)
  show ?thesis
    by (simp only: xpending_append_def data_of_def d cnt and_then_simps Let_def off grown)
qed

lemma xpending_append_holds:
  assumes "system_transfer_law rt" and "resize_law rt" and "xpending_hold (data_of L xp) op es"
    and "n \<notin> xe_nullifier ` set es" and "xpending_append rt payer xp system n h L = Ok L'"
  shows "xpending_hold (data_of L' xp) op (es @ [fresh_entry n h]) \<and>
    changes_only {ai_key xp} L L'"
proof -
  let ?c = "word_of_nat (length es) :: u64" and ?d = "xpending_bytes op es"
  have d: "acc_data (L (ai_key xp)) = ?d" and dist: "distinct (map xe_nullifier es)"
    using assms(3) by (auto simp: xpending_hold_def data_of_def)
  obtain L1 L2 where fund: "fund_rent rt payer xp system (length ?d + 65) L = Ok L1"
    and grow: "resize rt (ai_key xp) (length ?d + 65) L1 = Ok L2"
    and L': "L' = set_data L2 (ai_key xp)
        (patch ((patch (patch (data_of L2 xp) (length ?d) (b32_bytes n)) (length ?d + 32)
           (b32_bytes h))[length ?d + 64 := 0]) XP_OFF_COUNT (u64_to_le (?c + 1)))"
    using assms(5) unfolding xpending_append_eq [OF assms(3)] data_of_def d
    by (elim and_then_okE) (simp only: write32_def write_at_Ok_iff set_byte_Ok_iff sum.inject)
  note g = fund_and_grow [OF assms(1,2) fund grow, of 65, unfolded d, simplified]
  have "acc_data (L' (ai_key xp)) = xpending_bytes op (es @ [fresh_entry n h])"
    using g(2) write_fresh_entry [of ?d n h] xpending_bytes_append [of op es "fresh_entry n h"]
    by (simp add: L' data_of_def XP_OFF_COUNT_def add.commute)
  then have "xpending_hold (data_of L' xp) op (es @ [fresh_entry n h])"
    using g(1) dist assms(4) by (simp add: xpending_hold_def data_of_def fresh_entry_def)
  moreover have "changes_only {ai_key xp} L L'"
    unfolding L' by (intro changes_only_then_set g(3) singletonI refl)
  ultimately show ?thesis ..
qed

lemma xpending_append_succeeds:
  assumes "system_transfer_law rt" and "resize_law rt" and "xpending_hold (data_of L xp) op es"
    and "fund_rent rt payer xp system (length (data_of L xp) + 65) L = Ok L1"
    and "resize rt (ai_key xp) (length (data_of L xp) + 65) L1 = Ok L2"
  shows "\<exists>L'. xpending_append rt payer xp system n h L = Ok L'"
proof -
  have "length (data_of L2 xp) = length (data_of L xp) + 65" and "40 \<le> length (data_of L xp)"
    using fund_and_grow(2) [OF assms(1,2) assms(4,5), of 65] assms(3)
    by (simp_all add: data_of_def xpending_hold_def)
  then show ?thesis
    by (simp add: xpending_append_eq [OF assms(3)] assms(4,5) XP_OFF_COUNT_def)
qed

text \<open>
  The registry takes another entry as long as it stays below the maximal account size and the
  operator, an ordinary signer, can pay the rent of the longer account.
\<close>

definition can_fund :: "runtime \<Rightarrow> ledger \<Rightarrow> pubkey \<Rightarrow> pubkey \<Rightarrow> nat \<Rightarrow> bool" where
  "can_fund rt L payer acct n \<longleftrightarrow>
     acc_owner (L payer) = SYSTEM_PROGRAM \<and> acc_data (L payer) = [] \<and>
     (\<exists>minimum_balance. rent_get rt = Ok minimum_balance \<and>
        unat (minimum_balance n) \<le> unat (acc_lamports (L payer)) + unat (acc_lamports (L acct)))"

lemma xpending_append_funded:
  assumes "runtime_laws rt" and "transfer_served_law rt" and "resize_served_law rt"
    and "xpending_hold (data_of L xp) op es" and "payer = \<lparr>ai_key = k, is_signer = True\<rparr>"
    and "ai_key system = SYSTEM_PROGRAM" and "can_fund rt L k (ai_key xp) (length (data_of L xp) + 65)"
    and "length (data_of L xp) + 65 \<le> MAX_ACCOUNT_SIZE"
  shows "\<exists>L'. xpending_append rt payer xp system n h L = Ok L'"
proof -
  let ?n = "length (data_of L xp) + 65"
  obtain L1 where fund: "fund_rent rt payer xp system ?n L = Ok L1"
    using assms(7) fund_rent_succeeds [OF assms(2) _ assms(5,6)] unfolding can_fund_def by metis
  have "changes_only {} L L1"
    by (rule fund_rent_frame [OF runtime_lawsD(1) [OF assms(1)] fund])
  then have "acc_data (L1 (ai_key xp)) = data_of L xp"
    by (simp add: changes_only_def data_of_def)
  then obtain L2 where "resize rt (ai_key xp) ?n L1 = Ok L2"
    using resize_served [OF assms(3,8), of L1 "ai_key xp"] by (auto simp: MAX_PERMITTED_DATA_INCREASE_def)
  from xpending_append_succeeds [OF runtime_lawsD(1,4) [OF assms(1)] assms(4) fund this]
  show ?thesis .
qed

text \<open>Setting the flag byte of entry \<open>i\<close>.\<close>

lemma concat_update_chunk:
  assumes "\<forall>c \<in> set cs. length c = s" and "i < length cs" and "k < s"
  shows "(concat cs)[i * s + k := b] = concat (cs[i := (cs ! i)[k := b]])"
  using assms
proof (induction cs arbitrary: i)
  case (Cons c cs)
  then show ?case
    by (cases i) (auto simp: list_update_append add.assoc)
qed simp

lemma entry_bytes_mark: "(entry_bytes e)[64 := 1] = entry_bytes (e\<lparr>xe_minted := True\<rparr>)"
  by (simp add: entry_bytes_def list_update_append)

lemma xpending_mark_minted:
  assumes "xpending_hold data op es" and "i < length es"
  shows "set_byte data (40 + i * 65 + 64) 1 = Ok (data[40 + i * 65 + 64 := 1])"
    and "xpending_hold (data[40 + i * 65 + 64 := 1]) op (es[i := (es ! i)\<lparr>xe_minted := True\<rparr>])"
proof -
  have data: "data = xpending_bytes op es"
    using assms(1) by (simp add: xpending_hold_def)
  show "set_byte data (40 + i * 65 + 64) 1 = Ok (data[40 + i * 65 + 64 := 1])"
    using entry_bound [OF assms(2), of op] by (simp add: data)
  have "(concat (map entry_bytes es))[i * 65 + 64 := 1] =
      concat (map entry_bytes (es[i := (es ! i)\<lparr>xe_minted := True\<rparr>]))"
    using concat_update_chunk [of "map entry_bytes es" 65 i 64 1] assms(2)
    by (simp add: entry_bytes_mark map_update)
  then have "data[40 + i * 65 + 64 := 1] =
      xpending_bytes op (es[i := (es ! i)\<lparr>xe_minted := True\<rparr>])"
    by (simp add: data xpending_bytes_def list_update_append add.commute)
  moreover have "map xe_nullifier (es[i := (es ! i)\<lparr>xe_minted := True\<rparr>]) = map xe_nullifier es"
    using assms(2) by (simp add: map_update list_update_same_conv)
  ultimately show "xpending_hold (data[40 + i * 65 + 64 := 1]) op
      (es[i := (es ! i)\<lparr>xe_minted := True\<rparr>])"
    using assms(1) unfolding xpending_hold_def by (metis length_list_update)
qed

end
