(* ===== verification/Pool_Program.thy ===== *)
theory Pool_Program
  imports Pool_Xburn
begin

text \<open>
  The instruction handlers of the on-chain program (\<open>programs/opaq/src/lib.rs\<close>), one definition
  per handler with its checks in the code's order, and \<open>process_instruction\<close>, which dispatches on
  the first byte. A handler maps a ledger to the new ledger and the event its last \<open>msg!\<close> logs,
  or to the error it returns.
\<close>

section \<open>Events and shared helpers\<close>

datatype event =
  PoolInitialized
| DepositOk u64
| WithdrawOk
| TransferOk u64 u64
| BurnOk u64 u32
| XburnPendingInitialized pubkey
| XburnPendingAdded
| MintFromXburnOk u64
| XburnOk u32

type_synonym program_result = "(program_error, ledger \<times> event) outcome"

definition create_pda ::
    "runtime \<Rightarrow> account_info \<Rightarrow> account_info \<Rightarrow> account_info \<Rightarrow> pubkey \<Rightarrow> bytes \<Rightarrow> u8 \<Rightarrow> nat
      \<Rightarrow> ledger \<Rightarrow> (program_error, ledger) outcome" where
  "create_pda rt payer pda system program_id seed bump space L =
     and_then (rent_get rt) (\<lambda>minimum_balance.
       cpi rt
         (create_account_ix (ai_key payer) (ai_key pda) (minimum_balance space) (word_of_nat space)
            program_id)
         [payer, pda, system] [[seed, [bump]]] L)"

definition write_account ::
    "account_info \<Rightarrow> bytes \<Rightarrow> ledger \<Rightarrow> (program_error, ledger) outcome" where
  "write_account account value L =
     (let data = data_of L account in
      if length data < length value then Err AccountDataTooSmall
      else Ok (set_data L (ai_key account) (patch data 0 value)))"

definition check_vault ::
    "ledger \<Rightarrow> account_info \<Rightarrow> bytes32 \<Rightarrow> pubkey \<Rightarrow> (program_error, unit) outcome" where
  "check_vault L vault_token token_id vault_authority =
     (let data = data_of L vault_token in
      if length data < 64 then Err InvalidAccountData
      else if sub data 0 32 \<noteq> b32_bytes token_id \<or> sub data 32 32 \<noteq> b32_bytes vault_authority
      then Err (Custom E_WRONG_VAULT)
      else Ok ())"

definition spl_transfer ::
    "runtime \<Rightarrow> account_info \<Rightarrow> account_info \<Rightarrow> account_info \<Rightarrow> account_info \<Rightarrow> u64
      \<Rightarrow> bytes list list \<Rightarrow> ledger \<Rightarrow> (program_error, ledger) outcome" where
  "spl_transfer rt token_program source dest authority amount signer_seeds L =
     cpi rt
       \<lparr>ix_program = ai_key token_program,
        ix_accounts = [meta_new (ai_key source) False, meta_new (ai_key dest) False,
                       meta_readonly (ai_key authority) True],
        ix_data = 3 # u64_to_le amount\<rparr>
       [source, dest, authority, token_program] signer_seeds L"

text \<open>\<open>Groth16Verifier::new\<close> and \<open>verify\<close>: either error becomes \<open>E_PROOF_INVALID\<close>.\<close>

definition check_proof ::
    "runtime \<Rightarrow> verifying_key \<Rightarrow> bytes \<Rightarrow> bytes32 list \<Rightarrow> (program_error, unit) outcome" where
  "check_proof rt vk args public =
     (let proof_a = sub args 0 64; proof_b = sub args 64 128; proof_c = sub args 192 64
      in reject_if (\<not> groth16_verify rt vk proof_a proof_b proof_c public)
           (Custom E_PROOF_INVALID))"

definition chain_lo :: "bytes32 \<Rightarrow> u32" where
  "chain_lo b = u32_from_be (sub (b32_bytes b) 28 4)"

definition pda_of :: "runtime \<Rightarrow> pubkey \<Rightarrow> bytes list \<Rightarrow> pubkey" where
  "pda_of rt program_id seeds = fst (find_program_address rt seeds program_id)"

section \<open>Handlers\<close>

definition initialize_pool ::
    "runtime \<Rightarrow> pubkey \<Rightarrow> account_info list \<Rightarrow> ledger \<Rightarrow> program_result" where
  "initialize_pool rt program_id accounts L =
     and_then (next_account_info accounts) (\<lambda>(payer, accounts).
     and_then (next_account_info accounts) (\<lambda>(tree_ai, accounts).
     and_then (next_account_info accounts) (\<lambda>(nullifier_ai, accounts).
     and_then (next_account_info accounts) (\<lambda>(system, accounts).
       let (tree_pda, tree_bump) = find_program_address rt [TREE_SEED] program_id;
           (nf_pda, nf_bump) = find_program_address rt [NULLIFIER_SEED] program_id
       in
     and_then (reject_if (ai_key tree_ai \<noteq> tree_pda \<or> ai_key nullifier_ai \<noteq> nf_pda) InvalidSeeds) (\<lambda>_.
     and_then (create_pda rt payer tree_ai system program_id TREE_SEED tree_bump
       COMMITMENT_TREE_SIZE L) (\<lambda>L.
     and_then (create_pda rt payer nullifier_ai system program_id NULLIFIER_SEED nf_bump
       NULLIFIER_INIT_SIZE L) (\<lambda>L.
     and_then (write_account tree_ai (tree_to_bytes initial_tree) L) (\<lambda>L.
     and_then (write_account nullifier_ai (nullifier_set_bytes []) L) (\<lambda>L.
       Ok (L, PoolInitialized))))))))))"

definition deposit ::
    "runtime \<Rightarrow> pubkey \<Rightarrow> account_info list \<Rightarrow> bytes \<Rightarrow> ledger \<Rightarrow> program_result" where
  "deposit rt program_id accounts args L =
     and_then (reject_if (length args \<noteq> 64 + 128 + 64 + 32 + 8 + 32) InvalidInstructionData) (\<lambda>_.
       let token_id = b32_at args 256;
           amount = u64_from_le (sub args 288 8);
           commitment = b32_at args 296
       in
     and_then (expect (to_field (poseidon_syscall rt) token_id)) (\<lambda>token_field.
     and_then (check_proof rt DEPOSIT_VK args [token_field, be32_u64 amount, commitment]) (\<lambda>_.
     and_then (next_account_info accounts) (\<lambda>(depositor, accounts).
     and_then (next_account_info accounts) (\<lambda>(depositor_token, accounts).
     and_then (next_account_info accounts) (\<lambda>(vault_token, accounts).
     and_then (next_account_info accounts) (\<lambda>(tree_ai, accounts).
     and_then (next_account_info accounts) (\<lambda>(token_program, accounts).
     and_then (reject_if (\<not> is_signer depositor) MissingRequiredSignature) (\<lambda>_.
     and_then (reject_if (ai_key token_program \<noteq> SPL_TOKEN_PROGRAM_ID) IncorrectProgramId) (\<lambda>_.
     and_then (reject_if (ai_key tree_ai \<noteq> pda_of rt program_id [TREE_SEED]) InvalidSeeds) (\<lambda>_.
       let vault_authority = pda_of rt program_id [VAULT_SEED, b32_bytes token_id]
       in
     and_then (check_vault L vault_token token_id vault_authority) (\<lambda>_.
     and_then (reject_if (ai_key vault_token \<noteq> canonical_vault_ata rt vault_authority token_id)
       (Custom E_WRONG_VAULT)) (\<lambda>_.
     and_then (reject_if (length (data_of L depositor_token) < 32 \<or>
         sub (data_of L depositor_token) 0 32 \<noteq> b32_bytes token_id) (Custom E_WRONG_MINT)) (\<lambda>_.
     and_then (spl_transfer rt token_program depositor_token vault_token depositor amount [] L) (\<lambda>L.
     and_then (tree_insert (poseidon_syscall rt) (data_of L tree_ai) commitment) (\<lambda>(data, leaf_index).
       Ok (set_data L (ai_key tree_ai) data, DepositOk leaf_index)))))))))))))))))"

definition withdraw ::
    "runtime \<Rightarrow> pubkey \<Rightarrow> account_info list \<Rightarrow> bytes \<Rightarrow> ledger \<Rightarrow> program_result" where
  "withdraw rt program_id accounts args L =
     and_then (reject_if (length args \<noteq> 64 + 128 + 64 + 32 + 32 + 32 + 8 + 32)
       InvalidInstructionData) (\<lambda>_.
       let merkle_root = b32_at args 256;
           nullifier = b32_at args 288;
           token_id = b32_at args 320;
           amount = u64_from_le (sub args 352 8);
           recipient = b32_at args 360
       in
     and_then (expect (to_field (poseidon_syscall rt) token_id)) (\<lambda>token_field.
     and_then (expect (to_field (poseidon_syscall rt) recipient)) (\<lambda>recipient_field.
     and_then (check_proof rt WITHDRAW_VK args
       [merkle_root, nullifier, token_field, be32_u64 amount, recipient_field]) (\<lambda>_.
     and_then (next_account_info accounts) (\<lambda>(payer, accounts).
     and_then (next_account_info accounts) (\<lambda>(vault_authority, accounts).
     and_then (next_account_info accounts) (\<lambda>(vault_token, accounts).
     and_then (next_account_info accounts) (\<lambda>(recipient_token, accounts).
     and_then (next_account_info accounts) (\<lambda>(tree_ai, accounts).
     and_then (next_account_info accounts) (\<lambda>(nullifier_ai, accounts).
     and_then (next_account_info accounts) (\<lambda>(token_program, accounts).
     and_then (next_account_info accounts) (\<lambda>(system, accounts).
     and_then (reject_if (\<not> is_signer payer) MissingRequiredSignature) (\<lambda>_.
     and_then (reject_if (ai_key token_program \<noteq> SPL_TOKEN_PROGRAM_ID) IncorrectProgramId) (\<lambda>_.
       let (vault_auth_pda, vault_bump) =
             find_program_address rt [VAULT_SEED, b32_bytes token_id] program_id
       in
     and_then (reject_if (ai_key tree_ai \<noteq> pda_of rt program_id [TREE_SEED] \<or>
         ai_key nullifier_ai \<noteq> pda_of rt program_id [NULLIFIER_SEED] \<or>
         ai_key vault_authority \<noteq> vault_auth_pda) InvalidSeeds) (\<lambda>_.
     and_then (check_vault L vault_token token_id vault_auth_pda) (\<lambda>_.
     and_then (reject_if (ai_key vault_token \<noteq> canonical_vault_ata rt vault_auth_pda token_id)
       (Custom E_WRONG_VAULT)) (\<lambda>_.
       let recipient_data = data_of L recipient_token
       in
     and_then (reject_if (length recipient_data < 64 \<or> sub recipient_data 32 32 \<noteq> b32_bytes recipient)
       (Custom E_WRONG_RECIPIENT)) (\<lambda>_.
     and_then (reject_if (sub recipient_data 0 32 \<noteq> b32_bytes token_id) (Custom E_WRONG_MINT)) (\<lambda>_.
     and_then (tree_is_known_root (data_of L tree_ai) merkle_root) (\<lambda>known.
     and_then (reject_if (\<not> known) (Custom E_UNKNOWN_ROOT)) (\<lambda>_.
     and_then (check_and_append rt payer nullifier_ai system L nullifier) (\<lambda>L.
     and_then (spl_transfer rt token_program vault_token recipient_token vault_authority amount
       [[VAULT_SEED, b32_bytes token_id, [vault_bump]]] L) (\<lambda>L.
       Ok (L, WithdrawOk))))))))))))))))))))))))"

definition transfer ::
    "runtime \<Rightarrow> pubkey \<Rightarrow> account_info list \<Rightarrow> bytes \<Rightarrow> ledger \<Rightarrow> program_result" where
  "transfer rt program_id accounts args L =
     and_then (reject_if (length args < 64 + 128 + 64 + 32 + 32 + 32 + 32 + 32)
       InvalidInstructionData) (\<lambda>_.
       let merkle_root = b32_at args 256;
           nullifier0 = b32_at args 288;
           nullifier1 = b32_at args 320;
           commitment0 = b32_at args 352;
           commitment1 = b32_at args 384
       in
     and_then (check_proof rt TRANSFER_VK args
       [merkle_root, nullifier0, nullifier1, commitment0, commitment1]) (\<lambda>_.
     and_then (next_account_info accounts) (\<lambda>(payer, accounts).
     and_then (next_account_info accounts) (\<lambda>(tree_ai, accounts).
     and_then (next_account_info accounts) (\<lambda>(nullifier_ai, accounts).
     and_then (next_account_info accounts) (\<lambda>(system, accounts).
     and_then (reject_if (\<not> is_signer payer) MissingRequiredSignature) (\<lambda>_.
     and_then (reject_if (ai_key tree_ai \<noteq> pda_of rt program_id [TREE_SEED] \<or>
         ai_key nullifier_ai \<noteq> pda_of rt program_id [NULLIFIER_SEED]) InvalidSeeds) (\<lambda>_.
     and_then (tree_is_known_root (data_of L tree_ai) merkle_root) (\<lambda>known.
     and_then (reject_if (\<not> known) (Custom E_UNKNOWN_ROOT)) (\<lambda>_.
     and_then (nullifier_contains (data_of L nullifier_ai) nullifier0) (\<lambda>spent0.
     and_then (if spent0 then Ok True else nullifier_contains (data_of L nullifier_ai) nullifier1) (\<lambda>spent.
     and_then (reject_if spent (Custom E_ALREADY_SPENT)) (\<lambda>_.
     and_then (reject_if (nullifier0 = nullifier1) (Custom E_ALREADY_SPENT)) (\<lambda>_.
     and_then (nullifier_append rt payer nullifier_ai system nullifier0 L) (\<lambda>L.
     and_then (nullifier_append rt payer nullifier_ai system nullifier1 L) (\<lambda>L.
     and_then (tree_insert (poseidon_syscall rt) (data_of L tree_ai) commitment0) (\<lambda>(data, leaf0).
       let L = set_data L (ai_key tree_ai) data
       in
     and_then (tree_insert (poseidon_syscall rt) (data_of L tree_ai) commitment1) (\<lambda>(data, leaf1).
       Ok (set_data L (ai_key tree_ai) data, TransferOk leaf0 leaf1)))))))))))))))))))"

definition burn ::
    "runtime \<Rightarrow> pubkey \<Rightarrow> account_info list \<Rightarrow> bytes \<Rightarrow> ledger \<Rightarrow> program_result" where
  "burn rt program_id accounts args L =
     and_then (reject_if (length args \<noteq> 64 + 128 + 64 + 32 + 32 + 32 + 8 + 32 + 32)
       InvalidInstructionData) (\<lambda>_.
       let merkle_root = b32_at args 256;
           nullifier = b32_at args 288;
           token_id = b32_at args 320;
           amount = u64_from_le (sub args 352 8);
           dest_chain = b32_at args 360;
           dest_address = b32_at args 392
       in
     and_then (expect (to_field (poseidon_syscall rt) token_id)) (\<lambda>token_field.
     and_then (check_proof rt BURN_VK args
       [merkle_root, nullifier, token_field, be32_u64 amount, dest_chain, dest_address]) (\<lambda>_.
     and_then (next_account_info accounts) (\<lambda>(payer, accounts).
     and_then (next_account_info accounts) (\<lambda>(tree_ai, accounts).
     and_then (next_account_info accounts) (\<lambda>(nullifier_ai, accounts).
     and_then (next_account_info accounts) (\<lambda>(system, accounts).
     and_then (reject_if (\<not> is_signer payer) MissingRequiredSignature) (\<lambda>_.
     and_then (reject_if (ai_key tree_ai \<noteq> pda_of rt program_id [TREE_SEED] \<or>
         ai_key nullifier_ai \<noteq> pda_of rt program_id [NULLIFIER_SEED]) InvalidSeeds) (\<lambda>_.
     and_then (tree_is_known_root (data_of L tree_ai) merkle_root) (\<lambda>known.
     and_then (reject_if (\<not> known) (Custom E_UNKNOWN_ROOT)) (\<lambda>_.
     and_then (check_and_append rt payer nullifier_ai system L nullifier) (\<lambda>L.
       Ok (L, BurnOk amount (chain_lo dest_chain))))))))))))))"

definition initialize_xburn_pending ::
    "runtime \<Rightarrow> pubkey \<Rightarrow> account_info list \<Rightarrow> bytes \<Rightarrow> ledger \<Rightarrow> program_result" where
  "initialize_xburn_pending rt program_id accounts args L =
     and_then (reject_if (length args \<noteq> 32) InvalidInstructionData) (\<lambda>_.
       let operator = b32_at args 0
       in
     and_then (next_account_info accounts) (\<lambda>(payer, accounts).
     and_then (next_account_info accounts) (\<lambda>(xp_ai, accounts).
     and_then (next_account_info accounts) (\<lambda>(system, accounts).
     and_then (reject_if (\<not> is_signer payer) MissingRequiredSignature) (\<lambda>_.
       let (xp_pda, xp_bump) = find_program_address rt [XBURN_PENDING_SEED] program_id
       in
     and_then (reject_if (ai_key xp_ai \<noteq> xp_pda) InvalidSeeds) (\<lambda>_.
     and_then (create_pda rt payer xp_ai system program_id XBURN_PENDING_SEED xp_bump
       XBURN_PENDING_INIT_SIZE L) (\<lambda>L.
     and_then (write32 (data_of L xp_ai) XP_OFF_OPERATOR operator) (\<lambda>data.
     and_then (write_at data XP_OFF_COUNT (u64_to_le 0)) (\<lambda>data.
       Ok (set_data L (ai_key xp_ai) data, XburnPendingInitialized operator))))))))))"

definition add_pending_xburn ::
    "runtime \<Rightarrow> pubkey \<Rightarrow> account_info list \<Rightarrow> bytes \<Rightarrow> ledger \<Rightarrow> program_result" where
  "add_pending_xburn rt program_id accounts args L =
     and_then (reject_if (length args \<noteq> 32 + 32 + 32) InvalidInstructionData) (\<lambda>_.
       let src_nullifier = b32_at args 0;
           dest_chain = b32_at args 32;
           out_commitment = b32_at args 64
       in
     and_then (expect (hash2 (poseidon_syscall rt) dest_chain out_commitment)) (\<lambda>expected_hash.
     and_then (next_account_info accounts) (\<lambda>(operator, accounts).
     and_then (next_account_info accounts) (\<lambda>(xp_ai, accounts).
     and_then (next_account_info accounts) (\<lambda>(system, accounts).
     and_then (reject_if (\<not> is_signer operator) MissingRequiredSignature) (\<lambda>_.
     and_then (reject_if (ai_key xp_ai \<noteq> pda_of rt program_id [XBURN_PENDING_SEED]) InvalidSeeds) (\<lambda>_.
     and_then (xpending_operator (data_of L xp_ai)) (\<lambda>registered.
     and_then (reject_if (registered \<noteq> ai_key operator) (Custom E_WRONG_OPERATOR)) (\<lambda>_.
     and_then (xpending_find (data_of L xp_ai) src_nullifier) (\<lambda>found.
     and_then (reject_if (found \<noteq> None) (Custom E_ALREADY_SPENT)) (\<lambda>_.
     and_then (xpending_append rt operator xp_ai system src_nullifier expected_hash L) (\<lambda>L.
       Ok (L, XburnPendingAdded)))))))))))))"

definition mint_from_xburn ::
    "runtime \<Rightarrow> pubkey \<Rightarrow> account_info list \<Rightarrow> bytes \<Rightarrow> ledger \<Rightarrow> program_result" where
  "mint_from_xburn rt program_id accounts args L =
     and_then (reject_if (length args \<noteq> 64 + 128 + 64 + 32 + 32 + 32 + 32)
       InvalidInstructionData) (\<lambda>_.
       let src_merkle_root = b32_at args 256;
           src_nullifier = b32_at args 288;
           dest_chain = b32_at args 320;
           out_commitment = b32_at args 352
       in
     and_then (reject_if (dest_chain \<noteq> be32_u64 SOLANA_CHAIN_ID) (Custom E_WRONG_CHAIN)) (\<lambda>_.
     and_then (check_proof rt XBURN_VK args
       [src_merkle_root, src_nullifier, dest_chain, out_commitment]) (\<lambda>_.
     and_then (next_account_info accounts) (\<lambda>(payer, accounts).
     and_then (next_account_info accounts) (\<lambda>(tree_ai, accounts).
     and_then (next_account_info accounts) (\<lambda>(xp_ai, accounts).
     and_then (next_account_info accounts) (\<lambda>(system, accounts).
     and_then (reject_if (\<not> is_signer payer) MissingRequiredSignature) (\<lambda>_.
     and_then (reject_if (ai_key tree_ai \<noteq> pda_of rt program_id [TREE_SEED] \<or>
         ai_key xp_ai \<noteq> pda_of rt program_id [XBURN_PENDING_SEED]) InvalidSeeds) (\<lambda>_.
     and_then (xpending_find (data_of L xp_ai) src_nullifier) (\<lambda>found.
     and_then (case found of None \<Rightarrow> Err (Custom E_NOT_PENDING) | Some off \<Rightarrow> Ok off) (\<lambda>off.
     and_then (byte_at (data_of L xp_ai) (off + 64)) (\<lambda>minted.
     and_then (reject_if (minted \<noteq> 0) (Custom E_ALREADY_SPENT)) (\<lambda>_.
     and_then (xpending_expected_hash (data_of L xp_ai) off) (\<lambda>attested.
     and_then (expect (hash2 (poseidon_syscall rt) dest_chain out_commitment)) (\<lambda>submitted.
     and_then (reject_if (attested \<noteq> submitted) (Custom E_WRONG_DESTINATION)) (\<lambda>_.
     and_then (tree_insert (poseidon_syscall rt) (data_of L tree_ai) out_commitment) (\<lambda>(data, leaf_index).
       let L = set_data L (ai_key tree_ai) data
       in
     and_then (set_byte (data_of L xp_ai) (off + 64) 1) (\<lambda>data.
       Ok (set_data L (ai_key xp_ai) data, MintFromXburnOk leaf_index)))))))))))))))))))"

definition xburn ::
    "runtime \<Rightarrow> pubkey \<Rightarrow> account_info list \<Rightarrow> bytes \<Rightarrow> ledger \<Rightarrow> program_result" where
  "xburn rt program_id accounts args L =
     and_then (reject_if (length args \<noteq> 64 + 128 + 64 + 32 + 32 + 32 + 32)
       InvalidInstructionData) (\<lambda>_.
       let src_merkle_root = b32_at args 256;
           src_nullifier = b32_at args 288;
           dest_chain = b32_at args 320;
           out_commitment = b32_at args 352
       in
     and_then (check_proof rt XBURN_VK args
       [src_merkle_root, src_nullifier, dest_chain, out_commitment]) (\<lambda>_.
     and_then (next_account_info accounts) (\<lambda>(payer, accounts).
     and_then (next_account_info accounts) (\<lambda>(tree_ai, accounts).
     and_then (next_account_info accounts) (\<lambda>(nullifier_ai, accounts).
     and_then (next_account_info accounts) (\<lambda>(system, accounts).
     and_then (reject_if (\<not> is_signer payer) MissingRequiredSignature) (\<lambda>_.
     and_then (reject_if (ai_key tree_ai \<noteq> pda_of rt program_id [TREE_SEED] \<or>
         ai_key nullifier_ai \<noteq> pda_of rt program_id [NULLIFIER_SEED]) InvalidSeeds) (\<lambda>_.
     and_then (tree_is_known_root (data_of L tree_ai) src_merkle_root) (\<lambda>known.
     and_then (reject_if (\<not> known) (Custom E_UNKNOWN_ROOT)) (\<lambda>_.
     and_then (check_and_append rt payer nullifier_ai system L src_nullifier) (\<lambda>L.
       Ok (L, XburnOk (chain_lo dest_chain)))))))))))))"

section \<open>Dispatch\<close>

definition process_instruction ::
    "runtime \<Rightarrow> pubkey \<Rightarrow> account_info list \<Rightarrow> bytes \<Rightarrow> ledger \<Rightarrow> program_result" where
  "process_instruction rt program_id accounts data L =
     (case data of
        [] \<Rightarrow> Err InvalidInstructionData
      | tag # args \<Rightarrow>
          if tag = 0 then initialize_pool rt program_id accounts L
          else if tag = 1 then deposit rt program_id accounts args L
          else if tag = 3 then transfer rt program_id accounts args L
          else if tag = 4 then burn rt program_id accounts args L
          else if tag = 2 then withdraw rt program_id accounts args L
          else if tag = 5 then initialize_xburn_pending rt program_id accounts args L
          else if tag = 6 then add_pending_xburn rt program_id accounts args L
          else if tag = 7 then mint_from_xburn rt program_id accounts args L
          else if tag = 8 then xburn rt program_id accounts args L
          else Err InvalidInstructionData)"

end
