(* ===== verification/Pool_Handlers.thy ===== *)
theory Pool_Handlers
  imports Pool_Program
begin

text \<open>
  Exactly when each handler of \<open>Pool_Program\<close> succeeds and what it then returns: the handler
  returns \<open>Ok\<close> iff every check of its source passes, on which accounts and which slices of the
  instruction's data, and every call it makes succeeds. The lemmas about reachable pool states
  start from these equivalences instead of the handlers' text.
\<close>

lemma create_pda_Ok_iff:
  "create_pda rt payer pda system pid seed bump n L = Ok L' \<longleftrightarrow>
    (\<exists>mb. rent_get rt = Ok mb \<and>
       cpi rt (create_account_ix (ai_key payer) (ai_key pda) (mb n) (word_of_nat n) pid)
         [payer, pda, system] [[seed, [bump]]] L = Ok L')"
  by (auto simp: create_pda_def outcome_simps)

lemma write_account_Ok_iff:
  "write_account a v L = Ok L' \<longleftrightarrow>
    length v \<le> length (data_of L a) \<and> L' = set_data L (ai_key a) (patch (data_of L a) 0 v)"
  by (auto simp: write_account_def Let_def)

lemma check_vault_Ok_iff:
  "check_vault L a token_id authority = Ok u \<longleftrightarrow>
    64 \<le> length (data_of L a) \<and> token_mint (data_of L a) = token_id \<and>
    token_owner (data_of L a) = authority"
  by (auto simp: check_vault_def Let_def token_mint_def token_owner_def sub_eq_b32)

lemma spl_transfer_eq:
  "ai_key token_program = SPL_TOKEN_PROGRAM_ID \<Longrightarrow>
    spl_transfer rt token_program s d a n seeds L =
      cpi rt (token_transfer_ix (ai_key s) (ai_key d) (ai_key a) n) [s, d, a, token_program] seeds L"
  by (simp add: spl_transfer_def token_transfer_ix_def)

lemma initialize_pool_Ok_iff:
  "initialize_pool rt pid accounts L = Ok (L', ev) \<longleftrightarrow>
    (\<exists>payer tree_ai nullifier_ai system rest L1 L2 L3.
       accounts = payer # tree_ai # nullifier_ai # system # rest \<and>
       ai_key tree_ai = pda_of rt pid [TREE_SEED] \<and>
       ai_key nullifier_ai = pda_of rt pid [NULLIFIER_SEED] \<and>
       create_pda rt payer tree_ai system pid TREE_SEED
         (snd (find_program_address rt [TREE_SEED] pid)) COMMITMENT_TREE_SIZE L = Ok L1 \<and>
       create_pda rt payer nullifier_ai system pid NULLIFIER_SEED
         (snd (find_program_address rt [NULLIFIER_SEED] pid)) NULLIFIER_INIT_SIZE L1 = Ok L2 \<and>
       write_account tree_ai (tree_to_bytes initial_tree) L2 = Ok L3 \<and>
       write_account nullifier_ai (nullifier_set_bytes []) L3 = Ok L' \<and>
       ev = PoolInitialized)"
  unfolding initialize_pool_def
  by (simp add: outcome_simps pda_of_def Let_def split_beta cong: conj_cong) auto

lemma deposit_Ok_iff:
  "deposit rt pid accounts args L = Ok (L', ev) \<longleftrightarrow>
    (\<exists>depositor depositor_token vault_token tree_ai token_program rest token_field L1 d leaf_index.
       accounts = depositor # depositor_token # vault_token # tree_ai # token_program # rest \<and>
       length args = 328 \<and>
       to_field (poseidon_syscall rt) (b32_at args 256) = Some token_field \<and>
       groth16_verify rt DEPOSIT_VK (sub args 0 64) (sub args 64 128) (sub args 192 64)
         [token_field, be32_u64 (u64_from_le (sub args 288 8)), b32_at args 296] \<and>
       is_signer depositor \<and>
       ai_key token_program = SPL_TOKEN_PROGRAM_ID \<and>
       ai_key tree_ai = pda_of rt pid [TREE_SEED] \<and>
       check_vault L vault_token (b32_at args 256)
         (pda_of rt pid [VAULT_SEED, b32_bytes (b32_at args 256)]) = Ok () \<and>
       ai_key vault_token = canonical_vault_ata rt
         (pda_of rt pid [VAULT_SEED, b32_bytes (b32_at args 256)]) (b32_at args 256) \<and>
       32 \<le> length (data_of L depositor_token) \<and>
       token_mint (data_of L depositor_token) = b32_at args 256 \<and>
       spl_transfer rt token_program depositor_token vault_token depositor
         (u64_from_le (sub args 288 8)) [] L = Ok L1 \<and>
       tree_insert (poseidon_syscall rt) (data_of L1 tree_ai) (b32_at args 296) =
         Ok (d, leaf_index) \<and>
       L' = set_data L1 (ai_key tree_ai) d \<and> ev = DepositOk leaf_index)"
  unfolding deposit_def
  by (simp add: outcome_simps check_proof_def Let_def split_beta token_mint_def sub_eq_b32 not_less
      cong: conj_cong) auto

lemma withdraw_Ok_iff:
  "withdraw rt pid accounts args L = Ok (L', ev) \<longleftrightarrow>
    (\<exists>payer vault_authority vault_token recipient_token tree_ai nullifier_ai token_program system rest
        token_field recipient_field L1.
       accounts = payer # vault_authority # vault_token # recipient_token # tree_ai #
         nullifier_ai # token_program # system # rest \<and>
       length args = 392 \<and>
       to_field (poseidon_syscall rt) (b32_at args 320) = Some token_field \<and>
       to_field (poseidon_syscall rt) (b32_at args 360) = Some recipient_field \<and>
       groth16_verify rt WITHDRAW_VK (sub args 0 64) (sub args 64 128) (sub args 192 64)
         [b32_at args 256, b32_at args 288, token_field, be32_u64 (u64_from_le (sub args 352 8)),
          recipient_field] \<and>
       is_signer payer \<and>
       ai_key token_program = SPL_TOKEN_PROGRAM_ID \<and>
       ai_key tree_ai = pda_of rt pid [TREE_SEED] \<and>
       ai_key nullifier_ai = pda_of rt pid [NULLIFIER_SEED] \<and>
       ai_key vault_authority = pda_of rt pid [VAULT_SEED, b32_bytes (b32_at args 320)] \<and>
       check_vault L vault_token (b32_at args 320)
         (pda_of rt pid [VAULT_SEED, b32_bytes (b32_at args 320)]) = Ok () \<and>
       ai_key vault_token = canonical_vault_ata rt
         (pda_of rt pid [VAULT_SEED, b32_bytes (b32_at args 320)]) (b32_at args 320) \<and>
       64 \<le> length (data_of L recipient_token) \<and>
       token_owner (data_of L recipient_token) = b32_at args 360 \<and>
       token_mint (data_of L recipient_token) = b32_at args 320 \<and>
       tree_is_known_root (data_of L tree_ai) (b32_at args 256) = Ok True \<and>
       check_and_append rt payer nullifier_ai system L (b32_at args 288) = Ok L1 \<and>
       spl_transfer rt token_program vault_token recipient_token vault_authority
         (u64_from_le (sub args 352 8))
         [[VAULT_SEED, b32_bytes (b32_at args 320),
           [snd (find_program_address rt [VAULT_SEED, b32_bytes (b32_at args 320)] pid)]]] L1 = Ok L' \<and>
       ev = WithdrawOk)"
  unfolding withdraw_def
  by (simp add: outcome_simps check_proof_def Let_def split_beta token_mint_def token_owner_def
      sub_eq_b32 pda_of_def not_less cong: conj_cong) auto

lemma transfer_Ok_iff:
  "transfer rt pid accounts args L = Ok (L', ev) \<longleftrightarrow>
    (\<exists>payer tree_ai nullifier_ai system rest L1 L2 d1 leaf0 d2 leaf1.
       accounts = payer # tree_ai # nullifier_ai # system # rest \<and>
       416 \<le> length args \<and>
       groth16_verify rt TRANSFER_VK (sub args 0 64) (sub args 64 128) (sub args 192 64)
         [b32_at args 256, b32_at args 288, b32_at args 320, b32_at args 352, b32_at args 384] \<and>
       is_signer payer \<and>
       ai_key tree_ai = pda_of rt pid [TREE_SEED] \<and>
       ai_key nullifier_ai = pda_of rt pid [NULLIFIER_SEED] \<and>
       tree_is_known_root (data_of L tree_ai) (b32_at args 256) = Ok True \<and>
       nullifier_contains (data_of L nullifier_ai) (b32_at args 288) = Ok False \<and>
       nullifier_contains (data_of L nullifier_ai) (b32_at args 320) = Ok False \<and>
       b32_at args 288 \<noteq> b32_at args 320 \<and>
       nullifier_append rt payer nullifier_ai system (b32_at args 288) L = Ok L1 \<and>
       nullifier_append rt payer nullifier_ai system (b32_at args 320) L1 = Ok L2 \<and>
       tree_insert (poseidon_syscall rt) (data_of L2 tree_ai) (b32_at args 352) = Ok (d1, leaf0) \<and>
       tree_insert (poseidon_syscall rt) d1 (b32_at args 384) = Ok (d2, leaf1) \<and>
       L' = set_data (set_data L2 (ai_key tree_ai) d1) (ai_key tree_ai) d2 \<and>
       ev = TransferOk leaf0 leaf1)"
  unfolding transfer_def
  by (simp add: outcome_simps check_proof_def Let_def split_beta data_of_def not_less
      cong: conj_cong) (auto simp: outcome_simps split: if_splits)

lemma burn_Ok_iff:
  "burn rt pid accounts args L = Ok (L', ev) \<longleftrightarrow>
    (\<exists>payer tree_ai nullifier_ai system rest token_field.
       accounts = payer # tree_ai # nullifier_ai # system # rest \<and>
       length args = 424 \<and>
       to_field (poseidon_syscall rt) (b32_at args 320) = Some token_field \<and>
       groth16_verify rt BURN_VK (sub args 0 64) (sub args 64 128) (sub args 192 64)
         [b32_at args 256, b32_at args 288, token_field, be32_u64 (u64_from_le (sub args 352 8)),
          b32_at args 360, b32_at args 392] \<and>
       is_signer payer \<and>
       ai_key tree_ai = pda_of rt pid [TREE_SEED] \<and>
       ai_key nullifier_ai = pda_of rt pid [NULLIFIER_SEED] \<and>
       tree_is_known_root (data_of L tree_ai) (b32_at args 256) = Ok True \<and>
       check_and_append rt payer nullifier_ai system L (b32_at args 288) = Ok L' \<and>
       ev = BurnOk (u64_from_le (sub args 352 8)) (chain_lo (b32_at args 360)))"
  unfolding burn_def
  by (simp add: outcome_simps check_proof_def Let_def split_beta cong: conj_cong) auto

lemma initialize_xburn_pending_Ok_iff:
  "initialize_xburn_pending rt pid accounts args L = Ok (L', ev) \<longleftrightarrow>
    (\<exists>payer xp_ai system rest L1.
       accounts = payer # xp_ai # system # rest \<and>
       length args = 32 \<and> is_signer payer \<and>
       ai_key xp_ai = pda_of rt pid [XBURN_PENDING_SEED] \<and>
       create_pda rt payer xp_ai system pid XBURN_PENDING_SEED
         (snd (find_program_address rt [XBURN_PENDING_SEED] pid)) XBURN_PENDING_INIT_SIZE L = Ok L1 \<and>
       40 \<le> length (data_of L1 xp_ai) \<and>
       L' = set_data L1 (ai_key xp_ai)
         (patch (patch (data_of L1 xp_ai) 0 (b32_bytes (b32_at args 0))) 32 (u64_to_le 0)) \<and>
       ev = XburnPendingInitialized (b32_at args 0))"
  unfolding initialize_xburn_pending_def
  by (simp add: outcome_simps Let_def split_beta pda_of_def write32_def xp_layout cong: conj_cong) auto

lemma add_pending_xburn_Ok_iff:
  "add_pending_xburn rt pid accounts args L = Ok (L', ev) \<longleftrightarrow>
    (\<exists>operator xp_ai system rest expected_hash.
       accounts = operator # xp_ai # system # rest \<and>
       length args = 96 \<and>
       hash2 (poseidon_syscall rt) (b32_at args 32) (b32_at args 64) = Some expected_hash \<and>
       is_signer operator \<and>
       ai_key xp_ai = pda_of rt pid [XBURN_PENDING_SEED] \<and>
       xpending_operator (data_of L xp_ai) = Ok (ai_key operator) \<and>
       xpending_find (data_of L xp_ai) (b32_at args 0) = Ok None \<and>
       xpending_append rt operator xp_ai system (b32_at args 0) expected_hash L = Ok L' \<and>
       ev = XburnPendingAdded)"
  unfolding add_pending_xburn_def
  by (simp add: outcome_simps Let_def split_beta cong: conj_cong) auto

lemma mint_from_xburn_Ok_iff:
  "mint_from_xburn rt pid accounts args L = Ok (L', ev) \<longleftrightarrow>
    (\<exists>payer tree_ai xp_ai system rest off attested d leaf_index d'.
       accounts = payer # tree_ai # xp_ai # system # rest \<and>
       length args = 384 \<and>
       b32_at args 320 = be32_u64 SOLANA_CHAIN_ID \<and>
       groth16_verify rt XBURN_VK (sub args 0 64) (sub args 64 128) (sub args 192 64)
         [b32_at args 256, b32_at args 288, b32_at args 320, b32_at args 352] \<and>
       is_signer payer \<and>
       ai_key tree_ai = pda_of rt pid [TREE_SEED] \<and>
       ai_key xp_ai = pda_of rt pid [XBURN_PENDING_SEED] \<and>
       xpending_find (data_of L xp_ai) (b32_at args 288) = Ok (Some off) \<and>
       byte_at (data_of L xp_ai) (off + 64) = (Ok 0 :: (program_error, byte) outcome) \<and>
       xpending_expected_hash (data_of L xp_ai) off = Ok attested \<and>
       hash2 (poseidon_syscall rt) (b32_at args 320) (b32_at args 352) = Some attested \<and>
       tree_insert (poseidon_syscall rt) (data_of L tree_ai) (b32_at args 352) = Ok (d, leaf_index) \<and>
       set_byte (data_of (set_data L (ai_key tree_ai) d) xp_ai) (off + 64) 1 =
         (Ok d' :: (program_error, bytes) outcome) \<and>
       L' = set_data (set_data L (ai_key tree_ai) d) (ai_key xp_ai) d' \<and>
       ev = MintFromXburnOk leaf_index)"
proof -
  have "(case found of None \<Rightarrow> Err (Custom E_NOT_PENDING) | Some off \<Rightarrow> Ok off) = Inr off \<longleftrightarrow>
      found = Some off" for found :: "nat option" and off
    by (cases found) auto
  then show ?thesis
    unfolding mint_from_xburn_def
    by (simp add: outcome_simps check_proof_def Let_def split_beta cong: conj_cong) auto
qed

lemma xburn_Ok_iff:
  "xburn rt pid accounts args L = Ok (L', ev) \<longleftrightarrow>
    (\<exists>payer tree_ai nullifier_ai system rest.
       accounts = payer # tree_ai # nullifier_ai # system # rest \<and>
       length args = 384 \<and>
       groth16_verify rt XBURN_VK (sub args 0 64) (sub args 64 128) (sub args 192 64)
         [b32_at args 256, b32_at args 288, b32_at args 320, b32_at args 352] \<and>
       is_signer payer \<and>
       ai_key tree_ai = pda_of rt pid [TREE_SEED] \<and>
       ai_key nullifier_ai = pda_of rt pid [NULLIFIER_SEED] \<and>
       tree_is_known_root (data_of L tree_ai) (b32_at args 256) = Ok True \<and>
       check_and_append rt payer nullifier_ai system L (b32_at args 288) = Ok L' \<and>
       ev = XburnOk (chain_lo (b32_at args 320)))"
  unfolding xburn_def
  by (simp add: outcome_simps check_proof_def Let_def split_beta cong: conj_cong) auto

end
