(* ===== verification/Pool_Safety.thy ===== *)
theory Pool_Safety
  imports Pool_Handlers
begin

text \<open>
  The on-chain program refines the pool's state machine. \<open>pool_holds\<close> relates a ledger to a state
  of \<open>Pool_Spec\<close> through the accounts' bytes; \<open>initialize_pool\<close> establishes it, and every
  successful instruction of \<open>process_instruction\<close> is a \<open>pool_step\<close> of the action it decodes to.
\<close>

section \<open>The relation\<close>

definition tree_key :: "runtime \<Rightarrow> pubkey \<Rightarrow> pubkey" where
  "tree_key rt pid = pda_of rt pid [TREE_SEED]"

definition nullifier_key :: "runtime \<Rightarrow> pubkey \<Rightarrow> pubkey" where
  "nullifier_key rt pid = pda_of rt pid [NULLIFIER_SEED]"

definition xpending_key :: "runtime \<Rightarrow> pubkey \<Rightarrow> pubkey" where
  "xpending_key rt pid = pda_of rt pid [XBURN_PENDING_SEED]"

text \<open>
  What holds of the deployment: the runtime's laws, a hash that agrees with the constants, a
  program id of its own, and three distinct addresses.
\<close>

definition deployment :: "runtime \<Rightarrow> hash2_fun \<Rightarrow> pubkey \<Rightarrow> bool" where
  "deployment rt H pid \<longleftrightarrow>
     runtime_laws rt \<and> hashes_to (poseidon2 (poseidon_syscall rt)) H \<and> consts_match H \<and>
     pid \<noteq> SYSTEM_PROGRAM \<and> pid \<noteq> SPL_TOKEN_PROGRAM_ID \<and>
     distinct [tree_key rt pid, nullifier_key rt pid, xpending_key rt pid]"

definition registry_holds :: "pubkey \<Rightarrow> account \<Rightarrow> (pubkey \<times> xburn_entry list) option \<Rightarrow> bool" where
  "registry_holds pid a reg \<longleftrightarrow>
     (case reg of
        None \<Rightarrow> acc_owner a = SYSTEM_PROGRAM \<and> acc_data a = []
      | Some (op, es) \<Rightarrow> acc_owner a = pid \<and> xpending_hold (acc_data a) op es)"

definition pool_holds :: "runtime \<Rightarrow> hash2_fun \<Rightarrow> pubkey \<Rightarrow> ledger \<Rightarrow> pool \<Rightarrow> bool" where
  "pool_holds rt H pid L s \<longleftrightarrow>
     acc_owner (L (tree_key rt pid)) = pid \<and>
     tree_holds (poseidon_syscall rt) H (acc_data (L (tree_key rt pid))) (leaves s) \<and>
     acc_owner (L (nullifier_key rt pid)) = pid \<and>
     nullifiers_hold (acc_data (L (nullifier_key rt pid))) (spent s) \<and>
     registry_holds pid (L (xpending_key rt pid)) (registry s)"

lemma deploymentD:
  assumes "deployment rt H pid"
  shows "runtime_laws rt" and "hashes_to (poseidon2 (poseidon_syscall rt)) H" and "consts_match H"
    and "pid \<noteq> SYSTEM_PROGRAM" and "pid \<noteq> SPL_TOKEN_PROGRAM_ID"
    and "tree_key rt pid \<noteq> nullifier_key rt pid" and "tree_key rt pid \<noteq> xpending_key rt pid"
    and "nullifier_key rt pid \<noteq> xpending_key rt pid"
  using assms by (auto simp: deployment_def)

lemma pool_holdsD:
  assumes "pool_holds rt H pid L s"
  shows "acc_owner (L (tree_key rt pid)) = pid"
    and "tree_holds (poseidon_syscall rt) H (acc_data (L (tree_key rt pid))) (leaves s)"
    and "acc_owner (L (nullifier_key rt pid)) = pid"
    and "nullifiers_hold (acc_data (L (nullifier_key rt pid))) (spent s)"
    and "registry_holds pid (L (xpending_key rt pid)) (registry s)"
  using assms by (simp_all add: pool_holds_def)

text \<open>Changes to accounts of other programs do not touch the relation.\<close>

lemma registry_keeps:
  assumes "registry_holds pid a reg" and "acc_owner a' = acc_owner a"
    and "acc_owner a = pid \<or> acc_owner a = SYSTEM_PROGRAM \<Longrightarrow> acc_data a' = acc_data a"
  shows "registry_holds pid a' reg"
  using assms by (auto simp: registry_holds_def split: option.splits)

lemma pool_holds_frame:
  assumes "pool_holds rt H pid L s" and "changes_only K L L'"
    and "\<forall>k \<in> K. acc_owner (L k) \<noteq> pid \<and> acc_owner (L k) \<noteq> SYSTEM_PROGRAM"
  shows "pool_holds rt H pid L' s"
proof -
  have "acc_owner (L' k) = acc_owner (L k) \<and> acc_data (L' k) = acc_data (L k)"
    if "acc_owner (L k) = pid \<or> acc_owner (L k) = SYSTEM_PROGRAM" for k
    using that assms(2,3) by (auto simp: changes_only_def)
  then show ?thesis
    using pool_holdsD [OF assms(1)] changes_onlyD(1) [OF assms(2)]
    by (simp add: pool_holds_def registry_keeps)
qed

section \<open>The parts of an instruction\<close>

lemma insert_commitment:
  assumes "deployment rt H pid" and "pool_holds rt H pid L s" and "field_elem c"
    and "tree_insert (poseidon_syscall rt) (acc_data (L (tree_key rt pid))) c = Ok (d, i)"
  shows "pool_holds rt H pid (set_data L (tree_key rt pid) d) (s\<lparr>leaves := leaves s @ [c]\<rparr>)"
    and "i = word_of_nat (length (leaves s))"
proof -
  note h = pool_holdsD [OF assms(2)]
  have "tree_holds (poseidon_syscall rt) H d (leaves s @ [c]) \<and> i = word_of_nat (length (leaves s))"
    using pool_tree.ins_cases [OF h(2) assms(3,4)] by simp
  then show "pool_holds rt H pid (set_data L (tree_key rt pid) d) (s\<lparr>leaves := leaves s @ [c]\<rparr>)"
    and "i = word_of_nat (length (leaves s))"
    using h deploymentD(6,7) [OF assms(1)] by (simp_all add: pool_holds_def)
qed

lemma append_nullifier:
  assumes "deployment rt H pid" and "pool_holds rt H pid L s"
    and "ai_key nf = nullifier_key rt pid" and "n \<notin> set (spent s)"
    and "nullifier_append rt payer nf system n L = Ok L'"
  shows "pool_holds rt H pid L' (s\<lparr>spent := spent s @ [n]\<rparr>)"
proof -
  note h = pool_holdsD [OF assms(2)] and dep = deploymentD [OF assms(1)]
  have acc: "nullifier_account rt (ai_key nf) L (spent s)"
    using h(4) dep(1) assms(3) by (simp add: nullifier_account_def)
  note a = nullifier_append_account [OF acc assms(4,5)]
  have data: "acc_data (L' k) = acc_data (L k)" if "k \<noteq> nullifier_key rt pid" for k
    using changes_onlyD(2) [OF a(2)] that assms(3) by simp
  have owner: "acc_owner (L' k) = acc_owner (L k)" for k
    by (rule changes_onlyD(1) [OF a(2)])
  have "registry_holds pid (L' (xpending_key rt pid)) (registry s)"
    using dep(8) by (intro registry_keeps [OF h(5)] owner data) simp
  then show ?thesis
    using h a(1) dep(6) assms(3) data owner by (simp add: pool_holds_def nullifier_account_def)
qed

lemma spend_once:
  assumes "deployment rt H pid" and "pool_holds rt H pid L s"
    and "ai_key nf = nullifier_key rt pid"
    and "check_and_append rt payer nf system L n = Ok L'"
  shows "n \<notin> set (spent s)" and "pool_holds rt H pid L' (s\<lparr>spent := spent s @ [n]\<rparr>)"
proof -
  have acc: "nullifier_account rt (ai_key nf) L (spent s)"
    using pool_holdsD(4) [OF assms(2)] deploymentD(1) [OF assms(1)] assms(3)
    by (simp add: nullifier_account_def)
  have n: "n \<notin> set (spent s)" and "nullifier_append rt payer nf system n L = Ok L'"
    using assms(4) by (simp_all add: check_and_append_def nullifier_account_contains [OF acc]
        reject_if_def split: if_splits)
  then show "n \<notin> set (spent s)" and "pool_holds rt H pid L' (s\<lparr>spent := spent s @ [n]\<rparr>)"
    using append_nullifier [OF assms(1-3)] by blast+
qed

lemma not_spent:
  assumes "pool_holds rt H pid L s" and "ai_key nf = nullifier_key rt pid"
  shows "nullifier_contains (data_of L nf) n = Ok (n \<in> set (spent s))"
  using pool_holdsD(4) [OF assms(1)] assms(2)
  by (simp add: data_of_def nullifier_contains_iff)

lemma known_recent:
  assumes "pool_holds rt H pid L s" and "ai_key tree_ai = tree_key rt pid"
  shows "tree_is_known_root (data_of L tree_ai) r = Ok True \<longleftrightarrow> recent_root H (leaves s) r"
  using pool_tree.known_iff [OF pool_holdsD(2) [OF assms(1)], of r] assms(2)
  by (simp add: known_in_def recent_root_def data_of_def)

lemma token_move:
  assumes "deployment rt H pid" and "pool_holds rt H pid L s"
    and "ai_key token_program = SPL_TOKEN_PROGRAM_ID"
    and "spl_transfer rt token_program src dst authority n seeds L = Ok L'"
  shows "pool_holds rt H pid L' s" and "acc_data (L' (tree_key rt pid)) = acc_data (L (tree_key rt pid))"
proof -
  note dep = deploymentD [OF assms(1)]
  note t = token_transfer_spec [OF runtime_lawsD(3) [OF dep(1)]
      assms(4) [unfolded spl_transfer_eq [OF assms(3)]]]
  have "\<forall>k \<in> {ai_key src, ai_key dst}. acc_owner (L k) \<noteq> pid \<and> acc_owner (L k) \<noteq> SYSTEM_PROGRAM"
    using t(1,2) dep(5) by auto
  then show "pool_holds rt H pid L' s"
    by (rule pool_holds_frame [OF assms(2) t(4)])
  show "acc_data (L' (tree_key rt pid)) = acc_data (L (tree_key rt pid))"
    using t(1,2) dep(5) pool_holdsD(1) [OF assms(2)] by (intro changes_onlyD(2) [OF t(4)]) auto
qed

section \<open>Every successful instruction is a step\<close>

text \<open>The action an instruction's accounts and data stand for.\<close>

definition decode :: "account_info list \<Rightarrow> bytes \<Rightarrow> action option" where
  "decode accounts data =
     (case data of
        [] \<Rightarrow> None
      | tag # args \<Rightarrow>
          if tag = 1 then Some (Deposit (b32_at args 256) (u64_from_le (sub args 288 8)) (b32_at args 296))
          else if tag = 2 then
            Some (Withdraw (b32_at args 256) (b32_at args 288) (b32_at args 320)
              (u64_from_le (sub args 352 8)) (b32_at args 360))
          else if tag = 3 then
            Some (Transfer (b32_at args 256) (b32_at args 288) (b32_at args 320)
              (b32_at args 352) (b32_at args 384))
          else if tag = 4 then
            Some (Burn (b32_at args 256) (b32_at args 288) (b32_at args 320)
              (u64_from_le (sub args 352 8)) (b32_at args 360) (b32_at args 392))
          else if tag = 5 then Some (InitRegistry (b32_at args 0))
          else if tag = 6 then
            (case accounts of
               [] \<Rightarrow> None
             | a # _ \<Rightarrow> Some (Attest (ai_key a) (b32_at args 0) (b32_at args 32) (b32_at args 64)))
          else if tag = 7 then
            Some (Mint (b32_at args 256) (b32_at args 288) (b32_at args 320) (b32_at args 352))
          else if tag = 8 then
            Some (Xburn (b32_at args 256) (b32_at args 288) (b32_at args 320) (b32_at args 352))
          else None)"

text \<open>\<open>refines rt H pid s a L'\<close>: the ledger \<open>L'\<close> holds a successor of \<open>s\<close> by the action \<open>a\<close>.\<close>

definition refines :: "runtime \<Rightarrow> hash2_fun \<Rightarrow> pubkey \<Rightarrow> pool \<Rightarrow> action \<Rightarrow> ledger \<Rightarrow> bool" where
  "refines rt H pid s a L' \<longleftrightarrow>
     (\<exists>s'. pool_step (poseidon_syscall rt) H a s s' \<and> pool_holds rt H pid L' s')"

lemma refinesI:
  "pool_step (poseidon_syscall rt) H a s s' \<Longrightarrow> pool_holds rt H pid L' s' \<Longrightarrow> refines rt H pid s a L'"
  by (auto simp: refines_def)

lemma proven_field:
  assumes "deployment rt H pid" and "groth16_verify rt vk a b c public" and "x \<in> set public"
  shows "field_elem x"
  by (rule verifier_fields [OF runtime_lawsD(5) [OF deploymentD(1) [OF assms(1)]] assms(2,3)])

lemma deposit_refines:
  assumes "deployment rt H pid" and "pool_holds rt H pid L s"
    and "deposit rt pid accounts args L = Ok (L', ev)"
  shows "refines rt H pid s
    (Deposit (b32_at args 256) (u64_from_le (sub args 288 8)) (b32_at args 296)) L'"
    and "ev = DepositOk (word_of_nat (length (leaves s)))"
proof -
  from assms(3) [unfolded deposit_Ok_iff] obtain L1 d i tree_ai token_program
    depositor depositor_token vault_token token_field amount where
    pf: "groth16_verify rt DEPOSIT_VK (sub args 0 64) (sub args 64 128) (sub args 192 64)
      [token_field, be32_u64 amount, b32_at args 296]" and
    keys: "ai_key token_program = SPL_TOKEN_PROGRAM_ID" "ai_key tree_ai = tree_key rt pid" and
    move: "spl_transfer rt token_program depositor_token vault_token depositor amount [] L = Ok L1" and
    ins: "tree_insert (poseidon_syscall rt) (data_of L1 tree_ai) (b32_at args 296) = Ok (d, i)" and
    L': "L' = set_data L1 (ai_key tree_ai) d" and ev: "ev = DepositOk i"
    unfolding tree_key_def by blast
  have c: "field_elem (b32_at args 296)"
    by (rule proven_field [OF assms(1) pf]) simp
  note h = token_move(1) [OF assms(1,2) keys(1) move]
  note r = insert_commitment [OF assms(1) h c ins [unfolded data_of_def keys(2)]]
  show "refines rt H pid s
      (Deposit (b32_at args 256) (u64_from_le (sub args 288 8)) (b32_at args 296)) L'"
    using r(1) unfolding L' keys(2) by (rule refinesI [OF pool_step.deposit])
  show "ev = DepositOk (word_of_nat (length (leaves s)))"
    using ev r(2) by simp
qed

lemma withdraw_refines:
  assumes "deployment rt H pid" and "pool_holds rt H pid L s"
    and "withdraw rt pid accounts args L = Ok (L', ev)"
  shows "refines rt H pid s
    (Withdraw (b32_at args 256) (b32_at args 288) (b32_at args 320) (u64_from_le (sub args 352 8))
       (b32_at args 360)) L'"
proof -
  from assms(3) [unfolded withdraw_Ok_iff] obtain L1 tree_ai nullifier_ai token_program payer system
    vault_token recipient_token vault_authority amount seeds where
    keys: "ai_key token_program = SPL_TOKEN_PROGRAM_ID" "ai_key tree_ai = tree_key rt pid"
      "ai_key nullifier_ai = nullifier_key rt pid" and
    known: "tree_is_known_root (data_of L tree_ai) (b32_at args 256) = Ok True" and
    spend: "check_and_append rt payer nullifier_ai system L (b32_at args 288) = Ok L1" and
    move: "spl_transfer rt token_program vault_token recipient_token vault_authority amount seeds L1
      = Ok L'"
    unfolding tree_key_def nullifier_key_def by blast
  have root: "recent_root H (leaves s) (b32_at args 256)"
    using known known_recent [OF assms(2) keys(2)] by simp
  note n = spend_once [OF assms(1,2) keys(3) spend]
  show ?thesis
    by (rule refinesI [OF pool_step.withdraw [OF root n(1)] token_move(1) [OF assms(1) n(2) keys(1) move]])
qed

lemma burn_refines:
  assumes "deployment rt H pid" and "pool_holds rt H pid L s"
    and "burn rt pid accounts args L = Ok (L', ev)"
  shows "refines rt H pid s
    (Burn (b32_at args 256) (b32_at args 288) (b32_at args 320) (u64_from_le (sub args 352 8))
       (b32_at args 360) (b32_at args 392)) L'"
proof -
  from assms(3) [unfolded burn_Ok_iff] obtain tree_ai nullifier_ai payer system where
    keys: "ai_key tree_ai = tree_key rt pid" "ai_key nullifier_ai = nullifier_key rt pid" and
    known: "tree_is_known_root (data_of L tree_ai) (b32_at args 256) = Ok True" and
    spend: "check_and_append rt payer nullifier_ai system L (b32_at args 288) = Ok L'"
    unfolding tree_key_def nullifier_key_def by blast
  have root: "recent_root H (leaves s) (b32_at args 256)"
    using known known_recent [OF assms(2) keys(1)] by simp
  note n = spend_once [OF assms(1,2) keys(2) spend]
  show ?thesis
    by (rule refinesI [OF pool_step.burn [OF root n(1)] n(2)])
qed

lemma xburn_refines:
  assumes "deployment rt H pid" and "pool_holds rt H pid L s"
    and "xburn rt pid accounts args L = Ok (L', ev)"
  shows "refines rt H pid s
    (Xburn (b32_at args 256) (b32_at args 288) (b32_at args 320) (b32_at args 352)) L'"
proof -
  from assms(3) [unfolded xburn_Ok_iff] obtain tree_ai nullifier_ai payer system where
    keys: "ai_key tree_ai = tree_key rt pid" "ai_key nullifier_ai = nullifier_key rt pid" and
    known: "tree_is_known_root (data_of L tree_ai) (b32_at args 256) = Ok True" and
    spend: "check_and_append rt payer nullifier_ai system L (b32_at args 288) = Ok L'"
    unfolding tree_key_def nullifier_key_def by blast
  have root: "recent_root H (leaves s) (b32_at args 256)"
    using known known_recent [OF assms(2) keys(1)] by simp
  note n = spend_once [OF assms(1,2) keys(2) spend]
  show ?thesis
    by (rule refinesI [OF pool_step.xburn [OF root n(1)] n(2)])
qed

lemma transfer_refines:
  assumes "deployment rt H pid" and "pool_holds rt H pid L s"
    and "transfer rt pid accounts args L = Ok (L', ev)"
  shows "refines rt H pid s
    (Transfer (b32_at args 256) (b32_at args 288) (b32_at args 320) (b32_at args 352)
       (b32_at args 384)) L'"
    and "ev = TransferOk (word_of_nat (length (leaves s))) (word_of_nat (Suc (length (leaves s))))"
proof -
  from assms(3) [unfolded transfer_Ok_iff] obtain L1 L2 d1 i1 d2 i2 tree_ai nullifier_ai payer system
    where pf: "groth16_verify rt TRANSFER_VK (sub args 0 64) (sub args 64 128) (sub args 192 64)
      [b32_at args 256, b32_at args 288, b32_at args 320, b32_at args 352, b32_at args 384]" and
    keys: "ai_key tree_ai = tree_key rt pid" "ai_key nullifier_ai = nullifier_key rt pid" and
    known: "tree_is_known_root (data_of L tree_ai) (b32_at args 256) = Ok True" and
    new: "nullifier_contains (data_of L nullifier_ai) (b32_at args 288) = Ok False"
      "nullifier_contains (data_of L nullifier_ai) (b32_at args 320) = Ok False"
      "b32_at args 288 \<noteq> b32_at args 320" and
    app: "nullifier_append rt payer nullifier_ai system (b32_at args 288) L = Ok L1"
      "nullifier_append rt payer nullifier_ai system (b32_at args 320) L1 = Ok L2" and
    ins: "tree_insert (poseidon_syscall rt) (data_of L2 tree_ai) (b32_at args 352) = Ok (d1, i1)"
      "tree_insert (poseidon_syscall rt) d1 (b32_at args 384) = Ok (d2, i2)" and
    L': "L' = set_data (set_data L2 (ai_key tree_ai) d1) (ai_key tree_ai) d2" and
    ev: "ev = TransferOk i1 i2"
    unfolding tree_key_def nullifier_key_def by blast
  let ?s1 = "s\<lparr>spent := spent s @ [b32_at args 288]\<rparr>"
  let ?s2 = "?s1\<lparr>spent := spent ?s1 @ [b32_at args 320]\<rparr>"
  let ?s3 = "?s2\<lparr>leaves := leaves ?s2 @ [b32_at args 352]\<rparr>"
  have root: "recent_root H (leaves s) (b32_at args 256)"
    using known known_recent [OF assms(2) keys(1)] by simp
  have n: "b32_at args 288 \<notin> set (spent s)" "b32_at args 320 \<notin> set (spent s)"
    using new(1,2) by (simp_all add: not_spent [OF assms(2) keys(2)])
  then have n1: "b32_at args 320 \<notin> set (spent ?s1)"
    using new(3) by simp
  have c: "field_elem (b32_at args 352)" "field_elem (b32_at args 384)"
    by (rule proven_field [OF assms(1) pf], simp)+
  note h1 = append_nullifier [OF assms(1,2) keys(2) n(1) app(1)]
  note h2 = append_nullifier [OF assms(1) h1 keys(2) n1 app(2)]
  note h3 = insert_commitment [OF assms(1) h2 c(1) ins(1) [unfolded data_of_def keys(1)]]
  have "tree_insert (poseidon_syscall rt) (acc_data (set_data L2 (tree_key rt pid) d1 (tree_key rt pid)))
      (b32_at args 384) = Ok (d2, i2)"
    using ins(2) by simp
  note h4 = insert_commitment [OF assms(1) h3(1) c(2) this]
  have "pool_step (poseidon_syscall rt) H
      (Transfer (b32_at args 256) (b32_at args 288) (b32_at args 320) (b32_at args 352) (b32_at args 384)) s
      (?s3\<lparr>leaves := leaves ?s3 @ [b32_at args 384]\<rparr>)"
    using pool_step.transfer [OF root n new(3)] by simp
  then show "refines rt H pid s (Transfer (b32_at args 256) (b32_at args 288) (b32_at args 320)
      (b32_at args 352) (b32_at args 384)) L'"
    unfolding L' keys(1) using h4(1) by (rule refinesI)
  show "ev = TransferOk (word_of_nat (length (leaves s))) (word_of_nat (Suc (length (leaves s))))"
    using ev h3(2) h4(2) by simp
qed

text \<open>Creating an account needs one that the System Program still owns.\<close>

lemma create_pda_spec:
  assumes "deployment rt H pid"
    and "create_pda rt payer a system pid seed bump n L = Ok L'" and "n \<le> MAX_ACCOUNT_SIZE"
  shows "acc_owner (L (ai_key a)) = SYSTEM_PROGRAM" and "acc_owner (L' (ai_key a)) = pid"
    and "acc_data (L' (ai_key a)) = replicate n 0"
    and "k \<noteq> ai_key a \<Longrightarrow> acc_owner (L' k) = acc_owner (L k)"
    and "k \<noteq> ai_key a \<Longrightarrow> acc_data (L' k) = acc_data (L k)"
proof -
  obtain mb where "cpi rt (create_account_ix (ai_key payer) (ai_key a) (mb n) (word_of_nat n) pid)
      [payer, a, system] [[seed, [bump]]] L = Ok L'"
    using assms(2) by (auto simp: create_pda_Ok_iff)
  note c = create_account_spec [OF runtime_lawsD(2) [OF deploymentD(1) [OF assms(1)]] this]
  show "acc_owner (L (ai_key a)) = SYSTEM_PROGRAM" and "acc_owner (L' (ai_key a)) = pid"
    and "k \<noteq> ai_key a \<Longrightarrow> acc_owner (L' k) = acc_owner (L k)"
    and "k \<noteq> ai_key a \<Longrightarrow> acc_data (L' k) = acc_data (L k)"
    by (fact c)+
  show "acc_data (L' (ai_key a)) = replicate n 0"
    using c(2) unat_count [OF assms(3)] by simp
qed

lemma initialize_pool_refused:
  assumes "deployment rt H pid" and "pool_holds rt H pid L s"
  shows "initialize_pool rt pid accounts L \<noteq> Ok (L', ev)"
proof
  assume "initialize_pool rt pid accounts L = Ok (L', ev)"
  then obtain payer tree_ai system bump L1 where key: "ai_key tree_ai = tree_key rt pid"
    and c: "create_pda rt payer tree_ai system pid TREE_SEED bump COMMITMENT_TREE_SIZE L = Ok L1"
    unfolding initialize_pool_Ok_iff tree_key_def by blast
  have "COMMITMENT_TREE_SIZE \<le> MAX_ACCOUNT_SIZE"
    by (simp add: layout MAX_ACCOUNT_SIZE_def)
  from create_pda_spec(1) [OF assms(1) c this] show False
    using pool_holdsD(1) [OF assms(2)] deploymentD(4) [OF assms(1)] key by simp
qed

lemma initialize_registry_refused:
  assumes "deployment rt H pid" and "pool_holds rt H pid L s" and "registry s = Some (op, es)"
  shows "initialize_xburn_pending rt pid accounts args L \<noteq> Ok (L', ev)"
proof
  assume "initialize_xburn_pending rt pid accounts args L = Ok (L', ev)"
  then obtain payer xp_ai system bump L1 where key: "ai_key xp_ai = xpending_key rt pid"
    and c: "create_pda rt payer xp_ai system pid XBURN_PENDING_SEED bump XBURN_PENDING_INIT_SIZE L = Ok L1"
    unfolding initialize_xburn_pending_Ok_iff xpending_key_def by blast
  have "XBURN_PENDING_INIT_SIZE \<le> MAX_ACCOUNT_SIZE"
    by (simp add: XBURN_PENDING_INIT_SIZE_def XP_OFF_ENTRIES_def MAX_ACCOUNT_SIZE_def)
  from create_pda_spec(1) [OF assms(1) c this] show False
    using pool_holdsD(5) [OF assms(2)] deploymentD(4) [OF assms(1)] key assms(3)
    by (simp add: registry_holds_def)
qed

lemma init_registry_refines:
  assumes "deployment rt H pid" and "pool_holds rt H pid L s"
    and "initialize_xburn_pending rt pid accounts args L = Ok (L', ev)"
  shows "refines rt H pid s (InitRegistry (b32_at args 0)) L'"
proof -
  from assms(3) [unfolded initialize_xburn_pending_Ok_iff] obtain payer xp_ai system bump L1 where
    key: "ai_key xp_ai = xpending_key rt pid" and
    c: "create_pda rt payer xp_ai system pid XBURN_PENDING_SEED bump XBURN_PENDING_INIT_SIZE L = Ok L1" and
    L': "L' = set_data L1 (ai_key xp_ai)
      (patch (patch (data_of L1 xp_ai) 0 (b32_bytes (b32_at args 0))) 32 (u64_to_le 0))"
    unfolding xpending_key_def by blast
  note h = pool_holdsD [OF assms(2)] and dep = deploymentD [OF assms(1)]
  have "XBURN_PENDING_INIT_SIZE \<le> MAX_ACCOUNT_SIZE"
    by (simp add: XBURN_PENDING_INIT_SIZE_def xp_layout MAX_ACCOUNT_SIZE_def)
  note cr = create_pda_spec [OF assms(1) c this, unfolded key]
  have none: "registry s = None"
    using h(5) cr(1) dep(4) by (auto simp: registry_holds_def split: option.splits)
  have zeros: "replicate 40 (0 :: byte) = replicate 32 0 @ replicate 8 0"
    by (simp flip: replicate_add)
  have "patch (patch (replicate 40 0) 0 (b32_bytes op)) 32 (u64_to_le 0) = xpending_bytes op []" for op
    using patch_middle [of "b32_bytes op" 32 "u64_to_le 0" "replicate 8 0" "[]"]
    by (simp only: zeros xpending_bytes_def patch_prefix length_encodings length_replicate list.map
        concat.simps append_Nil2 list.size refl) simp
  then have "xpending_hold (acc_data (L' (xpending_key rt pid))) (b32_at args 0) []"
    using cr(3) by (simp add: L' key data_of_def xpending_hold_def XBURN_PENDING_INIT_SIZE_def
        xp_layout MAX_ACCOUNT_SIZE_def)
  then have "pool_holds rt H pid L' (s\<lparr>registry := Some (b32_at args 0, [])\<rparr>)"
    using h cr(2,4,5) dep(7,8) by (simp add: pool_holds_def registry_holds_def L' key)
  with none show ?thesis
    by (intro refinesI [OF pool_step.init_registry])
qed

lemma registry_present:
  assumes "pool_holds rt H pid L s" and "ai_key xp_ai = xpending_key rt pid"
    and "xpending_find (data_of L xp_ai) n = Ok found"
  obtains op es where "registry s = Some (op, es)" and "xpending_hold (data_of L xp_ai) op es"
    and "acc_owner (L (xpending_key rt pid)) = pid"
proof (cases "registry s")
  case None
  then have "data_of L xp_ai = []"
    using pool_holdsD(5) [OF assms(1)] assms(2) by (simp add: registry_holds_def data_of_def)
  with assms(3) show thesis
    by (simp add: xpending_find_def xpending_count_def read_at_def XP_OFF_COUNT_def)
next
  case (Some r)
  then show thesis
    using pool_holdsD(5) [OF assms(1)] assms(2) that
    by (cases r) (auto simp: registry_holds_def data_of_def)
qed

lemma attest_refines:
  assumes "deployment rt H pid" and "pool_holds rt H pid L s"
    and "add_pending_xburn rt pid accounts args L = Ok (L', ev)"
  shows "\<exists>operator rest. accounts = operator # rest \<and> is_signer operator \<and>
    refines rt H pid s
      (Attest (ai_key operator) (b32_at args 0) (b32_at args 32) (b32_at args 64)) L'"
proof -
  from assms(3) [unfolded add_pending_xburn_Ok_iff] obtain operator xp_ai system rest hash where
    acc: "accounts = operator # xp_ai # system # rest" "is_signer operator" and
    hash: "hash2 (poseidon_syscall rt) (b32_at args 32) (b32_at args 64) = Some hash" and
    key: "ai_key xp_ai = xpending_key rt pid" and
    op: "xpending_operator (data_of L xp_ai) = Ok (ai_key operator)" and
    fresh: "xpending_find (data_of L xp_ai) (b32_at args 0) = Ok None" and
    app: "xpending_append rt operator xp_ai system (b32_at args 0) hash L = Ok L'"
    unfolding xpending_key_def by blast
  note h = pool_holdsD [OF assms(2)] and dep = deploymentD [OF assms(1)]
  obtain op' es where reg: "registry s = Some (op', es)" and xp: "xpending_hold (data_of L xp_ai) op' es"
    and own: "acc_owner (L (xpending_key rt pid)) = pid"
    by (rule registry_present [OF assms(2) key fresh])
  have [simp]: "op' = ai_key operator"
    using op xpending_operator_holds [OF xp] by simp
  have n: "b32_at args 0 \<notin> xe_nullifier ` set es"
    using fresh xpending_find_present [OF xp] by (auto simp: in_set_conv_nth)
  have a: "xpending_hold (data_of L' xp_ai) op' (es @ [fresh_entry (b32_at args 0) hash]) \<and>
      changes_only {ai_key xp_ai} L L'"
    by (rule xpending_append_holds [OF runtime_lawsD(1,4) [OF dep(1)] xp n app])
  then have keep: "acc_owner (L' k) = acc_owner (L k)"
    "k \<noteq> xpending_key rt pid \<Longrightarrow> acc_data (L' k) = acc_data (L k)" for k
    by (simp_all add: changes_only_def key)
  have "pool_holds rt H pid L'
      (s\<lparr>registry := Some (op', es @ [fresh_entry (b32_at args 0) hash])\<rparr>)"
    using h keep a own dep(7,8) key by (simp add: pool_holds_def registry_holds_def data_of_def)
  moreover have "pool_step (poseidon_syscall rt) H
      (Attest op' (b32_at args 0) (b32_at args 32) (b32_at args 64)) s
      (s\<lparr>registry := Some (op', es @ [fresh_entry (b32_at args 0) hash])\<rparr>)"
    using reg n hash by (intro pool_step.attest) (simp_all add: hash2_def)
  ultimately show ?thesis
    using acc by (auto intro: refinesI)
qed

lemma mark_minted_update:
  assumes "distinct (map xe_nullifier es)" and "i < length es" and "xe_nullifier (es ! i) = n"
  shows "es[i := (es ! i)\<lparr>xe_minted := True\<rparr>] = mark_minted n es"
proof (rule nth_equalityI)
  fix j assume j: "j < length (es[i := (es ! i)\<lparr>xe_minted := True\<rparr>])"
  have "xe_nullifier (es ! j) = n \<longleftrightarrow> j = i"
    using nth_eq_iff_index_eq [OF assms(1), of j i] assms(2,3) j by simp
  then show "es[i := (es ! i)\<lparr>xe_minted := True\<rparr>] ! j = mark_minted n es ! j"
    using j by (simp add: mark_minted_def nth_list_update)
qed (simp add: mark_minted_def)

lemma mint_refines:
  assumes "deployment rt H pid" and "pool_holds rt H pid L s"
    and "mint_from_xburn rt pid accounts args L = Ok (L', ev)"
  shows "refines rt H pid s
    (Mint (b32_at args 256) (b32_at args 288) (b32_at args 320) (b32_at args 352)) L'"
proof -
  from assms(3) [unfolded mint_from_xburn_Ok_iff] obtain tree_ai xp_ai off attested d i d' where
    pf: "groth16_verify rt XBURN_VK (sub args 0 64) (sub args 64 128) (sub args 192 64)
      [b32_at args 256, b32_at args 288, b32_at args 320, b32_at args 352]" and
    key: "ai_key tree_ai = tree_key rt pid" "ai_key xp_ai = xpending_key rt pid" and
    find: "xpending_find (data_of L xp_ai) (b32_at args 288) = Ok (Some off)" and
    unminted: "byte_at (data_of L xp_ai) (off + 64) = (Ok 0 :: (program_error, byte) outcome)" and
    att: "xpending_expected_hash (data_of L xp_ai) off = Ok attested" and
    sub: "hash2 (poseidon_syscall rt) (b32_at args 320) (b32_at args 352) = Some attested" and
    ins: "tree_insert (poseidon_syscall rt) (data_of L tree_ai) (b32_at args 352) = Ok (d, i)" and
    mark: "set_byte (data_of (set_data L (ai_key tree_ai) d) xp_ai) (off + 64) 1 =
      (Ok d' :: (program_error, bytes) outcome)" and
    L': "L' = set_data (set_data L (ai_key tree_ai) d) (ai_key xp_ai) d'"
    unfolding tree_key_def xpending_key_def by blast
  note dep = deploymentD [OF assms(1)]
  obtain op es where reg: "registry s = Some (op, es)" and xp: "xpending_hold (data_of L xp_ai) op es"
    and own: "acc_owner (L (xpending_key rt pid)) = pid"
    by (rule registry_present [OF assms(2) key(2) find])
  have data: "data_of L xp_ai = xpending_bytes op es" and dist: "distinct (map xe_nullifier es)"
    using xp by (simp_all add: xpending_hold_def)
  have "b32_at args 288 \<in> xe_nullifier ` set es"
    using find xpending_find_absent [OF xp] by fastforce
  then obtain j where j: "j < length es" "xe_nullifier (es ! j) = b32_at args 288"
    by (auto simp: in_set_conv_nth)
  have off: "off = 40 + j * 65"
    using find xpending_find_present [OF xp j] by simp
  have entry: "\<not> xe_minted (es ! j)" "attested = xe_expected (es ! j)"
    using unminted att entry_fields(2,3) [OF j(1), of op] entry_bound [OF j(1), of op]
    by (simp_all add: off data xpending_expected_hash_def split: if_splits)
  have c: "field_elem (b32_at args 352)"
    by (rule proven_field [OF assms(1) pf]) simp
  note h1 = insert_commitment(1) [OF assms(1,2) c ins [unfolded data_of_def key(1)]]
  have same: "data_of (set_data L (ai_key tree_ai) d) xp_ai = data_of L xp_ai"
    using dep(7) by (simp add: data_of_def key)
  note m = xpending_mark_minted [OF xp j(1)]
  have d': "xpending_hold d' op (mark_minted (b32_at args 288) es)"
    using mark m(2) by (simp add: same off outcome_simps mark_minted_update [OF dist j])
  have "pool_holds rt H pid L' (s\<lparr>leaves := leaves s @ [b32_at args 352],
      registry := Some (op, mark_minted (b32_at args 288) es)\<rparr>)"
    using pool_holdsD [OF h1] d' own dep(7,8)
    by (simp add: pool_holds_def registry_holds_def L' key)
  moreover have "pool_step (poseidon_syscall rt) H
      (Mint (b32_at args 256) (b32_at args 288) (b32_at args 320) (b32_at args 352)) s
      (s\<lparr>leaves := leaves s @ [b32_at args 352],
         registry := Some (op, mark_minted (b32_at args 288) es)\<rparr>)"
    using reg j entry sub by (intro pool_step.mint [where e = "es ! j"]) (simp_all add: hash2_def)
  ultimately show ?thesis by (auto intro: refinesI)
qed

lemma process_refines:
  assumes "deployment rt H pid" and "pool_holds rt H pid L s"
    and "process_instruction rt pid accounts data L = Ok (L', ev)"
  shows "\<exists>a. decode accounts data = Some a \<and> refines rt H pid s a L'"
proof (cases data)
  case Nil
  with assms(3) show ?thesis by (simp add: process_instruction_def)
next
  case (Cons tag args)
  note run = assms(3) [unfolded Cons process_instruction_def, simplified]
  show ?thesis
    using run initialize_pool_refused [OF assms(1,2)] deposit_refines(1) [OF assms(1,2)]
      transfer_refines(1) [OF assms(1,2)] burn_refines [OF assms(1,2)]
      withdraw_refines [OF assms(1,2)] init_registry_refines [OF assms(1,2)]
      attest_refines [OF assms(1,2)] mint_refines [OF assms(1,2)] xburn_refines [OF assms(1,2)]
    by (fastforce simp: decode_def Cons split: if_splits)
qed

section \<open>The initial state\<close>

definition empty_pool :: pool where
  "empty_pool = \<lparr>leaves = [], spent = [], registry = None\<rparr>"

definition registry_unallocated :: "runtime \<Rightarrow> pubkey \<Rightarrow> ledger \<Rightarrow> bool" where
  "registry_unallocated rt pid L \<longleftrightarrow>
     acc_owner (L (xpending_key rt pid)) = SYSTEM_PROGRAM \<and> acc_data (L (xpending_key rt pid)) = []"

lemma initialize_pool_holds:
  assumes "deployment rt H pid" and "registry_unallocated rt pid L"
    and "initialize_pool rt pid accounts L = Ok (L', ev)"
  shows "pool_holds rt H pid L' empty_pool"
proof -
  from assms(3) [unfolded initialize_pool_Ok_iff] obtain payer tree_ai nf system b1 b2 L1 L2 L3 where
    key: "ai_key tree_ai = tree_key rt pid" "ai_key nf = nullifier_key rt pid" and
    c1: "create_pda rt payer tree_ai system pid TREE_SEED b1 COMMITMENT_TREE_SIZE L = Ok L1" and
    c2: "create_pda rt payer nf system pid NULLIFIER_SEED b2 NULLIFIER_INIT_SIZE L1 = Ok L2" and
    w1: "write_account tree_ai (tree_to_bytes initial_tree) L2 = Ok L3" and
    w2: "write_account nf (nullifier_set_bytes []) L3 = Ok L'"
    unfolding tree_key_def nullifier_key_def by blast
  note dep = deploymentD [OF assms(1)]
  have sizes: "COMMITMENT_TREE_SIZE \<le> MAX_ACCOUNT_SIZE" "NULLIFIER_INIT_SIZE \<le> MAX_ACCOUNT_SIZE"
    by (simp_all add: layout NULLIFIER_INIT_SIZE_def MAX_ACCOUNT_SIZE_def)
  note t = create_pda_spec [OF assms(1) c1 sizes(1), unfolded key]
  note n = create_pda_spec [OF assms(1) c2 sizes(2), unfolded key]
  have L': "L' = set_data (set_data L2 (tree_key rt pid)
      (patch (acc_data (L2 (tree_key rt pid))) 0 (tree_to_bytes initial_tree))) (nullifier_key rt pid)
      (patch (acc_data (L2 (nullifier_key rt pid))) 0 (nullifier_set_bytes []))"
    using w1 w2 dep(6) by (simp add: write_account_Ok_iff data_of_def key)
  have "length (tree_to_bytes initial_tree) = COMMITMENT_TREE_SIZE"
    by (rule length_tree_to_bytes) (simp_all add: initial_tree_def)
  then have "acc_data (L' (tree_key rt pid)) = tree_to_bytes initial_tree"
    using t(3) n(5) dep(6) by (simp add: L' patch_def)
  moreover have "acc_data (L' (nullifier_key rt pid)) = nullifier_set_bytes []"
    using n(3) by (simp add: L' patch_def NULLIFIER_INIT_SIZE_def)
  moreover have "registry_holds pid (L' (xpending_key rt pid)) None"
    using assms(2) t(4,5) n(4,5) dep(7,8)
    by (simp add: L' registry_holds_def registry_unallocated_def)
  ultimately show ?thesis
    using t(2) n(2,4) dep(6) initial_tree_holds [OF dep(2,3), of "[]"]
    by (simp add: pool_holds_def empty_pool_def L' nullifiers_hold_def MAX_ACCOUNT_SIZE_def)
qed

end
