(* ===== verification/Pool_Vault.thy ===== *)
theory Pool_Vault
  imports Pool_Safety
begin

text \<open>
  The token vaults. The vault of a mint is the one token account the handlers accept for it (the
  associated token account of the vault authority, a PDA of the program). \<open>vault_ok\<close> says that it
  is a token account of that mint owned by the authority, with no delegate. A deposit adds its
  amount to the vault of its mint, a withdrawal takes at most its amount, and no other instruction
  and no instruction for another mint touches it.
\<close>

definition vault_authority_key :: "runtime \<Rightarrow> pubkey \<Rightarrow> bytes32 \<Rightarrow> pubkey" where
  "vault_authority_key rt pid t = pda_of rt pid [VAULT_SEED, b32_bytes t]"

definition vault_key :: "runtime \<Rightarrow> pubkey \<Rightarrow> bytes32 \<Rightarrow> pubkey" where
  "vault_key rt pid t = canonical_vault_ata rt (vault_authority_key rt pid t) t"

definition vault_ok :: "runtime \<Rightarrow> pubkey \<Rightarrow> bytes32 \<Rightarrow> ledger \<Rightarrow> bool" where
  "vault_ok rt pid t L \<longleftrightarrow>
     (let a = L (vault_key rt pid t) in
      acc_owner a = SPL_TOKEN_PROGRAM_ID \<and> token_mint (acc_data a) = t \<and>
      token_owner (acc_data a) = vault_authority_key rt pid t \<and> token_delegate (acc_data a) = None)"

definition vault_balance :: "runtime \<Rightarrow> pubkey \<Rightarrow> bytes32 \<Rightarrow> ledger \<Rightarrow> nat" where
  "vault_balance rt pid t L = token_amount (acc_data (L (vault_key rt pid t)))"

text \<open>No transaction is signed with an address of the program: such an address has no private key.\<close>

definition no_pda_signer :: "runtime \<Rightarrow> pubkey \<Rightarrow> account_info list \<Rightarrow> bool" where
  "no_pda_signer rt pid accounts \<longleftrightarrow>
     (\<forall>a \<in> set accounts. is_signer a \<longrightarrow> (\<forall>seeds. ai_key a \<noteq> pda_of rt pid seeds))"

text \<open>What an action moves into and out of the vault of mint \<open>t\<close>.\<close>

fun action_in :: "bytes32 \<Rightarrow> action \<Rightarrow> nat" where
  "action_in t (Deposit token amount c) = (if token = t then unat amount else 0)"
| "action_in t _ = 0"

fun action_out :: "bytes32 \<Rightarrow> action \<Rightarrow> nat" where
  "action_out t (Withdraw r n token amount recipient) = (if token = t then unat amount else 0)"
| "action_out t _ = 0"

lemma vault_okD:
  assumes "vault_ok rt pid t L"
  shows "acc_owner (L (vault_key rt pid t)) = SPL_TOKEN_PROGRAM_ID"
    and "token_mint (acc_data (L (vault_key rt pid t))) = t"
    and "token_owner (acc_data (L (vault_key rt pid t))) = vault_authority_key rt pid t"
    and "token_delegate (acc_data (L (vault_key rt pid t))) = None"
  using assms by (simp_all add: vault_ok_def Let_def)

text \<open>Accounts of the token program that an operation leaves alone.\<close>

definition spl_same :: "ledger \<Rightarrow> ledger \<Rightarrow> bool" where
  "spl_same L L' \<longleftrightarrow>
     (\<forall>k. acc_owner (L k) = SPL_TOKEN_PROGRAM_ID \<longrightarrow>
        acc_owner (L' k) = SPL_TOKEN_PROGRAM_ID \<and> acc_data (L' k) = acc_data (L k))"

lemma spl_same_trans: "spl_same L1 L2 \<Longrightarrow> spl_same L2 L3 \<Longrightarrow> spl_same L1 L3"
  by (simp add: spl_same_def)

lemma spl_same_set_data [intro]:
  "acc_owner (L k) \<noteq> SPL_TOKEN_PROGRAM_ID \<Longrightarrow> spl_same L (set_data L k d)"
  by (auto simp: spl_same_def set_data_apply)

lemma spl_same_changes:
  "changes_only K L L' \<Longrightarrow> (\<And>k. k \<in> K \<Longrightarrow> acc_owner (L k) \<noteq> SPL_TOKEN_PROGRAM_ID) \<Longrightarrow> spl_same L L'"
  by (auto simp: spl_same_def changes_only_def)

lemma vault_same:
  assumes "vault_ok rt pid t L" and "spl_same L L'"
  shows "vault_ok rt pid t L'" and "vault_balance rt pid t L' = vault_balance rt pid t L"
  using assms by (simp_all add: vault_ok_def vault_balance_def spl_same_def Let_def)

section \<open>Instructions that move no tokens\<close>

lemma pool_keys_not_spl:
  assumes "deployment rt H pid" and "pool_holds rt H pid L s"
  shows "acc_owner (L (tree_key rt pid)) \<noteq> SPL_TOKEN_PROGRAM_ID"
    and "acc_owner (L (nullifier_key rt pid)) \<noteq> SPL_TOKEN_PROGRAM_ID"
    and "acc_owner (L (xpending_key rt pid)) \<noteq> SPL_TOKEN_PROGRAM_ID"
  using pool_holdsD [OF assms(2)] deploymentD(5) [OF assms(1)] SPL_not_system [symmetric]
  by (auto simp: registry_holds_def split: option.splits)

lemma append_spl_same:
  assumes "deployment rt H pid" and "pool_holds rt H pid L s" and "ai_key nf = nullifier_key rt pid"
    and "n \<notin> set (spent s)" and "nullifier_append rt payer nf system n L = Ok L'"
  shows "spl_same L L'"
proof -
  have acc: "nullifier_account rt (ai_key nf) L (spent s)"
    using pool_holdsD(4) [OF assms(2)] deploymentD(1) [OF assms(1)] assms(3)
    by (simp add: nullifier_account_def)
  show ?thesis
    using nullifier_append_account(2) [OF acc assms(4,5)] pool_keys_not_spl(2) [OF assms(1,2)] assms(3)
    by (intro spl_same_changes) auto
qed

lemma spend_spl_same:
  assumes "deployment rt H pid" and "pool_holds rt H pid L s" and "ai_key nf = nullifier_key rt pid"
    and "check_and_append rt payer nf system L n = Ok L'"
  shows "spl_same L L'"
proof -
  have "nullifier_append rt payer nf system n L = Ok L'"
    using assms(4) by (auto simp: check_and_append_def outcome_simps)
  with spend_once(1) [OF assms] show ?thesis
    by (intro append_spl_same [OF assms(1-3)])
qed

lemma burn_spl_same:
  assumes "deployment rt H pid" and "pool_holds rt H pid L s"
    and "burn rt pid accounts args L = Ok (L', ev)"
  shows "spl_same L L'"
  using assms(3) spend_spl_same [OF assms(1,2)]
  unfolding burn_Ok_iff nullifier_key_def by blast

lemma xburn_spl_same:
  assumes "deployment rt H pid" and "pool_holds rt H pid L s"
    and "xburn rt pid accounts args L = Ok (L', ev)"
  shows "spl_same L L'"
  using assms(3) spend_spl_same [OF assms(1,2)]
  unfolding xburn_Ok_iff nullifier_key_def by blast

lemma transfer_spl_same:
  assumes "deployment rt H pid" and "pool_holds rt H pid L s"
    and "transfer rt pid accounts args L = Ok (L', ev)"
  shows "spl_same L L'"
proof -
  from assms(3) [unfolded transfer_Ok_iff] obtain L1 L2 d1 d2 nf payer system
    and tree_ai :: account_info where
    keys: "ai_key tree_ai = tree_key rt pid" "ai_key nf = nullifier_key rt pid" and
    new: "nullifier_contains (data_of L nf) (b32_at args 288) = Ok False"
      "nullifier_contains (data_of L nf) (b32_at args 320) = Ok False"
      "b32_at args 288 \<noteq> b32_at args 320" and
    app: "nullifier_append rt payer nf system (b32_at args 288) L = Ok L1"
      "nullifier_append rt payer nf system (b32_at args 320) L1 = Ok L2" and
    L': "L' = set_data (set_data L2 (ai_key tree_ai) d1) (ai_key tree_ai) d2"
    unfolding tree_key_def nullifier_key_def by blast
  have n: "b32_at args 288 \<notin> set (spent s)" "b32_at args 320 \<notin> set (spent s)"
    using new(1,2) by (simp_all add: not_spent [OF assms(2) keys(2)])
  note h1 = append_nullifier [OF assms(1,2) keys(2) n(1) app(1)]
  have n1: "b32_at args 320 \<notin> set (spent (s\<lparr>spent := spent s @ [b32_at args 288]\<rparr>))"
    using n new(3) by simp
  note h2 = append_nullifier [OF assms(1) h1 keys(2) n1 app(2)]
  have "spl_same L1 L2"
    by (rule append_spl_same [OF assms(1) h1 keys(2) n1 app(2)])
  moreover have "spl_same L L1"
    by (rule append_spl_same [OF assms(1,2) keys(2) n(1) app(1)])
  moreover have "spl_same L2 L'"
    using pool_keys_not_spl(1) [OF assms(1) h2] unfolding L' keys(1)
    by (intro spl_same_trans [OF spl_same_set_data spl_same_set_data]) simp_all
  ultimately show ?thesis by (blast intro: spl_same_trans)
qed

lemma mint_spl_same:
  assumes "deployment rt H pid" and "pool_holds rt H pid L s"
    and "mint_from_xburn rt pid accounts args L = Ok (L', ev)"
  shows "spl_same L L'"
proof -
  from assms(3) [unfolded mint_from_xburn_Ok_iff] obtain d d'
    and tree_ai :: account_info and xp_ai :: account_info where
    "ai_key tree_ai = tree_key rt pid" "ai_key xp_ai = xpending_key rt pid"
    "L' = set_data (set_data L (ai_key tree_ai) d) (ai_key xp_ai) d'"
    unfolding tree_key_def xpending_key_def by blast
  then show ?thesis
    using pool_keys_not_spl(1,3) [OF assms(1,2)]
    by (auto intro!: spl_same_trans [OF spl_same_set_data spl_same_set_data])
qed

lemma attest_spl_same:
  assumes "deployment rt H pid" and "pool_holds rt H pid L s"
    and "add_pending_xburn rt pid accounts args L = Ok (L', ev)"
  shows "spl_same L L'"
proof -
  from assms(3) [unfolded add_pending_xburn_Ok_iff] obtain operator xp_ai system hash where
    key: "ai_key xp_ai = xpending_key rt pid" and
    fresh: "xpending_find (data_of L xp_ai) (b32_at args 0) = Ok None" and
    app: "xpending_append rt operator xp_ai system (b32_at args 0) hash L = Ok L'"
    unfolding xpending_key_def by blast
  obtain op es where xp: "xpending_hold (data_of L xp_ai) op es"
    by (rule registry_present [OF assms(2) key fresh])
  have n: "b32_at args 0 \<notin> xe_nullifier ` set es"
    using fresh xpending_find_present [OF xp] by (auto simp: in_set_conv_nth)
  have "changes_only {ai_key xp_ai} L L'"
    using xpending_append_holds [OF runtime_lawsD(1,4) [OF deploymentD(1) [OF assms(1)]] xp n app] by simp
  then show ?thesis
    using pool_keys_not_spl(3) [OF assms(1,2)] key by (intro spl_same_changes) auto
qed

lemma init_registry_spl_same:
  assumes "deployment rt H pid"
    and "initialize_xburn_pending rt pid accounts args L = Ok (L', ev)"
  shows "spl_same L L'"
proof -
  from assms(2) [unfolded initialize_xburn_pending_Ok_iff] obtain payer system bump L1 d
    and xp_ai :: account_info where
    c: "create_pda rt payer xp_ai system pid XBURN_PENDING_SEED bump XBURN_PENDING_INIT_SIZE L = Ok L1" and
    L': "L' = set_data L1 (ai_key xp_ai) d"
    by blast
  have "XBURN_PENDING_INIT_SIZE \<le> MAX_ACCOUNT_SIZE"
    by (simp add: XBURN_PENDING_INIT_SIZE_def xp_layout MAX_ACCOUNT_SIZE_def)
  note cr = create_pda_spec [OF assms(1) c this]
  have other: "k \<noteq> ai_key xp_ai" if "acc_owner (L k) = SPL_TOKEN_PROGRAM_ID" for k
    using that cr(1) SPL_not_system [symmetric] by auto
  then show ?thesis
    using cr(4,5) by (simp add: spl_same_def L')
qed

section \<open>Deposits and withdrawals\<close>

text \<open>An instruction's vault account is the vault of \<open>t\<close> exactly if its token is \<open>t\<close>.\<close>

lemma vault_of_token:
  assumes "check_vault L vault token authority = Ok ()" and "ai_key vault = vault_key rt pid token"
    and "vault_ok rt pid t L"
  shows "ai_key vault = vault_key rt pid t \<longleftrightarrow> token = t"
proof
  assume "ai_key vault = vault_key rt pid t"
  moreover have "token_mint (acc_data (L (ai_key vault))) = token"
    using assms(1) unfolding check_vault_Ok_iff data_of_def by blast
  ultimately show "token = t"
    using vault_okD(2) [OF assms(3)] by simp
qed (simp add: assms(2))

lemma deposit_vault:
  assumes "deployment rt H pid" and "pool_holds rt H pid L s" and "vault_ok rt pid t L"
    and "no_pda_signer rt pid accounts" and "deposit rt pid accounts args L = Ok (L', ev)"
  shows "vault_ok rt pid t L'"
    and "vault_balance rt pid t L' = vault_balance rt pid t L +
      (if b32_at args 256 = t then unat (u64_from_le (sub args 288 8)) else 0)"
proof -
  let ?token = "b32_at args 256" and ?n = "u64_from_le (sub args 288 8)"
  from assms(5) [unfolded deposit_Ok_iff] obtain depositor src vault tree_ai tp rest L1 d i where
    acc: "accounts = depositor # src # vault # tree_ai # tp # rest" and
    sig: "is_signer depositor" and
    keys: "ai_key tp = SPL_TOKEN_PROGRAM_ID" "ai_key tree_ai = tree_key rt pid" and
    chk: "check_vault L vault ?token (vault_authority_key rt pid ?token) = Ok ()" and
    ata: "ai_key vault = vault_key rt pid ?token" and
    mint: "token_mint (data_of L src) = ?token" and
    move: "spl_transfer rt tp src vault depositor ?n [] L = Ok L1" and
    L': "L' = set_data L1 (ai_key tree_ai) d"
    unfolding tree_key_def vault_key_def vault_authority_key_def by blast
  note t = token_transfer_spec [OF runtime_lawsD(3) [OF deploymentD(1) [OF assms(1)]]
      move [unfolded spl_transfer_eq [OF keys(1)]]]
  note v = vault_okD [OF assms(3)]
  have signer: "ai_key depositor \<noteq> vault_authority_key rt pid t"
    using assms(4) acc sig by (auto simp: no_pda_signer_def vault_authority_key_def)
  have src: "ai_key src \<noteq> vault_key rt pid t"
    using t(3) v(3,4) signer by auto
  have dst: "ai_key vault = vault_key rt pid t \<longleftrightarrow> ?token = t"
    by (rule vault_of_token [OF chk ata assms(3)])
  have tree: "vault_key rt pid t \<noteq> tree_key rt pid"
    using pool_keys_not_spl(1) [OF assms(1,2)] v(1) by auto
  have same: "acc_data (L' (vault_key rt pid t)) = acc_data (L1 (vault_key rt pid t))"
    "acc_owner (L' (vault_key rt pid t)) = acc_owner (L1 (vault_key rt pid t))"
    using tree by (simp_all add: L' keys)
  have prefix: "sub (acc_data (L1 k)) 0 64 = sub (acc_data (L k)) 0 64" for k
    by (rule t(5))
  have "token_mint (acc_data (L1 k)) = token_mint (acc_data (L k))"
    and "token_owner (acc_data (L1 k)) = token_owner (acc_data (L k))" for k
    using arg_cong [OF prefix, of "\<lambda>b. sub b 0 32"] arg_cong [OF prefix, of "\<lambda>b. sub b 32 32"]
    by (simp_all add: token_mint_def token_owner_def b32_at_def sub_sub)
  then show "vault_ok rt pid t L'"
    using v t(6) changes_onlyD(1) [OF t(4)] by (simp add: vault_ok_def same Let_def)
  show "vault_balance rt pid t L' = vault_balance rt pid t L + (if ?token = t then unat ?n else 0)"
  proof (cases "?token = t")
    case True
    then show ?thesis
      using t(9) src dst by (simp add: vault_balance_def same)
  next
    case False
    then have "acc_data (L1 (vault_key rt pid t)) = acc_data (L (vault_key rt pid t))"
      using src dst by (intro changes_onlyD(2) [OF t(4)]) auto
    with False show ?thesis by (simp add: vault_balance_def same)
  qed
qed

lemma withdraw_vault:
  assumes "deployment rt H pid" and "pool_holds rt H pid L s" and "vault_ok rt pid t L"
    and "withdraw rt pid accounts args L = Ok (L', ev)"
  shows "vault_ok rt pid t L'"
    and "vault_balance rt pid t L \<le> vault_balance rt pid t L' +
      (if b32_at args 320 = t then unat (u64_from_le (sub args 352 8)) else 0)"
    and "(if b32_at args 320 = t then unat (u64_from_le (sub args 352 8)) else 0) \<le>
      vault_balance rt pid t L"
proof -
  let ?token = "b32_at args 320" and ?n = "u64_from_le (sub args 352 8)"
  from assms(4) [unfolded withdraw_Ok_iff] obtain payer va vault dst nf tp system seeds L1 where
    keys: "ai_key tp = SPL_TOKEN_PROGRAM_ID" "ai_key nf = nullifier_key rt pid" and
    chk: "check_vault L vault ?token (vault_authority_key rt pid ?token) = Ok ()" and
    ata: "ai_key vault = vault_key rt pid ?token" and
    mint: "token_mint (data_of L dst) = ?token" and
    spend: "check_and_append rt payer nf system L (b32_at args 288) = Ok L1" and
    move: "spl_transfer rt tp vault dst va ?n seeds L1 = Ok L'"
    unfolding nullifier_key_def vault_key_def vault_authority_key_def by blast
  have L1: "spl_same L L1"
    by (rule spend_spl_same [OF assms(1,2) keys(2) spend])
  note v = vault_same [OF assms(3) L1]
  note v1 = vault_okD [OF v(1)]
  note t = token_transfer_spec [OF runtime_lawsD(3) [OF deploymentD(1) [OF assms(1)]]
      move [unfolded spl_transfer_eq [OF keys(1)]]]
  have prefix: "sub (acc_data (L' k)) 0 64 = sub (acc_data (L1 k)) 0 64" for k
    by (rule t(5))
  have "token_mint (acc_data (L' k)) = token_mint (acc_data (L1 k))"
    and "token_owner (acc_data (L' k)) = token_owner (acc_data (L1 k))" for k
    using arg_cong [OF prefix, of "\<lambda>b. sub b 0 32"] arg_cong [OF prefix, of "\<lambda>b. sub b 32 32"]
    by (simp_all add: token_mint_def token_owner_def b32_at_def sub_sub)
  then show "vault_ok rt pid t L'"
    using v1 t(6) changes_onlyD(1) [OF t(4)] by (simp add: vault_ok_def Let_def)
  have src: "ai_key vault = vault_key rt pid t \<longleftrightarrow> ?token = t"
    by (rule vault_of_token [OF chk ata assms(3)])
  have dst: "?token = t" if "ai_key dst = vault_key rt pid t"
    using that mint vault_okD(2) [OF assms(3)] by (simp add: data_of_def)
  have "vault_balance rt pid t L1 \<le> vault_balance rt pid t L' + (if ?token = t then unat ?n else 0) \<and>
      (if ?token = t then unat ?n else 0) \<le> vault_balance rt pid t L1"
  proof (cases "?token = t")
    case True
    then show ?thesis
      using t(7,8,10) src by (cases "ai_key vault = ai_key dst") (auto simp: vault_balance_def)
  next
    case False
    then have "acc_data (L' (vault_key rt pid t)) = acc_data (L1 (vault_key rt pid t))"
      using src dst by (intro changes_onlyD(2) [OF t(4)]) auto
    with False show ?thesis by (simp add: vault_balance_def)
  qed
  then show "vault_balance rt pid t L \<le> vault_balance rt pid t L' + (if ?token = t then unat ?n else 0)"
    and "(if ?token = t then unat ?n else 0) \<le> vault_balance rt pid t L"
    using v(2) by simp_all
qed

lemma process_vault:
  assumes "deployment rt H pid" and "pool_holds rt H pid L s" and "vault_ok rt pid t L"
    and "no_pda_signer rt pid accounts"
    and "process_instruction rt pid accounts data L = Ok (L', ev)"
    and "decode accounts data = Some a"
  shows "vault_ok rt pid t L' \<and> vault_balance rt pid t L + action_in t a \<le>
    vault_balance rt pid t L' + action_out t a"
proof (cases data)
  case Nil
  with assms(5) show ?thesis by (simp add: process_instruction_def)
next
  case (Cons tag args)
  note run = assms(5) [unfolded Cons process_instruction_def, simplified]
  note act = assms(6) [unfolded Cons decode_def, simplified]
  have quiet: ?thesis if "spl_same L L'" and "action_in t a = 0"
    using vault_same [OF assms(3) that(1)] that(2) by simp
  consider "tag = 0" | "tag = 1" | "tag = 2" | "tag = 3" | "tag = 4" | "tag = 5" | "tag = 6"
    | "tag = 7" | "tag = 8"
    using run by (auto split: if_splits)
  then show ?thesis
  proof cases
    case 1
    with run initialize_pool_refused [OF assms(1,2)] show ?thesis by simp
  next
    case 2
    then have dep: "deposit rt pid accounts args L = Ok (L', ev)"
      and "a = Deposit (b32_at args 256) (u64_from_le (sub args 288 8)) (b32_at args 296)"
      using run act by simp_all
    with deposit_vault [OF assms(1-4) dep] show ?thesis by simp
  next
    case 3
    then have wd: "withdraw rt pid accounts args L = Ok (L', ev)"
      and "a = Withdraw (b32_at args 256) (b32_at args 288) (b32_at args 320)
        (u64_from_le (sub args 352 8)) (b32_at args 360)"
      using run act by simp_all
    with withdraw_vault [OF assms(1-3) wd] show ?thesis by simp
  next
    case 4
    with run act transfer_spl_same [OF assms(1,2)] show ?thesis by (intro quiet) auto
  next
    case 5
    with run act burn_spl_same [OF assms(1,2)] show ?thesis by (intro quiet) auto
  next
    case 6
    with run act init_registry_spl_same [OF assms(1)] show ?thesis by (intro quiet) auto
  next
    case 7
    with run act attest_spl_same [OF assms(1,2)] show ?thesis
      by (intro quiet) (auto split: list.splits)
  next
    case 8
    with run act mint_spl_same [OF assms(1,2)] show ?thesis by (intro quiet) auto
  next
    case 9
    with run act xburn_spl_same [OF assms(1,2)] show ?thesis by (intro quiet) auto
  qed
qed

text \<open>What a successful withdrawal pays, to whom, and on which proven statement.\<close>

lemma withdraw_pays_lemma:
  assumes "deployment rt H pid" and "pool_holds rt H pid L s"
    and "withdraw rt pid accounts args L = Ok (L', ev)"
    and "ai_key (accounts ! 3) \<noteq> vault_key rt pid (b32_at args 320)"
  shows "token_owner (acc_data (L (ai_key (accounts ! 3)))) = b32_at args 360"
    and "token_amount (acc_data (L' (ai_key (accounts ! 3)))) =
      token_amount (acc_data (L (ai_key (accounts ! 3)))) + unat (u64_from_le (sub args 352 8))"
    and "vault_balance rt pid (b32_at args 320) L' + unat (u64_from_le (sub args 352 8)) =
      vault_balance rt pid (b32_at args 320) L"
    and "\<exists>token_field recipient_field.
      to_field (poseidon_syscall rt) (b32_at args 320) = Some token_field \<and>
      to_field (poseidon_syscall rt) (b32_at args 360) = Some recipient_field \<and>
      groth16_verify rt WITHDRAW_VK (sub args 0 64) (sub args 64 128) (sub args 192 64)
        [b32_at args 256, b32_at args 288, token_field, be32_u64 (u64_from_le (sub args 352 8)),
         recipient_field]"
proof -
  let ?token = "b32_at args 320" and ?n = "u64_from_le (sub args 352 8)"
  from assms(3) [unfolded withdraw_Ok_iff] obtain payer va vault dst tree_ai nf tp system rest seeds L1
      token_field recipient_field where
    acc: "accounts = payer # va # vault # dst # tree_ai # nf # tp # system # rest" and
    fields: "to_field (poseidon_syscall rt) ?token = Some token_field"
      "to_field (poseidon_syscall rt) (b32_at args 360) = Some recipient_field" and
    pf: "groth16_verify rt WITHDRAW_VK (sub args 0 64) (sub args 64 128) (sub args 192 64)
      [b32_at args 256, b32_at args 288, token_field, be32_u64 ?n, recipient_field]" and
    keys: "ai_key tp = SPL_TOKEN_PROGRAM_ID" "ai_key nf = nullifier_key rt pid" and
    ata: "ai_key vault = vault_key rt pid ?token" and
    owner: "token_owner (data_of L dst) = b32_at args 360" and
    spend: "check_and_append rt payer nf system L (b32_at args 288) = Ok L1" and
    move: "spl_transfer rt tp vault dst va ?n seeds L1 = Ok L'"
    unfolding nullifier_key_def vault_key_def vault_authority_key_def by blast
  have dst: "accounts ! 3 = dst"
    by (simp add: acc)
  have keep: "changes_only {nullifier_key rt pid} L L1"
    using spend spend_once(1) [OF assms(1,2) keys(2) spend] pool_holdsD(4) [OF assms(2)]
      check_and_append_account(3) [of rt nf L "spent s"] deploymentD(1) [OF assms(1)] keys(2)
    by (auto simp: nullifier_account_def)
  note t = token_transfer_spec [OF runtime_lawsD(3) [OF deploymentD(1) [OF assms(1)]]
      move [unfolded spl_transfer_eq [OF keys(1)]]]
  have same: "acc_data (L1 k) = acc_data (L k)" if "acc_owner (L1 k) = SPL_TOKEN_PROGRAM_ID" for k
    using that changes_onlyD [OF keep] pool_keys_not_spl(2) [OF assms(1,2)] by (metis singletonD)
  have ne: "ai_key vault \<noteq> ai_key dst"
    using assms(4) by (simp add: ata dst)
  show "token_owner (acc_data (L (ai_key (accounts ! 3)))) = b32_at args 360"
    using owner by (simp add: dst data_of_def)
  show "token_amount (acc_data (L' (ai_key (accounts ! 3)))) =
      token_amount (acc_data (L (ai_key (accounts ! 3)))) + unat ?n"
    using t(9) [OF ne] same [OF t(2)] by (simp add: dst)
  show "vault_balance rt pid ?token L' + unat ?n = vault_balance rt pid ?token L"
    using t(8) [OF ne] t(7) same [OF t(1)] by (simp add: vault_balance_def ata)
  show "\<exists>token_field recipient_field.
      to_field (poseidon_syscall rt) ?token = Some token_field \<and>
      to_field (poseidon_syscall rt) (b32_at args 360) = Some recipient_field \<and>
      groth16_verify rt WITHDRAW_VK (sub args 0 64) (sub args 64 128) (sub args 192 64)
        [b32_at args 256, b32_at args 288, token_field, be32_u64 ?n, recipient_field]"
    using fields pf by blast
qed

end
