(* ===== verification/Pool_Chain.thy ===== *)
theory Pool_Chain
  imports Pool_Vault
begin

text \<open>
  The pool over time: sequences of successful instructions with transactions of other programs in
  between (\<open>chain\<close>). A chain refines a run of the machine of \<open>Pool_Spec\<close>, so its safety theorems
  hold of the ledger: what the accounts contain is a function of the instructions executed, no
  nullifier is spent twice, a cross-chain mint happens once and only for what the operator
  attested, and a vault holds at least what was deposited less what was withdrawn.
\<close>

section \<open>Chains of instructions\<close>

text \<open>
  What transactions of other programs may do between two instructions: they cannot write the data
  of an account this program owns nor take it away; nobody but the program can sign for its
  addresses, so the registry's address stays unallocated until the program creates it, and tokens
  can be added to a vault but not taken from it.
\<close>

definition foreign_step :: "runtime \<Rightarrow> pubkey \<Rightarrow> ledger \<Rightarrow> ledger \<Rightarrow> bool" where
  "foreign_step rt pid L L' \<longleftrightarrow>
     (\<forall>k. acc_owner (L k) = pid \<or>
          (k = xpending_key rt pid \<and> acc_owner (L k) = SYSTEM_PROGRAM \<and> acc_data (L k) = []) \<longrightarrow>
        acc_owner (L' k) = acc_owner (L k) \<and> acc_data (L' k) = acc_data (L k)) \<and>
     (\<forall>t. vault_ok rt pid t L \<longrightarrow>
        vault_ok rt pid t L' \<and> vault_balance rt pid t L \<le> vault_balance rt pid t L')"

inductive chain ::
    "runtime \<Rightarrow> pubkey \<Rightarrow> ledger \<Rightarrow> (account_info list \<times> bytes) list \<Rightarrow> ledger \<Rightarrow> bool"
  for rt :: runtime and pid :: pubkey and L0 :: ledger where
  chain_start: "chain rt pid L0 [] L0"
| chain_instruction: "chain rt pid L0 h L \<Longrightarrow> no_pda_signer rt pid accounts \<Longrightarrow>
    process_instruction rt pid accounts data L = Ok (L', ev) \<Longrightarrow>
    chain rt pid L0 (h @ [(accounts, data)]) L'"
| chain_foreign: "chain rt pid L0 h L \<Longrightarrow> foreign_step rt pid L L' \<Longrightarrow> chain rt pid L0 h L'"

definition actions_of :: "(account_info list \<times> bytes) list \<Rightarrow> action list" where
  "actions_of h = List.map_filter (\<lambda>(accounts, data). decode accounts data) h"

lemma actions_of_simps [simp]:
  "actions_of [] = []"
  "actions_of (g @ h) = actions_of g @ actions_of h"
  "actions_of ((accounts, data) # h) =
     (case decode accounts data of None \<Rightarrow> [] | Some a \<Rightarrow> [a]) @ actions_of h"
  by (simp_all add: actions_of_def List.map_filter_def split: option.splits)

lemma foreign_step_holds:
  assumes "pool_holds rt H pid L s" and "foreign_step rt pid L L'"
  shows "pool_holds rt H pid L' s"
proof -
  have same: "acc_owner (L' k) = acc_owner (L k) \<and> acc_data (L' k) = acc_data (L k)"
    if "acc_owner (L k) = pid" for k
    using assms(2) that by (simp add: foreign_step_def)
  have "registry_holds pid (L' (xpending_key rt pid)) (registry s)"
    using pool_holdsD(5) [OF assms(1)] assms(2)
    by (auto simp: registry_holds_def foreign_step_def split: option.splits)
  then show ?thesis
    using pool_holdsD [OF assms(1)] same by (simp add: pool_holds_def)
qed

lemma chain_refines:
  assumes "chain rt pid L0 h L" and "deployment rt H pid" and "pool_holds rt H pid L0 s0"
  shows "\<exists>s. pool_run (poseidon_syscall rt) H s0 (actions_of h) s \<and> pool_holds rt H pid L s"
  using assms
proof induction
  case chain_start
  then show ?case by (auto intro: run_nil)
next
  case (chain_instruction h L accounts data L' ev)
  from chain_instruction.IH [OF chain_instruction.prems] obtain s
    where run: "pool_run (poseidon_syscall rt) H s0 (actions_of h) s" and holds: "pool_holds rt H pid L s"
    by blast
  from process_refines [OF chain_instruction.prems(1) holds chain_instruction.hyps(3)] obtain a s'
    where "decode accounts data = Some a" and "pool_step (poseidon_syscall rt) H a s s'"
      and "pool_holds rt H pid L' s'"
    by (auto simp: refines_def)
  with run show ?case by (auto intro: run_snoc)
next
  case (chain_foreign h L L')
  then show ?case by (blast intro: foreign_step_holds)
qed

section \<open>The vault over time\<close>

definition total_in :: "bytes32 \<Rightarrow> action list \<Rightarrow> nat" where
  "total_in t as = sum_list (map (action_in t) as)"

definition total_out :: "bytes32 \<Rightarrow> action list \<Rightarrow> nat" where
  "total_out t as = sum_list (map (action_out t) as)"

lemma total_simps [simp]:
  "total_in t [] = 0" "total_in t (as @ [a]) = total_in t as + action_in t a"
  "total_out t [] = 0" "total_out t (as @ [a]) = total_out t as + action_out t a"
  by (simp_all add: total_in_def total_out_def)

lemma chain_vault:
  assumes "chain rt pid L0 h L" and "deployment rt H pid" and "pool_holds rt H pid L0 s0"
    and "vault_ok rt pid t L0"
  shows "vault_ok rt pid t L \<and>
    vault_balance rt pid t L0 + total_in t (actions_of h) \<le>
    vault_balance rt pid t L + total_out t (actions_of h)"
  using assms
proof induction
  case chain_start
  then show ?case by simp
next
  case (chain_instruction h L accounts data L' ev)
  obtain s where holds: "pool_holds rt H pid L s"
    using chain_refines [OF chain_instruction.hyps(1) chain_instruction.prems(1,2)] by blast
  obtain a where a: "decode accounts data = Some a"
    using process_refines [OF chain_instruction.prems(1) holds chain_instruction.hyps(3)] by blast
  note IH = chain_instruction.IH [OF chain_instruction.prems]
  have "vault_ok rt pid t L' \<and> vault_balance rt pid t L + action_in t a \<le>
      vault_balance rt pid t L' + action_out t a"
    using IH process_vault [OF chain_instruction.prems(1) holds _ chain_instruction.hyps(2,3) a]
    by blast
  with IH a show ?case by simp
next
  case (chain_foreign h L L')
  then show ?case by (fastforce simp: foreign_step_def)
qed

section \<open>Consequences for the ledger\<close>

lemma chain_no_double_spend:
  assumes "deployment rt H pid" and "pool_holds rt H pid L0 empty_pool" and "chain rt pid L0 h L"
  shows "distinct (spends_of (actions_of h))"
    and "acc_data (L (nullifier_key rt pid)) = nullifier_set_bytes (spends_of (actions_of h))"
    and "tree_holds (poseidon_syscall rt) H (acc_data (L (tree_key rt pid))) (inserts_of (actions_of h))"
proof -
  obtain s where run: "pool_run (poseidon_syscall rt) H empty_pool (actions_of h) s"
    and holds: "pool_holds rt H pid L s"
    using chain_refines [OF assms(3,1,2)] by blast
  note hist = run_history [OF run]
  show "distinct (spends_of (actions_of h))"
    and "acc_data (L (nullifier_key rt pid)) = nullifier_set_bytes (spends_of (actions_of h))"
    and "tree_holds (poseidon_syscall rt) H (acc_data (L (tree_key rt pid))) (inserts_of (actions_of h))"
    using hist pool_holdsD(2,4) [OF holds] by (simp_all add: empty_pool_def nullifiers_hold_def)
qed

lemma chain_root:
  assumes "deployment rt H pid" and "pool_holds rt H pid L0 empty_pool" and "chain rt pid L0 h L"
  shows "current_root (tree_of_bytes (acc_data (L (tree_key rt pid)))) =
    merkle_root H (inserts_of (actions_of h))"
  using chain_no_double_spend(3) [OF assms] unfolding tree_holds_def
  by (blast intro: represents_current_root)

lemma actions_of_iff: "a \<in> set (actions_of h) \<longleftrightarrow> (\<exists>(accounts, data) \<in> set h. decode accounts data = Some a)"
  by (force simp: actions_of_def List.map_filter_def)

text \<open>An attestation in the history was signed by its operator.\<close>

lemma process_attest_signed:
  assumes "deployment rt H pid" and "pool_holds rt H pid L s"
    and "process_instruction rt pid accounts data L = Ok (L', ev)"
    and "decode accounts data = Some (Attest op n chn c)"
  shows "\<exists>a rest. accounts = a # rest \<and> ai_key a = op \<and> is_signer a"
proof -
  obtain args where data: "data = 6 # args"
    using assms(4) by (cases data) (auto simp: decode_def split: if_splits)
  have "add_pending_xburn rt pid accounts args L = Ok (L', ev)"
    using assms(3) by (simp add: data process_instruction_def)
  from attest_refines [OF assms(1,2) this] show ?thesis
    using assms(4) by (auto simp: decode_def data)
qed

lemma chain_attest_signed:
  assumes "chain rt pid L0 h L" and "deployment rt H pid" and "pool_holds rt H pid L0 s0"
    and "(accounts, data) \<in> set h" and "decode accounts data = Some (Attest op n chn c)"
  shows "\<exists>a rest. accounts = a # rest \<and> ai_key a = op \<and> is_signer a"
  using assms
proof induction
  case (chain_instruction h L accounts' data' L' ev)
  obtain s where holds: "pool_holds rt H pid L s"
    using chain_refines [OF chain_instruction.hyps(1) chain_instruction.prems(1,2)] by blast
  from chain_instruction.prems(3) consider "(accounts, data) \<in> set h"
    | "accounts = accounts'" "data = data'" by auto
  then show ?case
  proof cases
    case 1
    then show ?thesis
      using chain_instruction.IH chain_instruction.prems by blast
  next
    case 2
    then show ?thesis
      using process_attest_signed [OF chain_instruction.prems(1) holds] chain_instruction.hyps(3)
        chain_instruction.prems(4) by blast
  qed
qed auto

lemma chain_mint:
  assumes "deployment rt H pid" and "pool_holds rt H pid L0 empty_pool" and "chain rt pid L0 h L"
  shows "distinct (mints_of (actions_of h))"
    and "h = g @ (accounts, data) # k \<Longrightarrow> decode accounts data = Some (Mint r n chn c) \<Longrightarrow>
      \<exists>op a rest data' chn' c' hash. (a # rest, data') \<in> set g \<and> is_signer a \<and> ai_key a = op \<and>
        decode (a # rest) data' = Some (Attest op n chn' c') \<and>
        InitRegistry op \<in> set (actions_of g) \<and>
        poseidon_syscall rt [chn', c'] = Some hash \<and> poseidon_syscall rt [chn, c] = Some hash"
proof -
  obtain s where run: "pool_run (poseidon_syscall rt) H empty_pool (actions_of h) s"
    using chain_refines [OF assms(3,1,2)] by blast
  have none: "registry empty_pool = None"
    by (simp add: empty_pool_def)
  show "distinct (mints_of (actions_of h))"
    by (rule run_mints_distinct [OF run none])
  assume h: "h = g @ (accounts, data) # k" and mint: "decode accounts data = Some (Mint r n chn c)"
  have "actions_of h = actions_of g @ Mint r n chn c # actions_of k"
    using h mint by simp
  then obtain op hash where op: "InitRegistry op \<in> set (actions_of g)"
    and att: "attested (poseidon_syscall rt) (actions_of g) op n hash"
    and hash: "poseidon_syscall rt [chn, c] = Some hash"
    using run_mint_attested [OF _ none] run by metis
  obtain chn' c' accounts' data' where e: "(accounts', data') \<in> set g"
    "decode accounts' data' = Some (Attest op n chn' c')" "poseidon_syscall rt [chn', c'] = Some hash"
    using att by (auto simp: attested_def actions_of_iff)
  obtain a rest where "accounts' = a # rest" "ai_key a = op" "is_signer a"
    using chain_attest_signed [OF assms(3,1,2) _ e(2)] e(1) h by auto
  with e op hash show "\<exists>op a rest data' chn' c' hash. (a # rest, data') \<in> set g \<and> is_signer a \<and>
      ai_key a = op \<and> decode (a # rest) data' = Some (Attest op n chn' c') \<and>
      InitRegistry op \<in> set (actions_of g) \<and>
      poseidon_syscall rt [chn', c'] = Some hash \<and> poseidon_syscall rt [chn, c] = Some hash"
    by blast
qed

text \<open>A nullifier in the history cannot be spent again, whatever the instruction.\<close>

lemma chain_spent_refused:
  assumes "deployment rt H pid" and "pool_holds rt H pid L0 empty_pool" and "chain rt pid L0 h L"
    and "decode accounts data = Some a" and "n \<in> set (action_spends a)"
    and "n \<in> set (spends_of (actions_of h))"
  shows "process_instruction rt pid accounts data L \<noteq> Ok (L', ev)"
proof
  assume run: "process_instruction rt pid accounts data L = Ok (L', ev)"
  obtain s where "pool_run (poseidon_syscall rt) H empty_pool (actions_of h) s"
    and holds: "pool_holds rt H pid L s"
    using chain_refines [OF assms(3,1,2)] by blast
  then have spent: "spent s = spends_of (actions_of h)" and "distinct (spent s)"
    using run_history(1,3) [of "poseidon_syscall rt" H empty_pool "actions_of h" s]
    by (simp_all add: empty_pool_def)
  obtain s' where "pool_step (poseidon_syscall rt) H a s s'"
    using process_refines [OF assms(1) holds run] assms(4) by (auto simp: refines_def)
  then have "distinct (spent s @ action_spends a)"
    using step_spent(1,3) \<open>distinct (spent s)\<close> by metis
  with assms(5,6) spent show False by auto
qed

end
