(* ===== verification/Pool_Errors.thy ===== *)
theory Pool_Errors
  imports Pool_Safety
begin

text \<open>
  What the handlers refuse, with which error: instructions of the wrong size, proofs the verifier
  rejects, attestations by anybody but the operator, mints of what was not attested. The public
  inputs of an instruction are written once more here, as the specification of what each proof is
  checked against.
\<close>

section \<open>Sizes and proofs\<close>

definition args_ok :: "byte \<Rightarrow> nat \<Rightarrow> bool" where
  "args_ok tag n \<longleftrightarrow>
     tag = 0 \<or> (tag = 1 \<and> n = 328) \<or> (tag = 2 \<and> n = 392) \<or> (tag = 3 \<and> 416 \<le> n) \<or>
     (tag = 4 \<and> n = 424) \<or> (tag = 5 \<and> n = 32) \<or> (tag = 6 \<and> n = 96) \<or>
     (tag = 7 \<and> n = 384) \<or> (tag = 8 \<and> n = 384)"

text \<open>The statement each proof-carrying instruction is checked against.\<close>

definition statement_of :: "poseidon \<Rightarrow> byte \<Rightarrow> bytes \<Rightarrow> (verifying_key \<times> bytes32 list) option" where
  "statement_of P tag args =
     (let w = b32_at args; amount = (\<lambda>off. be32_u64 (u64_from_le (sub args off 8))) in
      if tag = 1 then
        do { t \<leftarrow> to_field P (w 256); Some (DEPOSIT_VK, [t, amount 288, w 296]) }
      else if tag = 2 then
        do { t \<leftarrow> to_field P (w 320); r \<leftarrow> to_field P (w 360);
             Some (WITHDRAW_VK, [w 256, w 288, t, amount 352, r]) }
      else if tag = 3 then Some (TRANSFER_VK, [w 256, w 288, w 320, w 352, w 384])
      else if tag = 4 then
        do { t \<leftarrow> to_field P (w 320); Some (BURN_VK, [w 256, w 288, t, amount 352, w 360, w 392]) }
      else if tag = 7 \<or> tag = 8 then Some (XBURN_VK, [w 256, w 288, w 320, w 352])
      else None)"

lemma size_refusals:
  "length args \<noteq> 328 \<Longrightarrow> deposit rt pid accounts args L = Err InvalidInstructionData"
  "length args \<noteq> 392 \<Longrightarrow> withdraw rt pid accounts args L = Err InvalidInstructionData"
  "\<not> 416 \<le> length args \<Longrightarrow> transfer rt pid accounts args L = Err InvalidInstructionData"
  "length args \<noteq> 424 \<Longrightarrow> burn rt pid accounts args L = Err InvalidInstructionData"
  "length args \<noteq> 32 \<Longrightarrow>
     initialize_xburn_pending rt pid accounts args L = Err InvalidInstructionData"
  "length args \<noteq> 96 \<Longrightarrow> add_pending_xburn rt pid accounts args L = Err InvalidInstructionData"
  "length args \<noteq> 384 \<Longrightarrow> mint_from_xburn rt pid accounts args L = Err InvalidInstructionData"
  "length args \<noteq> 384 \<Longrightarrow> xburn rt pid accounts args L = Err InvalidInstructionData"
  by (simp_all add: deposit_def withdraw_def transfer_def burn_def initialize_xburn_pending_def
      add_pending_xburn_def mint_from_xburn_def xburn_def reject_if_def)

lemma malformed_refused:
  assumes "\<And>tag args. data = tag # args \<Longrightarrow> \<not> args_ok tag (length args)"
  shows "process_instruction rt pid accounts data L = Err InvalidInstructionData"
proof (cases data)
  case Nil
  then show ?thesis by (simp add: process_instruction_def)
next
  case (Cons tag args)
  with assms have "\<not> args_ok tag (length args)" by blast
  then show ?thesis
    by (simp add: Cons process_instruction_def args_ok_def size_refusals)
qed

lemma rejected_proof_refused:
  assumes "args_ok tag (length args)"
    and "statement_of (poseidon_syscall rt) tag args = Some (vk, public)"
    and "\<not> groth16_verify rt vk (sub args 0 64) (sub args 64 128) (sub args 192 64) public"
    and "tag = 7 \<Longrightarrow> b32_at args 320 = be32_u64 SOLANA_CHAIN_ID"
  shows "process_instruction rt pid accounts (tag # args) L = Err (Custom E_PROOF_INVALID)"
proof -
  have "tag = 1 \<or> tag = 2 \<or> tag = 3 \<or> tag = 4 \<or> tag = 7 \<or> tag = 8"
    using assms(2) by (auto simp: statement_of_def Let_def split: if_splits)
  then show ?thesis
    using assms
    by (elim disjE)
      (auto simp: process_instruction_def args_ok_def statement_of_def Let_def deposit_def withdraw_def
        transfer_def burn_def mint_from_xburn_def xburn_def check_proof_def bind_eq_Some_conv)
qed

lemma success_was_proven:
  assumes "process_instruction rt pid accounts (tag # args) L = Ok (L', ev)"
    and "tag \<in> {1, 2, 3, 4, 7, 8}"
  shows "\<exists>vk public. statement_of (poseidon_syscall rt) tag args = Some (vk, public) \<and>
    groth16_verify rt vk (sub args 0 64) (sub args 64 128) (sub args 192 64) public"
proof -
  consider "tag = 1" | "tag = 2" | "tag = 3" | "tag = 4" | "tag = 7" | "tag = 8"
    using assms(2) by auto
  then show ?thesis
    using assms(1)
    by cases
      (auto simp: process_instruction_def statement_of_def Let_def deposit_Ok_iff withdraw_Ok_iff
        transfer_Ok_iff burn_Ok_iff mint_from_xburn_Ok_iff xburn_Ok_iff)
qed

section \<open>The registry\<close>

lemma attest_refusals:
  assumes "length args = 96" and "accounts = operator # xp_ai # system # rest" and "is_signer operator"
    and "hash2 (poseidon_syscall rt) (b32_at args 32) (b32_at args 64) = Some h"
    and "pool_holds rt H pid L s" and "registry s = Some (op, es)"
    and "ai_key xp_ai = xpending_key rt pid"
  shows "ai_key operator \<noteq> op \<Longrightarrow>
      add_pending_xburn rt pid accounts args L = Err (Custom E_WRONG_OPERATOR)"
    and "ai_key operator = op \<Longrightarrow> b32_at args 0 \<in> xe_nullifier ` set es \<Longrightarrow>
      add_pending_xburn rt pid accounts args L = Err (Custom E_ALREADY_SPENT)"
proof -
  have xp: "xpending_hold (data_of L xp_ai) op es"
    using pool_holdsD(5) [OF assms(5)] assms(6,7) by (simp add: registry_holds_def data_of_def)
  note step = add_pending_xburn_def xpending_operator_holds [OF xp] Let_def xpending_key_def
  show "add_pending_xburn rt pid accounts args L = Err (Custom E_WRONG_OPERATOR)"
    if "ai_key operator \<noteq> op"
    using that assms by (auto simp: step)
  show "add_pending_xburn rt pid accounts args L = Err (Custom E_ALREADY_SPENT)"
    if "ai_key operator = op" and "b32_at args 0 \<in> xe_nullifier ` set es"
  proof -
    from \<open>b32_at args 0 \<in> xe_nullifier ` set es\<close>
    obtain i where "i < length es" "xe_nullifier (es ! i) = b32_at args 0"
      by (auto simp: in_set_conv_nth)
    then have "xpending_find (data_of L xp_ai) (b32_at args 0) = Ok (Some (40 + i * 65))"
      by (rule xpending_find_present [OF xp])
    then show ?thesis using \<open>ai_key operator = op\<close> assms by (simp add: step)
  qed
qed

lemma mint_refusals:
  assumes "length args = 384" and "b32_at args 320 = be32_u64 SOLANA_CHAIN_ID"
    and "groth16_verify rt XBURN_VK (sub args 0 64) (sub args 64 128) (sub args 192 64)
      [b32_at args 256, b32_at args 288, b32_at args 320, b32_at args 352]"
    and "accounts = payer # tree_ai # xp_ai # system # rest" and "is_signer payer"
    and "ai_key tree_ai = tree_key rt pid" and "ai_key xp_ai = xpending_key rt pid"
    and "pool_holds rt H pid L s" and "registry s = Some (op, es)"
  shows "b32_at args 288 \<notin> xe_nullifier ` set es \<Longrightarrow>
      mint_from_xburn rt pid accounts args L = Err (Custom E_NOT_PENDING)"
    and "e \<in> set es \<Longrightarrow> xe_nullifier e = b32_at args 288 \<Longrightarrow> xe_minted e \<Longrightarrow>
      mint_from_xburn rt pid accounts args L = Err (Custom E_ALREADY_SPENT)"
    and "e \<in> set es \<Longrightarrow> xe_nullifier e = b32_at args 288 \<Longrightarrow> \<not> xe_minted e \<Longrightarrow>
      hash2 (poseidon_syscall rt) (b32_at args 320) (b32_at args 352) = Some h \<Longrightarrow>
      h \<noteq> xe_expected e \<Longrightarrow>
      mint_from_xburn rt pid accounts args L = Err (Custom E_WRONG_DESTINATION)"
proof -
  have xp: "xpending_hold (data_of L xp_ai) op es"
    using pool_holdsD(5) [OF assms(8)] assms(7,9) by (simp add: registry_holds_def data_of_def)
  then have data: "data_of L xp_ai = xpending_bytes op es"
    by (simp add: xpending_hold_def)
  note step = mint_from_xburn_def check_proof_def Let_def tree_key_def xpending_key_def
  show "mint_from_xburn rt pid accounts args L = Err (Custom E_NOT_PENDING)"
    if "b32_at args 288 \<notin> xe_nullifier ` set es"
    using xpending_find_absent [OF xp that] assms(1-7) by (simp add: step)
  assume e: "e \<in> set es" "xe_nullifier e = b32_at args 288"
  then obtain i where i: "i < length es" "es ! i = e"
    by (auto simp: in_set_conv_nth)
  have find: "xpending_find (data_of L xp_ai) (b32_at args 288) = Ok (Some (40 + i * 65))"
    using i e(2) by (intro xpending_find_present [OF xp]) simp_all
  have bytes: "byte_at (data_of L xp_ai) (40 + i * 65 + 64) =
      (Ok (if xe_minted e then 1 else 0) :: (program_error, byte) outcome)"
    "xpending_expected_hash (data_of L xp_ai) (40 + i * 65) = Ok (xe_expected e)"
    using entry_fields(2,3) [OF i(1), of op] entry_bound [OF i(1), of op] i(2)
    by (simp_all add: data xpending_expected_hash_def)
  show "mint_from_xburn rt pid accounts args L = Err (Custom E_ALREADY_SPENT)" if "xe_minted e"
    using that find bytes(1) assms(1-7) by (simp add: step del: byte_at_in)
  show "mint_from_xburn rt pid accounts args L = Err (Custom E_WRONG_DESTINATION)"
    if "\<not> xe_minted e" and "hash2 (poseidon_syscall rt) (b32_at args 320) (b32_at args 352) = Some h"
      and "h \<noteq> xe_expected e"
    using that find bytes assms(1-7) by (simp add: step del: byte_at_in)
qed

end
