(* ===== verification/Read_Path.thy ===== *)
theory Read_Path
  imports Commitment_Tree
begin

text \<open>
  \<open>reconstruct_path\<close> of \<open>crates/common/src/tree.rs\<close>: a withdrawer rebuilds the tree level by level
  from the list of leaves and reads off the authentication path and the root. The lemmas show that
  it computes the specification's path and root for every list of leaves and every index, so that
  folding the leaf along the path with \<open>merkle_root_be\<close> gives the root the incremental tree has.
\<close>

section \<open>The code\<close>

text \<open>The inner loop: pairs are hashed, a missing right child is the empty subtree \<open>zero\<close>.\<close>

fun fold_level :: "hasher \<Rightarrow> bytes32 \<Rightarrow> bytes32 list \<Rightarrow> bytes32 list option" where
  "fold_level hash zero [] = Some []"
| "fold_level hash zero [l] = do { p \<leftarrow> hash l zero; Some [p] }"
| "fold_level hash zero (l # r # rest) =
     do { p \<leftarrow> hash l r; ps \<leftarrow> fold_level hash zero rest; Some (p # ps) }"

text \<open>The outer loop over the levels still to do: the path from here up, and the last level.\<close>

fun path_levels ::
    "hasher \<Rightarrow> bytes32 list \<Rightarrow> nat list \<Rightarrow> bytes32 list \<Rightarrow> u64
      \<Rightarrow> ((bytes32 \<times> bool) list \<times> bytes32 list) option" where
  "path_levels hash zeros [] level idx = Some ([], level)"
| "path_levels hash zeros (i # is) level idx =
     (let right = (idx AND 1 = 1);
          sib_idx = unat (idx XOR 1);
          sib = (if sib_idx < length level then level ! sib_idx else zeros ! i)
      in do {
        next \<leftarrow> fold_level hash (zeros ! i) level;
        next \<leftarrow> (if next = [] then do { p \<leftarrow> hash (zeros ! i) (zeros ! i); Some [p] } else Some next);
        (path, top) \<leftarrow> path_levels hash zeros is next (drop_bit 1 idx);
        Some ((sib, right) # path, top)
      })"

definition reconstruct_path ::
    "hasher \<Rightarrow> bytes32 list \<Rightarrow> bytes32 list \<Rightarrow> u64 \<Rightarrow> (bytes32 list \<times> bool list \<times> bytes32) option" where
  "reconstruct_path hash zeros leaves index =
     do {
       (path, level) \<leftarrow> path_levels hash zeros [0..<TREE_DEPTH] leaves index;
       Some (map fst path, map snd path, level ! 0)
     }"

section \<open>It computes the specification's path\<close>

lemma fold_level_map:
  assumes "\<And>i. hash (f (2 * i)) (f (Suc (2 * i))) = Some (g i)" and "f m = zero"
  shows "fold_level hash zero (map f [2 * k..<m]) = Some (map g [k..<(m + 1) div 2])"
proof (induction "m - 2 * k" arbitrary: k rule: less_induct)
  case less
  consider "m \<le> 2 * k" | "m = Suc (2 * k)" | "Suc (2 * k) < m"
    by linarith
  then show ?case
  proof cases
    case 1
    then show ?thesis by simp
  next
    case 2
    with assms(1) [of k] assms(2) show ?thesis by (simp add: upt_conv_Cons)
  next
    case 3
    have "map f [2 * k..<m] = f (2 * k) # f (Suc (2 * k)) # map f [2 * Suc k..<m]"
      using 3 by (simp add: upt_conv_Cons)
    moreover have "map g [k..<(m + 1) div 2] = g k # map g [Suc k..<(m + 1) div 2]"
      using 3 by (simp add: upt_conv_Cons)
    moreover have "fold_level hash zero (map f [2 * Suc k..<m]) = Some (map g [Suc k..<(m + 1) div 2])"
      using 3 by (intro less) simp
    ultimately show ?thesis
      using assms(1) [of k] by simp
  qed
qed

lemma xor_1_sibling: "unat (idx XOR 1) = sibling (unat (idx :: u64))"
proof -
  have e: "unat (idx XOR 1) = unat idx XOR 1"
    by (simp only: unsigned_xor_eq unsigned_1)
  show ?thesis
    unfolding e by (auto simp: sibling_def xor_Suc_0_eq)
qed

lemma and_1_eq_1_iff: "idx AND 1 = 1 \<longleftrightarrow> odd (unat (idx :: u64))"
  using and_1_eq_0_iff [of idx] by (auto simp: and_one_eq mod_2_eq_odd)

lemma path_level_step:
  assumes "hashes_to h H" and "list_all field_elem ls" and "l < TREE_DEPTH"
    and "length ls \<le> m * 2 ^ l" and "unat idx = i div 2 ^ l"
  shows "path_levels h (zeros_of H) (l # levels) (map (node H ls l) [0..<m]) idx =
    do {
      (path, top) \<leftarrow> path_levels h (zeros_of H) levels
        (map (node H ls (Suc l)) [0..<max 1 ((m + 1) div 2)]) (drop_bit 1 idx);
      Some ((node H ls l (sibling (i div 2 ^ l)), odd (i div 2 ^ l)) # path, top)
    }"
proof -
  have fe: "field_elem (node H ls l j)" for j
    by (rule field_elem_node [OF assms(1,2)])
  have z: "zeros_of H ! l = zero_node H l"
    using assms(3) by simp
  have empty: "node H ls l j = zero_node H l" if "m \<le> j" for j
    using assms(4) that by (intro node_empty) (meson le_trans mult_le_mono1)
  have sib: "(if unat (idx XOR 1) < length (map (node H ls l) [0..<m])
      then map (node H ls l) [0..<m] ! unat (idx XOR 1) else zeros_of H ! l) =
      node H ls l (sibling (i div 2 ^ l))"
    using empty by (simp add: xor_1_sibling assms(5) z)
  have "h (node H ls l (2 * j)) (node H ls l (Suc (2 * j))) = Some (node H ls (Suc l) j)" for j
    using hashes_toD(1) [OF assms(1) fe fe] by simp
  then have next_level: "fold_level h (zero_node H l) (map (node H ls l) [0..<m]) =
      Some (map (node H ls (Suc l)) [0..<(m + 1) div 2])"
    using fold_level_map [of h "node H ls l" "node H ls (Suc l)" m "zero_node H l" 0] empty by simp
  have zz: "h (zero_node H l) (zero_node H l) = Some (node H ls (Suc l) 0)" if "m = 0"
    using hashes_toD(1) [OF assms(1) fe fe, of 0 1] empty that by simp
  have nonempty: "(if map (node H ls (Suc l)) [0..<(m + 1) div 2] = []
      then do { p \<leftarrow> h (zero_node H l) (zero_node H l); Some [p] }
      else Some (map (node H ls (Suc l)) [0..<(m + 1) div 2])) =
      Some (map (node H ls (Suc l)) [0..<max 1 ((m + 1) div 2)])"
    using zz by (cases "m = 0") auto
  show ?thesis
    unfolding path_levels.simps Let_def sib
    by (simp only: z next_level nonempty Option.bind.bind_lunit and_1_eq_1_iff assms(5))
qed

lemma path_levels_correct:
  assumes "hashes_to h H" and "list_all field_elem ls" and "l + k \<le> TREE_DEPTH"
    and "length ls \<le> m * 2 ^ l" and "unat idx = i div 2 ^ l"
  shows "\<exists>m'. path_levels h (zeros_of H) [l..<l + k] (map (node H ls l) [0..<m]) idx =
    Some (auth_path H ls i [l..<l + k], map (node H ls (l + k)) [0..<m']) \<and> (0 < k \<longrightarrow> 0 < m')"
  using assms(3-5)
proof (induction k arbitrary: l m idx)
  case 0
  then show ?case by (auto simp: auth_path_def)
next
  case (Suc k)
  let ?m = "max 1 ((m + 1) div 2)"
  have grown: "length ls \<le> ?m * 2 ^ Suc l"
  proof -
    have "m \<le> 2 * ?m" by simp
    then have "m * 2 ^ l \<le> 2 * ?m * 2 ^ l" by (rule mult_le_mono1)
    then have "length ls \<le> 2 * ?m * 2 ^ l" by (rule le_trans [OF Suc.prems(2)])
    also have "\<dots> = ?m * 2 ^ Suc l" by simp
    finally show ?thesis .
  qed
  have ix: "unat (drop_bit 1 idx) = i div 2 ^ Suc l"
    by (simp only: unat_shift_1 Suc.prems(3) div_pow_Suc)
  have l: "l < TREE_DEPTH" and bound: "Suc l + k \<le> TREE_DEPTH"
    using Suc.prems(1) by simp_all
  obtain m' where rest: "path_levels h (zeros_of H) [Suc l..<Suc l + k]
      (map (node H ls (Suc l)) [0..<?m]) (drop_bit 1 idx) =
      Some (auth_path H ls i [Suc l..<Suc l + k], map (node H ls (Suc l + k)) [0..<m'])"
    and pos: "0 < k \<longrightarrow> 0 < m'"
    using Suc.IH [OF bound grown ix] by blast
  have pos': "0 < m'"
  proof (cases k)
    case 0
    with rest have "[0..<?m] = [0..<m']"
      using map_eq_imp_length_eq by fastforce
    then show ?thesis by (metis length_upt max.cobounded1 minus_nat.diff_0 less_le_trans zero_less_one)
  qed (use pos in simp)
  have lv: "[l..<l + Suc k] = l # [Suc l..<Suc l + k]"
    by (simp add: upt_conv_Cons)
  show ?case
    unfolding lv path_level_step [OF assms(1,2) l Suc.prems(2,3)] rest
    using pos' by (intro exI [of _ m']) (simp add: auth_path_def)
qed

text \<open>The path and the root, whatever the leaves and the index.\<close>

lemma reconstruct_path_spec:
  assumes "hashes_to h H" and "list_all field_elem ls"
  shows "reconstruct_path h (zeros_of H) ls index =
    Some (map fst (auth_path H ls (unat index) [0..<TREE_DEPTH]),
          map snd (auth_path H ls (unat index) [0..<TREE_DEPTH]), merkle_root H ls)"
proof -
  have "map (node H ls 0) [0..<length ls] = ls"
    by (rule nth_equalityI) simp_all
  then obtain m where "path_levels h (zeros_of H) [0..<TREE_DEPTH] ls index =
      Some (auth_path H ls (unat index) [0..<TREE_DEPTH], map (node H ls TREE_DEPTH) [0..<m])"
    and "0 < TREE_DEPTH \<longrightarrow> 0 < m"
    using path_levels_correct [OF assms, of 0 TREE_DEPTH "length ls" index "unat index"] by auto
  then show ?thesis
    by (simp add: reconstruct_path_def merkle_root_def TREE_DEPTH_Suc)
qed

lemma reconstructed_path_opens:
  assumes "hashes_to (poseidon2 P) H" and "list_all field_elem ls" and "unat index < 2 ^ TREE_DEPTH"
    and "reconstruct_path (poseidon2 P) (zeros_of H) ls index = Some (siblings, right, root)"
  shows "merkle_root_be P (if unat index < length ls then ls ! unat index else ZERO_LEAF) siblings right
    = Some root" and "root = merkle_root H ls"
proof -
  let ?path = "auth_path H ls (unat index) [0..<TREE_DEPTH]"
  have s: "siblings = map fst ?path" "right = map snd ?path" and r: "root = merkle_root H ls"
    using assms(4) by (simp_all add: reconstruct_path_spec [OF assms(1,2)])
  show "root = merkle_root H ls" by (rule r)
  have "merkle_fold P (node H ls 0 (unat index)) ?path = Some (merkle_root H ls)"
    using merkle_fold_auth_path [OF assms(1,2), of 0 "unat index" TREE_DEPTH] assms(3)
    by (simp add: merkle_root_def)
  then show "merkle_root_be P (if unat index < length ls then ls ! unat index else ZERO_LEAF) siblings right
      = Some root"
    by (simp add: merkle_root_be_def s r zip_map_fst_snd)
qed

end
