(* ===== verification/Demo_Runtime.thy ===== *)
theory Demo_Runtime
  imports Pool_Chain
begin

text \<open>
  A concrete runtime that satisfies every law of \<open>Runtime_Laws\<close>, so that the hypotheses of the
  pool's theorems are satisfiable: a hash that agrees with the generated constants, a verifier that
  accepts every proof with canonical inputs, addresses computed from the seeds, and the System and
  Token instructions the program invokes. It is an instance for the witnesses, not a model of
  Solana; nothing but the witnesses depends on it.
\<close>

section \<open>A hash that agrees with the constants\<close>

definition demo_mix :: "bytes32 \<Rightarrow> bytes32 \<Rightarrow> bytes32" where
  "demo_mix a b = word_of_nat ((3 * unat a + 5 * unat b + 7) mod (bn254_fr - 1) + 1)"

definition demo_hash :: hash2_fun where
  "demo_hash a b =
     (if a = b
      then case map_of (zip ZEROS (tl ZEROS @ [EMPTY_ROOT])) a of Some z \<Rightarrow> z | None \<Rightarrow> demo_mix a b
      else demo_mix a b)"

fun demo_poseidon :: poseidon where
  "demo_poseidon [a] = Some 9"
| "demo_poseidon [a, b] = (if field_elem a \<and> field_elem b then Some (demo_hash a b) else None)"
| "demo_poseidon [a, b, c, d] = Some 11"
| "demo_poseidon _ = None"

lemma bn254_fr_bounds: "0 < bn254_fr" "bn254_fr < 2 ^ 256"
  by (simp_all add: bn254_fr_def)

lemma unat_mix: "unat (demo_mix a b) = (3 * unat a + 5 * unat b + 7) mod (bn254_fr - 1) + 1"
proof -
  have "(3 * unat a + 5 * unat b + 7) mod (bn254_fr - 1) < bn254_fr - 1"
    by (rule mod_less_divisor) (simp add: bn254_fr_def)
  then have "(3 * unat a + 5 * unat b + 7) mod (bn254_fr - 1) + 1 < 2 ^ 256"
    using bn254_fr_bounds(2) by linarith
  then show ?thesis
    unfolding demo_mix_def by (rule unat_b32_of_nat)
qed

lemma field_elem_mix: "field_elem (demo_mix a b)" and mix_nonzero: "demo_mix a b \<noteq> 0"
proof -
  have "(3 * unat a + 5 * unat b + 7) mod (bn254_fr - 1) < bn254_fr - 1"
    by (rule mod_less_divisor) (simp add: bn254_fr_def)
  then show "field_elem (demo_mix a b)"
    unfolding field_elem_def unat_mix by linarith
  have "0 < unat (demo_mix a b)"
    unfolding unat_mix by simp
  then show "demo_mix a b \<noteq> 0" by auto
qed

lemma distinct_ZEROS: "distinct ZEROS"
proof -
  have "distinct (map unat ZEROS)"
    unfolding ZEROS_def list.map by (simp only: unat_numeral) simp
  then show ?thesis by (simp add: distinct_map)
qed

lemma nth_next:
  assumes "i < TREE_DEPTH"
  shows "(tl ZEROS @ [EMPTY_ROOT]) ! i = (ZEROS @ [EMPTY_ROOT]) ! Suc i"
  using assms by (auto simp: nth_append nth_tl not_less le_antisym Suc_le_eq intro: arg_cong)

lemma demo_hash_zeros:
  assumes "i < TREE_DEPTH"
  shows "demo_hash (ZEROS ! i) (ZEROS ! i) = (ZEROS @ [EMPTY_ROOT]) ! Suc i"
proof -
  have "map_of (zip ZEROS (tl ZEROS @ [EMPTY_ROOT])) (ZEROS ! i) = Some ((tl ZEROS @ [EMPTY_ROOT]) ! i)"
    using assms distinct_ZEROS by (intro map_of_zip_nth) simp_all
  then show ?thesis
    using nth_next [OF assms] by (simp add: demo_hash_def)
qed

lemma demo_zero_node: "i \<le> TREE_DEPTH \<Longrightarrow> zero_node demo_hash i = (ZEROS @ [EMPTY_ROOT]) ! i"
proof (induction i)
  case 0
  show ?case by (simp add: ZEROS_def ZERO_LEAF_def)
next
  case (Suc i)
  then show ?case
    using demo_hash_zeros [of i] by (simp add: nth_append)
qed

lemma demo_consts_match: "consts_match demo_hash"
proof -
  have "zeros_of demo_hash = ZEROS"
    by (rule nth_equalityI) (simp_all add: demo_zero_node nth_append)
  moreover have "merkle_root demo_hash [] = EMPTY_ROOT"
    using demo_zero_node [of TREE_DEPTH] by (simp add: merkle_root_Nil nth_append)
  ultimately show ?thesis by (simp add: consts_match_def)
qed

lemma field_elem_demo_hash: "field_elem (demo_hash a b)"
proof -
  have "field_elem z" if "map_of (zip ZEROS (tl ZEROS @ [EMPTY_ROOT])) a = Some z" for z
  proof -
    have "z \<in> set (tl ZEROS @ [EMPTY_ROOT])"
      using that by (meson map_of_SomeD set_zip_rightD)
    then show ?thesis
      using field_elem_ZEROS field_elem_EMPTY_ROOT list.set_sel(2) [of ZEROS z]
      by (cases "ZEROS = []") (auto simp: list_all_iff)
  qed
  then show ?thesis
    by (auto simp: demo_hash_def field_elem_mix split: option.splits)
qed

lemma demo_hash_nonzero: "demo_hash a b \<noteq> 0"
proof -
  have "0 \<notin> set (tl ZEROS @ [EMPTY_ROOT])"
    by (simp add: ZEROS_def EMPTY_ROOT_def)
  then have "z \<noteq> 0" if "map_of (zip ZEROS (tl ZEROS @ [EMPTY_ROOT])) a = Some z" for z
    using that by (metis map_of_SomeD set_zip_rightD)
  then show ?thesis
    by (auto simp: demo_hash_def mix_nonzero split: option.splits)
qed

lemma demo_root_nonzero: "merkle_root demo_hash ls \<noteq> 0"
  unfolding merkle_root_def TREE_DEPTH_Suc node.simps by (rule demo_hash_nonzero)

lemma demo_hashes_to: "hashes_to (poseidon2 demo_poseidon) demo_hash"
  by (simp add: hashes_to_def poseidon2_def field_elem_demo_hash)

section \<open>The programs it invokes\<close>

text \<open>System Program: Transfer and CreateAccount.\<close>

definition demo_system :: "instruction \<Rightarrow> ledger \<Rightarrow> (program_error, ledger) outcome" where
  "demo_system ix L =
     (case ix_accounts ix of
        [a, b] \<Rightarrow>
          (let from = am_key a; to = am_key b; d = ix_data ix in
           if take 4 d = u32_to_le 2 then
             Ok (L(to := (L to)\<lparr>acc_lamports := acc_lamports (L to) + u64_from_le (sub d 4 8)\<rparr>))
           else if take 4 d = u32_to_le 0 \<and> acc_owner (L to) = SYSTEM_PROGRAM then
             Ok (L(to := \<lparr>acc_lamports = u64_from_le (sub d 4 8),
                          acc_data = replicate (unat (u64_from_le (sub d 12 8))) 0,
                          acc_owner = bytes_b32 (sub d 20 32)\<rparr>))
           else Err (RuntimeError 0))
      | _ \<Rightarrow> Err (RuntimeError 1))"

definition set_amount :: "bytes \<Rightarrow> nat \<Rightarrow> bytes" where
  "set_amount d n = patch d 64 (u64_to_le (word_of_nat n))"

text \<open>Token Program: Transfer, between accounts of at least 108 bytes.\<close>

definition demo_token :: "instruction \<Rightarrow> ledger \<Rightarrow> (program_error, ledger) outcome" where
  "demo_token ix L =
     (case ix_accounts ix of
        [s, d, a] \<Rightarrow>
          (let src = am_key s; dst = am_key d; n = unat (u64_from_le (drop 1 (ix_data ix)));
               sd = acc_data (L src); dd = acc_data (L dst) in
           if acc_owner (L src) = SPL_TOKEN_PROGRAM_ID \<and> acc_owner (L dst) = SPL_TOKEN_PROGRAM_ID \<and>
              108 \<le> length sd \<and> 108 \<le> length dd \<and> token_mint sd = token_mint dd \<and>
              (token_owner sd = am_key a \<or> token_delegate sd = Some (am_key a)) \<and>
              n \<le> token_amount sd \<and> token_amount dd + n < 2 ^ 64
           then if src = dst then Ok L
             else Ok (set_data (set_data L src (set_amount sd (token_amount sd - n))) dst
                    (set_amount dd (token_amount dd + n)))
           else Err (RuntimeError 2))
      | _ \<Rightarrow> Err (RuntimeError 3))"

definition demo_runtime :: runtime where
  "demo_runtime =
     \<lparr>poseidon_syscall = demo_poseidon,
      groth16_verify = (\<lambda>vk a b c public.
        length public = nr_pubinputs vk \<and> list_all field_elem public),
      find_program_address = (\<lambda>seeds pid.
        (2 * (bytes_b32 (concat seeds) + word_of_nat (length seeds)) + 1, 255)),
      rent_get = Ok (\<lambda>n. 0),
      cpi = (\<lambda>ix infos seeds L.
        if ix_program ix = SYSTEM_PROGRAM then demo_system ix L
        else if ix_program ix = SPL_TOKEN_PROGRAM_ID then demo_token ix L
        else Err (RuntimeError 4)),
      resize = (\<lambda>k n L.
        if n \<le> MAX_ACCOUNT_SIZE
        then Ok (set_data L k (take n (acc_data (L k)) @ replicate (n - length (acc_data (L k))) 0))
        else Err (RuntimeError 5))\<rparr>"

lemma system_tags: "u32_to_le 0 \<noteq> u32_to_le 2"
proof
  assume "u32_to_le 0 = u32_to_le 2"
  then have "nat_of_le (u32_to_le 0) = nat_of_le (u32_to_le 2)" by simp
  then show False by (simp add: u32_to_le_def nat_of_le_of_nat)
qed

lemma demo_system_transfer: "system_transfer_law demo_runtime"
proof -
  have "changes_only {} L L'"
    if "demo_system ix L = Ok L'" and "take 4 (ix_data ix) = u32_to_le 2" for ix L L'
    using that by (auto simp: demo_system_def changes_only_def Let_def split: list.splits)
  then show ?thesis
    by (auto simp: system_transfer_law_def demo_runtime_def)
qed

lemma create_account_data:
  defines "d \<equiv> \<lambda>lamports space owner. u32_to_le 0 @ u64_to_le lamports @ u64_to_le space @ b32_bytes owner"
  shows "take 4 (d lamports space owner) = u32_to_le 0"
    and "sub (d lamports space owner) 12 8 = u64_to_le space"
    and "sub (d lamports space owner) 20 32 = b32_bytes owner"
  by (simp_all add: d_def sub_def)

lemma demo_create: "create_account_law demo_runtime"
proof -
  have "acc_owner (L new) = SYSTEM_PROGRAM \<and>
      acc_data (L' new) = replicate (unat space) 0 \<and> acc_owner (L' new) = owner \<and>
      (\<forall>k. k \<noteq> new \<longrightarrow> acc_data (L' k) = acc_data (L k) \<and> acc_owner (L' k) = acc_owner (L k))"
    if "demo_system (create_account_ix payer new lamports space owner) L = Ok L'"
    for payer new lamports space owner L L'
    using that system_tags
    by (auto simp: demo_system_def create_account_ix_def meta_new_def Let_def create_account_data
        split: if_splits)
  then show ?thesis
    by (simp add: create_account_law_def demo_runtime_def create_account_ix_def)
qed

lemma set_amount_fields:
  assumes "108 \<le> length d"
  shows "sub (set_amount d n) 0 64 = sub d 0 64"
    and "token_delegate (set_amount d n) = token_delegate d"
    and "n < 2 ^ 64 \<Longrightarrow> token_amount (set_amount d n) = n"
proof -
  show "sub (set_amount d n) 0 64 = sub d 0 64"
    and "token_delegate (set_amount d n) = token_delegate d"
    using assms by (simp_all add: set_amount_def token_delegate_def bytes_simps)
  show "token_amount (set_amount d n) = n" if "n < 2 ^ 64"
    using assms that
    by (simp add: set_amount_def token_amount_def bytes_simps u64_to_le_def nat_of_le_of_nat unat_of_nat)
qed

lemma token_amount_bound: "token_amount d < 2 ^ 64"
proof -
  have "nat_of_le (sub d 64 8) < 256 ^ length (sub d 64 8)"
    by (rule nat_of_le_less)
  also have "\<dots> \<le> 256 ^ 8"
    by (rule power_increasing) (simp_all add: sub_def)
  finally show ?thesis by (simp add: token_amount_def)
qed

lemma demo_token_cases:
  assumes "demo_token (token_transfer_ix s d a n) L = Ok L'"
  shows "acc_owner (L s) = SPL_TOKEN_PROGRAM_ID" and "acc_owner (L d) = SPL_TOKEN_PROGRAM_ID"
    and "108 \<le> length (acc_data (L s))" and "108 \<le> length (acc_data (L d))"
    and "token_mint (acc_data (L s)) = token_mint (acc_data (L d))"
    and "token_owner (acc_data (L s)) = a \<or> token_delegate (acc_data (L s)) = Some a"
    and "unat n \<le> token_amount (acc_data (L s))"
    and "token_amount (acc_data (L d)) + unat n < 2 ^ 64"
    and "L' = (if s = d then L
           else set_data (set_data L s (set_amount (acc_data (L s)) (token_amount (acc_data (L s)) - unat n)))
             d (set_amount (acc_data (L d)) (token_amount (acc_data (L d)) + unat n)))"
  using assms
  by (simp_all add: demo_token_def token_transfer_ix_def meta_new_def meta_readonly_def Let_def
      split: if_splits)

lemma demo_token_law: "token_transfer_law demo_runtime"
  unfolding token_transfer_law_def
proof (intro allI impI)
  fix s d a n infos seeds L L'
  assume "cpi demo_runtime (token_transfer_ix s d a n) infos seeds L = Ok L'"
  then have "demo_token (token_transfer_ix s d a n) L = Ok L'"
    by (simp add: demo_runtime_def token_transfer_ix_def)
  note t = demo_token_cases [OF this]
  have below: "token_amount (acc_data (L s)) - unat n < 2 ^ 64"
    using token_amount_bound [of "acc_data (L s)"] by simp
  note f = set_amount_fields [OF t(3)] set_amount_fields [OF t(4)]
  show "acc_owner (L s) = SPL_TOKEN_PROGRAM_ID \<and> acc_owner (L d) = SPL_TOKEN_PROGRAM_ID \<and>
      token_mint (acc_data (L s)) = token_mint (acc_data (L d)) \<and>
      (token_owner (acc_data (L s)) = a \<or> token_delegate (acc_data (L s)) = Some a) \<and>
      changes_only {s, d} L L' \<and>
      (\<forall>k. sub (acc_data (L' k)) 0 64 = sub (acc_data (L k)) 0 64) \<and>
      (\<forall>k. token_delegate (acc_data (L k)) = None \<longrightarrow> token_delegate (acc_data (L' k)) = None) \<and>
      unat n \<le> token_amount (acc_data (L s)) \<and>
      (s \<noteq> d \<longrightarrow>
         token_amount (acc_data (L' s)) = token_amount (acc_data (L s)) - unat n \<and>
         token_amount (acc_data (L' d)) = token_amount (acc_data (L d)) + unat n) \<and>
      (s = d \<longrightarrow> token_amount (acc_data (L' s)) = token_amount (acc_data (L s)))"
    using t(1,2,5-8) below
    by (auto simp: t(9) f changes_only_def set_data_apply)
qed

lemma demo_laws: "runtime_laws demo_runtime"
proof -
  have "resize_law demo_runtime" and "verifier_law demo_runtime"
    by (auto simp: resize_law_def verifier_law_def demo_runtime_def split: if_splits)
  then show ?thesis
    by (simp add: runtime_laws_def demo_system_transfer demo_create demo_token_law)
qed

lemma demo_served: "transfer_served_law demo_runtime" "resize_served_law demo_runtime"
proof -
  have "\<exists>L'. cpi demo_runtime (system_transfer_ix payer dest n) infos [] L = Ok L'" for payer dest n infos L
    by (simp add: demo_runtime_def system_transfer_ix_def demo_system_def Let_def)
  then show "transfer_served_law demo_runtime"
    by (simp add: transfer_served_law_def)
  show "resize_served_law demo_runtime"
    by (simp add: resize_served_law_def demo_runtime_def)
qed

section \<open>A deployment\<close>

text \<open>Addresses of the program are odd in this runtime; the users' keys are even.\<close>

definition demo_program :: pubkey where
  "demo_program = 78"

lemma demo_pda: "pda_of demo_runtime pid seeds = 2 * (bytes_b32 (concat seeds) + word_of_nat (length seeds)) + 1"
  by (simp add: pda_of_def demo_runtime_def)

lemma demo_pda_odd: "odd (pda_of demo_runtime pid seeds)"
  by (simp add: demo_pda)

lemma demo_keys:
  "unat (tree_key demo_runtime demo_program) = 2 * (1953654117 + 1) + 1"
  "unat (nullifier_key demo_runtime demo_program) = 2 * (521626394907627147850355 + 1) + 1"
  "unat (xpending_key demo_runtime demo_program) = 2 * (8678548006748384871 + 1) + 1"
  by (simp_all add: tree_key_def nullifier_key_def xpending_key_def demo_pda
      TREE_SEED_def NULLIFIER_SEED_def XBURN_PENDING_SEED_def bytes_b32_def nat_of_be_def)

lemma demo_deployment: "deployment demo_runtime demo_hash demo_program"
proof -
  have "distinct (map unat [tree_key demo_runtime demo_program, nullifier_key demo_runtime demo_program,
      xpending_key demo_runtime demo_program])"
    by (simp add: demo_keys)
  then have "distinct [tree_key demo_runtime demo_program, nullifier_key demo_runtime demo_program,
      xpending_key demo_runtime demo_program]"
    using distinct_map by blast
  moreover have "demo_program \<noteq> SYSTEM_PROGRAM" and "demo_program \<noteq> SPL_TOKEN_PROGRAM_ID"
    by (simp_all add: demo_program_def SYSTEM_PROGRAM_def SPL_TOKEN_PROGRAM_ID_def)
  moreover have "poseidon_syscall demo_runtime = demo_poseidon"
    by (simp add: demo_runtime_def)
  ultimately show ?thesis
    by (simp add: deployment_def demo_laws demo_hashes_to demo_consts_match)
qed

definition token_bytes :: "bytes32 \<Rightarrow> pubkey \<Rightarrow> u64 \<Rightarrow> bytes" where
  "token_bytes mint owner amount =
     b32_bytes mint @ b32_bytes owner @ u64_to_le amount @ replicate 36 0 @ [1] @ replicate 56 0"

lemma token_bytes_fields:
  "token_mint (token_bytes m a n) = m" "token_owner (token_bytes m a n) = a"
  "token_amount (token_bytes m a n) = unat n" "token_delegate (token_bytes m a n) = None"
  "length (token_bytes m a n) = 165" "token_bytes m a n ! 108 = 1"
proof -
  let ?d = "token_bytes m a n"
  show "token_mint ?d = m" and "length ?d = 165"
    by (simp_all add: token_bytes_def token_mint_def b32_at_def sub_prefix)
  show "token_owner ?d = a"
    using sub_middle [of "b32_bytes m" 32 "b32_bytes a" 32]
    by (simp add: token_bytes_def token_owner_def b32_at_def)
  have "sub ?d 64 8 = u64_to_le n"
    using sub_middle [of "b32_bytes m @ b32_bytes a" 64 "u64_to_le n" 8 "replicate 36 0 @ [1] @ replicate 56 0"]
    by (simp add: token_bytes_def)
  then show "token_amount ?d = unat n"
    using unat_bound [of n] by (simp add: token_amount_def u64_to_le_def nat_of_le_of_nat)
  have at: "sub (xs @ ys) 72 k = take k ys" if "length xs = 72" for xs ys :: bytes and k :: nat
    using that by (simp add: sub_def)
  show "?d ! 108 = 1"
    by (simp add: token_bytes_def nth_append)
  have "sub ?d 72 4 = replicate 4 0"
    using at [of "b32_bytes m @ b32_bytes a @ u64_to_le n" _ 4] by (simp add: token_bytes_def)
  then show "token_delegate ?d = None"
    by (simp add: token_delegate_def)
qed

text \<open>The token, its vault, a depositor and a recipient with their token accounts.\<close>

abbreviation demo_vault :: pubkey where
  "demo_vault \<equiv> vault_key demo_runtime demo_program 5"

definition demo_ledger :: ledger where
  "demo_ledger k =
     (if k = tree_key demo_runtime demo_program
      then \<lparr>acc_lamports = 1000, acc_data = tree_to_bytes initial_tree, acc_owner = demo_program\<rparr>
      else if k = nullifier_key demo_runtime demo_program
      then \<lparr>acc_lamports = 1000, acc_data = nullifier_set_bytes [], acc_owner = demo_program\<rparr>
      else if k = demo_vault
      then \<lparr>acc_lamports = 1,
            acc_data = token_bytes 5 (vault_authority_key demo_runtime demo_program 5) 50,
            acc_owner = SPL_TOKEN_PROGRAM_ID\<rparr>
      else if k = 4
      then \<lparr>acc_lamports = 1, acc_data = token_bytes 5 2 100, acc_owner = SPL_TOKEN_PROGRAM_ID\<rparr>
      else if k = 8
      then \<lparr>acc_lamports = 1, acc_data = token_bytes 5 6 0, acc_owner = SPL_TOKEN_PROGRAM_ID\<rparr>
      else \<lparr>acc_lamports = 0, acc_data = [], acc_owner = SYSTEM_PROGRAM\<rparr>)"

lemma bytes_b32_append: "bytes_b32 (xs @ b32_bytes y) = y"
proof -
  have "nat_of_be (b32_bytes y) = unat y"
    using unat_bound [of y] by (simp add: b32_bytes_def nat_of_be_of_nat)
  moreover have "(word_of_nat (nat_of_be xs * 256 ^ 32) :: bytes32) = 0"
    unfolding word_of_nat_eq_0_iff by simp
  ultimately show ?thesis
    by (simp add: bytes_b32_def nat_of_be_append del: of_nat_mult of_nat_power)
qed

lemma demo_vault_eq: "demo_vault = 17" and demo_authority_eq: "vault_authority_key demo_runtime demo_program 5 = 15"
proof -
  have "canonical_vault_ata demo_runtime a 5 = pda_of demo_runtime demo_program
      [b32_bytes a, b32_bytes SPL_TOKEN_PROGRAM_ID, b32_bytes 5]" for a
    by (simp add: canonical_vault_ata_def pda_of_def demo_runtime_def)
  then show "demo_vault = 17"
    using bytes_b32_append [of "b32_bytes a @ b32_bytes SPL_TOKEN_PROGRAM_ID" 5 for a]
    by (simp add: vault_key_def demo_pda)
  show "vault_authority_key demo_runtime demo_program 5 = 15"
    by (simp add: vault_authority_key_def demo_pda bytes_b32_append)
qed

lemma demo_key_distinct:
  "tree_key demo_runtime demo_program \<notin> {17, 4, 8}" "nullifier_key demo_runtime demo_program \<notin> {17, 4, 8}"
  "xpending_key demo_runtime demo_program \<notin> {17, 4, 8}"
  using demo_keys by (auto dest: arg_cong [where f = unat])

lemma demo_ledger_at:
  "demo_ledger (tree_key demo_runtime demo_program) =
     \<lparr>acc_lamports = 1000, acc_data = tree_to_bytes initial_tree, acc_owner = demo_program\<rparr>"
  "demo_ledger (nullifier_key demo_runtime demo_program) =
     \<lparr>acc_lamports = 1000, acc_data = nullifier_set_bytes [], acc_owner = demo_program\<rparr>"
  "demo_ledger (xpending_key demo_runtime demo_program) =
     \<lparr>acc_lamports = 0, acc_data = [], acc_owner = SYSTEM_PROGRAM\<rparr>"
  "demo_ledger 17 =
     \<lparr>acc_lamports = 1, acc_data = token_bytes 5 15 50, acc_owner = SPL_TOKEN_PROGRAM_ID\<rparr>"
  "demo_ledger 4 =
     \<lparr>acc_lamports = 1, acc_data = token_bytes 5 2 100, acc_owner = SPL_TOKEN_PROGRAM_ID\<rparr>"
  "demo_ledger 8 =
     \<lparr>acc_lamports = 1, acc_data = token_bytes 5 6 0, acc_owner = SPL_TOKEN_PROGRAM_ID\<rparr>"
  using demo_key_distinct deploymentD(6-8) [OF demo_deployment]
  by (simp_all add: demo_ledger_def demo_vault_eq demo_authority_eq)

lemma demo_poseidon_simp: "poseidon_syscall demo_runtime = demo_poseidon"
  by (simp add: demo_runtime_def)

lemma demo_pool_holds: "pool_holds demo_runtime demo_hash demo_program demo_ledger empty_pool"
  using initial_tree_holds [OF demo_hashes_to demo_consts_match, of "[]"]
  by (simp add: pool_holds_def demo_ledger_at empty_pool_def nullifiers_hold_def MAX_ACCOUNT_SIZE_def
      registry_holds_def demo_poseidon_simp)

lemma demo_vault_ok: "vault_ok demo_runtime demo_program 5 demo_ledger"
  by (simp add: vault_ok_def demo_vault_eq demo_authority_eq demo_ledger_at token_bytes_fields)

section \<open>Instructions that succeed in it\<close>

definition demo_payer :: account_info where
  "demo_payer = \<lparr>ai_key = 2, is_signer = True\<rparr>"

definition demo_info :: "pubkey \<Rightarrow> account_info" where
  "demo_info k = \<lparr>ai_key = k, is_signer = False\<rparr>"

lemma demo_info_simps [simp]:
  "ai_key demo_payer = 2" "is_signer demo_payer" "ai_key (demo_info k) = k" "\<not> is_signer (demo_info k)"
  by (simp_all add: demo_payer_def demo_info_def)

lemma demo_signers: "set as \<subseteq> insert demo_payer (range demo_info) \<Longrightarrow> no_pda_signer demo_runtime demo_program as"
proof -
  have "pda_of demo_runtime demo_program seeds \<noteq> 2" for seeds
    using demo_pda_odd [of demo_program seeds] by auto
  then show "set as \<subseteq> insert demo_payer (range demo_info) \<Longrightarrow>
      no_pda_signer demo_runtime demo_program as"
    by (fastforce simp: no_pda_signer_def)
qed

text \<open>Proof bytes, then the public values.\<close>

definition demo_args :: "bytes32 list \<Rightarrow> bytes" where
  "demo_args xs = replicate 256 0 @ concat (map b32_bytes xs)"

lemma demo_args_length [simp]: "length (demo_args xs) = 256 + length xs * 32"
  by (simp add: demo_args_def)

lemma demo_args_at: "i < length xs \<Longrightarrow> b32_at (demo_args xs) (256 + i * 32) = xs ! i"
  using b32_table_at [of "replicate 256 0" 256 i xs "[]"] by (simp add: demo_args_def)

lemma demo_args4:
  "b32_at (demo_args [a, b, c, d]) 256 = a" "b32_at (demo_args [a, b, c, d]) 288 = b"
  "b32_at (demo_args [a, b, c, d]) 320 = c" "b32_at (demo_args [a, b, c, d]) 352 = d"
  using demo_args_at [of 0 "[a, b, c, d]"] demo_args_at [of 1 "[a, b, c, d]"]
    demo_args_at [of 2 "[a, b, c, d]"] demo_args_at [of 3 "[a, b, c, d]"]
  by simp_all

lemma demo_verify:
  "groth16_verify demo_runtime vk a b c public \<longleftrightarrow>
    length public = nr_pubinputs vk \<and> list_all field_elem public"
  by (simp add: demo_runtime_def)

lemma small_field_elem: "unat x < 2 ^ 64 \<Longrightarrow> field_elem x"
  by (simp add: field_elem_def bn254_fr_def)

lemma demo_nullifier_append:
  assumes "nullifiers_hold (data_of L nf) ns" and "length (data_of L nf) + 32 \<le> MAX_ACCOUNT_SIZE"
  shows "\<exists>L'. nullifier_append demo_runtime payer nf system n L = Ok L'"
proof (rule nullifier_append_succeeds [OF runtime_lawsD(1,4) [OF demo_laws] assms(1)])
  show "fund_rent demo_runtime payer nf system (length (data_of L nf) + 32) L = Ok L"
    by (simp add: fund_rent_def demo_runtime_def)
  show "resize demo_runtime (ai_key nf) (length (data_of L nf) + 32) L =
      Ok (set_data L (ai_key nf) (data_of L nf @ replicate 32 0))"
    using assms(2) by (simp add: demo_runtime_def data_of_def)
qed

lemma demo_root_recent: "recent_root demo_hash [] EMPTY_ROOT"
  using demo_consts_match
  by (simp add: recent_root_def consts_match_def EMPTY_ROOT_def)

text \<open>An \<open>xburn\<close> of the nullifier 21 against the root of the empty tree.\<close>

definition demo_spend_accounts :: "account_info list" where
  "demo_spend_accounts =
     [demo_payer, demo_info (tree_key demo_runtime demo_program),
      demo_info (nullifier_key demo_runtime demo_program), demo_info 0]"

definition demo_xburn :: bytes where
  "demo_xburn = 8 # demo_args [EMPTY_ROOT, 21, 9, 11]"

lemma demo_xburn_succeeds:
  "\<exists>L ev. process_instruction demo_runtime demo_program demo_spend_accounts demo_xburn demo_ledger = Ok (L, ev)"
proof -
  let ?nf = "demo_info (nullifier_key demo_runtime demo_program)"
    and ?tree = "demo_info (tree_key demo_runtime demo_program)"
  have h: "nullifiers_hold (data_of demo_ledger ?nf) []"
    using pool_holdsD(4) [OF demo_pool_holds] by (simp add: data_of_def empty_pool_def)
  then have "length (data_of demo_ledger ?nf) + 32 \<le> MAX_ACCOUNT_SIZE"
    by (simp add: nullifiers_hold_def MAX_ACCOUNT_SIZE_def)
  from demo_nullifier_append [OF h this] obtain L
    where "nullifier_append demo_runtime demo_payer ?nf (demo_info 0) 21 demo_ledger = Ok L"
    by blast
  then have spend: "check_and_append demo_runtime demo_payer ?nf (demo_info 0) demo_ledger 21 = Ok L"
    by (simp add: check_and_append_def nullifier_contains_iff [OF h])
  have known: "tree_is_known_root (data_of demo_ledger ?tree) EMPTY_ROOT = Ok True"
    using demo_root_recent known_recent [OF demo_pool_holds, of ?tree] by (simp add: empty_pool_def)
  have pub: "list_all field_elem [EMPTY_ROOT, 21, 9, 11]"
    by (simp add: field_elem_EMPTY_ROOT small_field_elem)
  have "xburn demo_runtime demo_program demo_spend_accounts (demo_args [EMPTY_ROOT, 21, 9, 11])
      demo_ledger = Ok (L, XburnOk (chain_lo 9))"
    using spend known pub
    by (simp add: xburn_Ok_iff demo_spend_accounts_def demo_args4 demo_verify XBURN_VK_def tree_key_def
        nullifier_key_def)
  then show ?thesis
    by (simp add: process_instruction_def demo_xburn_def)
qed

text \<open>A deposit of 7 tokens, and a withdrawal of 3 against the root of the empty tree.\<close>

lemma demo_to_field: "to_field demo_poseidon x = Some (demo_hash (drop_bit 128 x) (take_bit 128 x))"
  by (simp add: to_field_eq to_field_be_limbs poseidon_be_def field_elem_limbs)

lemma demo_amount_field: "field_elem (be32_u64 n)"
proof -
  have "unat (be32_u64 n) = unat n"
    by (simp add: be32_u64_ucast unsigned_ucast_eq take_bit_nat_eq_self order_less_le_trans [OF unat_bound])
  then show ?thesis
    using unat_bound [of n] by (simp add: small_field_elem)
qed

definition demo_deposit_args :: bytes where
  "demo_deposit_args = replicate 256 0 @ b32_bytes 5 @ u64_to_le 7 @ b32_bytes 11"

definition demo_withdraw_args :: bytes where
  "demo_withdraw_args =
     replicate 256 0 @ b32_bytes EMPTY_ROOT @ b32_bytes 21 @ b32_bytes 5 @ u64_to_le 3 @ b32_bytes 6"

lemma b32_at_middle: "length xs = off \<Longrightarrow> b32_at (xs @ b32_bytes v @ ys) off = v"
  by (simp add: b32_at_def sub_middle)

lemma b32_at_end: "length xs = off \<Longrightarrow> b32_at (xs @ b32_bytes v) off = v"
  using b32_at_middle [of xs off v "[]"] by simp

lemma demo_deposit_fields:
  "length demo_deposit_args = 328" "b32_at demo_deposit_args 256 = 5"
  "u64_from_le (sub demo_deposit_args 288 8) = 7" "b32_at demo_deposit_args 296 = 11"
proof -
  let ?z = "replicate 256 0 :: bytes"
  show "length demo_deposit_args = 328" and "b32_at demo_deposit_args 256 = 5"
    by (simp_all add: demo_deposit_args_def b32_at_middle)
  show "u64_from_le (sub demo_deposit_args 288 8) = 7"
    using sub_middle [of "?z @ b32_bytes 5" 288 "u64_to_le 7" 8 "b32_bytes 11"]
    by (simp add: demo_deposit_args_def)
  show "b32_at demo_deposit_args 296 = 11"
    using b32_at_end [of "?z @ b32_bytes 5 @ u64_to_le 7" 296 11] by (simp add: demo_deposit_args_def)
qed

lemma demo_withdraw_fields:
  "length demo_withdraw_args = 392" "b32_at demo_withdraw_args 256 = EMPTY_ROOT"
  "b32_at demo_withdraw_args 288 = 21" "b32_at demo_withdraw_args 320 = 5"
  "u64_from_le (sub demo_withdraw_args 352 8) = 3" "b32_at demo_withdraw_args 360 = 6"
proof -
  let ?z = "replicate 256 0 :: bytes"
  show "length demo_withdraw_args = 392" and "b32_at demo_withdraw_args 256 = EMPTY_ROOT"
    by (simp_all add: demo_withdraw_args_def b32_at_middle)
  show "b32_at demo_withdraw_args 288 = 21"
    using b32_at_middle [of "?z @ b32_bytes EMPTY_ROOT" 288 21 "b32_bytes 5 @ u64_to_le 3 @ b32_bytes 6"]
    by (simp add: demo_withdraw_args_def)
  show "b32_at demo_withdraw_args 320 = 5"
    using b32_at_middle [of "?z @ b32_bytes EMPTY_ROOT @ b32_bytes 21" 320 5 "u64_to_le 3 @ b32_bytes 6"]
    by (simp add: demo_withdraw_args_def)
  show "u64_from_le (sub demo_withdraw_args 352 8) = 3"
    using sub_middle [of "?z @ b32_bytes EMPTY_ROOT @ b32_bytes 21 @ b32_bytes 5" 352 "u64_to_le 3" 8
        "b32_bytes 6"]
    by (simp add: demo_withdraw_args_def)
  show "b32_at demo_withdraw_args 360 = 6"
    using b32_at_end [of "?z @ b32_bytes EMPTY_ROOT @ b32_bytes 21 @ b32_bytes 5 @ u64_to_le 3" 360 6]
    by (simp add: demo_withdraw_args_def)
qed

definition demo_deposit_accounts :: "account_info list" where
  "demo_deposit_accounts =
     [demo_payer, demo_info 4, demo_info 17, demo_info (tree_key demo_runtime demo_program),
      demo_info SPL_TOKEN_PROGRAM_ID]"

definition demo_withdraw_accounts :: "account_info list" where
  "demo_withdraw_accounts =
     [demo_payer, demo_info 15, demo_info 17, demo_info 8,
      demo_info (tree_key demo_runtime demo_program),
      demo_info (nullifier_key demo_runtime demo_program), demo_info SPL_TOKEN_PROGRAM_ID, demo_info 0]"

lemma demo_cpi_token:
  "cpi demo_runtime (token_transfer_ix s d a n) infos seeds L = demo_token (token_transfer_ix s d a n) L"
  by (simp add: demo_runtime_def token_transfer_ix_def)

lemma demo_token_succeeds:
  assumes "acc_owner (L s) = SPL_TOKEN_PROGRAM_ID" and "acc_owner (L d) = SPL_TOKEN_PROGRAM_ID"
    and "acc_data (L s) = token_bytes m a k" and "acc_data (L d) = token_bytes m b l"
    and "unat n \<le> unat k" and "unat l + unat n < 2 ^ 64"
  shows "\<exists>L'. demo_token (token_transfer_ix s d a n) L = Ok L'"
  using assms
  by (simp add: demo_token_def token_transfer_ix_def meta_new_def meta_readonly_def token_bytes_fields
      Let_def)

lemma demo_deposit_succeeds:
  "\<exists>L i. process_instruction demo_runtime demo_program demo_deposit_accounts (1 # demo_deposit_args)
     demo_ledger = Ok (L, DepositOk i)"
proof -
  let ?tree = "demo_info (tree_key demo_runtime demo_program)"
  have "\<exists>L. demo_token (token_transfer_ix 4 17 2 7) demo_ledger = Ok L"
    by (rule demo_token_succeeds [of _ _ _ 5 _ 100 15 50]) (simp_all add: demo_ledger_at)
  then obtain L where "demo_token (token_transfer_ix 4 17 2 7) demo_ledger = Ok L" by blast
  then have move: "spl_transfer demo_runtime (demo_info SPL_TOKEN_PROGRAM_ID) (demo_info 4) (demo_info 17)
      demo_payer 7 [] demo_ledger = Ok L"
    by (simp add: spl_transfer_eq demo_cpi_token)
  have "tree_holds demo_poseidon demo_hash (data_of L ?tree) []"
    using pool_holdsD(2) [OF token_move(1) [OF demo_deployment demo_pool_holds _ move]]
    by (simp add: data_of_def empty_pool_def demo_poseidon_simp)
  moreover have c: "field_elem 11" by (rule small_field_elem) simp
  ultimately obtain d i where ins: "tree_insert demo_poseidon (data_of L ?tree) 11 = Ok (d, i)"
    using tree_insert_holds [of demo_poseidon demo_hash _ "[]" 11] by fastforce
  have chk: "check_vault demo_ledger (demo_info 17) 5 15 = Ok ()"
    by (simp add: check_vault_Ok_iff data_of_def demo_ledger_at token_bytes_fields)
  have "deposit demo_runtime demo_program demo_deposit_accounts demo_deposit_args demo_ledger =
      Ok (set_data L (tree_key demo_runtime demo_program) d, DepositOk i)"
    unfolding deposit_Ok_iff demo_deposit_fields
    using move ins chk demo_vault_eq demo_authority_eq c field_elem_demo_hash demo_amount_field
    by (simp add: demo_deposit_accounts_def demo_poseidon_simp demo_to_field demo_verify DEPOSIT_VK_def
        tree_key_def vault_key_def vault_authority_key_def data_of_def demo_ledger_at token_bytes_fields)
  then show ?thesis
    by (simp add: process_instruction_def)
qed

lemma demo_withdraw_succeeds:
  "\<exists>L. process_instruction demo_runtime demo_program demo_withdraw_accounts (2 # demo_withdraw_args)
     demo_ledger = Ok (L, WithdrawOk)"
proof -
  let ?nf = "demo_info (nullifier_key demo_runtime demo_program)"
    and ?tree = "demo_info (tree_key demo_runtime demo_program)"
  have h: "nullifiers_hold (data_of demo_ledger ?nf) []"
    using pool_holdsD(4) [OF demo_pool_holds] by (simp add: data_of_def empty_pool_def)
  then have "length (data_of demo_ledger ?nf) + 32 \<le> MAX_ACCOUNT_SIZE"
    by (simp add: nullifiers_hold_def MAX_ACCOUNT_SIZE_def)
  from demo_nullifier_append [OF h this] obtain L1
    where "nullifier_append demo_runtime demo_payer ?nf (demo_info 0) 21 demo_ledger = Ok L1"
    by blast
  then have spend: "check_and_append demo_runtime demo_payer ?nf (demo_info 0) demo_ledger 21 = Ok L1"
    by (simp add: check_and_append_def nullifier_contains_iff [OF h])
  have same: "spl_same demo_ledger L1"
    by (rule spend_spl_same [OF demo_deployment demo_pool_holds _ spend]) simp
  have "\<exists>L. demo_token (token_transfer_ix 17 8 15 3) L1 = Ok L"
    using same by (intro demo_token_succeeds [of _ _ _ 5 _ 50 6 0]) (simp_all add: spl_same_def demo_ledger_at)
  then obtain L where "demo_token (token_transfer_ix 17 8 15 3) L1 = Ok L" by blast
  then have move: "spl_transfer demo_runtime (demo_info SPL_TOKEN_PROGRAM_ID) (demo_info 17) (demo_info 8)
      (demo_info 15) 3 seeds L1 = Ok L" for seeds
    by (simp add: spl_transfer_eq demo_cpi_token)
  have known: "tree_is_known_root (data_of demo_ledger ?tree) EMPTY_ROOT = Ok True"
    using demo_root_recent known_recent [OF demo_pool_holds, of ?tree] by (simp add: empty_pool_def)
  have chk: "check_vault demo_ledger (demo_info 17) 5 15 = Ok ()"
    by (simp add: check_vault_Ok_iff data_of_def demo_ledger_at token_bytes_fields)
  have c: "field_elem 21" by (rule small_field_elem) simp
  have "withdraw demo_runtime demo_program demo_withdraw_accounts demo_withdraw_args demo_ledger =
      Ok (L, WithdrawOk)"
    unfolding withdraw_Ok_iff demo_withdraw_fields
    using move spend known chk demo_vault_eq demo_authority_eq c field_elem_demo_hash demo_amount_field
    by (simp add: demo_withdraw_accounts_def demo_poseidon_simp demo_to_field demo_verify WITHDRAW_VK_def
        tree_key_def nullifier_key_def vault_key_def vault_authority_key_def data_of_def demo_ledger_at
        token_bytes_fields field_elem_EMPTY_ROOT)
  then show ?thesis
    by (simp add: process_instruction_def)
qed

lemma demo_fields: "field_elem 11" "field_elem 21"
  by (simp_all add: small_field_elem)

text \<open>The tree account as \<open>initialize_pool\<close> writes it.\<close>

lemma demo_tree_holds: "tree_holds demo_poseidon demo_hash (tree_to_bytes initial_tree) []"
  using initial_tree_holds [OF demo_hashes_to demo_consts_match, of "[]"] by simp

lemma demo_tree_length: "length (tree_to_bytes initial_tree) = COMMITMENT_TREE_SIZE"
  by (rule length_tree_to_bytes) (simp_all add: initial_tree_def)

lemma demo_empty_root: "merkle_root demo_hash [] = EMPTY_ROOT" "EMPTY_ROOT \<noteq> 0"
  using demo_consts_match by (simp_all add: consts_match_def EMPTY_ROOT_def)

text \<open>A cross-chain mint: the registry is created, the burn attested, the note minted.\<close>

definition demo_registry_accounts :: "account_info list" where
  "demo_registry_accounts =
     [demo_payer, demo_info (xpending_key demo_runtime demo_program), demo_info 0]"

definition demo_mint_accounts :: "account_info list" where
  "demo_mint_accounts =
     [demo_payer, demo_info (tree_key demo_runtime demo_program),
      demo_info (xpending_key demo_runtime demo_program), demo_info 0]"

definition demo_init :: bytes where
  "demo_init = 5 # b32_bytes 2"

definition demo_attest :: bytes where
  "demo_attest = 6 # b32_bytes 21 @ b32_bytes (be32_u64 SOLANA_CHAIN_ID) @ b32_bytes 11"

definition demo_mint :: bytes where
  "demo_mint = 7 # demo_args [EMPTY_ROOT, 21, be32_u64 SOLANA_CHAIN_ID, 11]"

lemma demo_attest_fields:
  "b32_at (b32_bytes a @ b32_bytes b @ b32_bytes c) 0 = a"
  "b32_at (b32_bytes a @ b32_bytes b @ b32_bytes c) 32 = b"
  "b32_at (b32_bytes a @ b32_bytes b @ b32_bytes c) 64 = c"
  using b32_at_middle [of "[]" 0 a "b32_bytes b @ b32_bytes c"]
    b32_at_middle [of "b32_bytes a" 32 b "b32_bytes c"] b32_at_end [of "b32_bytes a @ b32_bytes b" 64 c]
  by simp_all

lemma demo_decodes:
  "decode demo_registry_accounts demo_init = Some (InitRegistry 2)"
  "decode demo_registry_accounts demo_attest = Some (Attest 2 21 (be32_u64 SOLANA_CHAIN_ID) 11)"
  "decode demo_mint_accounts demo_mint = Some (Mint EMPTY_ROOT 21 (be32_u64 SOLANA_CHAIN_ID) 11)"
  "decode demo_spend_accounts demo_xburn = Some (Xburn EMPTY_ROOT 21 9 11)"
  "decode demo_deposit_accounts (1 # demo_deposit_args) = Some (Deposit 5 7 11)"
  "decode demo_withdraw_accounts (2 # demo_withdraw_args) = Some (Withdraw EMPTY_ROOT 21 5 3 6)"
  using b32_at_end [of "[]" 0 2]
  by (simp_all add: decode_def demo_init_def demo_attest_def demo_attest_fields demo_mint_def
      demo_args4 demo_registry_accounts_def demo_xburn_def demo_deposit_fields demo_withdraw_fields)

lemma demo_init_succeeds:
  "\<exists>L ev. process_instruction demo_runtime demo_program demo_registry_accounts demo_init demo_ledger = Ok (L, ev)"
proof -
  let ?xp = "xpending_key demo_runtime demo_program"
  have cpi: "cpi demo_runtime (create_account_ix p k l n o') infos seeds L =
      demo_system (create_account_ix p k l n o') L" for p k l n o' infos seeds L
    by (simp add: demo_runtime_def create_account_ix_def)
  have "\<exists>L. cpi demo_runtime (create_account_ix 2 ?xp l n demo_program) infos seeds demo_ledger = Ok L \<and>
      data_of L (demo_info ?xp) = replicate (unat n) 0" for l n infos seeds
    unfolding cpi using system_tags
    by (simp add: demo_system_def create_account_ix_def meta_new_def Let_def
        create_account_data data_of_def demo_ledger_at)
  then obtain L where "create_pda demo_runtime demo_payer (demo_info ?xp) (demo_info 0) demo_program
      XBURN_PENDING_SEED (snd (find_program_address demo_runtime [XBURN_PENDING_SEED] demo_program))
      XBURN_PENDING_INIT_SIZE demo_ledger = Ok L"
    and "length (data_of L (demo_info ?xp)) = 40"
    unfolding create_pda_Ok_iff
    by (force simp: XBURN_PENDING_INIT_SIZE_def xp_layout demo_runtime_def unat_of_nat)
  then have "\<exists>L' ev. initialize_xburn_pending demo_runtime demo_program demo_registry_accounts
      (b32_bytes 2) demo_ledger = Ok (L', ev)"
    unfolding initialize_xburn_pending_Ok_iff
    by (auto simp: demo_registry_accounts_def xpending_key_def)
  then show ?thesis
    by (simp add: process_instruction_def demo_init_def)
qed

lemma demo_xpending_append:
  assumes "xpending_hold (data_of L xp) op es" and "length (data_of L xp) + 65 \<le> MAX_ACCOUNT_SIZE"
  shows "\<exists>L'. xpending_append demo_runtime payer xp system n h L = Ok L'"
proof (rule xpending_append_succeeds [OF runtime_lawsD(1,4) [OF demo_laws] assms(1)])
  show "fund_rent demo_runtime payer xp system (length (data_of L xp) + 65) L = Ok L"
    by (simp add: fund_rent_def demo_runtime_def)
  show "resize demo_runtime (ai_key xp) (length (data_of L xp) + 65) L =
      Ok (set_data L (ai_key xp) (data_of L xp @ replicate 65 0))"
    using assms(2) by (simp add: demo_runtime_def data_of_def)
qed

lemma demo_attest_succeeds:
  assumes "pool_holds demo_runtime demo_hash demo_program L s" and "registry s = Some (2, [])"
  shows "\<exists>L' ev. process_instruction demo_runtime demo_program demo_registry_accounts demo_attest L = Ok (L', ev)"
proof -
  let ?xp = "demo_info (xpending_key demo_runtime demo_program)"
  have xp: "xpending_hold (data_of L ?xp) 2 []"
    using pool_holdsD(5) [OF assms(1)] assms(2) by (simp add: registry_holds_def data_of_def)
  then have len: "length (data_of L ?xp) = 40"
    by (simp add: xpending_hold_def)
  have "\<exists>L'. xpending_append demo_runtime demo_payer ?xp (demo_info 0) 21 h L = Ok L'" for h
    using demo_xpending_append [OF xp] len by (simp add: MAX_ACCOUNT_SIZE_def)
  moreover have "xpending_find (data_of L ?xp) 21 = Ok None"
    by (rule xpending_find_absent [OF xp]) simp
  ultimately have "\<exists>L' ev. add_pending_xburn demo_runtime demo_program demo_registry_accounts
      (b32_bytes 21 @ b32_bytes (be32_u64 SOLANA_CHAIN_ID) @ b32_bytes 11) L = Ok (L', ev)"
    unfolding add_pending_xburn_Ok_iff demo_attest_fields
    using xpending_operator_holds [OF xp] demo_amount_field demo_fields
    by (auto simp: demo_registry_accounts_def xpending_key_def demo_poseidon_simp hash2_def)
  then show ?thesis
    by (simp add: process_instruction_def demo_attest_def)
qed

lemma demo_mint_succeeds:
  assumes "pool_holds demo_runtime demo_hash demo_program L s" and "leaves s = []"
    and "registry s = Some (2, [fresh_entry 21 (demo_hash (be32_u64 SOLANA_CHAIN_ID) 11)])"
  shows "\<exists>L' ev. process_instruction demo_runtime demo_program demo_mint_accounts demo_mint L = Ok (L', ev)"
proof -
  let ?xp = "demo_info (xpending_key demo_runtime demo_program)"
    and ?tree = "demo_info (tree_key demo_runtime demo_program)"
  let ?es = "[fresh_entry 21 (demo_hash (be32_u64 SOLANA_CHAIN_ID) 11)]"
  have xp: "xpending_hold (data_of L ?xp) 2 ?es"
    using pool_holdsD(5) [OF assms(1)] assms(3) by (simp add: registry_holds_def data_of_def)
  then have data: "data_of L ?xp = xpending_bytes 2 ?es"
    by (simp add: xpending_hold_def)
  have find: "xpending_find (data_of L ?xp) 21 = Ok (Some 40)"
    using xpending_find_present [OF xp, of 0] by (simp add: fresh_entry_def)
  have fields: "data_of L ?xp ! 104 = 0" "b32_at (data_of L ?xp) 72 = demo_hash (be32_u64 SOLANA_CHAIN_ID) 11"
    using entry_fields(2,3) [of 0 ?es 2] by (simp_all add: data fresh_entry_def)
  have len: "length (data_of L ?xp) = 105"
    by (simp add: data)
  have "tree_holds demo_poseidon demo_hash (data_of L ?tree) []"
    using pool_holdsD(2) [OF assms(1)] assms(2) by (simp add: data_of_def demo_poseidon_simp)
  then obtain d i where ins: "tree_insert demo_poseidon (data_of L ?tree) 11 = Ok (d, i)"
    using tree_insert_holds [of demo_poseidon demo_hash _ "[]" 11] demo_fields by fastforce
  have other: "data_of (set_data L (tree_key demo_runtime demo_program) d) ?xp = data_of L ?xp"
    using deploymentD(7) [OF demo_deployment] by (simp add: data_of_def)
  have "\<exists>L' ev. mint_from_xburn demo_runtime demo_program demo_mint_accounts
      (demo_args [EMPTY_ROOT, 21, be32_u64 SOLANA_CHAIN_ID, 11]) L = Ok (L', ev)"
    unfolding mint_from_xburn_Ok_iff demo_args4
    using find fields len ins other demo_amount_field demo_fields
    by (auto simp: demo_mint_accounts_def tree_key_def xpending_key_def demo_verify XBURN_VK_def
        demo_poseidon_simp hash2_def field_elem_EMPTY_ROOT xpending_expected_hash_def)
  then show ?thesis
    by (simp add: process_instruction_def demo_mint_def)
qed

text \<open>A ledger whose registry holds the operator 2 and some entries.\<close>

definition demo_registry_ledger :: "xburn_entry list \<Rightarrow> ledger" where
  "demo_registry_ledger es =
     demo_ledger(xpending_key demo_runtime demo_program :=
       \<lparr>acc_lamports = 1000, acc_data = xpending_bytes 2 es, acc_owner = demo_program\<rparr>)"

lemma demo_registry_holds:
  assumes "distinct (map xe_nullifier es)" and "length es \<le> 1000"
  shows "pool_holds demo_runtime demo_hash demo_program (demo_registry_ledger es)
    (empty_pool\<lparr>registry := Some (2, es)\<rparr>)"
  using demo_pool_holds deploymentD(7,8) [OF demo_deployment] assms
  by (simp add: pool_holds_def demo_registry_ledger_def registry_holds_def xpending_hold_def
      MAX_ACCOUNT_SIZE_def)

lemma demo_registry_ledger_payer:
  "demo_registry_ledger es 2 = \<lparr>acc_lamports = 0, acc_data = [], acc_owner = SYSTEM_PROGRAM\<rparr>"
proof -
  have "pda_of demo_runtime demo_program seeds \<noteq> 2" for seeds
    using demo_pda_odd [of demo_program seeds] by auto
  from this this [symmetric] show ?thesis
    unfolding demo_registry_ledger_def demo_ledger_def demo_vault_eq
    by (simp add: tree_key_def nullifier_key_def xpending_key_def)
qed

text \<open>A transfer of two notes into two.\<close>

definition demo_transfer_args :: bytes where
  "demo_transfer_args = demo_args [EMPTY_ROOT, 21, 22, 11, 12]"

lemma demo_transfer_fields:
  "length demo_transfer_args = 416" "b32_at demo_transfer_args 256 = EMPTY_ROOT"
  "b32_at demo_transfer_args 288 = 21" "b32_at demo_transfer_args 320 = 22"
  "b32_at demo_transfer_args 352 = 11" "b32_at demo_transfer_args 384 = 12"
  by (simp_all add: demo_transfer_args_def demo_args_at [of 0, simplified] demo_args_at [of 1, simplified]
      demo_args_at [of 2, simplified] demo_args_at [of 3, simplified] demo_args_at [of 4, simplified])

lemma demo_transfer_succeeds:
  "\<exists>L ev. transfer demo_runtime demo_program demo_spend_accounts demo_transfer_args demo_ledger = Ok (L, ev)"
proof -
  let ?nf = "demo_info (nullifier_key demo_runtime demo_program)"
    and ?tree = "demo_info (tree_key demo_runtime demo_program)"
  have h: "nullifiers_hold (data_of demo_ledger ?nf) []"
    using pool_holdsD(4) [OF demo_pool_holds] by (simp add: data_of_def empty_pool_def)
  then have "length (data_of demo_ledger ?nf) + 32 \<le> MAX_ACCOUNT_SIZE"
    by (simp add: nullifiers_hold_def MAX_ACCOUNT_SIZE_def)
  from demo_nullifier_append [OF h this] obtain L1
    where a1: "nullifier_append demo_runtime demo_payer ?nf (demo_info 0) 21 demo_ledger = Ok L1"
    by blast
  note p1 = append_nullifier [OF demo_deployment demo_pool_holds _ _ a1, simplified]
  have h1: "nullifiers_hold (data_of L1 ?nf) [21]"
    using pool_holdsD(4) [OF p1] by (simp add: data_of_def empty_pool_def)
  then have "length (data_of L1 ?nf) + 32 \<le> MAX_ACCOUNT_SIZE"
    by (simp add: nullifiers_hold_def MAX_ACCOUNT_SIZE_def)
  from demo_nullifier_append [OF h1 this] obtain L2
    where a2: "nullifier_append demo_runtime demo_payer ?nf (demo_info 0) 22 L1 = Ok L2"
    by blast
  note p2 = append_nullifier [OF demo_deployment p1 _ _ a2, simplified]
  have t: "tree_holds demo_poseidon demo_hash (data_of L2 ?tree) []"
    using pool_holdsD(2) [OF p2] by (simp add: data_of_def empty_pool_def demo_poseidon_simp)
  have f: "field_elem 11" "field_elem 12" "field_elem 21" "field_elem 22"
    by (simp_all add: small_field_elem)
  obtain d1 where i1: "tree_insert demo_poseidon (data_of L2 ?tree) 11 = Ok (d1, 0)"
    and t1: "tree_holds demo_poseidon demo_hash d1 [11]"
    using tree_insert_holds [OF t f(1)] by auto
  obtain d2 where i2: "tree_insert demo_poseidon d1 12 = Ok (d2, 1)"
    using tree_insert_holds [OF t1 f(2)] by (auto simp: TREE_DEPTH_def)
  have known: "tree_is_known_root (data_of demo_ledger ?tree) EMPTY_ROOT = Ok True"
    using demo_root_recent known_recent [OF demo_pool_holds, of ?tree] by (simp add: empty_pool_def)
  show ?thesis
    unfolding transfer_Ok_iff demo_transfer_fields
    using a1 a2 i1 i2 known f nullifier_contains_iff [OF h]
    by (auto simp: demo_spend_accounts_def demo_verify TRANSFER_VK_def tree_key_def nullifier_key_def
        demo_poseidon_simp field_elem_EMPTY_ROOT)
qed

text \<open>The chain of the three instructions.\<close>

inductive_cases step_InitE: "pool_step P H (InitRegistry op) s s'"
inductive_cases step_AttestE: "pool_step P H (Attest op n chn c) s s'"

lemma demo_chain_step:
  assumes "chain demo_runtime demo_program demo_ledger h L"
    and "process_instruction demo_runtime demo_program accounts data L = Ok (L', ev)"
    and "set accounts \<subseteq> insert demo_payer (range demo_info)"
  shows "chain demo_runtime demo_program demo_ledger (h @ [(accounts, data)]) L'"
  by (rule chain_instruction [OF assms(1) demo_signers [OF assms(3)] assms(2)])

lemma demo_mint_chain:
  "\<exists>L. chain demo_runtime demo_program demo_ledger
     [(demo_registry_accounts, demo_init), (demo_registry_accounts, demo_attest),
      (demo_mint_accounts, demo_mint)] L"
proof -
  note start = chain_start [of demo_runtime demo_program demo_ledger]
  have reg: "set demo_registry_accounts \<subseteq> insert demo_payer (range demo_info)"
    and mnt: "set demo_mint_accounts \<subseteq> insert demo_payer (range demo_info)"
    by (auto simp: demo_registry_accounts_def demo_mint_accounts_def)
  obtain L1 e1 where p1: "process_instruction demo_runtime demo_program demo_registry_accounts demo_init
      demo_ledger = Ok (L1, e1)"
    using demo_init_succeeds by blast
  note c1 = demo_chain_step [OF start p1 reg]
  obtain s1 where s1: "pool_step demo_poseidon demo_hash (InitRegistry 2) empty_pool s1"
    and h1: "pool_holds demo_runtime demo_hash demo_program L1 s1"
    using process_refines [OF demo_deployment demo_pool_holds p1]
    by (auto simp: demo_decodes refines_def demo_poseidon_simp)
  have r1: "registry s1 = Some (2, [])" "leaves s1 = []"
    using s1 by (auto elim!: step_InitE simp: empty_pool_def)
  obtain L2 e2 where p2: "process_instruction demo_runtime demo_program demo_registry_accounts demo_attest
      L1 = Ok (L2, e2)"
    using demo_attest_succeeds [OF h1 r1(1)] by blast
  note c2 = demo_chain_step [OF c1 p2 reg]
  obtain s2 where s2: "pool_step demo_poseidon demo_hash (Attest 2 21 (be32_u64 SOLANA_CHAIN_ID) 11) s1 s2"
    and h2: "pool_holds demo_runtime demo_hash demo_program L2 s2"
    using process_refines [OF demo_deployment h1 p2]
    by (auto simp: demo_decodes refines_def demo_poseidon_simp)
  have r2: "registry s2 = Some (2, [fresh_entry 21 (demo_hash (be32_u64 SOLANA_CHAIN_ID) 11)])"
    "leaves s2 = []"
    using s2 r1 demo_fields demo_amount_field by (auto elim!: step_AttestE)
  obtain L3 e3 where p3: "process_instruction demo_runtime demo_program demo_mint_accounts demo_mint
      L2 = Ok (L3, e3)"
    using demo_mint_succeeds [OF h2 r2(2,1)] by blast
  show ?thesis
    using demo_chain_step [OF c2 p3 mnt] by auto
qed

text \<open>Setting up the pool on a ledger with no accounts.\<close>

definition demo_genesis :: ledger where
  "demo_genesis k = \<lparr>acc_lamports = 0, acc_data = [], acc_owner = SYSTEM_PROGRAM\<rparr>"

lemma demo_create_pda:
  assumes "acc_owner (L (ai_key a)) = SYSTEM_PROGRAM" and "n \<le> MAX_ACCOUNT_SIZE"
  shows "\<exists>L'. create_pda demo_runtime payer a system demo_program seed bump n L = Ok L'"
proof -
  have "\<exists>L'. demo_system (create_account_ix (ai_key payer) (ai_key a) l (word_of_nat n) demo_program) L
      = Ok L'" for l
    using assms(1) system_tags
    by (simp add: demo_system_def create_account_ix_def meta_new_def Let_def create_account_data)
  moreover have "cpi demo_runtime (create_account_ix p k l m o') infos seeds L =
      demo_system (create_account_ix p k l m o') L" for p k l m o' infos seeds
    by (simp add: demo_runtime_def create_account_ix_def)
  moreover have "rent_get demo_runtime = Ok (\<lambda>n. 0)"
    by (simp add: demo_runtime_def)
  ultimately show ?thesis
    unfolding create_pda_Ok_iff by simp
qed

lemma demo_initialize_succeeds:
  "\<exists>L ev. initialize_pool demo_runtime demo_program demo_spend_accounts demo_genesis = Ok (L, ev)"
proof -
  let ?tree = "demo_info (tree_key demo_runtime demo_program)"
    and ?nf = "demo_info (nullifier_key demo_runtime demo_program)"
  have sizes: "COMMITMENT_TREE_SIZE \<le> MAX_ACCOUNT_SIZE" "NULLIFIER_INIT_SIZE \<le> MAX_ACCOUNT_SIZE"
    by (simp_all add: layout NULLIFIER_INIT_SIZE_def MAX_ACCOUNT_SIZE_def)
  have "acc_owner (demo_genesis (ai_key ?tree)) = SYSTEM_PROGRAM"
    by (simp add: demo_genesis_def)
  from demo_create_pda [where L = demo_genesis and a = ?tree, OF this sizes(1)] obtain L1 where
    c1: "create_pda demo_runtime demo_payer ?tree (demo_info 0) demo_program TREE_SEED
      (snd (find_program_address demo_runtime [TREE_SEED] demo_program)) COMMITMENT_TREE_SIZE demo_genesis = Ok L1"
    by blast
  note t = create_pda_spec [OF demo_deployment c1 sizes(1)]
  have ne: "tree_key demo_runtime demo_program \<noteq> nullifier_key demo_runtime demo_program"
    by (rule deploymentD(6) [OF demo_deployment])
  have "acc_owner (L1 (ai_key ?nf)) = SYSTEM_PROGRAM"
    using t(4) ne by (simp add: demo_genesis_def)
  from demo_create_pda [where L = L1 and a = ?nf, OF this sizes(2)] obtain L2 where
    c2: "create_pda demo_runtime demo_payer ?nf (demo_info 0) demo_program NULLIFIER_SEED
      (snd (find_program_address demo_runtime [NULLIFIER_SEED] demo_program)) NULLIFIER_INIT_SIZE L1 = Ok L2"
    by blast
  note n = create_pda_spec [OF demo_deployment c2 sizes(2)]
  have "length (tree_to_bytes initial_tree) = COMMITMENT_TREE_SIZE"
    by (rule length_tree_to_bytes) (simp_all add: initial_tree_def)
  then have "length (tree_to_bytes initial_tree) \<le> length (data_of L2 ?tree)"
    and "length (nullifier_set_bytes []) \<le> length (data_of L2 ?nf)"
    using t(3) n(3,5) ne by (simp_all add: data_of_def NULLIFIER_INIT_SIZE_def)
  then show ?thesis
    unfolding initialize_pool_Ok_iff write_account_Ok_iff
    using c1 c2 ne by (simp add: demo_spend_accounts_def tree_key_def nullifier_key_def data_of_def)
qed

end
