(* ===== verification/Attestor_Env.thy ===== *)
theory Attestor_Env
  imports Opaq_Prelude
begin

text \<open>
  What the attestor canister (\<open>canister/opaq-attestor\<close>) is built on: its errors, the crates it
  calls, the management canister and the EVM RPC canister, each as a record of functions the model
  takes as an argument; the standard library's string functions it uses; its key names and address
  derivation (\<open>lib.rs\<close>). A \<open>Result<_, String>\<close> is an \<open>outcome\<close> whose errors are the messages'
  formats with the values they print.
\<close>

section \<open>Errors and results\<close>

datatype attestor_error =
  BadHex string
| TooLong string
| NotBytes32
| BadPoolAddress
| PoolAddressLength
| BadCalldata
| RpcError string
| ProvidersDisagreed string
| BadResponseHex
| ResponseLength nat
| BadNonce string
| PublicKeyUnavailable
| BadPublicKey
| BadSignature
| SigningFailed
| SignatureRejected
| RecoveredKeyRejected
| NoRecoveryId
| BadSignedTx
| Outcall string
| BadJson string
| NoAgreement nat nat nat
| TransactionNotFound
| TransactionFailed
| MissingField string
| ProgramNotReferenced
| NoProgramInstruction
| BadBase58
| WrongTag "byte option"
| WrongLength nat
| NullifierMismatch
| DestChainMismatch
| CommitmentMismatch
| NoBump
| BadProgramId
| ProgramIdLength
| BadBlockhash
| BlockhashLength

type_synonym 'a attested = "(attestor_error, 'a) outcome"

definition ok_or :: "'a option \<Rightarrow> 'e \<Rightarrow> ('e, 'a) outcome" where
  "ok_or m e = (case m of None \<Rightarrow> Err e | Some x \<Rightarrow> Ok x)"

lemma ok_or_simps [simp]: "ok_or (Some x) e = Ok x" "ok_or None e = Err e"
  by (simp_all add: ok_or_def)

lemma ok_or_Ok_iff [outcome_simps]: "ok_or m e = Inr x \<longleftrightarrow> m = Some x"
  by (cases m) auto

definition guard :: "bool \<Rightarrow> 'e \<Rightarrow> ('e, unit) outcome" where
  "guard b e = (if b then Ok () else Err e)"

lemma guard_Ok_iff [outcome_simps]: "guard b e = Inr u \<longleftrightarrow> b"
  by (simp add: guard_def)

lemma guard_simps [simp]: "guard True e = Ok ()" "guard False e = Err e"
  by (simp_all add: guard_def)

section \<open>Strings\<close>

text \<open>\<open>trim_start_matches("0x")\<close>, which strips the prefix as often as it occurs.\<close>

fun trim_0x :: "string \<Rightarrow> string" where
  "trim_0x s = (case s of a # b # r \<Rightarrow> if a = CHR ''0'' \<and> b = CHR ''x'' then trim_0x r else s | _ \<Rightarrow> s)"

declare trim_0x.simps [simp del]

lemma trim_0x_prefix [simp]: "trim_0x (CHR ''0'' # CHR ''x'' # s) = trim_0x s"
  by (simp add: trim_0x.simps [of "CHR ''0'' # CHR ''x'' # s"])

lemma length_trim_0x: "length (trim_0x s) \<le> length s"
proof (induction s rule: trim_0x.induct)
  case (1 s)
  then show ?case
    by (subst trim_0x.simps) (fastforce split: list.splits)
qed

lemma trim_0x_id: "CHR ''x'' \<notin> set s \<Longrightarrow> trim_0x s = s"
  by (subst trim_0x.simps) (auto split: list.splits)

text \<open>\<open>u64::from_str_radix(s, 16)\<close>: an optional plus sign, then digits, no overflow.\<close>

definition hex_digit :: "char \<Rightarrow> nat option" where
  "hex_digit c =
     (let n = of_char c in
      if 48 \<le> n \<and> n \<le> 57 then Some (n - 48)
      else if 97 \<le> n \<and> n \<le> 102 then Some (n - 87)
      else if 65 \<le> n \<and> n \<le> 70 then Some (n - 55)
      else None)"

fun radix16 :: "nat \<Rightarrow> string \<Rightarrow> nat option" where
  "radix16 acc [] = Some acc"
| "radix16 acc (c # cs) =
     (case hex_digit c of None \<Rightarrow> None
      | Some d \<Rightarrow> if acc * 16 + d < 2 ^ 64 then radix16 (acc * 16 + d) cs else None)"

definition u64_from_radix16 :: "string \<Rightarrow> u64 option" where
  "u64_from_radix16 s =
     (let digits = (case s of CHR ''+'' # r \<Rightarrow> r | _ \<Rightarrow> s)
      in if digits = [] then None else map_option word_of_nat (radix16 0 digits))"

section \<open>The crates\<close>

text \<open>
  A \<open>k256\<close> verifying key is represented by its compressed SEC1 encoding, an ECDSA signature by its
  two scalars.
\<close>

record crates =
  hex_encode :: "bytes \<Rightarrow> string"
  hex_decode :: "string \<Rightarrow> bytes option"
  bs58_encode :: "bytes \<Rightarrow> string"
  bs58_decode :: "string \<Rightarrow> bytes option"
  base64_encode :: "bytes \<Rightarrow> string"
  keccak256 :: "bytes \<Rightarrow> bytes32"
  sha256 :: "bytes \<Rightarrow> bytes32"
  edwards_decompresses :: "bytes32 \<Rightarrow> bool"
  sec1_uncompressed :: "bytes \<Rightarrow> bytes option"
  ecdsa_from_scalars :: "bytes32 \<Rightarrow> bytes32 \<Rightarrow> bool"
  ecdsa_recover :: "bytes32 \<Rightarrow> bytes32 \<times> bytes32 \<Rightarrow> u8 \<Rightarrow> bytes option"
  ecdsa_verify :: "bytes \<Rightarrow> bytes32 \<Rightarrow> bytes32 \<times> bytes32 \<Rightarrow> bool"
  ed25519_key_ok :: "bytes \<Rightarrow> bool"
  ed25519_verify :: "bytes \<Rightarrow> bytes \<Rightarrow> bytes \<Rightarrow> bool"
  hex20_from_str :: "string \<Rightarrow> bytes option"
  hex_from_str :: "string \<Rightarrow> bytes option"

text \<open>Documented behaviour: decoding inverts encoding, and hex text is made of hex digits.\<close>

definition codec_laws :: "crates \<Rightarrow> bool" where
  "codec_laws c \<longleftrightarrow>
     (\<forall>b. hex_decode c (hex_encode c b) = Some b \<and> CHR ''x'' \<notin> set (hex_encode c b)) \<and>
     (\<forall>s b. hex_decode c s = Some b \<longrightarrow> length s = 2 * length b) \<and>
     (\<forall>b. bs58_decode c (bs58_encode c b) = Some b) \<and>
     (\<forall>b. hex_from_str c (''0x'' @ hex_encode c b) = Some b)"

lemma codec_lawsD:
  assumes "codec_laws c"
  shows "hex_decode c (hex_encode c b) = Some b" and "trim_0x (hex_encode c b) = hex_encode c b"
    and "bs58_decode c (bs58_encode c b) = Some b"
    and "hex_from_str c (CHR ''0'' # CHR ''x'' # hex_encode c b) = Some b"
    and "hex_decode c s = Some b \<Longrightarrow> length s = 2 * length b"
  using assms by (simp_all add: codec_laws_def trim_0x_id)

section \<open>The canisters\<close>

datatype key_curve = Secp256k1 | Ed25519

record key_id =
  key_curve :: key_curve
  key_name :: string

definition LOCAL_KEY_NAME :: string where
  "LOCAL_KEY_NAME = ''dfx_test_key''"

definition ecdsa_key_id :: key_id where
  "ecdsa_key_id = \<lparr>key_curve = Secp256k1, key_name = LOCAL_KEY_NAME\<rparr>"

definition schnorr_key_id :: key_id where
  "schnorr_key_id = \<lparr>key_curve = Ed25519, key_name = LOCAL_KEY_NAME\<rparr>"

text \<open>The management canister: its own keys (the empty derivation path) and its signing calls.\<close>

record management =
  ecdsa_public_key :: "key_id \<Rightarrow> bytes option"
  sign_with_ecdsa :: "key_id \<Rightarrow> bytes \<Rightarrow> bytes option"
  schnorr_public_key :: "key_id \<Rightarrow> bytes option"
  sign_with_schnorr :: "key_id \<Rightarrow> bytes \<Rightarrow> bytes option"

text \<open>The \<open>json!\<close> literals the canister and the wallet make.\<close>

datatype json_lit =
  LNull | LBool bool | LNum nat | LStr string | LArr "json_lit list" | LObj "(string \<times> json_lit) list"

datatype 'a multi_rpc = Consistent "'a option" | Inconsistent

datatype block_tag = Finalized | Latest

record evm_rpc =
  multi_request :: "u64 \<Rightarrow> string \<Rightarrow> json_lit \<Rightarrow> string multi_rpc"
  eth_call :: "u64 \<Rightarrow> string \<Rightarrow> bytes \<Rightarrow> bytes \<Rightarrow> block_tag \<Rightarrow> string multi_rpc"
  send_raw_transaction :: "u64 \<Rightarrow> string \<Rightarrow> bytes \<Rightarrow> string multi_rpc"

text \<open>
  HTTPS outcalls. The request body is the \<open>json!\<close> literal it serialises; \<open>transform\<close> names the
  query the replicas apply to their responses before they compare them.
\<close>

datatype http_method = POST

record http_args =
  ha_url :: string
  ha_max_response_bytes :: "u64 option"
  ha_method :: http_method
  ha_headers :: "(string \<times> string) list"
  ha_body :: json_lit
  ha_transform :: string

record http_result =
  hr_status :: nat
  hr_headers :: "(string \<times> string) list"
  hr_body :: bytes

text \<open>What the \<open>n\<close>th outcall of a call returns, transformed.\<close>

type_synonym outcalls = "nat \<Rightarrow> http_args \<Rightarrow> http_result option"

text \<open>
  \<open>serde_json\<close>: values, their accessors and the parser. \<open>j_index v k\<close> is \<open>v[k]\<close>, which is \<open>null\<close>
  where the key is missing.
\<close>

record 'j json =
  j_get :: "'j \<Rightarrow> string \<Rightarrow> 'j option"
  j_index :: "'j \<Rightarrow> string \<Rightarrow> 'j"
  j_is_null :: "'j \<Rightarrow> bool"
  j_as_array :: "'j \<Rightarrow> 'j list option"
  j_as_str :: "'j \<Rightarrow> string option"
  j_as_u64 :: "'j \<Rightarrow> u64 option"
  j_as_bool :: "'j \<Rightarrow> bool option"
  j_from_slice :: "bytes \<Rightarrow> 'j option"

definition consistent :: "string \<Rightarrow> 'a multi_rpc \<Rightarrow> 'a attested" where
  "consistent method r =
     (case r of Consistent (Some x) \<Rightarrow> Ok x
      | Consistent None \<Rightarrow> Err (RpcError method)
      | Inconsistent \<Rightarrow> Err (ProvidersDisagreed method))"

lemma consistent_Ok_iff [outcome_simps]: "consistent m r = Inr x \<longleftrightarrow> r = Consistent (Some x)"
  by (auto simp: consistent_def split: multi_rpc.splits option.splits)

section \<open>Byte strings of a fixed size\<close>

text \<open>\<open>Vec<u8>::try_into::<[u8; 32]>\<close>.\<close>

definition try_into32 :: "bytes \<Rightarrow> bytes32 option" where
  "try_into32 b = (if length b = 32 then Some (bytes_b32 b) else None)"

lemma try_into32_Some_iff [outcome_simps]: "try_into32 b = Some w \<longleftrightarrow> b = b32_bytes w"
  by (auto simp: try_into32_def b32_bytes_inverse)

lemma try_into32_b32 [simp]: "try_into32 (b32_bytes w) = Some w"
  by (simp add: outcome_simps)

section \<open>Keys and addresses\<close>

text \<open>\<open>keccak256(pubkey)[12..]\<close>: the last 20 bytes of the digest.\<close>

definition evm_address_bytes :: "crates \<Rightarrow> bytes \<Rightarrow> bytes" where
  "evm_address_bytes c uncompressed_no_prefix =
     drop 12 (b32_bytes (keccak256 c uncompressed_no_prefix))"

definition evm_address_from_pubkey :: "crates \<Rightarrow> bytes \<Rightarrow> string" where
  "evm_address_from_pubkey c uncompressed_no_prefix =
     ''0x'' @ hex_encode c (evm_address_bytes c uncompressed_no_prefix)"

definition evm_address :: "crates \<Rightarrow> management \<Rightarrow> string attested" where
  "evm_address c m =
     and_then (expect (ecdsa_public_key m ecdsa_key_id)) (\<lambda>public_key.
     and_then (expect (sec1_uncompressed c public_key)) (\<lambda>uncompressed.
       Ok (evm_address_from_pubkey c (tl uncompressed))))"

definition solana_address :: "crates \<Rightarrow> management \<Rightarrow> string attested" where
  "solana_address c m =
     and_then (expect (schnorr_public_key m schnorr_key_id)) (\<lambda>public_key.
       Ok (bs58_encode c public_key))"

text \<open>A 64-byte ECDSA signature as its two scalars.\<close>

definition split_signature :: "bytes \<Rightarrow> (bytes32 \<times> bytes32) option" where
  "split_signature sig =
     (if length sig = 64 then Some (b32_at sig 0, b32_at sig 32) else None)"

text \<open>The message is the string's bytes; the results are the values the reply prints.\<close>

definition evm_sign_and_verify :: "crates \<Rightarrow> management \<Rightarrow> bytes \<Rightarrow> string attested" where
  "evm_sign_and_verify c m message =
     (let digest = keccak256 c message in
      and_then (ok_or (ecdsa_public_key m ecdsa_key_id) PublicKeyUnavailable) (\<lambda>pk.
      and_then (ok_or (sign_with_ecdsa m ecdsa_key_id (b32_bytes digest)) SigningFailed) (\<lambda>sig.
      and_then (ok_or (sec1_uncompressed c pk) BadPublicKey) (\<lambda>uncompressed.
      and_then (ok_or (split_signature sig) BadSignature) (\<lambda>(r, s).
      and_then (guard (ecdsa_from_scalars c r s) BadSignature) (\<lambda>_.
      and_then (guard (ecdsa_verify c pk digest (r, s)) SignatureRejected) (\<lambda>_.
        Ok (evm_address_from_pubkey c (tl uncompressed)))))))))"

definition solana_sign_and_verify :: "crates \<Rightarrow> management \<Rightarrow> bytes \<Rightarrow> string attested" where
  "solana_sign_and_verify c m message =
     and_then (ok_or (schnorr_public_key m schnorr_key_id) PublicKeyUnavailable) (\<lambda>pk.
     and_then (ok_or (sign_with_schnorr m schnorr_key_id message) SigningFailed) (\<lambda>sig.
     and_then (guard (length pk = 32 \<and> ed25519_key_ok c pk) BadPublicKey) (\<lambda>_.
     and_then (guard (length sig = 64) BadSignature) (\<lambda>_.
     and_then (guard (ed25519_verify c pk message sig) SignatureRejected) (\<lambda>_.
       Ok (bs58_encode c pk))))))"

text \<open>
  Success means that the key behind the reported address verifies what the management canister
  signed: the same address the address calls return.
\<close>

lemma evm_sign_and_verify_sound:
  assumes "evm_sign_and_verify c m message = Ok addr"
  shows "evm_address c m = Ok addr \<and>
    (\<exists>pk sig r s. ecdsa_public_key m ecdsa_key_id = Some pk \<and>
       sign_with_ecdsa m ecdsa_key_id (b32_bytes (keccak256 c message)) = Some sig \<and>
       split_signature sig = Some (r, s) \<and> ecdsa_verify c pk (keccak256 c message) (r, s))"
  using assms
  by (auto simp: evm_sign_and_verify_def evm_address_def Let_def outcome_simps split_beta)

lemma solana_sign_and_verify_sound:
  assumes "solana_sign_and_verify c m message = Ok addr"
  shows "solana_address c m = Ok addr \<and>
    (\<exists>pk sig. schnorr_public_key m schnorr_key_id = Some pk \<and> length pk = 32 \<and>
       sign_with_schnorr m schnorr_key_id message = Some sig \<and> ed25519_verify c pk message sig)"
  using assms by (auto simp: solana_sign_and_verify_def solana_address_def outcome_simps)

end
