(* ===== verification/Evm_Read.thy ===== *)
theory Evm_Read
  imports Attestor_Env
begin

text \<open>
  The canister's view of the EVM pool (\<open>canister/opaq-attestor/src/evm.rs\<close>): the call data of a
  mapping getter, the \<open>eth_call\<close> through the EVM RPC canister, and the two queries built on it.
  Against a provider set that answers from the contract's storage, the queries return what the
  storage holds.
\<close>

section \<open>The code\<close>

definition SEL_NULLIFIER_SPENT :: string where
  "SEL_NULLIFIER_SPENT = ''38c86911''"

definition SEL_PENDING_MINT :: string where
  "SEL_PENDING_MINT = ''87488892''"

definition encode_call :: "crates \<Rightarrow> string \<Rightarrow> bytes32 \<Rightarrow> string" where
  "encode_call c selector arg32 = ''0x'' @ selector @ hex_encode c (b32_bytes arg32)"

text \<open>The SEC1 key as the management canister returns it, and the 20-byte address.\<close>

definition evm_pubkey_sec1 :: "crates \<Rightarrow> management \<Rightarrow> (bytes \<times> bytes) attested" where
  "evm_pubkey_sec1 c m =
     and_then (ok_or (ecdsa_public_key m ecdsa_key_id) PublicKeyUnavailable) (\<lambda>public_key.
     and_then (ok_or (sec1_uncompressed c public_key) BadPublicKey) (\<lambda>uncompressed.
       Ok (public_key, evm_address_bytes c (tl uncompressed))))"

text \<open>This one panics on a malformed nullifier.\<close>

definition evm_parse_bytes32 :: "crates \<Rightarrow> string \<Rightarrow> bytes32 attested" where
  "evm_parse_bytes32 c hex_str =
     and_then (expect (hex_decode c (trim_0x hex_str))) (\<lambda>bytes. expect (try_into32 bytes))"

definition eth_call_bytes32 ::
    "crates \<Rightarrow> evm_rpc \<Rightarrow> u64 \<Rightarrow> string \<Rightarrow> string \<Rightarrow> string \<Rightarrow> bytes32 \<Rightarrow> bool \<Rightarrow> bytes32 attested" where
  "eth_call_bytes32 c e chain_id rpc_url pool_address selector arg32 finalized =
     (let calldata = encode_call c selector arg32 in
      and_then (ok_or (hex20_from_str c pool_address) BadPoolAddress) (\<lambda>to.
      and_then (ok_or (hex_from_str c calldata) BadCalldata) (\<lambda>input.
      let block = (if finalized then Finalized else Latest) in
      and_then (consistent ''eth_call'' (eth_call e chain_id rpc_url to input block)) (\<lambda>hex_result.
      and_then (ok_or (hex_decode c (trim_0x hex_result)) BadResponseHex) (\<lambda>raw.
        ok_or (try_into32 raw) (ResponseLength (length raw)))))))"

definition check_nullifier_spent ::
    "crates \<Rightarrow> evm_rpc \<Rightarrow> u64 \<Rightarrow> string \<Rightarrow> string \<Rightarrow> string \<Rightarrow> bool \<Rightarrow> bool attested" where
  "check_nullifier_spent c e chain_id rpc_url pool_address nullifier_hex finalized =
     and_then (evm_parse_bytes32 c nullifier_hex) (\<lambda>nullifier.
     and_then (eth_call_bytes32 c e chain_id rpc_url pool_address SEL_NULLIFIER_SPENT nullifier
       finalized) (\<lambda>word.
       Ok (b32_bytes word ! 31 = 1 \<and> list_all (\<lambda>b. b = 0) (take 31 (b32_bytes word)))))"

definition read_pending_mint ::
    "crates \<Rightarrow> evm_rpc \<Rightarrow> u64 \<Rightarrow> string \<Rightarrow> string \<Rightarrow> string \<Rightarrow> bool \<Rightarrow> string attested" where
  "read_pending_mint c e chain_id rpc_url pool_address nullifier_hex finalized =
     and_then (evm_parse_bytes32 c nullifier_hex) (\<lambda>nullifier.
     and_then (eth_call_bytes32 c e chain_id rpc_url pool_address SEL_PENDING_MINT nullifier
       finalized) (\<lambda>word.
       Ok (''0x'' @ hex_encode c (b32_bytes word))))"

section \<open>The boolean word\<close>

lemma b32_bytes_one: "b32_bytes 1 = replicate 31 0 @ [1]"
proof -
  have "nat_of_be (replicate 31 0 @ [1]) = 1"
    by (simp only: nat_of_be_append nat_of_be_zeros) (simp add: nat_of_be_def)
  then have "bytes_b32 (replicate 31 0 @ [1]) = 1"
    by (simp add: bytes_b32_def)
  moreover have "length (replicate 31 0 @ [1 :: byte]) = 32"
    by simp
  ultimately show ?thesis
    using b32_bytes_inverse by metis
qed

lemma bool_word_iff:
  "b32_bytes word ! 31 = 1 \<and> list_all (\<lambda>b. b = 0) (take 31 (b32_bytes word)) \<longleftrightarrow> word = 1"
proof
  let ?b = "b32_bytes word"
  assume a: "?b ! 31 = 1 \<and> list_all (\<lambda>b. b = 0) (take 31 ?b)"
  then have "take 31 ?b = replicate 31 0"
    by (intro replicate_eqI) (auto simp: list_all_iff)
  moreover have "?b = take 31 ?b @ [?b ! 31]"
    using take_Suc_conv_app_nth [of 31 ?b] by simp
  ultimately have "?b = b32_bytes 1"
    using a b32_bytes_one by simp
  then show "word = 1" by simp
next
  assume "word = 1"
  then show "b32_bytes word ! 31 = 1 \<and> list_all (\<lambda>b. b = 0) (take 31 (b32_bytes word))"
    by (simp add: b32_bytes_one nth_append list_all_iff)
qed

section \<open>Reading the contract\<close>

text \<open>
  The hex text of a value as a requester writes it, and providers that answer a getter of the pool
  at block \<open>tag\<close> with the ABI word of the contract's storage.
\<close>

definition hex0x :: "crates \<Rightarrow> bytes \<Rightarrow> string" where
  "hex0x c b = ''0x'' @ hex_encode c b"

definition answers_getter ::
    "crates \<Rightarrow> evm_rpc \<Rightarrow> u64 \<Rightarrow> string \<Rightarrow> string \<Rightarrow> block_tag \<Rightarrow> string \<Rightarrow> (bytes32 \<Rightarrow> bytes32) \<Rightarrow> bool" where
  "answers_getter c e chain_id rpc_url pool_address tag selector getter \<longleftrightarrow>
     (\<exists>to. hex20_from_str c pool_address = Some to \<and>
       (\<forall>n. \<exists>input. hex_from_str c (encode_call c selector n) = Some input \<and>
          eth_call e chain_id rpc_url to input tag = Consistent (Some (hex0x c (b32_bytes (getter n))))))"

lemma eth_call_bytes32_getter:
  assumes "codec_laws c"
    and "answers_getter c e chain_id rpc_url pool_address (if finalized then Finalized else Latest)
           selector getter"
  shows "eth_call_bytes32 c e chain_id rpc_url pool_address selector n finalized = Ok (getter n)"
proof -
  obtain to input where "hex20_from_str c pool_address = Some to"
    and "hex_from_str c (encode_call c selector n) = Some input"
    and "eth_call e chain_id rpc_url to input (if finalized then Finalized else Latest) =
           Consistent (Some (hex0x c (b32_bytes (getter n))))"
    using assms(2) unfolding answers_getter_def by blast
  then show ?thesis
    using codec_lawsD [OF assms(1)]
    by (simp add: eth_call_bytes32_def Let_def consistent_def hex0x_def)
qed

lemma evm_parse_hex0x:
  "codec_laws c \<Longrightarrow> evm_parse_bytes32 c (hex0x c (b32_bytes n)) = Ok n"
  by (simp add: evm_parse_bytes32_def hex0x_def codec_lawsD)

text \<open>A disagreement of the providers, or an error of theirs, is never read as an answer.\<close>

lemma eth_call_bytes32_Ok:
  assumes "eth_call_bytes32 c e chain_id rpc_url pool_address selector n finalized = Ok word"
  obtains to input reply where "hex20_from_str c pool_address = Some to"
    and "hex_from_str c (encode_call c selector n) = Some input"
    and "eth_call e chain_id rpc_url to input (if finalized then Finalized else Latest) =
           Consistent (Some reply)"
    and "hex_decode c (trim_0x reply) = Some (b32_bytes word)"
  using assms by (auto simp: eth_call_bytes32_def Let_def outcome_simps)

end
