(* ===== verification/Rlp.thy ===== *)
theory Rlp
  imports Opaq_Prelude
begin

text \<open>
  The recursive-length-prefix encoder of \<open>canister/opaq-attestor/src/evm_tx.rs\<close>: \<open>rlp_bytes\<close>,
  \<open>rlp_list\<close>, \<open>be_bytes_minimal\<close>, \<open>rlp_quantity\<close>. A reference decoder for a list of byte strings,
  written from the encoding rules and accepting only the minimal form, reads back what the encoder
  writes.
\<close>

section \<open>The encoder\<close>

definition be_bytes_minimal :: "u64 \<Rightarrow> bytes" where
  "be_bytes_minimal v = dropWhile (\<lambda>x. x = 0) (u64_to_be v)"

definition rlp_bytes :: "bytes \<Rightarrow> bytes" where
  "rlp_bytes b =
     (if length b = 1 \<and> b ! 0 < 0x80 then [b ! 0]
      else if length b < 56 then (0x80 + word_of_nat (length b)) # b
      else let len_bytes = be_bytes_minimal (word_of_nat (length b))
           in (0xb7 + word_of_nat (length len_bytes)) # len_bytes @ b)"

definition rlp_list :: "bytes list \<Rightarrow> bytes" where
  "rlp_list items =
     (let payload = concat items in
      if length payload < 56 then (0xc0 + word_of_nat (length payload)) # payload
      else let len_bytes = be_bytes_minimal (word_of_nat (length payload))
           in (0xf7 + word_of_nat (length len_bytes)) # len_bytes @ payload)"

definition rlp_quantity :: "bytes \<Rightarrow> bytes" where
  "rlp_quantity be = rlp_bytes (dropWhile (\<lambda>b. b = 0) be)"

section \<open>Reference decoder\<close>

text \<open>
  A header byte followed, in the long form, by a length without leading zeros and of at least 56;
  then that many bytes.
\<close>

definition rlp_payload :: "nat \<Rightarrow> nat \<Rightarrow> bytes \<Rightarrow> (bytes \<times> bytes) option" where
  "rlp_payload base h rest =
     (if h < base + 56 then
        (let n = h - base in if n \<le> length rest then Some (take n rest, drop n rest) else None)
      else
        (let k = h - (base + 55); ls = take k rest; n = nat_of_be ls; rest' = drop k rest in
         if k \<le> length rest \<and> ls \<noteq> [] \<and> hd ls \<noteq> 0 \<and> 56 \<le> n \<and> n \<le> length rest'
         then Some (take n rest', drop n rest') else None))"

definition rlp_string :: "bytes \<Rightarrow> (bytes \<times> bytes) option" where
  "rlp_string bs =
     (case bs of [] \<Rightarrow> None
      | b # rest \<Rightarrow>
          let h = unat b in
          if h < 0x80 then Some ([b], rest)
          else if h < 0xc0 then
            (case rlp_payload 0x80 h rest of None \<Rightarrow> None
             | Some (s, rest') \<Rightarrow> if length s = 1 \<and> unat (hd s) < 0x80 then None else Some (s, rest'))
          else None)"

lemma rlp_payload_shorter: "rlp_payload base h rest = Some (s, r) \<Longrightarrow> length r \<le> length rest"
  by (auto simp: rlp_payload_def Let_def split: if_splits)

lemma rlp_string_shorter: "rlp_string bs = Some (s, r) \<Longrightarrow> length r < length bs"
  by (auto simp: rlp_string_def Let_def split: list.splits if_splits option.splits
      dest!: rlp_payload_shorter)

function rlp_strings :: "bytes \<Rightarrow> bytes list option" where
  "rlp_strings bs =
     (if bs = [] then Some []
      else case rlp_string bs of None \<Rightarrow> None
           | Some (s, rest) \<Rightarrow> map_option (\<lambda>ss. s # ss) (rlp_strings rest))"
  by pat_completeness auto
termination
  by (relation "measure length") (auto dest: rlp_string_shorter)

declare rlp_strings.simps [simp del]

definition rlp_decode :: "bytes \<Rightarrow> bytes list option" where
  "rlp_decode bs =
     (case bs of [] \<Rightarrow> None
      | b # rest \<Rightarrow>
          if unat b < 0xc0 then None
          else (case rlp_payload 0xc0 (unat b) rest of None \<Rightarrow> None
                | Some (p, rest') \<Rightarrow> if rest' = [] then rlp_strings p else None))"

section \<open>Minimal big-endian numbers\<close>

lemma nat_of_be_dropWhile [simp]: "nat_of_be (dropWhile (\<lambda>x. x = 0) bs) = nat_of_be bs"
proof (induction bs)
  case (Cons b bs)
  have "nat_of_be (b # bs) = unat b * 256 ^ length bs + nat_of_be bs"
    using nat_of_be_append [of "[b]" bs] by (simp add: nat_of_be_def)
  with Cons show ?case by simp
qed simp

lemma nat_of_be_minimal [simp]: "nat_of_be (be_bytes_minimal v) = unat v"
  using unat_bound [of v] by (simp add: be_bytes_minimal_def u64_to_be_def nat_of_be_of_nat)

lemma length_minimal: "length (be_bytes_minimal v) \<le> 8"
  using length_dropWhile_le [of "\<lambda>x. x = 0" "u64_to_be v"] by (simp add: be_bytes_minimal_def)

lemma minimal_nonempty: "v \<noteq> 0 \<Longrightarrow> be_bytes_minimal v \<noteq> []"
  using nat_of_be_minimal [of v] by (auto simp del: nat_of_be_minimal simp: nat_of_be_def unat_eq_0)

lemma hd_minimal: "v \<noteq> 0 \<Longrightarrow> hd (be_bytes_minimal v) \<noteq> 0"
  using minimal_nonempty [of v] hd_dropWhile [of "\<lambda>x. x = 0" "u64_to_be v"]
  by (simp add: be_bytes_minimal_def)

text \<open>No leading zero and the same value: the same bytes.\<close>

lemma nat_of_be_inj_length:
  "length xs = length ys \<Longrightarrow> nat_of_be xs = nat_of_be ys \<Longrightarrow> xs = ys"
  by (metis be_of_nat_of_be)

section \<open>Round trip\<close>

lemma rlp_payload_short:
  assumes "length s < 56"
  shows "rlp_payload base (base + length s) (s @ rest) = Some (s, rest)"
  using assms by (simp add: rlp_payload_def)

lemma rlp_payload_long:
  assumes "56 \<le> length s" and "length s < 2 ^ 64"
  defines "ls \<equiv> be_bytes_minimal (word_of_nat (length s))"
  shows "rlp_payload base (base + 55 + length ls) (ls @ s @ rest) = Some (s, rest)"
proof -
  have n: "unat (word_of_nat (length s) :: u64) = length s"
    using assms(2) by (simp add: unat_of_nat)
  then have "word_of_nat (length s) \<noteq> (0 :: u64)"
    using assms(1) by (metis not_numeral_le_zero unat_0)
  then have "ls \<noteq> []" and "hd ls \<noteq> 0" and "nat_of_be ls = length s"
    using minimal_nonempty hd_minimal n by (simp_all add: ls_def)
  then show ?thesis
    using assms(1) by (cases ls) (simp_all add: rlp_payload_def Let_def)
qed

lemma unat_header:
  assumes "c + n < 256"
  shows "unat (word_of_nat c + word_of_nat n :: byte) = c + n"
proof -
  have "unat (word_of_nat (c + n) :: byte) = c + n"
    using assms by (simp add: unat_of_nat del: of_nat_add)
  then show ?thesis by simp
qed

lemma unat_headers:
  "n < 128 \<Longrightarrow> unat (0x80 + word_of_nat n :: byte) = 0x80 + n"
  "n < 73 \<Longrightarrow> unat (0xb7 + word_of_nat n :: byte) = 0xb7 + n"
  "n < 64 \<Longrightarrow> unat (0xc0 + word_of_nat n :: byte) = 0xc0 + n"
  "n < 9 \<Longrightarrow> unat (0xf7 + word_of_nat n :: byte) = 0xf7 + n"
  using unat_header [of "0x80" n] unat_header [of "0xb7" n] unat_header [of "0xc0" n]
    unat_header [of "0xf7" n]
  by simp_all

lemma rlp_string_encode:
  assumes "length s < 2 ^ 64"
  shows "rlp_string (rlp_bytes s @ rest) = Some (s, rest)"
proof -
  consider (single) "length s = 1" "s ! 0 < 0x80"
    | (short) "\<not> (length s = 1 \<and> s ! 0 < 0x80)" "length s < 56" | (long) "56 \<le> length s"
    by linarith
  then show ?thesis
  proof cases
    case single
    then show ?thesis
      by (cases s) (auto simp: rlp_bytes_def rlp_string_def Let_def word_less_nat_alt)
  next
    case short
    then have "\<not> (length s = 1 \<and> unat (hd s) < 0x80)"
      by (cases s) (auto simp: word_less_nat_alt)
    moreover have "rlp_bytes s = (0x80 + word_of_nat (length s)) # s"
      using short by (auto simp: rlp_bytes_def)
    ultimately show ?thesis
      using short(2) rlp_payload_short [of s, where base = "0x80" and rest = rest]
      by (auto simp: rlp_string_def Let_def unat_headers)
  next
    case long
    let ?ls = "be_bytes_minimal (word_of_nat (length s))"
    have "rlp_bytes s = (0xb7 + word_of_nat (length ?ls)) # ?ls @ s"
      using long by (simp add: rlp_bytes_def Let_def)
    then show ?thesis
      using long length_minimal [of "word_of_nat (length s)"] rlp_payload_long [OF long assms, where base = "0x80" and rest = rest]
      by (simp add: rlp_string_def Let_def unat_headers)
  qed
qed

lemma rlp_bytes_nonempty [simp]: "rlp_bytes s \<noteq> []"
  by (simp add: rlp_bytes_def Let_def)

lemma rlp_strings_encode:
  assumes "\<forall>s \<in> set ss. length s < 2 ^ 64"
  shows "rlp_strings (concat (map rlp_bytes ss)) = Some ss"
  using assms by (induction ss) (simp_all add: rlp_strings.simps rlp_string_encode)

lemma rlp_decode_encode:
  assumes "\<forall>s \<in> set ss. length s < 2 ^ 64" and "length (concat (map rlp_bytes ss)) < 2 ^ 64"
  shows "rlp_decode (rlp_list (map rlp_bytes ss)) = Some ss"
proof -
  let ?p = "concat (map rlp_bytes ss)"
  let ?ls = "be_bytes_minimal (word_of_nat (length ?p))"
  show ?thesis
  proof (cases "length ?p < 56")
    case True
    then show ?thesis
      using rlp_payload_short [OF True, where base = "0xc0" and rest = "[]"] rlp_strings_encode [OF assms(1)]
      by (simp add: rlp_list_def rlp_decode_def Let_def unat_headers)
  next
    case False
    then show ?thesis
      using rlp_payload_long [of ?p, where base = "0xc0" and rest = "[]"] assms(2) length_minimal [of "word_of_nat (length ?p)"]
        rlp_strings_encode [OF assms(1)]
      by (simp add: rlp_list_def rlp_decode_def Let_def unat_headers)
  qed
qed

lemma length_rlp_bytes: "length (rlp_bytes s) \<le> length s + 9"
  using length_minimal [of "word_of_nat (length s)"] by (simp add: rlp_bytes_def Let_def)

end
