(* ===== verification/Evm_Tx.thy ===== *)
theory Evm_Tx
  imports Evm_Read Rlp
begin

text \<open>
  The canister's EVM write side (\<open>canister/opaq-attestor/src/evm_tx.rs\<close>): hex numbers, the legacy
  transaction with the EIP-155 signature fields, the recovery id, and \<open>submit_add_pending\<close>. A
  reference reader of legacy transactions, on the list decoder of \<open>Rlp\<close>, says what the bytes mean.
\<close>

section \<open>The code\<close>

definition SEL_ADD_PENDING :: string where
  "SEL_ADD_PENDING = ''562b80a1''"

definition hex_to_be_bytes :: "crates \<Rightarrow> string \<Rightarrow> bytes attested" where
  "hex_to_be_bytes c s =
     (let clean = trim_0x s;
          padded = (if length clean mod 2 = 1 then CHR ''0'' # clean else clean)
      in ok_or (hex_decode c padded) (BadHex s))"

definition parse_u256_hex :: "crates \<Rightarrow> string \<Rightarrow> bytes32 attested" where
  "parse_u256_hex c s =
     and_then (hex_to_be_bytes c s) (\<lambda>bytes.
       if 32 < length bytes then Err (TooLong s)
       else Ok (bytes_b32 (replicate (32 - length bytes) 0 @ bytes)))"

definition raw_json_rpc ::
    "evm_rpc \<Rightarrow> u64 \<Rightarrow> string \<Rightarrow> string \<Rightarrow> json_lit \<Rightarrow> string attested" where
  "raw_json_rpc e chain_id rpc_url method params =
     (let json = LObj [(''jsonrpc'', LStr ''2.0''), (''method'', LStr method),
                       (''params'', params), (''id'', LNum 1)]
      in consistent method (multi_request e chain_id rpc_url json))"

definition legacy_tx_rlp ::
    "u64 \<Rightarrow> bytes \<Rightarrow> u64 \<Rightarrow> bytes \<Rightarrow> bytes \<Rightarrow> u64 \<Rightarrow> (u64 \<times> bytes32 \<times> bytes32) option \<Rightarrow> bytes" where
  "legacy_tx_rlp nonce gas_price gas_limit to data chain_id signature =
     (let (v, r, s) =
        (case signature of
           Some (v, r, s) \<Rightarrow> (be_bytes_minimal v, b32_bytes r, b32_bytes s)
         | None \<Rightarrow> (be_bytes_minimal chain_id, [], []))
      in rlp_list
        [rlp_quantity (u64_to_be nonce),
         rlp_quantity gas_price,
         rlp_quantity (u64_to_be gas_limit),
         rlp_bytes to,
         rlp_quantity (replicate 32 0),
         rlp_bytes data,
         rlp_quantity v,
         rlp_quantity r,
         rlp_quantity s])"

text \<open>The loop of \<open>recovery_id_for\<close> over the candidate ids; a key is its compressed encoding.\<close>

fun try_recovery_ids ::
    "crates \<Rightarrow> bytes32 \<Rightarrow> bytes32 \<Rightarrow> bytes32 \<Rightarrow> bytes \<Rightarrow> u8 list \<Rightarrow> u8 attested" where
  "try_recovery_ids c digest r s expected [] = Err NoRecoveryId"
| "try_recovery_ids c digest r s expected (i # is) =
     (case ecdsa_recover c digest (r, s) i of
        Some candidate \<Rightarrow>
          if candidate = expected then
            and_then (guard (ecdsa_verify c candidate digest (r, s)) RecoveredKeyRejected) (\<lambda>_. Ok i)
          else try_recovery_ids c digest r s expected is
      | None \<Rightarrow> try_recovery_ids c digest r s expected is)"

definition recovery_id_for ::
    "crates \<Rightarrow> bytes32 \<Rightarrow> bytes32 \<Rightarrow> bytes32 \<Rightarrow> bytes \<Rightarrow> u8 attested" where
  "recovery_id_for c digest r s expected_pubkey_sec1 =
     and_then (guard (ecdsa_from_scalars c r s) BadSignature) (\<lambda>_.
       try_recovery_ids c digest r s expected_pubkey_sec1 [0, 1])"

definition GAS_LIMIT :: u64 where
  "GAS_LIMIT = 200000"

text \<open>
  \<open>submit_add_pending\<close> up to the signed bytes, and with the broadcast. \<open>sig[0..32]\<close> panics on a
  short signature; \<open>v\<close> is computed in \<open>u64\<close> and wraps in a release build.
\<close>

definition add_pending_data :: "crates \<Rightarrow> string \<Rightarrow> string \<Rightarrow> string \<Rightarrow> bytes attested" where
  "add_pending_data c nullifier_hex dest_chain_hex out_commitment_hex =
     and_then (parse_u256_hex c nullifier_hex) (\<lambda>nullifier.
     and_then (parse_u256_hex c dest_chain_hex) (\<lambda>dest_chain.
     and_then (parse_u256_hex c out_commitment_hex) (\<lambda>out_commitment.
     and_then (expect (hex_decode c SEL_ADD_PENDING)) (\<lambda>selector.
       Ok (selector @ b32_bytes nullifier @ b32_bytes dest_chain @ b32_bytes out_commitment)))))"

definition sign_legacy_tx ::
    "crates \<Rightarrow> management \<Rightarrow> bytes \<Rightarrow> u64 \<Rightarrow> bytes \<Rightarrow> bytes \<Rightarrow> bytes \<Rightarrow> u64 \<Rightarrow> bytes attested" where
  "sign_legacy_tx c m pubkey nonce gas_price to data chain_id =
     (let unsigned = legacy_tx_rlp nonce gas_price GAS_LIMIT to data chain_id None;
          digest = keccak256 c unsigned
      in
      and_then (ok_or (sign_with_ecdsa m ecdsa_key_id (b32_bytes digest)) SigningFailed) (\<lambda>sig.
      and_then (read32 sig 0) (\<lambda>r.
      and_then (read32 sig 32) (\<lambda>s.
      and_then (recovery_id_for c digest r s pubkey) (\<lambda>recovery_id.
      let v = chain_id * 2 + 35 + ucast recovery_id in
        Ok (legacy_tx_rlp nonce gas_price GAS_LIMIT to data chain_id (Some (v, r, s))))))))"

definition signed_add_pending ::
    "crates \<Rightarrow> management \<Rightarrow> evm_rpc \<Rightarrow> u64 \<Rightarrow> string \<Rightarrow> string \<Rightarrow> string \<Rightarrow> string \<Rightarrow> string
      \<Rightarrow> bytes attested" where
  "signed_add_pending c m e chain_id rpc_url pool_address nullifier_hex dest_chain_hex
       out_commitment_hex =
     and_then (ok_or (hex_decode c (trim_0x pool_address)) BadPoolAddress) (\<lambda>to.
     and_then (guard (length to = 20) PoolAddressLength) (\<lambda>_.
     and_then (add_pending_data c nullifier_hex dest_chain_hex out_commitment_hex) (\<lambda>data.
     and_then (evm_pubkey_sec1 c m) (\<lambda>(pubkey, from_addr).
     let from_hex = ''0x'' @ hex_encode c from_addr in
     and_then (raw_json_rpc e chain_id rpc_url ''eth_getTransactionCount''
       (LArr [LStr from_hex, LStr ''latest''])) (\<lambda>nonce_hex.
     and_then (ok_or (u64_from_radix16 (trim_0x nonce_hex)) (BadNonce nonce_hex)) (\<lambda>nonce.
     and_then (raw_json_rpc e chain_id rpc_url ''eth_gasPrice'' (LArr [])) (\<lambda>gas_price_hex.
     and_then (hex_to_be_bytes c gas_price_hex) (\<lambda>gas_price.
       sign_legacy_tx c m pubkey nonce gas_price to data chain_id))))))))"

definition submit_add_pending ::
    "crates \<Rightarrow> management \<Rightarrow> evm_rpc \<Rightarrow> u64 \<Rightarrow> string \<Rightarrow> string \<Rightarrow> string \<Rightarrow> string \<Rightarrow> string
      \<Rightarrow> string attested" where
  "submit_add_pending c m e chain_id rpc_url pool_address nullifier_hex dest_chain_hex
       out_commitment_hex =
     and_then (signed_add_pending c m e chain_id rpc_url pool_address nullifier_hex dest_chain_hex
       out_commitment_hex) (\<lambda>signed.
     let signed_hex = ''0x'' @ hex_encode c signed in
     and_then (ok_or (hex_from_str c signed_hex) BadSignedTx) (\<lambda>raw.
       consistent ''send_raw_transaction'' (send_raw_transaction e chain_id rpc_url raw)))"

section \<open>Reference reader\<close>

record legacy_tx =
  tx_nonce :: nat
  tx_gas_price :: nat
  tx_gas_limit :: nat
  tx_to :: bytes
  tx_value :: nat
  tx_data :: bytes
  tx_v :: nat
  tx_r :: nat
  tx_s :: nat

text \<open>A quantity has no leading zero byte; an address has 20 bytes.\<close>

definition quantity_ok :: "bytes \<Rightarrow> bool" where
  "quantity_ok b \<longleftrightarrow> b = [] \<or> hd b \<noteq> 0"

definition parse_legacy_tx :: "bytes \<Rightarrow> legacy_tx option" where
  "parse_legacy_tx bs =
     (case rlp_decode bs of
        Some [n, gp, gl, to, val, d, v, r, s] \<Rightarrow>
          if list_all quantity_ok [n, gp, gl, val, v, r, s] \<and> length to = 20 then
            Some \<lparr>tx_nonce = nat_of_be n, tx_gas_price = nat_of_be gp, tx_gas_limit = nat_of_be gl,
                  tx_to = to, tx_value = nat_of_be val, tx_data = d, tx_v = nat_of_be v,
                  tx_r = nat_of_be r, tx_s = nat_of_be s\<rparr>
          else None
      | _ \<Rightarrow> None)"

text \<open>What a call of \<open>legacy_tx_rlp\<close> is meant to say.\<close>

definition legacy_tx_of ::
    "u64 \<Rightarrow> bytes \<Rightarrow> u64 \<Rightarrow> bytes \<Rightarrow> bytes \<Rightarrow> u64 \<Rightarrow> (u64 \<times> bytes32 \<times> bytes32) option \<Rightarrow> legacy_tx" where
  "legacy_tx_of nonce gas_price gas_limit to data chain_id signature =
     \<lparr>tx_nonce = unat nonce, tx_gas_price = nat_of_be gas_price, tx_gas_limit = unat gas_limit,
      tx_to = to, tx_value = 0, tx_data = data,
      tx_v = (case signature of None \<Rightarrow> unat chain_id | Some (v, _) \<Rightarrow> unat v),
      tx_r = (case signature of None \<Rightarrow> 0 | Some (_, r, _) \<Rightarrow> unat r),
      tx_s = (case signature of None \<Rightarrow> 0 | Some (_, _, s) \<Rightarrow> unat s)\<rparr>"

definition strip :: "bytes \<Rightarrow> bytes" where
  "strip b = dropWhile (\<lambda>x. x = 0) b"

lemma quantity_ok_strip [simp]: "quantity_ok (strip b)"
  unfolding quantity_ok_def strip_def using hd_dropWhile [of "\<lambda>x. x = 0" b] by blast

lemma nat_of_be_strip [simp]: "nat_of_be (strip b) = nat_of_be b"
  by (simp add: strip_def)

lemma length_strip: "length (strip b) \<le> length b"
  by (simp add: strip_def length_dropWhile_le)

lemma rlp_quantity_strip: "rlp_quantity b = rlp_bytes (strip b)"
  by (simp add: rlp_quantity_def strip_def)

lemma nat_of_be_words [simp]:
  "nat_of_be (u64_to_be w) = unat w" "nat_of_be (b32_bytes x) = unat x" "nat_of_be [] = 0"
  using unat_bound [of w] unat_bound [of x]
  by (simp_all add: u64_to_be_def b32_bytes_def nat_of_be_of_nat) (simp add: nat_of_be_def)

text \<open>A list of nine short fields round-trips.\<close>

lemma rlp_decode_fields:
  assumes "sum_list (map length ss) + 9 * length ss < 2 ^ 64"
  shows "rlp_decode (rlp_list (map rlp_bytes ss)) = Some ss"
proof (rule rlp_decode_encode)
  show "\<forall>s \<in> set ss. length s < 2 ^ 64"
  proof
    fix s assume "s \<in> set ss"
    then have "length s \<le> sum_list (map length ss)"
      by (simp add: member_le_sum_list)
    then show "length s < 2 ^ 64" using assms by linarith
  qed
  have "length (concat (map rlp_bytes ss)) \<le> sum_list (map length ss) + 9 * length ss"
  proof (induction ss)
    case (Cons s ss)
    then show ?case using length_rlp_bytes [of s] by simp
  qed simp
  then show "length (concat (map rlp_bytes ss)) < 2 ^ 64" using assms by linarith
qed

lemma parse_legacy_tx_fields:
  assumes "length to = 20" and "length data + length gp < 2 ^ 63"
    and "length v \<le> 32" and "length r \<le> 32" and "length s \<le> 32"
  shows "parse_legacy_tx (rlp_list (map rlp_bytes
           [strip (u64_to_be n), strip gp, strip (u64_to_be gl), to, strip (replicate 32 0), data,
            strip v, strip r, strip s])) =
         Some \<lparr>tx_nonce = unat n, tx_gas_price = nat_of_be gp, tx_gas_limit = unat gl, tx_to = to,
               tx_value = 0, tx_data = data, tx_v = nat_of_be v, tx_r = nat_of_be r,
               tx_s = nat_of_be s\<rparr>"
proof -
  let ?ss = "[strip (u64_to_be n), strip gp, strip (u64_to_be gl), to, strip (replicate 32 0), data,
    strip v, strip r, strip s]"
  have "sum_list (map length ?ss) + 9 * length ?ss < 2 ^ 64"
    using assms length_strip [of "u64_to_be n"] length_strip [of gp] length_strip [of "u64_to_be gl"]
      length_strip [of "replicate 32 0"] length_strip [of v] length_strip [of r] length_strip [of s]
    by simp
  then have "rlp_decode (rlp_list (map rlp_bytes ?ss)) = Some ?ss"
    by (rule rlp_decode_fields)
  then show ?thesis
    using assms(1) by (simp add: parse_legacy_tx_def)
qed

lemma parse_legacy_tx_rlp:
  assumes "length to = 20" and "length data + length gas_price < 2 ^ 63"
  shows "parse_legacy_tx (legacy_tx_rlp nonce gas_price gas_limit to data chain_id signature) =
           Some (legacy_tx_of nonce gas_price gas_limit to data chain_id signature)"
proof (cases signature)
  case None
  then show ?thesis
    using parse_legacy_tx_fields [OF assms, of "be_bytes_minimal chain_id" "[]" "[]" nonce gas_limit]
      length_minimal [of chain_id]
    by (simp add: legacy_tx_rlp_def legacy_tx_of_def rlp_quantity_strip)
next
  case (Some sig)
  then obtain v r s where "signature = Some (v, r, s)"
    by (cases sig) auto
  then show ?thesis
    using parse_legacy_tx_fields [OF assms, of "be_bytes_minimal v" "b32_bytes r" "b32_bytes s" nonce gas_limit]
      length_minimal [of v]
    by (simp add: legacy_tx_rlp_def legacy_tx_of_def rlp_quantity_strip)
qed

section \<open>Numbers\<close>

lemma parse_u256_hex_Ok:
  "parse_u256_hex c s = Ok w \<Longrightarrow> \<exists>b. hex_to_be_bytes c s = Ok b \<and> length b \<le> 32 \<and> unat w = nat_of_be b"
proof -
  assume a: "parse_u256_hex c s = Ok w"
  then obtain b where b: "hex_to_be_bytes c s = Ok b" "length b \<le> 32"
      "w = bytes_b32 (replicate (32 - length b) 0 @ b)"
    by (auto simp: parse_u256_hex_def outcome_simps split: if_splits)
  have "nat_of_be (replicate (32 - length b) 0 @ b) = nat_of_be b"
    by (simp add: nat_of_be_append)
  moreover have "nat_of_be b < 256 ^ 32"
    using nat_of_be_less [of b] b(2)
    by (meson less_le_trans one_le_numeral power_increasing)
  ultimately have "unat w = nat_of_be b"
    by (simp add: b(3) bytes_b32_def unat_of_nat)
  with b show ?thesis by blast
qed

section \<open>Recovery\<close>

lemma try_recovery_ids_Ok:
  "try_recovery_ids c digest r s pk is = Ok i \<Longrightarrow>
     i \<in> set is \<and> ecdsa_recover c digest (r, s) i = Some pk \<and> ecdsa_verify c pk digest (r, s)"
  by (induction "is") (auto simp: outcome_simps split: option.splits if_splits)

lemma recovery_id_for_Ok:
  assumes "recovery_id_for c digest r s pk = Ok i"
  shows "i \<in> {0, 1}" and "ecdsa_recover c digest (r, s) i = Some pk"
    and "ecdsa_verify c pk digest (r, s)"
  using assms try_recovery_ids_Ok [of c digest r s pk "[0, 1]" i]
  by (auto simp: recovery_id_for_def outcome_simps)

lemma eip155_v:
  assumes "2 * unat (chain_id :: u64) + 36 < 2 ^ 64" and "i \<in> {0, 1 :: u8}"
  shows "unat (chain_id * 2 + 35 + ucast i) = 2 * unat chain_id + 35 + unat i"
proof -
  have "unat i \<le> 1" using assms(2) by auto
  moreover have "chain_id * 2 + 35 + ucast i = (word_of_nat (2 * unat chain_id + 35 + unat i) :: u64)"
    by (simp add: mult.commute)
  ultimately show ?thesis
    using assms(1) by (simp add: unat_of_nat del: of_nat_add of_nat_mult)
qed

section \<open>What is broadcast\<close>

lemma length_hex_to_be_bytes:
  assumes "codec_laws c" and "hex_to_be_bytes c s = Ok b"
  shows "length b \<le> length s"
proof -
  have "2 * length b \<le> length (trim_0x s) + 1"
    using assms by (auto simp: hex_to_be_bytes_def Let_def outcome_simps dest!: codec_lawsD(5)
        split: if_splits)
  then show ?thesis
    using length_trim_0x [of s] by linarith
qed

lemma length_add_pending_data:
  assumes "codec_laws c" and "add_pending_data c n d oc = Ok data"
  shows "length data = 100"
  using assms by (auto simp: add_pending_data_def outcome_simps SEL_ADD_PENDING_def dest!: codec_lawsD(5))

text \<open>
  The signed transaction reads as the unsigned one with the EIP-155 fields, the unsigned one carries
  the chain id in their place, and the signature over the unsigned form's digest recovers the key.
\<close>

definition own_transaction ::
    "crates \<Rightarrow> bytes \<Rightarrow> u64 \<Rightarrow> legacy_tx \<Rightarrow> bytes \<Rightarrow> bool" where
  "own_transaction c pubkey chain_id t raw \<longleftrightarrow>
     (\<exists>unsigned r s i.
        parse_legacy_tx raw =
          Some (t\<lparr>tx_v := 2 * unat chain_id + 35 + unat i, tx_r := unat r, tx_s := unat s\<rparr>) \<and>
        parse_legacy_tx unsigned = Some (t\<lparr>tx_v := unat chain_id, tx_r := 0, tx_s := 0\<rparr>) \<and>
        i \<in> {0, 1} \<and>
        ecdsa_recover c (keccak256 c unsigned) (r, s) i = Some pubkey \<and>
        ecdsa_verify c pubkey (keccak256 c unsigned) (r, s))"

lemma sign_legacy_tx_own:
  assumes "sign_legacy_tx c m pubkey nonce gas_price to data chain_id = Ok raw"
    and "length to = 20" and "length data + length gas_price < 2 ^ 63"
    and "2 * unat chain_id + 36 < 2 ^ 64"
  shows "own_transaction c pubkey chain_id
    \<lparr>tx_nonce = unat nonce, tx_gas_price = nat_of_be gas_price, tx_gas_limit = 200000, tx_to = to,
     tx_value = 0, tx_data = data, tx_v = 0, tx_r = 0, tx_s = 0\<rparr> raw"
proof -
  let ?u = "legacy_tx_rlp nonce gas_price GAS_LIMIT to data chain_id None"
  obtain r s i where rec: "recovery_id_for c (keccak256 c ?u) r s pubkey = Ok i"
    and raw: "raw = legacy_tx_rlp nonce gas_price GAS_LIMIT to data chain_id
                   (Some (chain_id * 2 + 35 + ucast i, r, s))"
    using assms(1) by (auto simp: sign_legacy_tx_def Let_def outcome_simps)
  have v: "unat (chain_id * 2 + 35 + ucast i) = 2 * unat chain_id + 35 + unat i"
    using assms(4) recovery_id_for_Ok(1) [OF rec] by (rule eip155_v)
  show ?thesis
    unfolding own_transaction_def raw parse_legacy_tx_rlp [OF assms(2,3)]
    by (rule exI [of _ ?u], rule exI [of _ r], rule exI [of _ s], rule exI [of _ i])
      (use recovery_id_for_Ok [OF rec] v in
        \<open>simp add: parse_legacy_tx_rlp [OF assms(2,3)] legacy_tx_of_def GAS_LIMIT_def\<close>)
qed

text \<open>The replies the nonce and the gas price are read from.\<close>

definition nonce_reply :: "crates \<Rightarrow> evm_rpc \<Rightarrow> u64 \<Rightarrow> string \<Rightarrow> bytes \<Rightarrow> string attested" where
  "nonce_reply c e chain_id rpc_url from_addr =
     raw_json_rpc e chain_id rpc_url ''eth_getTransactionCount''
       (LArr [LStr (''0x'' @ hex_encode c from_addr), LStr ''latest''])"

definition gas_price_reply :: "evm_rpc \<Rightarrow> u64 \<Rightarrow> string \<Rightarrow> string attested" where
  "gas_price_reply e chain_id rpc_url = raw_json_rpc e chain_id rpc_url ''eth_gasPrice'' (LArr [])"

lemma submit_add_pending_Ok:
  assumes "submit_add_pending c m e chain_id rpc_url pool_address nullifier_hex dest_chain_hex
             out_commitment_hex = Ok status"
    and "codec_laws c"
  obtains raw where
    "signed_add_pending c m e chain_id rpc_url pool_address nullifier_hex dest_chain_hex
       out_commitment_hex = Ok raw"
    and "send_raw_transaction e chain_id rpc_url raw = Consistent (Some status)"
  using assms by (auto simp: submit_add_pending_def Let_def outcome_simps codec_lawsD)

end
