(* ===== verification/Solana_Read.thy ===== *)
theory Solana_Read
  imports Attestor_Env Pool_Safety
begin

text \<open>
  The canister's view of the Solana pool (\<open>canister/opaq-attestor/src/solana.rs\<close>): one
  \<open>getTransaction\<close> outcall per provider, agreement among their answers, and the check that a named
  transaction is the burn a requester claims.
\<close>

section \<open>The code\<close>

definition TAG_XBURN :: u8 where "TAG_XBURN = 8"
definition OFF_NULLIFIER :: nat where "OFF_NULLIFIER = 1 + 64 + 128 + 64 + 32"
definition OFF_DEST_CHAIN :: nat where "OFF_DEST_CHAIN = OFF_NULLIFIER + 32"
definition OFF_OUT_COMMITMENT :: nat where "OFF_OUT_COMMITMENT = OFF_DEST_CHAIN + 32"
definition XBURN_DATA_LEN :: nat where "XBURN_DATA_LEN = OFF_OUT_COMMITMENT + 32"

lemmas xburn_offsets =
  OFF_NULLIFIER_def OFF_DEST_CHAIN_def OFF_OUT_COMMITMENT_def XBURN_DATA_LEN_def

definition transform_solana_response :: "http_result \<Rightarrow> http_result" where
  "transform_solana_response response =
     \<lparr>hr_status = hr_status response, hr_headers = [], hr_body = hr_body response\<rparr>"

text \<open>The request shared by both files of the Solana leg.\<close>

definition json_post :: "string \<Rightarrow> string \<Rightarrow> json_lit \<Rightarrow> http_args" where
  "json_post rpc_url transform body =
     \<lparr>ha_url = rpc_url, ha_max_response_bytes = Some 50000, ha_method = POST,
      ha_headers = [(''Content-Type'', ''application/json'')], ha_body = body,
      ha_transform = transform\<rparr>"

definition get_transaction_json ::
    "'j json \<Rightarrow> (http_args \<Rightarrow> http_result option) \<Rightarrow> string \<Rightarrow> string \<Rightarrow> 'j attested" where
  "get_transaction_json J http_request rpc_url signature =
     (let body = LObj
        [(''jsonrpc'', LStr ''2.0''), (''id'', LNum 1), (''method'', LStr ''getTransaction''),
         (''params'', LArr
            [LStr signature,
             LObj [(''encoding'', LStr ''json''), (''commitment'', LStr ''finalized''),
                   (''maxSupportedTransactionVersion'', LNum 0)]])]
      in
      and_then (ok_or (http_request (json_post rpc_url ''transform_solana_response'' body))
        (Outcall rpc_url)) (\<lambda>response.
        ok_or (j_from_slice J (hr_body response)) (BadJson rpc_url)))"

text \<open>The collection loop: failures are logged and skipped.\<close>

fun collect_responses ::
    "'j json \<Rightarrow> outcalls \<Rightarrow> nat \<Rightarrow> string list \<Rightarrow> string \<Rightarrow> 'j list" where
  "collect_responses J http k [] signature = []"
| "collect_responses J http k (url # urls) signature =
     (case get_transaction_json J (http k) url signature of
        Inr v \<Rightarrow> v # collect_responses J http (Suc k) urls signature
      | Inl _ \<Rightarrow> collect_responses J http (Suc k) urls signature)"

definition get_transaction_with_agreement ::
    "'j json \<Rightarrow> outcalls \<Rightarrow> string list \<Rightarrow> nat \<Rightarrow> string \<Rightarrow> 'j attested" where
  "get_transaction_with_agreement J http rpc_urls agree_threshold signature =
     (let responses = collect_responses J http 0 rpc_urls signature in
      case find (\<lambda>candidate. agree_threshold \<le> length (filter (\<lambda>r. r = candidate) responses)) responses of
        Some v \<Rightarrow> Ok v
      | None \<Rightarrow> Err (NoAgreement agree_threshold (length rpc_urls) (length responses)))"

definition solana_parse_bytes32 :: "crates \<Rightarrow> string \<Rightarrow> bytes32 attested" where
  "solana_parse_bytes32 c hex_str =
     and_then (ok_or (hex_decode c (trim_0x hex_str)) (BadHex hex_str)) (\<lambda>bytes.
       ok_or (try_into32 bytes) NotBytes32)"

text \<open>The instruction data of the first instruction of the transaction that targets the program.\<close>

definition opaq_instruction_data :: "crates \<Rightarrow> 'j json \<Rightarrow> 'j \<Rightarrow> string \<Rightarrow> bytes attested" where
  "opaq_instruction_data c J tx program_id_b58 =
     (let ix = j_index J in
      and_then (ok_or (j_get J tx ''result'') TransactionNotFound) (\<lambda>result.
      and_then (guard (\<not> j_is_null J result) TransactionNotFound) (\<lambda>_.
      and_then (guard (j_is_null J (ix (ix result ''meta'') ''err'')) TransactionFailed) (\<lambda>_.
      let message = ix (ix result ''transaction'') ''message'' in
      and_then (ok_or (j_as_array J (ix message ''accountKeys'')) (MissingField ''accountKeys'')) (\<lambda>keys.
      let account_keys = map (\<lambda>v. case j_as_str J v of Some s \<Rightarrow> s | None \<Rightarrow> []) keys in
      and_then (ok_or (position (\<lambda>k. k = program_id_b58) account_keys) ProgramNotReferenced) (\<lambda>program_index.
      and_then (ok_or (j_as_array J (ix message ''instructions'')) (MissingField ''instructions'')) (\<lambda>instructions.
      and_then (ok_or (find (\<lambda>i. j_as_u64 J (ix i ''programIdIndex'') = Some (word_of_nat program_index))
        instructions) NoProgramInstruction) (\<lambda>opaq_ix.
      and_then (ok_or (j_as_str J (ix opaq_ix ''data'')) (MissingField ''data'')) (\<lambda>data_b58.
        ok_or (bs58_decode c data_b58) BadBase58)))))))))"

text \<open>The comparison with the claimed burn.\<close>

definition check_claims :: "bytes \<Rightarrow> bytes32 \<Rightarrow> bytes32 \<Rightarrow> bytes32 \<Rightarrow> unit attested" where
  "check_claims data nullifier dest_chain out_commitment =
     (let first = (case data of [] \<Rightarrow> None | b # _ \<Rightarrow> Some b) in
      and_then (guard (first = Some TAG_XBURN) (WrongTag first)) (\<lambda>_.
      and_then (guard (length data = XBURN_DATA_LEN) (WrongLength (length data))) (\<lambda>_.
      and_then (read_at data OFF_NULLIFIER 32) (\<lambda>actual_nullifier.
      and_then (read_at data OFF_DEST_CHAIN 32) (\<lambda>actual_dest_chain.
      and_then (read_at data OFF_OUT_COMMITMENT 32) (\<lambda>actual_out_commitment.
      and_then (guard (actual_nullifier = b32_bytes nullifier) NullifierMismatch) (\<lambda>_.
      and_then (guard (actual_dest_chain = b32_bytes dest_chain) DestChainMismatch) (\<lambda>_.
        guard (actual_out_commitment = b32_bytes out_commitment) CommitmentMismatch))))))))"

text \<open>The reply repeats the request; the model returns what it attests.\<close>

definition verify_xburn_transaction ::
    "crates \<Rightarrow> 'j json \<Rightarrow> outcalls \<Rightarrow> string list \<Rightarrow> u32 \<Rightarrow> string \<Rightarrow> string \<Rightarrow> string \<Rightarrow> string
      \<Rightarrow> string \<Rightarrow> (string \<times> string \<times> string \<times> string) attested" where
  "verify_xburn_transaction c J http rpc_urls agree_threshold program_id_b58 signature nullifier_hex
       dest_chain_hex out_commitment_hex =
     and_then (solana_parse_bytes32 c nullifier_hex) (\<lambda>expected_nullifier.
     and_then (solana_parse_bytes32 c dest_chain_hex) (\<lambda>expected_dest_chain.
     and_then (solana_parse_bytes32 c out_commitment_hex) (\<lambda>expected_out_commitment.
     and_then (get_transaction_with_agreement J http rpc_urls (unat agree_threshold) signature) (\<lambda>tx.
     and_then (opaq_instruction_data c J tx program_id_b58) (\<lambda>data.
     and_then (check_claims data expected_nullifier expected_dest_chain expected_out_commitment) (\<lambda>_.
       Ok (signature, nullifier_hex, dest_chain_hex, out_commitment_hex)))))))"

section \<open>Agreement\<close>

text \<open>How many of the answers are a value.\<close>

definition votes :: "'j list \<Rightarrow> 'j \<Rightarrow> nat" where
  "votes responses v = length (filter (\<lambda>r. r = v) responses)"

lemma votes_others:
  assumes "v \<noteq> w"
  shows "votes responses w \<le> length (filter (\<lambda>r. r \<noteq> v) responses)"
proof -
  have "filter (\<lambda>r. r = w) responses = filter (\<lambda>r. r = w) (filter (\<lambda>r. r \<noteq> v) responses)"
    using assms by (induction responses) auto
  then show ?thesis
    unfolding votes_def by (metis length_filter_le)
qed

lemma find_SomeD: "find p xs = Some x \<Longrightarrow> p x \<and> x \<in> set xs"
  by (auto simp: find_Some_iff)

lemma agreement_Ok:
  assumes "get_transaction_with_agreement J http urls k signature = Ok tx"
  shows "k \<le> votes (collect_responses J http 0 urls signature) tx"
    and "tx \<in> set (collect_responses J http 0 urls signature)"
  using assms
  by (auto simp: get_transaction_with_agreement_def Let_def votes_def split: option.splits
      dest!: find_SomeD)

lemma agreement_exists:
  assumes "k \<le> votes (collect_responses J http 0 urls signature) v" and "0 < k"
  shows "\<exists>tx. get_transaction_with_agreement J http urls k signature = Ok tx"
proof -
  let ?rs = "collect_responses J http 0 urls signature"
  have "filter (\<lambda>r. r = v) ?rs \<noteq> []"
    using assms by (auto simp: votes_def)
  then have "v \<in> set ?rs"
    by (auto simp: filter_empty_conv)
  then have "find (\<lambda>c. k \<le> length (filter (\<lambda>r. r = c) ?rs)) ?rs \<noteq> None"
    using assms(1) by (auto simp: find_None_iff votes_def)
  then show ?thesis
    by (auto simp: get_transaction_with_agreement_def Let_def)
qed

lemma minority_outvoted:
  assumes "length (filter (\<lambda>r. r \<noteq> v) (collect_responses J http 0 urls signature)) < k"
    and "get_transaction_with_agreement J http urls k signature = Ok tx"
  shows "tx = v"
proof (rule ccontr)
  assume "tx \<noteq> v"
  then have "votes (collect_responses J http 0 urls signature) tx < k"
    using votes_others [of v tx "collect_responses J http 0 urls signature"] assms(1) by simp
  then show False
    using agreement_Ok(1) [OF assms(2)] by simp
qed

section \<open>What a reply shows\<close>

text \<open>
  A transaction that landed on Solana: whether it failed, the account keys its message lists and its
  top-level instructions, each with the index of its program among the keys and its data. At most 256
  keys fit, because the message indexes them with a byte.
\<close>

record sol_transaction =
  st_failed :: bool
  st_keys :: "string list"
  st_instructions :: "(nat \<times> bytes) list"

text \<open>
  A reply of \<open>getTransaction\<close> that shows a transaction, as the RPC documents its \<open>json\<close> encoding: the
  status metadata has an error exactly if the transaction failed, and the message lists the keys and
  the instructions in order.
\<close>

definition shows_instruction :: "crates \<Rightarrow> 'j json \<Rightarrow> 'j \<Rightarrow> nat \<times> bytes \<Rightarrow> bool" where
  "shows_instruction c J v i \<longleftrightarrow>
     j_as_u64 J (j_index J v ''programIdIndex'') = Some (word_of_nat (fst i)) \<and>
     (\<exists>s. j_as_str J (j_index J v ''data'') = Some s \<and> bs58_decode c s = Some (snd i))"

definition shows_transaction :: "crates \<Rightarrow> 'j json \<Rightarrow> 'j \<Rightarrow> sol_transaction \<Rightarrow> bool" where
  "shows_transaction c J reply t \<longleftrightarrow>
     (\<exists>result keys instructions. let message = j_index J (j_index J result ''transaction'') ''message'' in
        j_get J reply ''result'' = Some result \<and> \<not> j_is_null J result \<and>
        (j_is_null J (j_index J (j_index J result ''meta'') ''err'') \<longleftrightarrow> \<not> st_failed t) \<and>
        j_as_array J (j_index J message ''accountKeys'') = Some keys \<and>
        list_all2 (\<lambda>v k. j_as_str J v = Some k) keys (st_keys t) \<and> length (st_keys t) \<le> 256 \<and>
        j_as_array J (j_index J message ''instructions'') = Some instructions \<and>
        list_all2 (shows_instruction c J) instructions (st_instructions t) \<and>
        (\<forall>i \<in> set (st_instructions t). fst i < length (st_keys t)))"

text \<open>
  What the canister extracts from such a reply is an instruction of the program, of a transaction that
  did not fail.
\<close>

lemma opaq_instruction_data_shown:
  assumes "opaq_instruction_data c J reply program_id = Ok data" and "shows_transaction c J reply t"
  obtains p where "(p, data) \<in> set (st_instructions t)" and "p < length (st_keys t)"
    and "st_keys t ! p = program_id" and "\<not> st_failed t"
proof -
  from assms(2) obtain result keys instructions where
    result: "j_get J reply ''result'' = Some result"
    and err: "j_is_null J (j_index J (j_index J result ''meta'') ''err'') \<longleftrightarrow> \<not> st_failed t"
    and keys: "j_as_array J (j_index J (j_index J (j_index J result ''transaction'') ''message'')
        ''accountKeys'') = Some keys"
      "list_all2 (\<lambda>v k. j_as_str J v = Some k) keys (st_keys t)" "length (st_keys t) \<le> 256"
    and ins: "j_as_array J (j_index J (j_index J (j_index J result ''transaction'') ''message'')
        ''instructions'') = Some instructions"
      "list_all2 (shows_instruction c J) instructions (st_instructions t)"
      "\<forall>i \<in> set (st_instructions t). fst i < length (st_keys t)"
    unfolding shows_transaction_def Let_def by blast
  have strs: "map (\<lambda>v. case j_as_str J v of Some s \<Rightarrow> s | None \<Rightarrow> []) keys = st_keys t"
    using keys(2) by (auto simp: list_all2_conv_all_nth intro!: nth_equalityI)
  from assms(1) obtain i v s where ok: "\<not> st_failed t"
    and i: "position (\<lambda>k. k = program_id) (st_keys t) = Some i"
    and v: "find (\<lambda>v. j_as_u64 J (j_index J v ''programIdIndex'') = Some (word_of_nat i)) instructions =
        Some v"
    and s: "j_as_str J (j_index J v ''data'') = Some s" "bs58_decode c s = Some data"
    by (auto simp: opaq_instruction_data_def Let_def outcome_simps result err keys(1) ins(1) strs)
  have v_in: "v \<in> set instructions" "j_as_u64 J (j_index J v ''programIdIndex'') = Some (word_of_nat i)"
    using find_SomeD [OF v] by simp_all
  obtain j where j: "j < length instructions" "v = instructions ! j"
    using v_in(1) by (auto simp: in_set_conv_nth)
  define q where "q = st_instructions t ! j"
  have q: "q \<in> set (st_instructions t)" "shows_instruction c J v q"
    using j list_all2_lengthD [OF ins(2)] list_all2_nthD [OF ins(2) j(1)] by (simp_all add: q_def)
  have "word_of_nat (fst q) = (word_of_nat i :: u64)" "snd q = data"
    using q(2) v_in(2) s by (auto simp: shows_instruction_def)
  moreover have "fst q < 256" "i < 256"
    using ins(3) q(1) keys(3) position_Some(1) [OF i] by fastforce+
  ultimately have "fst q = i"
    by (simp add: word_of_nat_eq_iff take_bit_nat_eq_self)
  then show ?thesis
    using that [of i] q(1) position_Some [OF i] ok \<open>snd q = data\<close> by (cases q) simp
qed

section \<open>What is attested\<close>

lemma check_claims_Ok:
  assumes "check_claims data n d oc = Ok u"
  obtains args where "data = 8 # args" and "length args = 384"
    and "\<forall>accounts. decode accounts data = Some (Xburn (b32_at args 256) n d oc)"
proof -
  from assms obtain args where args: "data = 8 # args" "length args = 384"
    and sub: "sub data 289 32 = b32_bytes n" "sub data 321 32 = b32_bytes d"
      "sub data 353 32 = b32_bytes oc"
    by (auto simp: check_claims_def Let_def outcome_simps TAG_XBURN_def xburn_offsets
        split: list.splits)
  have "b32_at args 288 = n" "b32_at args 320 = d" "b32_at args 352 = oc"
    using sub by (simp_all add: args(1) b32_at_def sub_def)
  then show ?thesis
    using that args by (simp add: decode_def)
qed

lemma check_claims_complete:
  assumes "length args = 384" and "b32_at args 288 = n" and "b32_at args 320 = d"
    and "b32_at args 352 = oc"
  shows "check_claims (8 # args) n d oc = Ok ()"
proof -
  have "sub args 288 32 = b32_bytes n" "sub args 320 32 = b32_bytes d" "sub args 352 32 = b32_bytes oc"
    using assms by (simp_all add: sub_eq_b32)
  then have "sub (8 # args) 289 32 = b32_bytes n" "sub (8 # args) 321 32 = b32_bytes d"
    "sub (8 # args) 353 32 = b32_bytes oc"
    by (simp_all add: sub_def)
  then show ?thesis
    using assms(1) by (simp add: check_claims_def TAG_XBURN_def xburn_offsets)
qed

lemma verify_xburn_transaction_Ok:
  assumes "verify_xburn_transaction c J http urls k program_id signature nh dh oh = Ok reply"
  obtains n d oc tx data where "solana_parse_bytes32 c nh = Ok n" and "solana_parse_bytes32 c dh = Ok d"
    and "solana_parse_bytes32 c oh = Ok oc"
    and "get_transaction_with_agreement J http urls (unat k) signature = Ok tx"
    and "opaq_instruction_data c J tx program_id = Ok data"
    and "check_claims data n d oc = Ok ()" and "reply = (signature, nh, dh, oh)"
  using assms by (auto simp: verify_xburn_transaction_def outcome_simps)

text \<open>An instruction other than a burn is refused, whatever the claims.\<close>

lemma check_claims_other_tag:
  "hd data \<noteq> 8 \<Longrightarrow> data \<noteq> [] \<Longrightarrow> check_claims data n d oc = Err (WrongTag (Some (hd data)))"
  by (cases data) (simp_all add: check_claims_def TAG_XBURN_def)

text \<open>Replicas whose responses differ in headers only agree after the transform.\<close>

lemma transform_strips_headers:
  "transform_solana_response r = transform_solana_response r' \<longleftrightarrow>
     hr_status r = hr_status r' \<and> hr_body r = hr_body r'"
  by (auto simp: transform_solana_response_def)

end
