(* ===== verification/Solana_Tx.thy ===== *)
theory Solana_Tx
  imports Solana_Read Pool_Errors
begin

text \<open>
  The canister's Solana write side (\<open>canister/opaq-attestor/src/solana_tx.rs\<close>): the compact length
  encoding, the program-derived address, the legacy message and \<open>submit_add_pending_xburn\<close>. A
  reference reader of messages, written from the wire format, says what the bytes mean.
\<close>

section \<open>The code\<close>

definition TAG_ADD_PENDING_XBURN :: u8 where "TAG_ADD_PENDING_XBURN = 6"
definition SYSTEM_PROGRAM_ID :: bytes32 where "SYSTEM_PROGRAM_ID = 0"

text \<open>\<open>transform_solana_rpc\<close>, the same function under the name this file registers.\<close>

definition transform_solana_rpc :: "http_result \<Rightarrow> http_result" where
  "transform_solana_rpc response =
     \<lparr>hr_status = hr_status response, hr_headers = [], hr_body = hr_body response\<rparr>"

definition rpc_call ::
    "'j json \<Rightarrow> (http_args \<Rightarrow> http_result option) \<Rightarrow> string \<Rightarrow> string \<Rightarrow> json_lit \<Rightarrow> 'j attested" where
  "rpc_call J http_request rpc_url method params =
     (let body = LObj [(''jsonrpc'', LStr ''2.0''), (''id'', LNum 1), (''method'', LStr method),
                       (''params'', params)]
      in
      and_then (ok_or (http_request (json_post rpc_url ''transform_solana_rpc'' body))
        (Outcall method)) (\<lambda>response.
      and_then (ok_or (j_from_slice J (hr_body response)) (BadJson method)) (\<lambda>json.
        if j_get J json ''error'' \<noteq> None then Err (RpcError method) else Ok json)))"

text \<open>The loop of \<open>shortvec_encode\<close>, seven bits a step; \<open>n\<close> is the \<open>usize\<close>.\<close>

function shortvec_encode :: "nat \<Rightarrow> bytes" where
  "shortvec_encode n =
     (let byte = word_of_nat (n mod 128); n' = n div 128 in
      if n' \<noteq> 0 then (byte OR 0x80) # shortvec_encode n' else [byte])"
  by pat_completeness auto
termination
  by (relation "measure id") (auto intro: Suc_leI div_less_dividend)

declare shortvec_encode.simps [simp del]

definition is_on_curve :: "crates \<Rightarrow> bytes32 \<Rightarrow> bool" where
  "is_on_curve c b = edwards_decompresses c b"

definition pda_candidate :: "crates \<Rightarrow> bytes \<Rightarrow> bytes32 \<Rightarrow> u8 \<Rightarrow> bytes32" where
  "pda_candidate c seed program_id bump =
     sha256 c (seed @ [bump] @ b32_bytes program_id @
       map of_char ''ProgramDerivedAddress'')"

fun find_bump :: "crates \<Rightarrow> bytes \<Rightarrow> bytes32 \<Rightarrow> u8 list \<Rightarrow> bytes32 attested" where
  "find_bump c seed program_id [] = Err NoBump"
| "find_bump c seed program_id (bump # bumps) =
     (let candidate = pda_candidate c seed program_id bump in
      if \<not> is_on_curve c candidate then Ok candidate else find_bump c seed program_id bumps)"

text \<open>\<open>(0u8..=255).rev()\<close>.\<close>

definition bumps_down :: "u8 list" where
  "bumps_down = map word_of_nat (rev [0..<256])"

definition find_program_address_sha :: "crates \<Rightarrow> bytes \<Rightarrow> bytes32 \<Rightarrow> bytes32 attested" where
  "find_program_address_sha c seed program_id = find_bump c seed program_id bumps_down"

definition build_message :: "bytes32 \<Rightarrow> bytes32 \<Rightarrow> bytes32 \<Rightarrow> bytes \<Rightarrow> bytes32 \<Rightarrow> bytes" where
  "build_message fee_payer pda program_id data recent_blockhash =
     (let account_keys = [fee_payer, pda, SYSTEM_PROGRAM_ID, program_id] in
      [1, 0, 2]
      @ shortvec_encode (length account_keys) @ concat (map b32_bytes account_keys)
      @ b32_bytes recent_blockhash
      @ shortvec_encode 1
      @ [3]
      @ shortvec_encode 3 @ [0, 1, 2]
      @ shortvec_encode (length data) @ data)"

definition parse32 :: "crates \<Rightarrow> string \<Rightarrow> bytes32 attested" where
  "parse32 c s =
     and_then (ok_or (hex_decode c (trim_0x s)) (BadHex s)) (\<lambda>b. ok_or (try_into32 b) NotBytes32)"

definition attest_data :: "bytes32 \<Rightarrow> bytes32 \<Rightarrow> bytes32 \<Rightarrow> bytes" where
  "attest_data nullifier dest_chain out_commitment =
     [TAG_ADD_PENDING_XBURN] @ b32_bytes nullifier @ b32_bytes dest_chain @ b32_bytes out_commitment"

definition wire_transaction :: "bytes \<Rightarrow> bytes \<Rightarrow> bytes" where
  "wire_transaction sig message = shortvec_encode 1 @ sig @ message"

text \<open>\<open>submit_add_pending_xburn\<close> up to the bytes it sends, and with the submission.\<close>

definition signed_add_pending_xburn ::
    "crates \<Rightarrow> management \<Rightarrow> 'j json \<Rightarrow> outcalls \<Rightarrow> string \<Rightarrow> string \<Rightarrow> string \<Rightarrow> string \<Rightarrow> string
      \<Rightarrow> bytes attested" where
  "signed_add_pending_xburn c m J http rpc_url program_id_b58 nullifier_hex dest_chain_hex
       out_commitment_hex =
     and_then (ok_or (bs58_decode c program_id_b58) BadProgramId) (\<lambda>program_bytes.
     and_then (ok_or (try_into32 program_bytes) ProgramIdLength) (\<lambda>program_id.
     and_then (find_program_address_sha c (map of_char ''xpending'') program_id) (\<lambda>pda.
     and_then (parse32 c nullifier_hex) (\<lambda>nullifier.
     and_then (parse32 c dest_chain_hex) (\<lambda>dest_chain.
     and_then (parse32 c out_commitment_hex) (\<lambda>out_commitment.
     let data = attest_data nullifier dest_chain out_commitment in
     and_then (ok_or (schnorr_public_key m schnorr_key_id) PublicKeyUnavailable) (\<lambda>public_key.
     and_then (ok_or (try_into32 public_key) BadPublicKey) (\<lambda>fee_payer.
     and_then (rpc_call J (http 0) rpc_url ''getLatestBlockhash''
       (LArr [LObj [(''commitment'', LStr ''finalized'')]])) (\<lambda>blockhash_resp.
     let ix = j_index J in
     and_then (ok_or (j_as_str J (ix (ix (ix blockhash_resp ''result'') ''value'') ''blockhash''))
       (MissingField ''blockhash'')) (\<lambda>blockhash_b58.
     and_then (ok_or (bs58_decode c blockhash_b58) BadBlockhash) (\<lambda>blockhash.
     and_then (ok_or (try_into32 blockhash) BlockhashLength) (\<lambda>recent_blockhash.
     let message = build_message fee_payer pda program_id data recent_blockhash in
     and_then (ok_or (sign_with_schnorr m schnorr_key_id message) SigningFailed) (\<lambda>sig.
       Ok (wire_transaction sig message))))))))))))))"

definition submit_add_pending_xburn ::
    "crates \<Rightarrow> management \<Rightarrow> 'j json \<Rightarrow> outcalls \<Rightarrow> string \<Rightarrow> string \<Rightarrow> string \<Rightarrow> string \<Rightarrow> string
      \<Rightarrow> string attested" where
  "submit_add_pending_xburn c m J http rpc_url program_id_b58 nullifier_hex dest_chain_hex
       out_commitment_hex =
     and_then (signed_add_pending_xburn c m J http rpc_url program_id_b58 nullifier_hex
       dest_chain_hex out_commitment_hex) (\<lambda>wire.
     and_then (rpc_call J (http 1) rpc_url ''sendTransaction''
       (LArr [LStr (base64_encode c wire), LObj [(''encoding'', LStr ''base64'')]])) (\<lambda>submit.
       ok_or (j_as_str J (j_index J submit ''result'')) (MissingField ''result'')))"

section \<open>Compact lengths\<close>

text \<open>The reader of the wire format, with the number of bytes it may use.\<close>

fun shortvec_decode :: "nat \<Rightarrow> bytes \<Rightarrow> (nat \<times> bytes) option" where
  "shortvec_decode 0 bs = None"
| "shortvec_decode (Suc k) [] = None"
| "shortvec_decode (Suc k) (b # bs) =
     (if unat b < 128 then Some (unat b, bs)
      else map_option (\<lambda>(n, rest). (unat b - 128 + 128 * n, rest)) (shortvec_decode k bs))"

lemma unat_low7: "unat (word_of_nat (n mod 128) :: byte) = n mod 128"
proof -
  have "n mod 128 < 128" by simp
  then have "n mod 128 < 2 ^ LENGTH(8)" by simp
  then show ?thesis by (simp add: unat_of_nat)
qed

lemma take_bit_and_push_bit: "take_bit k x AND push_bit k y = (0 :: byte)"
  by (rule bit_eqI) (auto simp: bit_simps)

lemma unat_or_high: "unat (word_of_nat (n mod 128) OR 0x80 :: byte) = n mod 128 + 128"
proof -
  let ?w = "word_of_nat (n mod 128) :: byte"
  have "?w = take_bit 7 (word_of_nat n)"
    using take_bit_of_nat [of 7 n, where 'a = "8 word"] by (simp add: take_bit_eq_mod [of 7 n])
  then have "?w AND 0x80 = 0"
    using take_bit_and_push_bit [of 7 "word_of_nat n" 1] by simp
  then have "?w OR 0x80 = ?w + 0x80"
    by (simp add: disjunctive_add_eq_or)
  moreover have "unat (?w + 0x80) = n mod 128 + 128"
    using mod_less_divisor [of 128 n] by (simp add: unat_word_ariths unat_low7)
  ultimately show ?thesis by simp
qed

lemma shortvec_decode_encode:
  "n < 128 ^ k \<Longrightarrow> 0 < k \<Longrightarrow> shortvec_decode k (shortvec_encode n @ rest) = Some (n, rest)"
proof (induction n arbitrary: k rule: shortvec_encode.induct)
  case (1 n)
  obtain j where k: "k = Suc j" using 1(3) by (cases k) auto
  show ?case
  proof (cases "n div 128 = 0")
    case True
    then have "n < 128" by simp
    then have "n mod 128 = n" and "unat (word_of_nat n :: byte) = n"
      by (simp_all add: unat_of_nat)
    then show ?thesis
      using True \<open>n < 128\<close> by (simp add: k shortvec_encode.simps [of n])
  next
    case False
    have small: "n div 128 < 128 ^ j"
      using 1(2) k by (simp add: less_mult_imp_div_less mult.commute)
    then have "0 < j" using False by (cases j) auto
    then have "shortvec_decode j (shortvec_encode (n div 128) @ rest) = Some (n div 128, rest)"
      using 1(1) [OF refl refl False small] by simp
    then show ?thesis
      using False by (simp add: k shortvec_encode.simps [of n] unat_or_high)
  qed
qed

lemma length_shortvec: "length (shortvec_encode n) \<le> k \<longleftrightarrow> n < 128 ^ k" if "0 < k"
  using that
proof (induction n arbitrary: k rule: shortvec_encode.induct)
  case (1 n)
  obtain j where k: "k = Suc j" using 1(2) by (cases k) auto
  show ?case
  proof (cases "n div 128 = 0")
    case True
    then have "n < 128" by simp
    moreover have "(128 :: nat) ^ 1 \<le> 128 ^ k"
      using 1(2) by (intro power_increasing) auto
    ultimately show ?thesis
      using True 1(2) by (simp add: shortvec_encode.simps [of n])
  next
    case False
    have "length (shortvec_encode n) = Suc (length (shortvec_encode (n div 128)))"
      using False by (simp add: shortvec_encode.simps [of n])
    moreover have "n < 128 ^ Suc j \<longleftrightarrow> n div 128 < 128 ^ j"
      by (simp add: div_less_iff_less_mult mult.commute)
    moreover have "0 < length (shortvec_encode (n div 128))"
      by (subst shortvec_encode.simps) (simp add: Let_def)
    ultimately show ?thesis
      using 1(1) [OF refl refl False, of j] False by (cases j) (auto simp: k)
  qed
qed

section \<open>Program-derived address\<close>

text \<open>The candidate with the highest bump that is off the curve; an error if all are on it.\<close>

lemma find_bump_cases:
  "(find_bump c seed pid bs = Err NoBump \<and> (\<forall>b \<in> set bs. is_on_curve c (pda_candidate c seed pid b))) \<or>
   (\<exists>pre b post. bs = pre @ b # post \<and> (\<forall>x \<in> set pre. is_on_curve c (pda_candidate c seed pid x)) \<and>
      \<not> is_on_curve c (pda_candidate c seed pid b) \<and>
      find_bump c seed pid bs = Ok (pda_candidate c seed pid b))"
proof (induction bs)
  case Nil
  then show ?case by simp
next
  case (Cons b bs)
  show ?case
  proof (cases "is_on_curve c (pda_candidate c seed pid b)")
    case False
    have "b # bs = [] @ b # bs" by simp
    then show ?thesis
      using False by (intro disjI2 exI [of _ "[]"] exI [of _ b] exI [of _ bs]) (simp add: Let_def)
  next
    case True
    then have step: "find_bump c seed pid (b # bs) = find_bump c seed pid bs"
      by (simp add: Let_def)
    from Cons show ?thesis
      unfolding step
    proof (elim disjE exE conjE)
      fix pre x post
      assume "bs = pre @ x # post" "\<forall>y \<in> set pre. is_on_curve c (pda_candidate c seed pid y)"
        "\<not> is_on_curve c (pda_candidate c seed pid x)"
        "find_bump c seed pid bs = Ok (pda_candidate c seed pid x)"
      then show "(find_bump c seed pid bs = Err NoBump \<and>
            (\<forall>x \<in> set (b # bs). is_on_curve c (pda_candidate c seed pid x))) \<or>
          (\<exists>pre x post. b # bs = pre @ x # post \<and>
            (\<forall>y \<in> set pre. is_on_curve c (pda_candidate c seed pid y)) \<and>
            \<not> is_on_curve c (pda_candidate c seed pid x) \<and>
            find_bump c seed pid bs = Ok (pda_candidate c seed pid x))"
        using True by (intro disjI2 exI [of _ "b # pre"] exI [of _ x] exI [of _ post]) simp
    qed (use True in simp)
  qed
qed

section \<open>Reference reader of messages\<close>

record compiled_instruction =
  ci_program :: nat
  ci_accounts :: "nat list"
  ci_data :: bytes

record solana_message =
  msg_signatures :: nat
  msg_readonly_signed :: nat
  msg_readonly_unsigned :: nat
  msg_keys :: "bytes32 list"
  msg_blockhash :: bytes32
  msg_instructions :: "compiled_instruction list"

fun take_keys :: "nat \<Rightarrow> bytes \<Rightarrow> (bytes32 list \<times> bytes) option" where
  "take_keys 0 bs = Some ([], bs)"
| "take_keys (Suc k) bs =
     (if length bs < 32 then None
      else map_option (\<lambda>(ks, rest). (b32_at bs 0 # ks, rest)) (take_keys k (drop 32 bs)))"

definition take_counted :: "bytes \<Rightarrow> (bytes \<times> bytes) option" where
  "take_counted bs =
     (case shortvec_decode 3 bs of None \<Rightarrow> None
      | Some (n, rest) \<Rightarrow> if n \<le> length rest then Some (take n rest, drop n rest) else None)"

fun take_instructions :: "nat \<Rightarrow> bytes \<Rightarrow> (compiled_instruction list \<times> bytes) option" where
  "take_instructions 0 bs = Some ([], bs)"
| "take_instructions (Suc k) [] = None"
| "take_instructions (Suc k) (p # bs) =
     (case take_counted bs of None \<Rightarrow> None
      | Some (accounts, bs) \<Rightarrow>
          (case take_counted bs of None \<Rightarrow> None
           | Some (data, bs) \<Rightarrow>
               map_option (\<lambda>(is, rest). (\<lparr>ci_program = unat p, ci_accounts = map unat accounts,
                   ci_data = data\<rparr> # is, rest))
                 (take_instructions k bs)))"

definition parse_message :: "bytes \<Rightarrow> solana_message option" where
  "parse_message bs =
     (case bs of
        a # b # c # bs \<Rightarrow>
          (case shortvec_decode 3 bs of None \<Rightarrow> None
           | Some (nk, bs) \<Rightarrow>
               (case take_keys nk bs of None \<Rightarrow> None
                | Some (keys, bs) \<Rightarrow>
                    if length bs < 32 then None
                    else (case shortvec_decode 3 (drop 32 bs) of None \<Rightarrow> None
                          | Some (ni, bs') \<Rightarrow>
                              (case take_instructions ni bs' of
                                 Some (is, []) \<Rightarrow>
                                   Some \<lparr>msg_signatures = unat a, msg_readonly_signed = unat b,
                                         msg_readonly_unsigned = unat c, msg_keys = keys,
                                         msg_blockhash = b32_at bs 0, msg_instructions = is\<rparr>
                               | _ \<Rightarrow> None))))
      | _ \<Rightarrow> None)"

text \<open>A wire transaction: the signatures, 64 bytes each, then the message.\<close>

definition parse_wire :: "bytes \<Rightarrow> (bytes list \<times> bytes) option" where
  "parse_wire bs =
     (case shortvec_decode 3 bs of None \<Rightarrow> None
      | Some (n, rest) \<Rightarrow>
          if 64 * n \<le> length rest
          then Some (map (\<lambda>i. sub rest (64 * i) 64) [0..<n], drop (64 * n) rest) else None)"

text \<open>
  The account infos an instruction runs with: the key at each index, a signer if the key is among
  the message's signers.
\<close>

definition message_infos :: "solana_message \<Rightarrow> compiled_instruction \<Rightarrow> account_info list" where
  "message_infos msg i =
     map (\<lambda>k. \<lparr>ai_key = msg_keys msg ! k, is_signer = k < msg_signatures msg\<rparr>) (ci_accounts i)"

definition writable_index :: "solana_message \<Rightarrow> nat \<Rightarrow> bool" where
  "writable_index msg k \<longleftrightarrow>
     (if k < msg_signatures msg then k < msg_signatures msg - msg_readonly_signed msg
      else k < length (msg_keys msg) - msg_readonly_unsigned msg)"

lemma take_keys_concat:
  "take_keys (length ks) (concat (map b32_bytes ks) @ rest) = Some (ks, rest)"
proof (induction ks)
  case (Cons k ks)
  then show ?case by (simp add: b32_at_def sub_prefix)
qed simp

lemma take_counted_encode:
  assumes "length xs < 128 ^ 3"
  shows "take_counted (shortvec_encode (length xs) @ xs @ rest) = Some (xs, rest)"
  using shortvec_decode_encode [OF assms, of "xs @ rest"] by (simp add: take_counted_def)

lemma take_keys_message:
  "take_keys 4 (b32_bytes a @ b32_bytes b @ b32_bytes c @ b32_bytes d @ rest) = Some ([a, b, c, d], rest)"
  using take_keys_concat [of "[a, b, c, d]" rest] by (simp add: numeral_eq_Suc)

lemma parse_build_message:
  assumes "length data < 128 ^ 3"
  shows "parse_message (build_message fee_payer pda program_id data recent_blockhash) = Some
    \<lparr>msg_signatures = 1, msg_readonly_signed = 0, msg_readonly_unsigned = 2,
     msg_keys = [fee_payer, pda, SYSTEM_PROGRAM_ID, program_id], msg_blockhash = recent_blockhash,
     msg_instructions = [\<lparr>ci_program = 3, ci_accounts = [0, 1, 2], ci_data = data\<rparr>]\<rparr>"
proof -
  note dec = shortvec_decode_encode [where k = 3, simplified]
  have accounts: "take_counted (shortvec_encode 3 @ 0 # 1 # 2 # rest) = Some ([0, 1, 2], rest)" for rest
    using take_counted_encode [of "[0, 1, 2]" rest] by (simp flip: numeral_3_eq_3)
  have data: "take_counted (shortvec_encode (length data) @ data) = Some (data, [])"
    using take_counted_encode [OF assms, of "[]"] by simp
  have "take_instructions 1 (3 # shortvec_encode 3 @ 0 # 1 # 2 # shortvec_encode (length data) @ data)
      = Some ([\<lparr>ci_program = 3, ci_accounts = [0, 1, 2], ci_data = data\<rparr>], [])"
    using accounts data by simp
  then show ?thesis
    by (simp add: build_message_def parse_message_def dec take_keys_message b32_at_def sub_prefix)
qed

lemma parse_wire_transaction:
  "length sig = 64 \<Longrightarrow> parse_wire (wire_transaction sig message) = Some ([sig], message)"
  using shortvec_decode_encode [of 1 3 "sig @ message"]
  by (simp add: parse_wire_def wire_transaction_def sub_prefix)

end
