(* ===== verification/Attestor.thy ===== *)
theory Attestor
  imports Evm_Tx Solana_Tx
begin

text \<open>
  The canister as a whole. Both legs end in bytes for another chain: a signed EVM transaction that
  calls \<open>addPending\<close>, a signed Solana transaction that carries \<open>add_pending_xburn\<close>. The locale
  \<open>attestation_sink\<close> states what they have in common, that the bytes read back as the claims of the
  request; the last section runs the Solana transaction through the on-chain program.
\<close>

section \<open>The contract of the two legs\<close>

type_synonym claims = "bytes32 \<times> bytes32 \<times> bytes32"

locale attestation_sink =
  fixes wire :: "'q \<Rightarrow> bytes attested" and claimed :: "'q \<Rightarrow> claims option"
    and admissible :: "'q \<Rightarrow> bool" and reads :: "bytes \<Rightarrow> claims option"
  assumes sent_claims: "admissible q \<Longrightarrow> wire q = Ok b \<Longrightarrow> \<exists>t. claimed q = Some t \<and> reads b = Some t"
begin

text \<open>Two requests that send the same bytes make the same claims.\<close>

lemma wire_binds:
  assumes "admissible q" and "admissible q'" and "wire q = Ok b" and "wire q' = Ok b"
  shows "claimed q = claimed q'"
  using sent_claims [OF assms(1,3)] sent_claims [OF assms(2,4)] by auto

lemma malformed_not_sent: "admissible q \<Longrightarrow> claimed q = None \<Longrightarrow> wire q \<noteq> Ok b"
  using sent_claims by fastforce

end

definition outcome_option :: "('e, 'a) outcome \<Rightarrow> 'a option" where
  "outcome_option m = (case m of Inl _ \<Rightarrow> None | Inr x \<Rightarrow> Some x)"

lemma outcome_option_Ok [simp]: "outcome_option (Inr x) = Some x"
  by (simp add: outcome_option_def)

definition three :: "'a option \<Rightarrow> 'b option \<Rightarrow> 'c option \<Rightarrow> ('a \<times> 'b \<times> 'c) option" where
  "three a b c = (case (a, b, c) of (Some x, Some y, Some z) \<Rightarrow> Some (x, y, z) | _ \<Rightarrow> None)"

lemma three_Some [simp]: "three (Some x) (Some y) (Some z) = Some (x, y, z)"
  by (simp add: three_def)

section \<open>EVM leg\<close>

type_synonym evm_request =
  "crates \<times> management \<times> evm_rpc \<times> u64 \<times> string \<times> string \<times> string \<times> string \<times> string"

text \<open>Lawful codecs, a chain id whose EIP-155 \<open>v\<close> fits, a gas price reply of less than 4 GiB.\<close>

fun evm_admissible :: "evm_request \<Rightarrow> bool" where
  "evm_admissible (c, m, e, chain_id, rpc_url, pool, nh, dh, oh) \<longleftrightarrow>
     codec_laws c \<and> 2 * unat chain_id + 36 < 2 ^ 64 \<and>
     (case gas_price_reply e chain_id rpc_url of Inr reply \<Rightarrow> length reply < 2 ^ 32 | Inl _ \<Rightarrow> True)"

fun evm_wire :: "evm_request \<Rightarrow> bytes attested" where
  "evm_wire (c, m, e, chain_id, rpc_url, pool, nh, dh, oh) =
     signed_add_pending c m e chain_id rpc_url pool nh dh oh"

fun evm_claimed :: "evm_request \<Rightarrow> claims option" where
  "evm_claimed (c, m, e, chain_id, rpc_url, pool, nh, dh, oh) =
     three (outcome_option (parse_u256_hex c nh)) (outcome_option (parse_u256_hex c dh))
       (outcome_option (parse_u256_hex c oh))"

text \<open>The arguments of \<open>addPending(bytes32,uint256,uint256)\<close>, behind the four selector bytes.\<close>

definition evm_reads :: "bytes \<Rightarrow> claims option" where
  "evm_reads b =
     (case parse_legacy_tx b of None \<Rightarrow> None
      | Some t \<Rightarrow>
          if length (tx_data t) = 100
          then Some (b32_at (tx_data t) 4, b32_at (tx_data t) 36, b32_at (tx_data t) 68) else None)"

lemma signed_add_pending_Ok:
  assumes "signed_add_pending c m e chain_id rpc_url pool_address nullifier_hex dest_chain_hex
             out_commitment_hex = Ok raw"
  obtains to data pubkey from_addr nonce_hex nonce gas_hex gas_price where
    "hex_decode c (trim_0x pool_address) = Some to" and "length to = 20"
    and "add_pending_data c nullifier_hex dest_chain_hex out_commitment_hex = Ok data"
    and "evm_pubkey_sec1 c m = Ok (pubkey, from_addr)"
    and "nonce_reply c e chain_id rpc_url from_addr = Ok nonce_hex"
    and "u64_from_radix16 (trim_0x nonce_hex) = Some nonce"
    and "gas_price_reply e chain_id rpc_url = Ok gas_hex"
    and "hex_to_be_bytes c gas_hex = Ok gas_price"
    and "sign_legacy_tx c m pubkey nonce gas_price to data chain_id = Ok raw"
  using assms
  by (auto simp: signed_add_pending_def nonce_reply_def gas_price_reply_def Let_def outcome_simps
      split: prod.splits)

lemma add_pending_data_Ok:
  assumes "codec_laws c" and "add_pending_data c nh dh oh = Ok data"
  obtains n d oc where "parse_u256_hex c nh = Ok n" and "parse_u256_hex c dh = Ok d"
    and "parse_u256_hex c oh = Ok oc" and "length data = 100" and "b32_at data 4 = n"
    and "b32_at data 36 = d" and "b32_at data 68 = oc"
proof -
  from assms(2) obtain n d oc sel where p: "parse_u256_hex c nh = Ok n" "parse_u256_hex c dh = Ok d"
      "parse_u256_hex c oh = Ok oc" and sel: "hex_decode c SEL_ADD_PENDING = Some sel"
    and data: "data = sel @ b32_bytes n @ b32_bytes d @ b32_bytes oc"
    by (auto simp: add_pending_data_def outcome_simps)
  have len: "length sel = 4"
    using codec_lawsD(5) [OF assms(1) sel] by (simp add: SEL_ADD_PENDING_def)
  have "sub data 4 32 = b32_bytes n"
    using sub_middle [of sel 4 "b32_bytes n" 32 "b32_bytes d @ b32_bytes oc"] len by (simp add: data)
  moreover have "sub data 36 32 = b32_bytes d"
    using sub_middle [of "sel @ b32_bytes n" 36 "b32_bytes d" 32 "b32_bytes oc"] len
    by (simp add: data)
  moreover have "sub data 68 32 = b32_bytes oc"
    using sub_middle [of "sel @ b32_bytes n @ b32_bytes d" 68 "b32_bytes oc" 32 "[]"] len
    by (simp add: data)
  ultimately show ?thesis
    using that p len data by (simp add: b32_at_def)
qed

lemma evm_wire_reads:
  assumes "evm_admissible (c, m, e, chain_id, rpc_url, pool, nh, dh, oh)"
    and "signed_add_pending c m e chain_id rpc_url pool nh dh oh = Ok raw"
  obtains n d oc to data pubkey from_addr nonce_hex nonce gas_hex gas_price where
    "parse_u256_hex c nh = Ok n" and "parse_u256_hex c dh = Ok d" and "parse_u256_hex c oh = Ok oc"
    and "hex_decode c (trim_0x pool) = Some to"
    and "length data = 100" and "b32_at data 4 = n" and "b32_at data 36 = d" and "b32_at data 68 = oc"
    and "add_pending_data c nh dh oh = Ok data"
    and "evm_pubkey_sec1 c m = Ok (pubkey, from_addr)"
    and "nonce_reply c e chain_id rpc_url from_addr = Ok nonce_hex"
    and "u64_from_radix16 (trim_0x nonce_hex) = Some nonce"
    and "gas_price_reply e chain_id rpc_url = Ok gas_hex"
    and "hex_to_be_bytes c gas_hex = Ok gas_price"
    and "own_transaction c pubkey chain_id
      \<lparr>tx_nonce = unat nonce, tx_gas_price = nat_of_be gas_price, tx_gas_limit = 200000, tx_to = to,
       tx_value = 0, tx_data = data, tx_v = 0, tx_r = 0, tx_s = 0\<rparr> raw"
proof -
  from assms(1) have laws: "codec_laws c" and chain: "2 * unat chain_id + 36 < 2 ^ 64"
    by simp_all
  obtain to data pubkey from_addr nonce_hex nonce gas_hex gas_price where
    s: "hex_decode c (trim_0x pool) = Some to" "length to = 20"
      "add_pending_data c nh dh oh = Ok data" "evm_pubkey_sec1 c m = Ok (pubkey, from_addr)"
      "nonce_reply c e chain_id rpc_url from_addr = Ok nonce_hex"
      "u64_from_radix16 (trim_0x nonce_hex) = Some nonce"
      "gas_price_reply e chain_id rpc_url = Ok gas_hex"
      "hex_to_be_bytes c gas_hex = Ok gas_price"
    and sign: "sign_legacy_tx c m pubkey nonce gas_price to data chain_id = Ok raw"
    by (rule signed_add_pending_Ok [OF assms(2)])
  obtain n d oc where f: "parse_u256_hex c nh = Ok n" "parse_u256_hex c dh = Ok d"
      "parse_u256_hex c oh = Ok oc" "length data = 100" "b32_at data 4 = n" "b32_at data 36 = d"
      "b32_at data 68 = oc"
    by (rule add_pending_data_Ok [OF laws s(3)])
  have "length gas_price < 2 ^ 32"
    using assms(1) length_hex_to_be_bytes [OF laws s(8)] s(7) by simp
  then have "length data + length gas_price < 2 ^ 63"
    using f(4) by simp
  from sign_legacy_tx_own [OF sign s(2) this chain] show ?thesis
    by (rule that [OF f(1-3) s(1) f(4-7) s(3-8)])
qed

lemma own_transaction_data: "own_transaction c pk chain_id t raw \<Longrightarrow>
    \<exists>t'. parse_legacy_tx raw = Some t' \<and> tx_data t' = tx_data t"
  by (auto simp: own_transaction_def)

interpretation evm_leg: attestation_sink evm_wire evm_claimed evm_admissible evm_reads
proof
  fix q b
  assume a: "evm_admissible q" and w: "evm_wire q = Ok b"
  obtain c m e chain_id rpc_url pool nh dh oh where
    q: "q = (c, m, e, chain_id, rpc_url, pool, nh, dh, oh)"
    by (metis surj_pair)
  show "\<exists>t. evm_claimed q = Some t \<and> evm_reads b = Some t"
    using a w unfolding q evm_wire.simps
    by (rule evm_wire_reads) (auto simp: evm_reads_def dest!: own_transaction_data)
qed

section \<open>Solana leg\<close>

type_synonym 'j solana_request =
  "crates \<times> management \<times> 'j json \<times> outcalls \<times> string \<times> string \<times> string \<times> string \<times> string"

text \<open>The management canister's Ed25519 signatures have 64 bytes.\<close>

definition schnorr_law :: "management \<Rightarrow> bool" where
  "schnorr_law m \<longleftrightarrow> (\<forall>k msg sig. sign_with_schnorr m k msg = Some sig \<longrightarrow> length sig = 64)"

fun solana_admissible :: "'j solana_request \<Rightarrow> bool" where
  "solana_admissible (c, m, J, http, rpc_url, program_id, nh, dh, oh) \<longleftrightarrow> schnorr_law m"

fun solana_wire :: "'j solana_request \<Rightarrow> bytes attested" where
  "solana_wire (c, m, J, http, rpc_url, program_id, nh, dh, oh) =
     signed_add_pending_xburn c m J http rpc_url program_id nh dh oh"

fun solana_claimed :: "'j solana_request \<Rightarrow> claims option" where
  "solana_claimed (c, m, J, http, rpc_url, program_id, nh, dh, oh) =
     three (outcome_option (parse32 c nh)) (outcome_option (parse32 c dh))
       (outcome_option (parse32 c oh))"

text \<open>The one instruction of a wire transaction, and the attestation it decodes to.\<close>

definition wire_instruction :: "bytes \<Rightarrow> (solana_message \<times> compiled_instruction) option" where
  "wire_instruction b =
     (case parse_wire b of
        Some ([sig], message) \<Rightarrow>
          (case parse_message message of
             Some msg \<Rightarrow> (case msg_instructions msg of [i] \<Rightarrow> Some (msg, i) | _ \<Rightarrow> None)
           | None \<Rightarrow> None)
      | _ \<Rightarrow> None)"

definition solana_reads :: "bytes \<Rightarrow> claims option" where
  "solana_reads b =
     (case wire_instruction b of None \<Rightarrow> None
      | Some (msg, i) \<Rightarrow>
          (case decode (message_infos msg i) (ci_data i) of
             Some (Attest operator n d oc) \<Rightarrow> Some (n, d, oc) | _ \<Rightarrow> None))"

lemma signed_add_pending_xburn_Ok:
  assumes "signed_add_pending_xburn c m J http rpc_url program_id_b58 nh dh oh = Ok raw"
  obtains program_id pda n d oc payer blockhash sig where
    "bs58_decode c program_id_b58 = Some (b32_bytes program_id)"
    and "find_program_address_sha c (map of_char ''xpending'') program_id = Ok pda"
    and "parse32 c nh = Ok n" and "parse32 c dh = Ok d" and "parse32 c oh = Ok oc"
    and "schnorr_public_key m schnorr_key_id = Some (b32_bytes payer)"
    and "sign_with_schnorr m schnorr_key_id
           (build_message payer pda program_id (attest_data n d oc) blockhash) = Some sig"
    and "raw = wire_transaction sig (build_message payer pda program_id (attest_data n d oc) blockhash)"
  using assms by (auto simp: signed_add_pending_xburn_def Let_def outcome_simps)

lemma length_attest_data [simp]: "length (attest_data n d oc) = 97"
  by (simp add: attest_data_def)

lemma attest_data_args:
  obtains args where "attest_data n d oc = 6 # args" and "length args = 96"
    and "b32_at args 0 = n" and "b32_at args 32 = d" and "b32_at args 64 = oc"
proof -
  let ?args = "b32_bytes n @ b32_bytes d @ b32_bytes oc"
  have "b32_at ?args 0 = n" "b32_at ?args 32 = d"
    by (simp_all add: b32_at_def sub_prefix sub_middle)
  moreover have "b32_at ?args 64 = oc"
    using sub_middle [of "b32_bytes n @ b32_bytes d" 64 "b32_bytes oc" 32 "[]"]
    by (simp add: b32_at_def)
  ultimately show ?thesis
    using that [of ?args] by (simp add: attest_data_def TAG_ADD_PENDING_XBURN_def)
qed

text \<open>What the signed bytes say: one signer, the registry account, the program, the attestation.\<close>

definition attest_infos :: "bytes32 \<Rightarrow> bytes32 \<Rightarrow> account_info list" where
  "attest_infos payer pda =
     [\<lparr>ai_key = payer, is_signer = True\<rparr>, \<lparr>ai_key = pda, is_signer = False\<rparr>,
      \<lparr>ai_key = SYSTEM_PROGRAM_ID, is_signer = False\<rparr>]"

definition attest_instruction :: "bytes \<Rightarrow> compiled_instruction" where
  "attest_instruction data = \<lparr>ci_program = 3, ci_accounts = [0, 1, 2], ci_data = data\<rparr>"

definition attest_message :: "bytes32 \<Rightarrow> bytes32 \<Rightarrow> bytes32 \<Rightarrow> bytes \<Rightarrow> bytes32 \<Rightarrow> solana_message" where
  "attest_message payer pda program_id data blockhash =
     \<lparr>msg_signatures = 1, msg_readonly_signed = 0, msg_readonly_unsigned = 2,
      msg_keys = [payer, pda, SYSTEM_PROGRAM_ID, program_id], msg_blockhash = blockhash,
      msg_instructions = [attest_instruction data]\<rparr>"

lemma wire_instruction_built:
  assumes "length sig = 64" and "length data < 128 ^ 3"
  shows "wire_instruction (wire_transaction sig (build_message payer pda program_id data blockhash)) =
    Some (attest_message payer pda program_id data blockhash, attest_instruction data)"
  using parse_wire_transaction [OF assms(1)] parse_build_message [OF assms(2)]
  by (simp add: wire_instruction_def attest_message_def attest_instruction_def)

lemma attest_message_infos:
  "message_infos (attest_message payer pda program_id data blockhash) (attest_instruction data) =
     attest_infos payer pda"
  by (simp add: message_infos_def attest_message_def attest_infos_def attest_instruction_def)

lemma attest_instruction_simps [simp]:
  "ci_data (attest_instruction data) = data" "ci_program (attest_instruction data) = 3"
  by (simp_all add: attest_instruction_def)

lemma decode_attest: "decode (attest_infos payer pda) (attest_data n d oc) = Some (Attest payer n d oc)"
  by (rule attest_data_args [of n d oc]) (simp add: decode_def attest_infos_def)

interpretation solana_leg: attestation_sink solana_wire solana_claimed solana_admissible solana_reads
proof
  fix q :: "'a solana_request" and b
  assume a: "solana_admissible q" and w: "solana_wire q = Ok b"
  obtain c m J http rpc_url program_id nh dh oh where
    q: "q = (c, m, J, http, rpc_url, program_id, nh, dh, oh)"
    by (metis surj_pair)
  have "signed_add_pending_xburn c m J http rpc_url program_id nh dh oh = Ok b"
    using w by (simp add: q)
  then show "\<exists>t. solana_claimed q = Some t \<and> solana_reads b = Some t"
    by (rule signed_add_pending_xburn_Ok)
      (use a in \<open>simp add: q solana_reads_def wire_instruction_built attest_message_infos
        decode_attest schnorr_law_def\<close>)
qed

lemma submit_add_pending_xburn_Ok:
  assumes "submit_add_pending_xburn c m J http rpc_url program_id_b58 nh dh oh = Ok txid"
  obtains raw reply where
    "signed_add_pending_xburn c m J http rpc_url program_id_b58 nh dh oh = Ok raw"
    and "rpc_call J (http 1) rpc_url ''sendTransaction''
      (LArr [LStr (base64_encode c raw), LObj [(''encoding'', LStr ''base64'')]]) = Ok reply"
    and "j_as_str J (j_index J reply ''result'') = Some txid"
  using assms by (auto simp: submit_add_pending_xburn_def outcome_simps)

section \<open>The attestation on chain\<close>

text \<open>The runtime derives addresses the way the canister recomputes them, for the registry's seed.\<close>

definition derives_registry :: "runtime \<Rightarrow> crates \<Rightarrow> pubkey \<Rightarrow> bool" where
  "derives_registry rt c pid \<longleftrightarrow>
     (\<forall>p. find_program_address_sha c (map of_char ''xpending'') pid = Ok p \<longrightarrow>
        fst (find_program_address rt [map of_char ''xpending''] pid) = p)"

lemma xpending_seed: "map of_char ''xpending'' = XBURN_PENDING_SEED"
  by (simp add: XBURN_PENDING_SEED_def)

lemma derives_registryD:
  "derives_registry rt c pid \<Longrightarrow> find_program_address_sha c (map of_char ''xpending'') pid = Ok p \<Longrightarrow>
     p = xpending_key rt pid"
  unfolding derives_registry_def xpending_key_def pda_of_def xpending_seed by blast

lemma attest_succeeds:
  assumes "runtime_laws rt" and "transfer_served_law rt" and "resize_served_law rt"
    and "xpending_hold (acc_data (L (xpending_key rt pid))) payer es" and "n \<notin> xe_nullifier ` set es"
    and "hash2 (poseidon_syscall rt) d oc = Some h"
    and "can_fund rt L payer (xpending_key rt pid) (length (acc_data (L (xpending_key rt pid))) + 65)"
    and "length (acc_data (L (xpending_key rt pid))) + 65 \<le> MAX_ACCOUNT_SIZE"
  obtains L' where "process_instruction rt pid (attest_infos payer (xpending_key rt pid))
      (attest_data n d oc) L = Ok (L', XburnPendingAdded)"
    and "xpending_hold (acc_data (L' (xpending_key rt pid))) payer (es @ [fresh_entry n h])"
proof -
  let ?xp = "\<lparr>ai_key = xpending_key rt pid, is_signer = False\<rparr>"
  have hold: "xpending_hold (data_of L ?xp) payer es"
    using assms(4) by (simp add: data_of_def)
  have "\<exists>L'. xpending_append rt \<lparr>ai_key = payer, is_signer = True\<rparr> ?xp
      \<lparr>ai_key = SYSTEM_PROGRAM_ID, is_signer = False\<rparr> n h L = Ok L'"
    by (rule xpending_append_funded [OF assms(1-3) hold refl])
      (use assms(7,8) in \<open>simp_all add: data_of_def SYSTEM_PROGRAM_ID_def SYSTEM_PROGRAM_def\<close>)
  then obtain L' where app: "xpending_append rt \<lparr>ai_key = payer, is_signer = True\<rparr> ?xp
      \<lparr>ai_key = SYSTEM_PROGRAM_ID, is_signer = False\<rparr> n h L = Ok L'"
    by blast
  obtain args where args: "attest_data n d oc = 6 # args" "length args = 96" "b32_at args 0 = n"
      "b32_at args 32 = d" "b32_at args 64 = oc"
    by (rule attest_data_args)
  have "add_pending_xburn rt pid (attest_infos payer (xpending_key rt pid)) args L =
      Ok (L', XburnPendingAdded)"
    unfolding add_pending_xburn_Ok_iff attest_infos_def
    using args app assms(6) xpending_operator_holds [OF hold] xpending_find_absent [OF hold assms(5)]
    by (auto simp: xpending_key_def)
  then have "process_instruction rt pid (attest_infos payer (xpending_key rt pid))
      (attest_data n d oc) L = Ok (L', XburnPendingAdded)"
    by (simp add: args(1) process_instruction_def)
  then show ?thesis
    using that xpending_append_holds [OF runtime_lawsD(1,4) [OF assms(1)] hold assms(5) app]
    by (simp add: data_of_def)
qed

end
