(* ===== verification/Demo_Attestor.thy ===== *)
theory Demo_Attestor
  imports Attestor Demo_Runtime
begin

text \<open>
  Concrete instances of what the canister calls, for the witnesses: a hex codec, a toy signature
  scheme whose signatures carry the digest and the key, providers that answer from fixed tables,
  JSON documents as a datatype. Nothing but the witnesses depends on them.
\<close>

section \<open>Hex\<close>

definition hex_char :: "nat \<Rightarrow> char" where
  "hex_char n = ''0123456789abcdef'' ! n"

definition demo_hex :: "bytes \<Rightarrow> string" where
  "demo_hex b = concat (map (\<lambda>w. [hex_char (unat w div 16), hex_char (unat w mod 16)]) b)"

fun demo_unhex :: "string \<Rightarrow> bytes option" where
  "demo_unhex [] = Some []"
| "demo_unhex [x] = None"
| "demo_unhex (x # y # r) =
     (case (hex_digit x, hex_digit y, demo_unhex r) of
        (Some i, Some j, Some bs) \<Rightarrow> Some (word_of_nat (16 * i + j) # bs)
      | _ \<Rightarrow> None)"

definition demo_hex_from_str :: "string \<Rightarrow> bytes option" where
  "demo_hex_from_str s =
     (case s of CHR ''0'' # CHR ''x'' # r \<Rightarrow> demo_unhex r | _ \<Rightarrow> None)"

lemma hex_char_digit: "n < 16 \<Longrightarrow> hex_digit (hex_char n) = Some n \<and> hex_char n \<noteq> CHR ''x''"
proof -
  have "\<forall>n \<in> set [0..<16]. hex_digit (hex_char n) = Some n \<and> hex_char n \<noteq> CHR ''x''"
    by (simp add: upt_rec hex_char_def hex_digit_def)
  then show "n < 16 \<Longrightarrow> hex_digit (hex_char n) = Some n \<and> hex_char n \<noteq> CHR ''x''"
    by simp
qed

lemma nibble_bounds: "unat (w :: byte) div 16 < 16" "unat w mod 16 < 16"
  using unat_byte_less [of w] less_mult_imp_div_less [of "unat w" 16 16] by simp_all

lemma byte_nibbles: "word_of_nat (16 * (unat w div 16) + unat w mod 16) = (w :: byte)"
  by simp

lemma unhex_hex: "demo_unhex (demo_hex b) = Some b"
proof (induction b)
  case (Cons w b)
  show ?case
    using Cons hex_char_digit nibble_bounds [of w] byte_nibbles [of w] by (simp add: demo_hex_def)
qed (simp add: demo_hex_def)

lemma hex_no_x: "CHR ''x'' \<notin> set (demo_hex b)"
proof (induction b)
  case (Cons w b)
  show ?case
    using Cons hex_char_digit [OF nibble_bounds(1), of w] hex_char_digit [OF nibble_bounds(2), of w]
    by (simp add: demo_hex_def) metis
qed (simp add: demo_hex_def)

lemma unhex_length: "demo_unhex s = Some b \<Longrightarrow> length s = 2 * length b"
  by (induction s arbitrary: b rule: demo_unhex.induct) (auto split: option.splits prod.splits)

section \<open>The crates and the management canister\<close>

text \<open>A key is the byte 2 and 32 bytes; a signature is the digest and the key's 32 bytes.\<close>

definition demo_crates :: crates where
  "demo_crates =
     \<lparr>hex_encode = demo_hex, hex_decode = demo_unhex, bs58_encode = demo_hex, bs58_decode = demo_unhex,
      base64_encode = demo_hex,
      keccak256 = (\<lambda>b. bytes_b32 (take 32 b)),
      sha256 = (\<lambda>b. 2 * (bytes_b32 (take 8 b) + 1) + 1),
      edwards_decompresses = (\<lambda>b. even b),
      sec1_uncompressed = (\<lambda>k. if length k = 33 then Some (4 # tl k @ tl k) else None),
      ecdsa_from_scalars = (\<lambda>r s. True),
      ecdsa_recover = (\<lambda>d (r, s) i. if r = d \<and> i = 1 then Some (2 # b32_bytes s) else None),
      ecdsa_verify = (\<lambda>k d (r, s). r = d \<and> k = 2 # b32_bytes s),
      ed25519_key_ok = (\<lambda>k. True),
      ed25519_verify = (\<lambda>k m sig. True),
      hex20_from_str = (\<lambda>s. case demo_hex_from_str s of
          Some b \<Rightarrow> if length b = 20 then Some b else None | None \<Rightarrow> None),
      hex_from_str = demo_hex_from_str\<rparr>"

lemma demo_crates_simps [simp]:
  "hex_encode demo_crates = demo_hex" "hex_decode demo_crates = demo_unhex"
  "bs58_encode demo_crates = demo_hex" "bs58_decode demo_crates = demo_unhex"
  "hex_from_str demo_crates = demo_hex_from_str"
  "ecdsa_from_scalars demo_crates r s" "even b \<Longrightarrow> edwards_decompresses demo_crates b"
  "odd b \<Longrightarrow> \<not> edwards_decompresses demo_crates b"
  "ecdsa_recover demo_crates d (r, s) i = (if r = d \<and> i = 1 then Some (2 # b32_bytes s) else None)"
  "ecdsa_verify demo_crates k d (r, s) \<longleftrightarrow> r = d \<and> k = 2 # b32_bytes s"
  "sec1_uncompressed demo_crates k = (if length k = 33 then Some (4 # tl k @ tl k) else None)"
  "sha256 demo_crates bs = 2 * (bytes_b32 (take 8 bs) + 1) + 1"
  by (simp_all add: demo_crates_def)

lemma demo_codec_laws: "codec_laws demo_crates"
  by (auto simp: codec_laws_def unhex_hex hex_no_x unhex_length demo_hex_from_str_def)

definition demo_management :: management where
  "demo_management =
     \<lparr>ecdsa_public_key = (\<lambda>k. Some (2 # b32_bytes 77)),
      sign_with_ecdsa = (\<lambda>k d. Some (d @ b32_bytes 77)),
      schnorr_public_key = (\<lambda>k. Some (b32_bytes 2)),
      sign_with_schnorr = (\<lambda>k m. Some (replicate 64 9))\<rparr>"

lemma demo_schnorr_law: "schnorr_law demo_management"
  by (simp add: schnorr_law_def demo_management_def)

section \<open>EVM providers\<close>

text \<open>The nonce is 31, the gas price 1 gwei, every transaction is accepted, and the pool's storage
  says that nullifier 21 is spent and has a pending mint 33.\<close>

definition demo_getter :: "bytes \<Rightarrow> bytes32" where
  "demo_getter input =
     (if b32_at input 4 = 21 then (if take 4 input = [0x38, 0xc8, 0x69, 0x11] then 1 else 33) else 0)"

definition demo_evm :: evm_rpc where
  "demo_evm =
     \<lparr>multi_request = (\<lambda>chain url json.
        case json of
          LObj (_ # (_, LStr method) # _) \<Rightarrow>
            Consistent (Some (if method = ''eth_gasPrice'' then ''0x3b9aca00'' else ''0x1f''))
        | _ \<Rightarrow> Inconsistent),
      eth_call = (\<lambda>chain url to input tag. Consistent (Some (''0x'' @ demo_hex (b32_bytes (demo_getter input))))),
      send_raw_transaction = (\<lambda>chain url raw. Consistent (Some ''Ok''))\<rparr>"

definition demo_pool_address :: string where
  "demo_pool_address = ''0x'' @ demo_hex (replicate 20 7)"

lemma demo_pool_address_parses:
  "demo_unhex (trim_0x demo_pool_address) = Some (replicate 20 7)"
  "hex20_from_str demo_crates demo_pool_address = Some (replicate 20 7)"
  using trim_0x_id [OF hex_no_x [of "replicate 20 7"]]
  by (simp_all add: demo_pool_address_def unhex_hex demo_crates_def demo_hex_from_str_def)

lemma demo_hex_to_be:
  "hex_to_be_bytes demo_crates (CHR ''0'' # CHR ''x'' # demo_hex b) = Ok b"
  using trim_0x_id [OF hex_no_x [of b]] unhex_hex [of b] unhex_length [OF unhex_hex [of b]]
  by (simp add: hex_to_be_bytes_def)

lemma demo_u256: "parse_u256_hex demo_crates (CHR ''0'' # CHR ''x'' # demo_hex (b32_bytes w)) = Ok w"
  by (simp add: parse_u256_hex_def demo_hex_to_be)

lemma demo_gas_price: "hex_to_be_bytes demo_crates ''0x3b9aca00'' = Ok [0x3b, 0x9a, 0xca, 0x00]"
  by (simp add: hex_to_be_bytes_def trim_0x.simps hex_digit_def)

lemma demo_nonce: "u64_from_radix16 (trim_0x ''1f'') = Some 31"
  by (simp add: u64_from_radix16_def trim_0x.simps hex_digit_def)

lemma demo_selector: "demo_unhex SEL_ADD_PENDING = Some [0x56, 0x2b, 0x80, 0xa1]"
  by (simp add: SEL_ADD_PENDING_def hex_digit_def)

lemma demo_sign_legacy_tx:
  "\<exists>raw. sign_legacy_tx demo_crates demo_management (2 # b32_bytes 77) nonce gp to data cid = Ok raw"
proof -
  have "b32_at (b32_bytes d @ b32_bytes 77) 0 = d" "b32_at (b32_bytes d @ b32_bytes 77) 32 = 77" for d
    by (simp_all add: b32_at_def sub_prefix sub_append_right sub_all)
  then show ?thesis
    by (simp add: sign_legacy_tx_def Let_def demo_management_def recovery_id_for_def)
qed

definition hex_b32 :: "bytes32 \<Rightarrow> string" where
  "hex_b32 w = ''0x'' @ demo_hex (b32_bytes w)"

definition demo_evm_signed :: "u64 \<Rightarrow> bytes attested" where
  "demo_evm_signed cid =
     signed_add_pending demo_crates demo_management demo_evm cid ''http'' demo_pool_address
       (hex_b32 21) (hex_b32 101) (hex_b32 11)"

lemma demo_evm_submits:
  "submit_add_pending demo_crates demo_management demo_evm cid ''http'' demo_pool_address
     (hex_b32 21) (hex_b32 101) (hex_b32 11) = Ok ''Ok''"
proof -
  have key: "evm_pubkey_sec1 demo_crates demo_management =
      Ok (2 # b32_bytes 77, evm_address_bytes demo_crates (b32_bytes 77 @ b32_bytes 77))"
    by (simp add: evm_pubkey_sec1_def demo_management_def)
  obtain raw where "sign_legacy_tx demo_crates demo_management (2 # b32_bytes 77) 31
      [0x3b, 0x9a, 0xca, 0x00] (replicate 20 7)
      ([0x56, 0x2b, 0x80, 0xa1] @ b32_bytes 21 @ b32_bytes 101 @ b32_bytes 11) cid = Ok raw"
    using demo_sign_legacy_tx by blast
  then show ?thesis
    by (simp add: submit_add_pending_def signed_add_pending_def Let_def demo_pool_address_parses
        add_pending_data_def demo_u256 hex_b32_def demo_selector key raw_json_rpc_def demo_evm_def
        consistent_def demo_nonce demo_gas_price demo_hex_from_str_def unhex_hex)
qed

section \<open>Solana providers\<close>

datatype demo_json =
  JNull | JBool bool | JNum u64 | JStr string | JArr "demo_json list" | JObj "(string \<times> demo_json) list"

text \<open>The JSON accessors over these documents; a response body is the number of a document.\<close>

definition demo_json_api :: "demo_json list \<Rightarrow> demo_json json" where
  "demo_json_api docs =
     \<lparr>j_get = (\<lambda>v k. case v of JObj fs \<Rightarrow> map_of fs k | _ \<Rightarrow> None),
      j_index = (\<lambda>v k. case v of JObj fs \<Rightarrow> (case map_of fs k of Some x \<Rightarrow> x | None \<Rightarrow> JNull) | _ \<Rightarrow> JNull),
      j_is_null = (\<lambda>v. v = JNull),
      j_as_array = (\<lambda>v. case v of JArr xs \<Rightarrow> Some xs | _ \<Rightarrow> None),
      j_as_str = (\<lambda>v. case v of JStr s \<Rightarrow> Some s | _ \<Rightarrow> None),
      j_as_u64 = (\<lambda>v. case v of JNum n \<Rightarrow> Some n | _ \<Rightarrow> None),
      j_as_bool = (\<lambda>v. case v of JBool b \<Rightarrow> Some b | _ \<Rightarrow> None),
      j_from_slice = (\<lambda>b. case b of [i] \<Rightarrow> if unat i < length docs then Some (docs ! unat i) else None
                              | _ \<Rightarrow> None)\<rparr>"

lemma demo_json_simps:
  "j_index (demo_json_api docs) (JObj fs) k = (case map_of fs k of Some x \<Rightarrow> x | None \<Rightarrow> JNull)"
  "j_as_str (demo_json_api docs) (JStr s) = Some s"
  "j_as_array (demo_json_api docs) (JArr xs) = Some xs"
  by (simp_all add: demo_json_api_def)

text \<open>A confirmed transaction with one burn instruction, and a provider per URL: \<open>good\<close> ones serve
  document 0, the others document 1.\<close>

definition demo_burn_tx :: "bytes \<Rightarrow> demo_json" where
  "demo_burn_tx data =
     JObj [(''result'', JObj
       [(''meta'', JObj [(''err'', JNull)]),
        (''transaction'', JObj [(''message'', JObj
          [(''accountKeys'', JArr [JStr ''payer'', JStr ''opaq'']),
           (''instructions'', JArr
              [JObj [(''programIdIndex'', JNum 0), (''data'', JStr [])],
               JObj [(''programIdIndex'', JNum 1), (''data'', JStr (demo_hex data))]])])])])]"

definition demo_outcalls :: outcalls where
  "demo_outcalls n args =
     Some \<lparr>hr_status = 200, hr_headers = [], hr_body = [if ha_url args = ''good'' then 0 else 1]\<rparr>"

definition demo_docs :: "bytes \<Rightarrow> demo_json list" where
  "demo_docs data = [demo_burn_tx data, JObj [(''result'', JNull)]]"

lemma demo_collect:
  "collect_responses (demo_json_api (demo_docs data)) demo_outcalls k
     [''good'', ''bad'', ''good''] sig =
     [demo_burn_tx data, JObj [(''result'', JNull)], demo_burn_tx data]"
  by (simp add: get_transaction_json_def json_post_def demo_outcalls_def demo_json_api_def
      demo_docs_def Let_def)

lemma demo_parse_b32: "solana_parse_bytes32 demo_crates (hex_b32 w) = Ok w"
  "parse32 demo_crates (hex_b32 w) = Ok w"
  using trim_0x_id [OF hex_no_x [of "b32_bytes w"]]
  by (simp_all add: solana_parse_bytes32_def parse32_def hex_b32_def unhex_hex)

definition demo_burn_data :: bytes where
  "demo_burn_data = 8 # replicate 256 5 @ b32_bytes 1 @ b32_bytes 21 @ b32_bytes 101 @ b32_bytes 11"

lemma demo_agreed:
  "get_transaction_with_agreement (demo_json_api (demo_docs data)) demo_outcalls
     [''good'', ''bad'', ''good''] 2 sig = Ok (demo_burn_tx data)"
proof -
  have "demo_burn_tx data \<noteq> JObj [(''result'', JNull)]"
    by (simp add: demo_burn_tx_def)
  then show ?thesis
    unfolding get_transaction_with_agreement_def demo_collect by simp
qed

lemma demo_instruction_data:
  "opaq_instruction_data demo_crates (demo_json_api (demo_docs d')) (demo_burn_tx data) ''opaq'' = Ok data"
  by (simp add: opaq_instruction_data_def demo_json_api_def demo_burn_tx_def Let_def unhex_hex)

definition demo_burn_transaction :: "bytes \<Rightarrow> sol_transaction" where
  "demo_burn_transaction data =
     \<lparr>st_failed = False, st_keys = [''payer'', ''opaq''], st_instructions = [(0, []), (1, data)]\<rparr>"

lemma demo_burn_shown:
  "shows_transaction demo_crates (demo_json_api docs) (demo_burn_tx data) (demo_burn_transaction data)"
  by (simp add: shows_transaction_def shows_instruction_def demo_json_api_def demo_burn_tx_def
      demo_burn_transaction_def Let_def unhex_hex)

lemma demo_claims: "check_claims demo_burn_data 21 101 11 = Ok ()"
  unfolding demo_burn_data_def
proof (rule check_claims_complete)
  let ?a = "replicate 256 5 @ b32_bytes 1 @ b32_bytes 21 @ b32_bytes 101 @ b32_bytes 11 :: bytes"
  show "length ?a = 384" by simp
  show "b32_at ?a 288 = 21"
    using b32_at_middle [of "replicate 256 5 @ b32_bytes 1" 288 21 "b32_bytes 101 @ b32_bytes 11"]
    by simp
  show "b32_at ?a 320 = 101"
    using b32_at_middle [of "replicate 256 5 @ b32_bytes 1 @ b32_bytes 21" 320 101 "b32_bytes 11"]
    by simp
  show "b32_at ?a 352 = 11"
    using b32_at_end [of "replicate 256 5 @ b32_bytes 1 @ b32_bytes 21 @ b32_bytes 101" 352 11]
    by simp
qed

lemma demo_verify_xburn:
  "verify_xburn_transaction demo_crates (demo_json_api (demo_docs demo_burn_data)) demo_outcalls
     [''good'', ''bad'', ''good''] 2 ''opaq'' sig (hex_b32 21) (hex_b32 101) (hex_b32 11) =
   Ok (sig, hex_b32 21, hex_b32 101, hex_b32 11)"
  by (simp add: verify_xburn_transaction_def demo_parse_b32 demo_agreed demo_instruction_data
      demo_claims)

text \<open>The replies to the two calls of a submission.\<close>

definition demo_rpc_docs :: "demo_json list" where
  "demo_rpc_docs =
     [JObj [(''result'', JObj [(''value'', JObj [(''blockhash'', JStr (demo_hex (b32_bytes 3)))])])],
      JObj [(''result'', JStr ''sig'')]]"

definition demo_rpc_outcalls :: outcalls where
  "demo_rpc_outcalls n args =
     Some \<lparr>hr_status = 200, hr_headers = [], hr_body = [if n = 0 then 0 else 1]\<rparr>"

lemma demo_pda_sha:
  "find_program_address_sha demo_crates (map of_char ''xpending'') pid =
     Ok (2 * (bytes_b32 (map of_char ''xpending'') + 1) + 1)"
proof -
  have "[0..<256] = [0..<255] @ [255]"
    using upt_Suc_append [of 0 255] by simp
  then have "bumps_down = 255 # map word_of_nat (rev [0..<255])"
    by (simp add: bumps_down_def)
  then have "find_program_address_sha demo_crates (map of_char ''xpending'') pid =
      find_bump demo_crates (map of_char ''xpending'') pid (255 # map word_of_nat (rev [0..<255]))"
    unfolding find_program_address_sha_def by (rule arg_cong)
  then show ?thesis
    by (simp add: pda_candidate_def is_on_curve_def Let_def)
qed

lemma demo_derives_registry: "derives_registry demo_runtime demo_crates pid"
  unfolding derives_registry_def demo_pda_sha by (simp add: demo_runtime_def)

lemma demo_solana_submits:
  "submit_add_pending_xburn demo_crates demo_management (demo_json_api demo_rpc_docs)
     demo_rpc_outcalls ''http'' (demo_hex (b32_bytes pid)) (hex_b32 21) (hex_b32 101) (hex_b32 11) =
   Ok ''sig''"
  by (simp add: submit_add_pending_xburn_def signed_add_pending_xburn_def demo_pda_sha[simplified] unhex_hex
      demo_parse_b32 demo_management_def rpc_call_def json_post_def demo_rpc_outcalls_def
      demo_json_api_def demo_rpc_docs_def Let_def)

end
