(* ===== verification/Attestor_Properties.thy ===== *)
theory Attestor_Properties
  imports Demo_Attestor
begin

text \<open>
  What the attestor canister guarantees: what it reads from the two chains, what it attests, what
  the transactions it signs say, and that the on-chain program accepts them.
\<close>

section \<open>Reading\<close>

text \<open>
  C29: With fewer than the threshold of answers different from \<open>v\<close>, agreement is on \<open>v\<close> or on
  nothing; if at least the threshold of answers is \<open>v\<close> as well, it is on \<open>v\<close>. Failed providers do
  not count on either side.
\<close>

theorem honest_quorum_decides:
  assumes "length (filter (\<lambda>r. r \<noteq> v) (collect_responses J http 0 urls signature)) < k"
  shows "(\<forall>tx. get_transaction_with_agreement J http urls k signature = Ok tx \<longrightarrow> tx = v) \<and>
    (k \<le> votes (collect_responses J http 0 urls signature) v \<longrightarrow>
       get_transaction_with_agreement J http urls k signature = Ok v)"
proof -
  have only: "tx = v" if "get_transaction_with_agreement J http urls k signature = Ok tx" for tx
    by (rule minority_outvoted [OF assms that])
  have "0 < k" using assms by simp
  then show ?thesis
    using only agreement_exists [of k J http urls signature v] by metis
qed

theorem honest_quorum_decides_witness:
  "get_transaction_with_agreement (demo_json_api (demo_docs [8])) demo_outcalls
     [''good'', ''bad'', ''good''] 2 ''tx'' = Ok (demo_burn_tx [8])"
proof -
  let ?bad = "JObj [(''result'', JNull)]"
  have ne: "demo_burn_tx [8] \<noteq> ?bad"
    by (simp add: demo_burn_tx_def)
  have few: "length (filter (\<lambda>r. r \<noteq> demo_burn_tx [8])
      (collect_responses (demo_json_api (demo_docs [8])) demo_outcalls 0
         [''good'', ''bad'', ''good''] ''tx'')) < 2"
    unfolding demo_collect using ne by simp
  have "2 \<le> votes (collect_responses (demo_json_api (demo_docs [8])) demo_outcalls 0
         [''good'', ''bad'', ''good''] ''tx'') (demo_burn_tx [8])"
    unfolding demo_collect votes_def using ne by simp
  then show ?thesis
    using honest_quorum_decides [OF few] by blast
qed

text \<open>
  C30: An attested Solana burn is what the agreed transaction says: the program's first instruction
  in it, which the on-chain program reads as the burn of the claimed nullifier to the claimed chain
  and commitment; the threshold of providers returned that transaction, without an error. Of any
  transaction the agreed reply shows, the data is an instruction of the program, and it did not fail.
\<close>

theorem attested_burn_is_recorded:
  assumes "verify_xburn_transaction c J http urls k program_id signature nh dh oh = Ok reply"
  shows "\<exists>n d oc tx result data root.
    solana_parse_bytes32 c nh = Ok n \<and> solana_parse_bytes32 c dh = Ok d \<and>
    solana_parse_bytes32 c oh = Ok oc \<and> reply = (signature, nh, dh, oh) \<and>
    unat k \<le> votes (collect_responses J http 0 urls signature) tx \<and>
    j_get J tx ''result'' = Some result \<and>
    j_is_null J (j_index J (j_index J result ''meta'') ''err'') \<and>
    opaq_instruction_data c J tx program_id = Ok data \<and> length data = 385 \<and>
    (\<forall>accounts. decode accounts data = Some (Xburn root n d oc)) \<and>
    (\<forall>t. shows_transaction c J tx t \<longrightarrow> \<not> st_failed t \<and>
       (\<exists>p < length (st_keys t). (p, data) \<in> set (st_instructions t) \<and> st_keys t ! p = program_id))"
proof -
  obtain n d oc tx data where v: "solana_parse_bytes32 c nh = Ok n" "solana_parse_bytes32 c dh = Ok d"
      "solana_parse_bytes32 c oh = Ok oc"
      "get_transaction_with_agreement J http urls (unat k) signature = Ok tx"
    and data: "opaq_instruction_data c J tx program_id = Ok data" "check_claims data n d oc = Ok ()"
    and reply: "reply = (signature, nh, dh, oh)"
    by (rule verify_xburn_transaction_Ok [OF assms])
  obtain args where args: "data = 8 # args" "length args = 384"
    and dec: "\<forall>accounts. decode accounts data = Some (Xburn (b32_at args 256) n d oc)"
    by (rule check_claims_Ok [OF data(2)])
  obtain result where "j_get J tx ''result'' = Some result"
    and "j_is_null J (j_index J (j_index J result ''meta'') ''err'')"
    using data(1) by (auto simp: opaq_instruction_data_def Let_def outcome_simps)
  moreover have "\<forall>t. shows_transaction c J tx t \<longrightarrow> \<not> st_failed t \<and>
      (\<exists>p < length (st_keys t). (p, data) \<in> set (st_instructions t) \<and> st_keys t ! p = program_id)"
    by (blast elim: opaq_instruction_data_shown [OF data(1)])
  ultimately show ?thesis
    using v(1-3) reply agreement_Ok(1) [OF v(4)] data(1) args dec
    by (intro exI conjI allI) (assumption | simp)+
qed

theorem attested_burn_is_recorded_witness:
  "\<exists>tx data. opaq_instruction_data demo_crates (demo_json_api (demo_docs demo_burn_data)) tx ''opaq'' = Ok data \<and>
     (\<exists>root. decode [] data = Some (Xburn root 21 101 11))"
proof -
  obtain n d oc tx data root where "solana_parse_bytes32 demo_crates (hex_b32 21) = Ok n"
    "solana_parse_bytes32 demo_crates (hex_b32 101) = Ok d" "solana_parse_bytes32 demo_crates (hex_b32 11) = Ok oc"
    "opaq_instruction_data demo_crates (demo_json_api (demo_docs demo_burn_data)) tx ''opaq'' = Ok data"
    "\<forall>accounts. decode accounts data = Some (Xburn root n d oc)"
    using attested_burn_is_recorded [OF demo_verify_xburn [of "''tx''"]] by blast
  then show ?thesis
    by (auto simp: demo_parse_b32)
qed

text \<open>
  When the providers answer the pool's getters from its storage, the canister's queries return
  what the storage holds: a nullifier is reported spent exactly if its word is 1, and the pending
  mint is reported as stored.
\<close>

theorem evm_queries_read_storage:
  assumes "codec_laws c"
    and "answers_getter c e chain_id rpc_url pool (if finalized then Finalized else Latest)
           SEL_NULLIFIER_SPENT spent_word"
    and "answers_getter c e chain_id rpc_url pool (if finalized then Finalized else Latest)
           SEL_PENDING_MINT pending"
  shows "check_nullifier_spent c e chain_id rpc_url pool (hex0x c (b32_bytes n)) finalized =
      Ok (spent_word n = 1) \<and>
    read_pending_mint c e chain_id rpc_url pool (hex0x c (b32_bytes n)) finalized =
      Ok (hex0x c (b32_bytes (pending n)))"
  using eth_call_bytes32_getter [OF assms(1,2)] eth_call_bytes32_getter [OF assms(1,3)]
    evm_parse_hex0x [OF assms(1)] bool_word_iff [of "spent_word n"]
  by (simp add: check_nullifier_spent_def read_pending_mint_def hex0x_def)

lemma demo_answers:
  assumes "demo_unhex sel = Some s" and "length s = 4"
  shows "answers_getter demo_crates demo_evm chain_id rpc_url demo_pool_address tag sel
    (\<lambda>n. if n = 21 then (if s = [0x38, 0xc8, 0x69, 0x11] then 1 else 33) else 0)"
proof -
  have append: "demo_unhex (sel @ demo_hex b) = Some (s @ b)" for b
    using assms(1)
    by (induction sel arbitrary: s rule: demo_unhex.induct)
      (auto simp: unhex_hex split: option.splits prod.splits)
  have "b32_at (s @ b32_bytes n) 4 = n" for n
    using assms(2) by (rule b32_at_end)
  then have "demo_getter (s @ b32_bytes n) =
      (if n = 21 then (if s = [0x38, 0xc8, 0x69, 0x11] then 1 else 33) else 0)" for n
    using assms(2) by (simp add: demo_getter_def)
  then show ?thesis
    using append by (auto simp: answers_getter_def demo_pool_address_parses encode_call_def
        demo_hex_from_str_def demo_evm_def hex0x_def)
qed

theorem evm_queries_read_storage_witness:
  "check_nullifier_spent demo_crates demo_evm 1 ''http'' demo_pool_address
     (hex0x demo_crates (b32_bytes 21)) True = Ok True \<and>
   check_nullifier_spent demo_crates demo_evm 1 ''http'' demo_pool_address
     (hex0x demo_crates (b32_bytes 22)) False = Ok False"
proof -
  have a: "answers_getter demo_crates demo_evm 1 ''http'' demo_pool_address tag SEL_NULLIFIER_SPENT
      (\<lambda>n. if n = 21 then 1 else 0)" for tag
    using demo_answers [of SEL_NULLIFIER_SPENT "[0x38, 0xc8, 0x69, 0x11]" 1 "''http''" tag]
    by (simp add: SEL_NULLIFIER_SPENT_def hex_digit_def cong: if_cong)
  have b: "answers_getter demo_crates demo_evm 1 ''http'' demo_pool_address tag SEL_PENDING_MINT
      (\<lambda>n. if n = 21 then 33 else 0)" for tag
    using demo_answers [of SEL_PENDING_MINT "[0x87, 0x48, 0x88, 0x92]" 1 "''http''" tag]
    by (simp add: SEL_PENDING_MINT_def hex_digit_def cong: if_cong)
  show ?thesis
    using evm_queries_read_storage [OF demo_codec_laws a b, where n = 21]
      evm_queries_read_storage [OF demo_codec_laws a b, where n = 22]
    by simp
qed

section \<open>Writing\<close>

text \<open>
  C32: What \<open>legacy_tx_rlp\<close> encodes, a reader that accepts only canonical encodings reads back:
  every field, unsigned with the EIP-155 chain id, or signed.
\<close>

theorem legacy_transaction_roundtrip:
  assumes "length to = 20" and "length data + length gas_price < 2 ^ 63"
  shows "parse_legacy_tx (legacy_tx_rlp nonce gas_price gas_limit to data chain_id signature) =
    Some \<lparr>tx_nonce = unat nonce, tx_gas_price = nat_of_be gas_price, tx_gas_limit = unat gas_limit,
          tx_to = to, tx_value = 0, tx_data = data,
          tx_v = (case signature of None \<Rightarrow> unat chain_id | Some (v, r, s) \<Rightarrow> unat v),
          tx_r = (case signature of None \<Rightarrow> 0 | Some (v, r, s) \<Rightarrow> unat r),
          tx_s = (case signature of None \<Rightarrow> 0 | Some (v, r, s) \<Rightarrow> unat s)\<rparr>"
  using parse_legacy_tx_rlp [OF assms, of nonce gas_limit chain_id signature]
  by (auto simp: legacy_tx_of_def split: option.splits)

theorem legacy_transaction_roundtrip_witness:
  "\<exists>t. parse_legacy_tx (legacy_tx_rlp 9 [0, 4, 0] 21000 (replicate 20 7) (replicate 100 1) 1 None) = Some t \<and>
     tx_nonce t = 9 \<and> tx_gas_price t = 1024 \<and> tx_v t = 1 \<and> length (tx_data t) = 100"
  using legacy_transaction_roundtrip [of "replicate 20 7" "replicate 100 1" "[0, 4, 0]" 9 21000 1 None]
  by (simp add: nat_of_be_def)

text \<open>
  A submission that reports success broadcast a transaction that reads as: the nonce and gas
  price the providers reported, the pool's address, no value, the three claims behind the selector,
  and an EIP-155 signature over the unsigned form that recovers the canister's own key.
\<close>

theorem evm_attestation_sent:
  assumes "submit_add_pending c m e chain_id rpc_url pool nh dh oh = Ok status"
    and "evm_admissible (c, m, e, chain_id, rpc_url, pool, nh, dh, oh)"
  shows "\<exists>raw n d oc to data pubkey from_addr nonce_hex nonce gas_hex gas_price.
    send_raw_transaction e chain_id rpc_url raw = Consistent (Some status) \<and>
    parse_u256_hex c nh = Ok n \<and> parse_u256_hex c dh = Ok d \<and> parse_u256_hex c oh = Ok oc \<and>
    evm_reads raw = Some (n, d, oc) \<and>
    hex_decode c (trim_0x pool) = Some to \<and> add_pending_data c nh dh oh = Ok data \<and>
    evm_pubkey_sec1 c m = Ok (pubkey, from_addr) \<and>
    nonce_reply c e chain_id rpc_url from_addr = Ok nonce_hex \<and>
    u64_from_radix16 (trim_0x nonce_hex) = Some nonce \<and>
    gas_price_reply e chain_id rpc_url = Ok gas_hex \<and> hex_to_be_bytes c gas_hex = Ok gas_price \<and>
    own_transaction c pubkey chain_id
      \<lparr>tx_nonce = unat nonce, tx_gas_price = nat_of_be gas_price, tx_gas_limit = 200000, tx_to = to,
       tx_value = 0, tx_data = data, tx_v = 0, tx_r = 0, tx_s = 0\<rparr> raw"
proof -
  have laws: "codec_laws c" using assms(2) by simp
  obtain raw where raw: "signed_add_pending c m e chain_id rpc_url pool nh dh oh = Ok raw"
    and send: "send_raw_transaction e chain_id rpc_url raw = Consistent (Some status)"
    by (rule submit_add_pending_Ok [OF assms(1) laws])
  have "\<exists>t. evm_claimed (c, m, e, chain_id, rpc_url, pool, nh, dh, oh) = Some t \<and> evm_reads raw = Some t"
    by (rule evm_leg.sent_claims [OF assms(2)]) (simp add: raw)
  moreover obtain n d oc to data pubkey from_addr nonce_hex nonce gas_hex gas_price where
    p: "parse_u256_hex c nh = Ok n" "parse_u256_hex c dh = Ok d" "parse_u256_hex c oh = Ok oc"
    and s: "hex_decode c (trim_0x pool) = Some to" "add_pending_data c nh dh oh = Ok data"
      "evm_pubkey_sec1 c m = Ok (pubkey, from_addr)"
      "nonce_reply c e chain_id rpc_url from_addr = Ok nonce_hex"
      "u64_from_radix16 (trim_0x nonce_hex) = Some nonce"
      "gas_price_reply e chain_id rpc_url = Ok gas_hex" "hex_to_be_bytes c gas_hex = Ok gas_price"
      "own_transaction c pubkey chain_id
        \<lparr>tx_nonce = unat nonce, tx_gas_price = nat_of_be gas_price, tx_gas_limit = 200000, tx_to = to,
         tx_value = 0, tx_data = data, tx_v = 0, tx_r = 0, tx_s = 0\<rparr> raw"
    by (rule evm_wire_reads [OF assms(2) raw])
  ultimately have "evm_reads raw = Some (n, d, oc)"
    by simp
  with send p s show ?thesis
    by (intro exI conjI) assumption+
qed

theorem evm_attestation_sent_witness:
  "\<exists>raw. send_raw_transaction demo_evm 11155111 ''http'' raw = Consistent (Some ''Ok'') \<and>
     evm_reads raw = Some (21, 101, 11)"
proof -
  have adm: "evm_admissible (demo_crates, demo_management, demo_evm, 11155111, ''http'',
      demo_pool_address, hex_b32 21, hex_b32 101, hex_b32 11)"
    using demo_codec_laws
    by (simp add: gas_price_reply_def raw_json_rpc_def demo_evm_def consistent_def)
  show ?thesis
    using evm_attestation_sent [OF demo_evm_submits adm] by (auto simp: demo_u256 hex_b32_def)
qed

text \<open>
  C34: The compact length encoding ends for every length, uses at most \<open>k\<close> bytes exactly below
  \<open>128 ^ k\<close>, so three bytes exactly in the 21 bits the wire format allows, and a reader gets the
  length and the bytes behind it back.
\<close>

theorem solana_length_encoding:
  assumes "0 < k"
  shows "(length (shortvec_encode n) \<le> k \<longleftrightarrow> n < 128 ^ k) \<and>
    (n < 128 ^ k \<longrightarrow> shortvec_decode k (shortvec_encode n @ rest) = Some (n, rest))"
  using length_shortvec [OF assms] shortvec_decode_encode [OF _ assms] by blast

theorem solana_length_encoding_witness:
  "length (shortvec_encode 2097151) \<le> 3 \<and> \<not> length (shortvec_encode 2097152) \<le> 3 \<and>
   shortvec_decode 3 (shortvec_encode 385 @ [1]) = Some (385, [1])"
  using solana_length_encoding [of 3 2097151 "[]"] solana_length_encoding [of 3 2097152 "[]"]
    solana_length_encoding [of 3 385 "[1]"]
  by simp

text \<open>
  C35: The transaction a submission sends is signed by the canister's key, and the program accepts
  it: on a ledger whose registry names that key as operator, has no entry for the nullifier and is an
  entry below the maximal account size, running its only instruction succeeds and appends the
  attested entry. The canister's account must be an ordinary one that can pay the rent of the longer
  registry, and the destination and commitment must hash (canonical field elements do). The runtime
  derives the registry's address as the canister recomputes it, and serves the System transfer and
  the resize within their documented limits.
\<close>

theorem solana_attestation_lands:
  assumes "submit_add_pending_xburn c m J http rpc_url program_id_b58 nh dh oh = Ok txid"
    and "schnorr_law m" and "runtime_laws rt"
    and "bs58_decode c program_id_b58 = Some (b32_bytes pid)" and "derives_registry rt c pid"
    and "schnorr_public_key m schnorr_key_id = Some (b32_bytes payer)"
    and "parse32 c nh = Ok n" and "parse32 c dh = Ok d" and "parse32 c oh = Ok oc"
    and "xpending_hold (acc_data (L (xpending_key rt pid))) payer es" and "n \<notin> xe_nullifier ` set es"
    and "hash2 (poseidon_syscall rt) d oc = Some h"
    and "transfer_served_law rt" and "resize_served_law rt"
    and "can_fund rt L payer (xpending_key rt pid) (length (acc_data (L (xpending_key rt pid))) + 65)"
    and "length (acc_data (L (xpending_key rt pid))) + 65 \<le> MAX_ACCOUNT_SIZE"
  shows "\<exists>raw reply msg i sig message L'.
    rpc_call J (http 1) rpc_url ''sendTransaction''
      (LArr [LStr (base64_encode c raw), LObj [(''encoding'', LStr ''base64'')]]) = Ok reply \<and>
    parse_wire raw = Some ([sig], message) \<and>
    sign_with_schnorr m schnorr_key_id message = Some sig \<and>
    wire_instruction raw = Some (msg, i) \<and> msg_keys msg ! ci_program i = pid \<and>
    solana_reads raw = Some (n, d, oc) \<and>
    process_instruction rt pid (message_infos msg i) (ci_data i) L = Ok (L', XburnPendingAdded) \<and>
    xpending_hold (acc_data (L' (xpending_key rt pid))) payer (es @ [fresh_entry n h])"
proof -
  obtain raw reply where raw: "signed_add_pending_xburn c m J http rpc_url program_id_b58 nh dh oh = Ok raw"
    and sent: "rpc_call J (http 1) rpc_url ''sendTransaction''
      (LArr [LStr (base64_encode c raw), LObj [(''encoding'', LStr ''base64'')]]) = Ok reply"
    by (rule submit_add_pending_xburn_Ok [OF assms(1)])
  obtain pda blockhash sig where
    pda: "find_program_address_sha c (map of_char ''xpending'') pid = Ok pda"
    and sig: "sign_with_schnorr m schnorr_key_id
       (build_message payer pda pid (attest_data n d oc) blockhash) = Some sig"
    and wire: "raw = wire_transaction sig (build_message payer pda pid (attest_data n d oc) blockhash)"
    by (rule signed_add_pending_xburn_Ok [OF raw]) (use assms(4,6-9) in simp)
  have len: "length sig = 64"
    using sig assms(2) by (simp add: schnorr_law_def)
  have key: "pda = xpending_key rt pid"
    by (rule derives_registryD [OF assms(5) pda])
  obtain L' where run: "process_instruction rt pid (attest_infos payer (xpending_key rt pid))
      (attest_data n d oc) L = Ok (L', XburnPendingAdded)"
    and holds: "xpending_hold (acc_data (L' (xpending_key rt pid))) payer (es @ [fresh_entry n h])"
    by (rule attest_succeeds [OF assms(3,13,14,10-12,15,16)])
  have reads: "solana_reads raw = Some (n, d, oc)"
    using solana_leg.sent_claims [of "(c, m, J, http, rpc_url, program_id_b58, nh, dh, oh)" raw]
      raw assms(2,7-9) by simp
  let ?msg = "attest_message payer pda pid (attest_data n d oc) blockhash"
    and ?i = "attest_instruction (attest_data n d oc)"
  have "wire_instruction raw = Some (?msg, ?i)"
    unfolding wire by (rule wire_instruction_built [OF len]) simp
  moreover have "msg_keys ?msg ! ci_program ?i = pid"
    by (simp add: attest_message_def)
  ultimately show ?thesis
    using sent parse_wire_transaction [OF len] sig reads run holds
    unfolding wire key
    by (intro exI conjI) (assumption | simp add: attest_message_infos)+
qed

theorem solana_attestation_lands_witness:
  "\<exists>raw msg i L'. solana_reads raw = Some (21, 101, 11) \<and> wire_instruction raw = Some (msg, i) \<and>
     process_instruction demo_runtime demo_program (message_infos msg i) (ci_data i)
       (demo_registry_ledger []) = Ok (L', XburnPendingAdded)"
proof -
  let ?xp = "xpending_key demo_runtime demo_program"
  let ?L = "demo_registry_ledger []"
  have hold: "xpending_hold (acc_data (?L ?xp)) 2 []"
    by (simp add: demo_registry_ledger_def xpending_hold_def MAX_ACCOUNT_SIZE_def)
  have "field_elem 101" "field_elem 11"
    by (simp_all add: small_field_elem)
  then have hash: "hash2 (poseidon_syscall demo_runtime) 101 11 = Some (demo_hash 101 11)"
    by (simp add: hash2_def demo_poseidon_simp)
  have fund: "can_fund demo_runtime ?L 2 ?xp (length (acc_data (?L ?xp)) + 65)"
    by (simp add: can_fund_def demo_registry_ledger_payer) (simp add: demo_runtime_def)
  have room: "length (acc_data (?L ?xp)) + 65 \<le> MAX_ACCOUNT_SIZE"
    by (simp add: demo_registry_ledger_def MAX_ACCOUNT_SIZE_def)
  have key: "schnorr_public_key demo_management schnorr_key_id = Some (b32_bytes 2)"
    by (simp add: demo_management_def)
  have program: "bs58_decode demo_crates (demo_hex (b32_bytes demo_program)) = Some (b32_bytes demo_program)"
    by (simp add: unhex_hex)
  have absent: "21 \<notin> xe_nullifier ` set []"
    by simp
  show ?thesis
    using solana_attestation_lands [OF demo_solana_submits demo_schnorr_law demo_laws program
        demo_derives_registry key demo_parse_b32(2) demo_parse_b32(2) demo_parse_b32(2) hold absent
        hash demo_served fund room]
    by blast
qed

end
