(* ===== verification/Instruction_Codec.thy ===== *)
theory Instruction_Codec
  imports Attestor_Env Pool_Errors
begin

text \<open>
  The converter from proof artifacts to instruction data (\<open>crates/groth16-verify\<close>): curve points and
  public inputs from snarkjs JSON, the instruction layouts of \<open>opaq_instruction\<close>, and the tool
  \<open>emit_opaq_instruction\<close> on its parsed input files. What it emits is read back with the program's
  own decoding: \<open>decode\<close>, \<open>args_ok\<close>, \<open>statement_of\<close>.
\<close>

section \<open>Field elements and points\<close>

text \<open>The field crates: \<open>'f\<close> is \<open>Fq\<close>; a failed parse is \<open>None\<close>.\<close>

record 'f field_ops =
  fq_from_str :: "string \<Rightarrow> 'f option"
  fq_is_zero :: "'f \<Rightarrow> bool"
  fq_inverse :: "'f \<Rightarrow> 'f option"
  fq_mul :: "'f \<Rightarrow> 'f \<Rightarrow> 'f"
  fq_neg :: "'f \<Rightarrow> 'f"
  fq_bytes_be :: "'f \<Rightarrow> bytes"
  fr_bytes_be :: "string \<Rightarrow> bytes option"

type_synonym 'a tool = "(string, 'a) outcome"

record proof_bytes =
  pb_a :: bytes
  pb_b :: bytes
  pb_c :: bytes

record vk_bytes =
  vb_alpha :: bytes
  vb_beta :: bytes
  vb_gamma :: bytes
  vb_delta :: bytes
  vb_ic :: "bytes list"

definition to32 :: "bytes \<Rightarrow> bytes32 tool" where
  "to32 v =
     (if length v \<le> 32 then Ok (bytes_b32 (replicate (32 - length v) 0 @ v)) else Panic)"

definition fq :: "'f field_ops \<Rightarrow> string \<Rightarrow> 'f tool" where
  "fq F v = expect (fq_from_str F v)"

definition fq_bytes :: "'f field_ops \<Rightarrow> 'f \<Rightarrow> bytes32 tool" where
  "fq_bytes F f = to32 (fq_bytes_be F f)"

definition fr_be :: "'f field_ops \<Rightarrow> string \<Rightarrow> bytes32 tool" where
  "fr_be F v = and_then (expect (fr_bytes_be F v)) to32"

text \<open>\<open>fq(s(&p[i]))\<close> and \<open>p[i].as_array()\<close>.\<close>

definition nth_value :: "'j list \<Rightarrow> nat \<Rightarrow> 'j tool" where
  "nth_value p i = (if i < length p then Ok (p ! i) else Panic)"

definition coordinate :: "'j json \<Rightarrow> 'f field_ops \<Rightarrow> 'j list \<Rightarrow> nat \<Rightarrow> 'f tool" where
  "coordinate J F p i =
     and_then (nth_value p i) (\<lambda>v. and_then (expect (j_as_str J v)) (fq F))"

definition nth_array :: "'j json \<Rightarrow> 'j list \<Rightarrow> nat \<Rightarrow> 'j list tool" where
  "nth_array J p i = and_then (nth_value p i) (\<lambda>v. expect (j_as_array J v))"

definition g1 :: "'j json \<Rightarrow> 'f field_ops \<Rightarrow> 'j \<Rightarrow> bool \<Rightarrow> bytes tool" where
  "g1 J F v negate_y =
     and_then (expect (j_as_array J v)) (\<lambda>p.
     and_then (coordinate J F p 2) (\<lambda>z.
       if fq_is_zero F z then Ok (replicate 64 0)
       else
         and_then (expect (fq_inverse F z)) (\<lambda>zi.
         and_then (coordinate J F p 0) (\<lambda>x.
         and_then (coordinate J F p 1) (\<lambda>y.
         let x = fq_mul F x zi; y = fq_mul F y zi; y = (if negate_y then fq_neg F y else y) in
         and_then (fq_bytes F x) (\<lambda>xb.
         and_then (fq_bytes F y) (\<lambda>yb.
           Ok (b32_bytes xb @ b32_bytes yb))))))))"

text \<open>One coordinate of a G2 point as its 32 bytes.\<close>

definition coordinate_bytes :: "'j json \<Rightarrow> 'f field_ops \<Rightarrow> 'j list \<Rightarrow> nat \<Rightarrow> bytes32 tool" where
  "coordinate_bytes J F p i = and_then (coordinate J F p i) (fq_bytes F)"

definition g2 :: "'j json \<Rightarrow> 'f field_ops \<Rightarrow> 'j \<Rightarrow> bytes tool" where
  "g2 J F v =
     and_then (expect (j_as_array J v)) (\<lambda>p.
     and_then (nth_array J p 2) (\<lambda>z.
     and_then (coordinate J F z 0) (\<lambda>z0.
     and_then (if fq_is_zero F z0 then map_ok (fq_is_zero F) (coordinate J F z 1) else Ok False) (\<lambda>inf.
       if inf then Ok (replicate 128 0)
       else
         and_then (nth_array J p 0) (\<lambda>x.
         and_then (nth_array J p 1) (\<lambda>y.
         and_then (coordinate_bytes J F x 1) (\<lambda>x1.
         and_then (coordinate_bytes J F x 0) (\<lambda>x0.
         and_then (coordinate_bytes J F y 1) (\<lambda>y1.
         and_then (coordinate_bytes J F y 0) (\<lambda>y0.
           Ok (b32_bytes x1 @ b32_bytes x0 @ b32_bytes y1 @ b32_bytes y0)))))))))))"

definition proof_from_json :: "'j json \<Rightarrow> 'f field_ops \<Rightarrow> 'j \<Rightarrow> proof_bytes tool" where
  "proof_from_json J F v =
     and_then (g1 J F (j_index J v ''pi_a'') True) (\<lambda>a.
     and_then (g2 J F (j_index J v ''pi_b'')) (\<lambda>b.
     and_then (g1 J F (j_index J v ''pi_c'') False) (\<lambda>c.
       Ok \<lparr>pb_a = a, pb_b = b, pb_c = c\<rparr>)))"

fun collect_ok :: "('a \<Rightarrow> 'b tool) \<Rightarrow> 'a list \<Rightarrow> 'b list tool" where
  "collect_ok f [] = Ok []"
| "collect_ok f (x # xs) = and_then (f x) (\<lambda>y. map_ok ((#) y) (collect_ok f xs))"

definition vk_from_json :: "'j json \<Rightarrow> 'f field_ops \<Rightarrow> 'j \<Rightarrow> vk_bytes tool" where
  "vk_from_json J F v =
     and_then (g1 J F (j_index J v ''vk_alpha_1'') False) (\<lambda>alpha.
     and_then (g2 J F (j_index J v ''vk_beta_2'')) (\<lambda>beta.
     and_then (g2 J F (j_index J v ''vk_gamma_2'')) (\<lambda>gamma.
     and_then (g2 J F (j_index J v ''vk_delta_2'')) (\<lambda>delta.
     and_then (expect (j_as_array J (j_index J v ''IC''))) (\<lambda>ps.
     and_then (collect_ok (\<lambda>p. g1 J F p False) ps) (\<lambda>ic.
       Ok \<lparr>vb_alpha = alpha, vb_beta = beta, vb_gamma = gamma, vb_delta = delta, vb_ic = ic\<rparr>))))))"

definition public_from_json :: "'j json \<Rightarrow> 'f field_ops \<Rightarrow> 'j \<Rightarrow> bytes32 list tool" where
  "public_from_json J F v =
     and_then (expect (j_as_array J v)) (collect_ok (\<lambda>x. and_then (expect (j_as_str J x)) (fr_be F)))"

section \<open>Instruction data\<close>

record opaq_fields =
  of_mint :: bytes32
  of_amount :: u64
  of_commitment :: bytes32
  of_nullifier :: bytes32
  of_merkle_root :: bytes32
  of_recipient :: bytes32
  of_dest_chain :: bytes32

definition opaq_instruction :: "string \<Rightarrow> proof_bytes \<Rightarrow> opaq_fields \<Rightarrow> bytes tool" where
  "opaq_instruction circuit p f =
     (if circuit = ''deposit'' then
        Ok ([1] @ pb_a p @ pb_b p @ pb_c p @ b32_bytes (of_mint f) @ u64_to_le (of_amount f)
            @ b32_bytes (of_commitment f))
      else if circuit = ''withdraw'' then
        Ok ([2] @ pb_a p @ pb_b p @ pb_c p @ b32_bytes (of_merkle_root f) @ b32_bytes (of_nullifier f)
            @ b32_bytes (of_mint f) @ u64_to_le (of_amount f) @ b32_bytes (of_recipient f))
      else if circuit = ''burn'' then
        Ok ([4] @ pb_a p @ pb_b p @ pb_c p @ b32_bytes (of_merkle_root f) @ b32_bytes (of_nullifier f)
            @ b32_bytes (of_mint f) @ u64_to_le (of_amount f) @ b32_bytes (of_dest_chain f)
            @ b32_bytes (of_recipient f))
      else Err circuit)"

text \<open>The tool's \<open>hex32\<close>, and the data made of a tag, the proof and the public inputs.\<close>

definition tool_hex32 :: "crates \<Rightarrow> string \<Rightarrow> bytes32 tool" where
  "tool_hex32 c s = and_then (expect (hex_decode c s)) (\<lambda>b. expect (try_into32 b))"

definition public_instruction :: "u8 \<Rightarrow> proof_bytes \<Rightarrow> bytes32 list \<Rightarrow> bytes" where
  "public_instruction tag p public =
     [tag] @ pb_a p @ pb_b p @ pb_c p @ concat (map b32_bytes public)"

definition sidecar_field :: "crates \<Rightarrow> 'j json \<Rightarrow> 'j \<Rightarrow> string \<Rightarrow> bytes32 tool" where
  "sidecar_field c J v name = and_then (expect (j_as_str J (j_index J v name))) (tool_hex32 c)"

definition sidecar_fields :: "crates \<Rightarrow> 'j json \<Rightarrow> 'j \<Rightarrow> opaq_fields tool" where
  "sidecar_fields c J v =
     and_then (sidecar_field c J v ''mint_hex'') (\<lambda>mint.
     and_then (expect (j_as_u64 J (j_index J v ''amount''))) (\<lambda>amount.
     and_then (sidecar_field c J v ''commitment'') (\<lambda>commitment.
     and_then (sidecar_field c J v ''nullifier'') (\<lambda>nullifier.
     and_then (sidecar_field c J v ''merkle_root'') (\<lambda>merkle_root.
     and_then (sidecar_field c J v ''recipient_hex'') (\<lambda>recipient.
     and_then (case j_as_str J (j_index J v ''dest_chain'') of
         Some s \<Rightarrow> tool_hex32 c s | None \<Rightarrow> Ok 0) (\<lambda>dest_chain.
       Ok \<lparr>of_mint = mint, of_amount = amount, of_commitment = commitment, of_nullifier = nullifier,
           of_merkle_root = merkle_root, of_recipient = recipient, of_dest_chain = dest_chain\<rparr>)))))))"

text \<open>
  \<open>main\<close> on the parsed files, \<open>None\<close> for a file that cannot be read or parsed; the result is what it
  writes. A refused circuit is unwrapped, so it panics as well.
\<close>

definition emit_opaq_instruction ::
    "crates \<Rightarrow> 'j json \<Rightarrow> 'f field_ops \<Rightarrow> string \<Rightarrow> 'j option \<Rightarrow> 'j option \<Rightarrow> 'j option \<Rightarrow> bytes tool" where
  "emit_opaq_instruction c J F circuit proof_json public_json sidecar =
     and_then (expect proof_json) (\<lambda>proof_json.
     and_then (proof_from_json J F proof_json) (\<lambda>p.
       if circuit = ''transfer'' then
         and_then (expect public_json) (\<lambda>public_json.
         and_then (public_from_json J F public_json) (\<lambda>public.
           if length public = 5 then Ok (public_instruction 3 p public) else Panic))
       else
         let xburn_tag = (if circuit = ''xburn'' then Some 7
                          else if circuit = ''xburn-source'' then Some 8 else None) in
         (case xburn_tag of
            Some tag \<Rightarrow>
              and_then (expect public_json) (\<lambda>public_json.
              and_then (public_from_json J F public_json) (\<lambda>public.
                if length public = 4 then Ok (public_instruction tag p public) else Panic))
          | None \<Rightarrow>
              and_then (expect sidecar) (\<lambda>sidecar.
              and_then (sidecar_fields c J sidecar) (\<lambda>fields.
              case opaq_instruction circuit p fields of Inl _ \<Rightarrow> Panic | Inr data \<Rightarrow> Ok data)))))"

section \<open>Sizes\<close>

definition proof_ok :: "proof_bytes \<Rightarrow> bool" where
  "proof_ok p \<longleftrightarrow> length (pb_a p) = 64 \<and> length (pb_b p) = 128 \<and> length (pb_c p) = 64"

lemma length_g1: "g1 J F v neg = Ok b \<Longrightarrow> length b = 64"
  by (auto simp: g1_def Let_def outcome_simps split: if_splits)

lemma length_g2: "g2 J F v = Ok b \<Longrightarrow> length b = 128"
  by (auto simp: g2_def outcome_simps split: if_splits)

lemma proof_from_json_ok: "proof_from_json J F v = Ok p \<Longrightarrow> proof_ok p"
  by (auto simp: proof_from_json_def proof_ok_def outcome_simps dest: length_g1 length_g2)

lemma collect_ok_all: "collect_ok f xs = Ok ys \<Longrightarrow> length ys = length xs \<and> (\<forall>y \<in> set ys. \<exists>x \<in> set xs. f x = Ok y)"
  by (induction xs arbitrary: ys) (fastforce simp: outcome_simps)+

section \<open>Reading back\<close>

text \<open>The proof's parts are where the program looks for them.\<close>

lemma proof_slices:
  assumes "proof_ok p"
  shows "sub (pb_a p @ pb_b p @ pb_c p @ rest) 0 64 = pb_a p"
    and "sub (pb_a p @ pb_b p @ pb_c p @ rest) 64 128 = pb_b p"
    and "sub (pb_a p @ pb_b p @ pb_c p @ rest) 192 64 = pb_c p"
    and "sub (pb_a p @ pb_b p @ pb_c p @ rest) (256 + k) n = sub rest k n"
proof -
  show "sub (pb_a p @ pb_b p @ pb_c p @ rest) 0 64 = pb_a p"
    and "sub (pb_a p @ pb_b p @ pb_c p @ rest) 64 128 = pb_b p"
    using assms by (simp_all add: proof_ok_def sub_prefix sub_middle)
  show "sub (pb_a p @ pb_b p @ pb_c p @ rest) 192 64 = pb_c p"
    using assms sub_middle [of "pb_a p @ pb_b p" 192 "pb_c p" 64 rest] by (simp add: proof_ok_def)
  show "sub (pb_a p @ pb_b p @ pb_c p @ rest) (256 + k) n = sub rest k n"
    using assms sub_append_right [of "pb_a p @ pb_b p @ pb_c p" "256 + k" rest n]
    by (simp add: proof_ok_def)
qed

lemma b32_at_chunk:
  "i < length xs \<Longrightarrow> b32_at (concat (map b32_bytes xs)) (i * 32) = xs ! i"
  using sub_chunk [of "map b32_bytes xs" 32 i] by (simp add: b32_at_def)

lemma public_fields:
  assumes "proof_ok p" and "i < length xs"
  shows "b32_at (pb_a p @ pb_b p @ pb_c p @ concat (map b32_bytes xs)) (256 + i * 32) = xs ! i"
  using proof_slices(4) [OF assms(1)] b32_at_chunk [OF assms(2)] by (simp add: b32_at_def)

text \<open>The action each layout is meant for.\<close>

definition action_of :: "string \<Rightarrow> opaq_fields \<Rightarrow> action option" where
  "action_of circuit f =
     (if circuit = ''deposit'' then Some (Deposit (of_mint f) (of_amount f) (of_commitment f))
      else if circuit = ''withdraw'' then
        Some (Withdraw (of_merkle_root f) (of_nullifier f) (of_mint f) (of_amount f) (of_recipient f))
      else if circuit = ''burn'' then
        Some (Burn (of_merkle_root f) (of_nullifier f) (of_mint f) (of_amount f) (of_dest_chain f)
          (of_recipient f))
      else None)"

definition carries_proof :: "proof_bytes \<Rightarrow> bytes \<Rightarrow> bool" where
  "carries_proof p args \<longleftrightarrow>
     sub args 0 64 = pb_a p \<and> sub args 64 128 = pb_b p \<and> sub args 192 64 = pb_c p"

lemmas field_slices = sub_append_right sub_prefix sub_all b32_at_def

lemma fields_at:
  assumes "proof_ok p"
  shows "b32_at (pb_a p @ pb_b p @ pb_c p @ rest) (256 + k) = b32_at rest k"
    and "carries_proof p (pb_a p @ pb_b p @ pb_c p @ rest)"
  using proof_slices [OF assms, of rest] by (simp_all add: b32_at_def carries_proof_def)

lemma opaq_instruction_decodes:
  assumes "opaq_instruction circuit p f = Ok data" and "proof_ok p"
  obtains tag args where "data = tag # args" and "args_ok tag (length args)" and "carries_proof p args"
    and "action_of circuit f \<noteq> None" and "\<forall>accounts. decode accounts data = action_of circuit f"
proof -
  have len: "length (pb_a p) = 64" "length (pb_b p) = 128" "length (pb_c p) = 64"
    using assms(2) by (simp_all add: proof_ok_def)
  note at = fields_at(1) [OF assms(2)] proof_slices(4) [OF assms(2)]
  consider (d) "circuit = ''deposit''" | (w) "circuit = ''withdraw''" | (b) "circuit = ''burn''"
    using assms(1) by (auto simp: opaq_instruction_def split: if_splits)
  then show ?thesis
  proof cases
    case d
    let ?rest = "b32_bytes (of_mint f) @ u64_to_le (of_amount f) @ b32_bytes (of_commitment f)"
    have data: "data = 1 # pb_a p @ pb_b p @ pb_c p @ ?rest"
      using assms(1) d by (simp add: opaq_instruction_def)
    have "decode accounts data = action_of circuit f" for accounts
      using at [of ?rest 0] at [of ?rest 32] at [of ?rest 40]
      by (simp add: data d decode_def action_of_def field_slices)
    then show ?thesis
      using that [OF data] fields_at(2) [OF assms(2)] len d by (simp add: args_ok_def action_of_def)
  next
    case w
    let ?rest = "b32_bytes (of_merkle_root f) @ b32_bytes (of_nullifier f) @ b32_bytes (of_mint f) @
      u64_to_le (of_amount f) @ b32_bytes (of_recipient f)"
    have data: "data = 2 # pb_a p @ pb_b p @ pb_c p @ ?rest"
      using assms(1) w by (simp add: opaq_instruction_def)
    have "decode accounts data = action_of circuit f" for accounts
      using at [of ?rest 0] at [of ?rest 32] at [of ?rest 64] at [of ?rest 96] at [of ?rest 104]
      by (simp add: data w decode_def action_of_def field_slices)
    then show ?thesis
      using that [OF data] fields_at(2) [OF assms(2)] len w by (simp add: args_ok_def action_of_def)
  next
    case b
    let ?rest = "b32_bytes (of_merkle_root f) @ b32_bytes (of_nullifier f) @ b32_bytes (of_mint f) @
      u64_to_le (of_amount f) @ b32_bytes (of_dest_chain f) @ b32_bytes (of_recipient f)"
    have data: "data = 4 # pb_a p @ pb_b p @ pb_c p @ ?rest"
      using assms(1) b by (simp add: opaq_instruction_def)
    have "decode accounts data = action_of circuit f" for accounts
      using at [of ?rest 0] at [of ?rest 32] at [of ?rest 64] at [of ?rest 96] at [of ?rest 104]
        at [of ?rest 136]
      by (simp add: data b decode_def action_of_def field_slices)
    then show ?thesis
      using that [OF data] fields_at(2) [OF assms(2)] len b by (simp add: args_ok_def action_of_def)
  qed
qed

text \<open>The public inputs of a transfer or cross-chain instruction are what its proof is checked against.\<close>

lemma list4: "length xs = 4 \<Longrightarrow> xs = [xs ! 0, xs ! 1, xs ! 2, xs ! 3]"
  by (rule nth_equalityI) (auto simp: less_Suc_eq numeral_eq_Suc)

lemma list5: "length xs = 5 \<Longrightarrow> xs = [xs ! 0, xs ! 1, xs ! 2, xs ! 3, xs ! 4]"
  by (rule nth_equalityI) (auto simp: less_Suc_eq numeral_eq_Suc)

definition public_vk :: "u8 \<Rightarrow> verifying_key" where
  "public_vk tag = (if tag = 3 then TRANSFER_VK else XBURN_VK)"

lemma public_instruction_statement:
  assumes "proof_ok p" and "(tag = 3 \<and> length xs = 5) \<or> ((tag = 7 \<or> tag = 8) \<and> length xs = 4)"
  obtains args where "public_instruction tag p xs = tag # args" and "args_ok tag (length args)"
    and "carries_proof p args" and "\<forall>P. statement_of P tag args = Some (public_vk tag, xs)"
proof -
  let ?args = "pb_a p @ pb_b p @ pb_c p @ concat (map b32_bytes xs)"
  have eq: "public_instruction tag p xs = tag # ?args"
    by (simp add: public_instruction_def)
  have len: "length ?args = 256 + length xs * 32"
    using assms(1) length_chunks [of "map b32_bytes xs" 32] by (simp add: proof_ok_def)
  have ok: "args_ok tag (length ?args)"
    unfolding len using assms(2) by (auto simp: args_ok_def)
  note f = public_fields [OF assms(1)]
  have "statement_of P tag ?args = Some (public_vk tag, xs)" for P
  proof (cases "tag = 3")
    case True
    then have n: "length xs = 5" using assms(2) by auto
    show ?thesis
      using f [of 0 xs] f [of 1 xs] f [of 2 xs] f [of 3 xs] f [of 4 xs] n list5 [OF n]
      by (simp add: True statement_of_def Let_def public_vk_def)
  next
    case False
    then have n: "length xs = 4" and tag: "tag = 7 \<or> tag = 8" using assms(2) by auto
    have "(if tag = 7 \<or> tag = 8 then Some (XBURN_VK, xs) else None) = Some (public_vk tag, xs)"
      using False tag by (simp add: public_vk_def)
    then show ?thesis
      using f [of 0 xs] f [of 1 xs] f [of 2 xs] f [of 3 xs] n list4 [OF n] tag
      by (auto simp: statement_of_def Let_def public_vk_def)
  qed
  then show ?thesis
    using that [OF eq ok fields_at(2) [OF assms(1)]] by blast
qed

lemma unwrap_Ok [outcome_simps]: "(case r of Inl _ \<Rightarrow> Panic | Inr x \<Rightarrow> Ok x) = Inr y \<longleftrightarrow> r = Inr y"
  by (cases r) auto

lemma public_only_Ok [outcome_simps]:
  "(if length xs = k then Ok (f xs) else Panic) = Inr y \<longleftrightarrow> length xs = k \<and> y = f xs"
  by auto

lemma emit_opaq_instruction_cases:
  assumes "emit_opaq_instruction c J F circuit (Some v) public_json sidecar = Ok data"
    and "proof_from_json J F v = Ok p"
  obtains (public) tag u xs where "public_json = Some u" and "public_from_json J F u = Ok xs"
      and "data = public_instruction tag p xs" and "circuit \<in> {''transfer'', ''xburn'', ''xburn-source''}"
      and "(tag = 3 \<and> length xs = 5) \<or> ((tag = 7 \<or> tag = 8) \<and> length xs = 4)"
  | (fields) w f where "sidecar = Some w" and "sidecar_fields c J w = Ok f"
      and "opaq_instruction circuit p f = Ok data"
proof -
  note emit = assms(1) [unfolded emit_opaq_instruction_def, simplified, unfolded assms(2), simplified]
  show thesis
  proof (cases "circuit = ''transfer''")
    case True
    then obtain u xs where "public_json = Some u" "public_from_json J F u = Ok xs"
        "data = public_instruction 3 p xs" "length xs = 5"
      using emit by (auto simp: outcome_simps)
    then show thesis using public [of u xs 3] True by simp
  next
    case other: False
    show thesis
    proof (cases "circuit = ''xburn'' \<or> circuit = ''xburn-source''")
      case True
      define tag :: u8 where "tag = (if circuit = ''xburn'' then 7 else 8)"
      obtain u xs where "public_json = Some u" "public_from_json J F u = Ok xs"
          "data = public_instruction tag p xs" "length xs = 4"
        using emit other True by (cases "circuit = ''xburn''") (auto simp: outcome_simps tag_def)
      moreover have "tag = 7 \<or> tag = 8"
        by (simp add: tag_def)
      ultimately show thesis using public [of u xs tag] True by blast
    next
      case False
      then obtain w f where "sidecar = Some w" "sidecar_fields c J w = Ok f"
          "opaq_instruction circuit p f = Ok data"
        using emit other by (auto simp: outcome_simps)
      then show thesis by (rule fields)
    qed
  qed
qed

end
