(* ===== verification/View_Key.thy ===== *)
theory View_Key
  imports Instruction_Codec Merkle_Tree
begin

text \<open>
  Note discovery: the viewing keys and memos of \<open>crates/common/src/viewkey.rs\<close>, and what the wallet
  (\<open>crates/prover/src/main.rs\<close>) does with them, \<open>attach_recipient_memo\<close> on the sender's side and the
  scan of \<open>list_unspent\<close> on the recipient's. The curve, the cipher and the key derivation are
  parameters; so are the random bytes a sender draws.
\<close>

section \<open>Viewing keys and memos\<close>

record view_crypto =
  x25519_public :: "bytes32 \<Rightarrow> bytes32"
  diffie_hellman :: "bytes32 \<Rightarrow> bytes32 \<Rightarrow> bytes32"
  blake3_derive_key :: "string \<Rightarrow> bytes32 \<Rightarrow> bytes32"
  aead_encrypt :: "bytes32 \<Rightarrow> bytes \<Rightarrow> bytes \<Rightarrow> bytes option"
  aead_decrypt :: "bytes32 \<Rightarrow> bytes \<Rightarrow> bytes \<Rightarrow> bytes option"

text \<open>
  Documented behaviour: both sides of a key exchange get the same secret; ChaCha20-Poly1305
  encrypts into 16 more bytes and decrypts exactly what it encrypted.
\<close>

definition view_laws :: "view_crypto \<Rightarrow> bool" where
  "view_laws X \<longleftrightarrow>
     (\<forall>a b. diffie_hellman X a (x25519_public X b) = diffie_hellman X b (x25519_public X a)) \<and>
     (\<forall>k n p. \<exists>c. aead_encrypt X k n p = Some c \<and> length c = length p + 16 \<and>
        aead_decrypt X k n c = Some p)"

record view_key =
  vk_secret :: bytes32

definition viewing_pubkey :: "view_crypto \<Rightarrow> view_key \<Rightarrow> bytes32" where
  "viewing_pubkey X vk = x25519_public X (vk_secret vk)"

definition view_key_to_bytes :: "view_key \<Rightarrow> bytes32" where
  "view_key_to_bytes vk = vk_secret vk"

definition view_key_from_bytes :: "bytes32 \<Rightarrow> view_key" where
  "view_key_from_bytes b = \<lparr>vk_secret = b\<rparr>"

definition shared_secret :: "view_crypto \<Rightarrow> view_key \<Rightarrow> bytes32 \<Rightarrow> bytes32" where
  "shared_secret X vk ephemeral_pubkey = diffie_hellman X (vk_secret vk) ephemeral_pubkey"

record note_opening =
  no_mint :: bytes32
  no_amount :: bytes32
  no_blinding_factor :: bytes32

definition opening_to_bytes :: "note_opening \<Rightarrow> bytes" where
  "opening_to_bytes o' =
     b32_bytes (no_mint o') @ b32_bytes (no_amount o') @ b32_bytes (no_blinding_factor o')"

definition opening_from_bytes :: "bytes \<Rightarrow> note_opening" where
  "opening_from_bytes b =
     \<lparr>no_mint = b32_at b 0, no_amount = b32_at b 32, no_blinding_factor = b32_at b 64\<rparr>"

record memo =
  ephemeral_pubkey :: bytes32
  memo_nonce :: bytes
  ciphertext :: bytes

definition MEMO_LEN :: nat where
  "MEMO_LEN = 32 + 12 + 96 + 16"

text \<open>\<open>copy_from_slice\<close> into fixed ranges: the nonce must have 12 bytes and the ciphertext 112.\<close>

definition memo_to_bytes :: "memo \<Rightarrow> bytes tool" where
  "memo_to_bytes m =
     (if length (memo_nonce m) = 12 \<and> length (ciphertext m) = MEMO_LEN - 44
      then Ok (b32_bytes (ephemeral_pubkey m) @ memo_nonce m @ ciphertext m) else Panic)"

definition memo_from_bytes :: "bytes \<Rightarrow> memo" where
  "memo_from_bytes b =
     \<lparr>ephemeral_pubkey = b32_at b 0, memo_nonce = sub b 32 12, ciphertext = drop 44 b\<rparr>"

definition kdf :: "view_crypto \<Rightarrow> bytes32 \<Rightarrow> bytes32" where
  "kdf X shared = blake3_derive_key X ''opaq/viewkey/v1'' shared"

text \<open>\<open>esk\<close> and \<open>nonce\<close> are what the sender draws.\<close>

definition encrypt_for ::
    "view_crypto \<Rightarrow> bytes32 \<Rightarrow> bytes \<Rightarrow> bytes32 \<Rightarrow> note_opening \<Rightarrow> memo tool" where
  "encrypt_for X esk nonce recipient_viewing_pubkey opening =
     (let epk = x25519_public X esk;
          shared = diffie_hellman X esk recipient_viewing_pubkey;
          sym_key = kdf X shared
      in
      and_then (expect (aead_encrypt X sym_key nonce (opening_to_bytes opening))) (\<lambda>ct.
        Ok \<lparr>ephemeral_pubkey = epk, memo_nonce = nonce, ciphertext = ct\<rparr>))"

definition try_decrypt :: "view_crypto \<Rightarrow> view_key \<Rightarrow> memo \<Rightarrow> note_opening option" where
  "try_decrypt X vk m =
     (let shared = shared_secret X vk (ephemeral_pubkey m); sym_key = kdf X shared in
      case aead_decrypt X sym_key (memo_nonce m) (ciphertext m) of
        None \<Rightarrow> None
      | Some plaintext \<Rightarrow>
          if length plaintext = 96 then Some (opening_from_bytes plaintext) else None)"

section \<open>The wallet\<close>

definition wallet_hex32 :: "crates \<Rightarrow> string \<Rightarrow> bytes32 tool" where
  "wallet_hex32 c s =
     ok_or (case hex_decode c (trim_0x s) of None \<Rightarrow> None | Some b \<Rightarrow> try_into32 b)
       ''expected 32-byte hex''"

definition recipient_memo ::
    "view_crypto \<Rightarrow> bytes32 \<Rightarrow> bytes \<Rightarrow> bytes32 \<Rightarrow> note_opening \<Rightarrow> bytes tool" where
  "recipient_memo X esk nonce to_view opening =
     and_then (encrypt_for X esk nonce to_view opening) memo_to_bytes"

text \<open>The blob in the file, with the memo appended, and the number of bytes.\<close>

definition attach_recipient_memo ::
    "view_crypto \<Rightarrow> bytes32 \<Rightarrow> bytes \<Rightarrow> bytes \<Rightarrow> bytes32 \<Rightarrow> note_opening \<Rightarrow> (bytes \<times> nat) tool" where
  "attach_recipient_memo X esk nonce blob to_view opening =
     and_then (recipient_memo X esk nonce to_view opening) (\<lambda>memo_bytes.
       Ok (blob @ memo_bytes, length memo_bytes))"

record found_note =
  fn_mint :: bytes32
  fn_amount :: u64
  fn_spend_key :: bytes32
  fn_blinding :: bytes32
  fn_owner_pubkey :: bytes32
  fn_commitment :: bytes32

text \<open>One turn of the scan: an error, nothing to keep, or a note to write.\<close>

definition scan_memo ::
    "crates \<Rightarrow> 'j json \<Rightarrow> view_crypto \<Rightarrow> poseidon \<Rightarrow> view_key \<Rightarrow> bytes32 \<Rightarrow> bytes32 \<Rightarrow> bytes32 list \<Rightarrow> 'j
      \<Rightarrow> found_note option tool" where
  "scan_memo c J X P vk spend_key owner_pubkey spent_set m =
     and_then (ok_or (j_as_str J (j_index J m ''commitment'')) ''memo entry missing commitment'') (\<lambda>s.
     and_then (wallet_hex32 c s) (\<lambda>commitment_expected.
     and_then (ok_or (j_as_str J (j_index J m ''memo'')) ''memo entry missing memo'') (\<lambda>s.
     and_then (ok_or (hex_decode c s) ''bad memo hex'') (\<lambda>memo_bytes.
       if length memo_bytes \<noteq> MEMO_LEN then Ok None
       else case try_decrypt X vk (memo_from_bytes memo_bytes) of
         None \<Rightarrow> Ok None
       | Some opening \<Rightarrow>
           and_then (expect (to_field_be P (no_mint opening))) (\<lambda>token_id.
           and_then (expect (poseidon_be P
             [token_id, no_amount opening, owner_pubkey, no_blinding_factor opening])) (\<lambda>commitment.
             if commitment \<noteq> commitment_expected then Ok None
             else
               and_then (expect (poseidon_be P [commitment, spend_key])) (\<lambda>nullifier.
                 if nullifier \<in> set spent_set then Ok None
                 else Ok (Some \<lparr>fn_mint = no_mint opening,
                    fn_amount = u64_from_be (sub (b32_bytes (no_amount opening)) 24 8),
                    fn_spend_key = spend_key, fn_blinding = no_blinding_factor opening,
                    fn_owner_pubkey = owner_pubkey, fn_commitment = commitment\<rparr>))))))))"

fun scan_memos :: "('j \<Rightarrow> found_note option tool) \<Rightarrow> 'j list \<Rightarrow> found_note list tool" where
  "scan_memos scan [] = Ok []"
| "scan_memos scan (m # ms) =
     and_then (scan m) (\<lambda>r.
     and_then (scan_memos scan ms) (\<lambda>rest.
       Ok (case r of None \<Rightarrow> rest | Some n \<Rightarrow> n # rest)))"

text \<open>
  \<open>list_unspent\<close> on the decrypted identity and the read path's output; the result is the notes it
  writes when it reports success.
\<close>

definition list_unspent ::
    "crates \<Rightarrow> 'j json \<Rightarrow> view_crypto \<Rightarrow> poseidon \<Rightarrow> 'j \<Rightarrow> 'j \<Rightarrow> found_note list tool" where
  "list_unspent c J X P identity v =
     and_then (ok_or (j_as_str J (j_index J identity ''spend_key'')) ''identity missing spend_key'') (\<lambda>s.
     and_then (wallet_hex32 c s) (\<lambda>spend_key.
     and_then (ok_or (j_as_str J (j_index J identity ''view_key'')) ''identity missing view_key'') (\<lambda>s.
     and_then (wallet_hex32 c s) (\<lambda>view_key_bytes.
     and_then (expect (poseidon_be P [spend_key])) (\<lambda>owner_pubkey.
     and_then (ok_or (j_as_array J (j_index J v ''nullifiers'')) ''missing nullifiers'') (\<lambda>ns.
     and_then (collect_ok (\<lambda>x. and_then (expect (j_as_str J x)) (wallet_hex32 c)) ns) (\<lambda>spent_set.
     and_then (ok_or (j_as_array J (j_index J v ''memos'')) ''missing memos'') (\<lambda>memos.
       scan_memos (scan_memo c J X P (view_key_from_bytes view_key_bytes) spend_key owner_pubkey
         spent_set) memos))))))))"

section \<open>Round trips\<close>

lemma opening_roundtrip: "opening_from_bytes (opening_to_bytes o') = o'"
proof -
  have "sub (opening_to_bytes o') 64 32 = b32_bytes (no_blinding_factor o')"
    using sub_middle [of "b32_bytes (no_mint o') @ b32_bytes (no_amount o')" 64
        "b32_bytes (no_blinding_factor o')" 32 "[]"] by (simp add: opening_to_bytes_def)
  moreover have "sub (opening_to_bytes o') 0 32 = b32_bytes (no_mint o')"
    and "sub (opening_to_bytes o') 32 32 = b32_bytes (no_amount o')"
    by (simp_all add: opening_to_bytes_def sub_prefix sub_middle)
  ultimately show ?thesis
    by (simp add: opening_from_bytes_def b32_at_def)
qed

lemma length_opening [simp]: "length (opening_to_bytes o') = 96"
  by (simp add: opening_to_bytes_def)

lemma memo_roundtrip:
  assumes "memo_to_bytes m = Ok b"
  shows "memo_from_bytes b = m" and "length b = MEMO_LEN"
  using assms
  by (auto simp: memo_to_bytes_def memo_from_bytes_def MEMO_LEN_def b32_at_def sub_prefix sub_middle
      split: if_splits)

lemma encrypt_for_Ok:
  assumes "view_laws X" and "length nonce = 12"
  obtains m b where "encrypt_for X esk nonce (viewing_pubkey X vk) opening = Ok m"
    and "memo_to_bytes m = Ok b" and "length b = MEMO_LEN" and "memo_from_bytes b = m"
    and "try_decrypt X vk m = Some opening"
proof -
  let ?k = "kdf X (diffie_hellman X esk (viewing_pubkey X vk))"
  obtain ct where ct: "aead_encrypt X ?k nonce (opening_to_bytes opening) = Some ct" "length ct = 96 + 16"
      "aead_decrypt X ?k nonce ct = Some (opening_to_bytes opening)"
    using assms(1) unfolding view_laws_def by (metis length_opening)
  let ?m = "\<lparr>ephemeral_pubkey = x25519_public X esk, memo_nonce = nonce, ciphertext = ct\<rparr>"
  have m: "encrypt_for X esk nonce (viewing_pubkey X vk) opening = Ok ?m"
    using ct(1) by (simp add: encrypt_for_def Let_def)
  obtain b where b: "memo_to_bytes ?m = Ok b"
    using assms(2) ct(2) by (simp add: memo_to_bytes_def MEMO_LEN_def)
  have "shared_secret X vk (x25519_public X esk) = diffie_hellman X esk (viewing_pubkey X vk)"
    using assms(1) by (simp add: view_laws_def shared_secret_def viewing_pubkey_def)
  then have "try_decrypt X vk ?m = Some opening"
    using ct(3) by (simp add: try_decrypt_def opening_roundtrip)
  then show ?thesis
    using that [OF m b] memo_roundtrip [OF b] by blast
qed

section \<open>Discovery\<close>

lemma scan_memos_notes:
  "scan_memos scan ms = Ok found \<Longrightarrow> n \<in> set found \<longleftrightarrow> (\<exists>m \<in> set ms. scan m = Ok (Some n))"
  by (induction ms arbitrary: found) (fastforce simp: outcome_simps split: option.splits)+

lemma list_unspent_Ok:
  assumes "list_unspent c J X P identity v = Ok found"
  obtains s sk s' vb owner ns spent_set memos where
    "j_as_str J (j_index J identity ''spend_key'') = Some s" and "wallet_hex32 c s = Ok sk"
    and "j_as_str J (j_index J identity ''view_key'') = Some s'" and "wallet_hex32 c s' = Ok vb"
    and "poseidon_be P [sk] = Some owner"
    and "j_as_array J (j_index J v ''nullifiers'') = Some ns"
    and "collect_ok (\<lambda>x. and_then (expect (j_as_str J x)) (wallet_hex32 c)) ns = Ok spent_set"
    and "j_as_array J (j_index J v ''memos'') = Some memos"
    and "scan_memos (scan_memo c J X P (view_key_from_bytes vb) sk owner spent_set) memos = Ok found"
  using assms by (auto simp: list_unspent_def outcome_simps)

text \<open>A note that the scan keeps opens the commitment of its entry and is unspent.\<close>

lemma scan_memo_sound:
  assumes "scan_memo c J X P vk spend_key owner spent_set m = Ok (Some n)"
  shows "\<exists>t nf s. to_field_be P (fn_mint n) = Some t \<and>
    j_as_str J (j_index J m ''commitment'') = Some s \<and> wallet_hex32 c s = Ok (fn_commitment n) \<and>
    poseidon_be P [fn_commitment n, spend_key] = Some nf \<and> nf \<notin> set spent_set \<and>
    fn_spend_key n = spend_key \<and> fn_owner_pubkey n = owner"
  using assms
  by (auto simp: scan_memo_def outcome_simps split: if_splits option.splits)

text \<open>The program reads the first 416 bytes of a transfer's arguments.\<close>

lemma transfer_ignores_tail:
  assumes "length args = 416"
  shows "transfer rt pid accounts (args @ tail) L = transfer rt pid accounts args L"
  using assms
  by (simp add: transfer_def check_proof_def b32_at_def sub_append_left)

text \<open>
  The scan hashes whatever a memo decrypts to, and the hash panics on a value that is not a canonical
  field element: one such memo, which anybody who knows the viewing key can attach, ends the scan.
\<close>

lemma unhashable_memo_panics:
  assumes "j_as_str J (j_index J m ''commitment'') = Some s" and "wallet_hex32 c s = Ok expected"
    and "j_as_str J (j_index J m ''memo'') = Some s'" and "hex_decode c s' = Some b"
    and "length b = MEMO_LEN" and "try_decrypt X vk (memo_from_bytes b) = Some opening"
    and "to_field_be P (no_mint opening) = Some t"
    and "poseidon_be P [t, no_amount opening, owner, no_blinding_factor opening] = None"
  shows "scan_memos (scan_memo c J X P vk spend_key owner spent_set) (m # ms) = Panic"
  using assms by (simp add: scan_memo_def)

end
