(* ===== verification/Tooling_Properties.thy ===== *)
theory Tooling_Properties
  imports View_Key Demo_Attestor
begin

text \<open>
  What the off-chain tools guarantee: the instruction data they emit is what the program reads, and
  a recipient's wallet finds the notes sent to it.
\<close>

section \<open>Instruction data\<close>

text \<open>
  C36: Whatever \<open>emit_opaq_instruction\<close> writes, the program accepts in size and reads back: the
  proof at the offsets the verifier takes it from; for the public-input circuits exactly the proven
  public inputs as the statement, under the right verifying key; for the others the action with the
  sidecar's fields.
\<close>

theorem emitted_instruction_reads_back:
  assumes "emit_opaq_instruction c J F circuit proof_json public_json sidecar = Ok data"
  shows "\<exists>v p tag args. proof_json = Some v \<and> proof_from_json J F v = Ok p \<and>
    length (pb_a p) = 64 \<and> length (pb_b p) = 128 \<and> length (pb_c p) = 64 \<and>
    data = tag # args \<and> args_ok tag (length args) \<and> carries_proof p args \<and>
    ((\<exists>u xs. public_json = Some u \<and> public_from_json J F u = Ok xs \<and>
        circuit \<in> {''transfer'', ''xburn'', ''xburn-source''} \<and>
        (\<forall>P. statement_of P tag args = Some (public_vk tag, xs))) \<or>
     (\<exists>w f. sidecar = Some w \<and> sidecar_fields c J w = Ok f \<and>
        circuit \<in> {''deposit'', ''withdraw'', ''burn''} \<and>
        (\<forall>accounts. decode accounts data = action_of circuit f)))"
proof -
  obtain v p where v: "proof_json = Some v" and p: "proof_from_json J F v = Ok p"
    using assms by (auto simp: emit_opaq_instruction_def outcome_simps)
  have ok: "proof_ok p"
    by (rule proof_from_json_ok [OF p])
  then have sizes: "length (pb_a p) = 64" "length (pb_b p) = 128" "length (pb_c p) = 64"
    by (simp_all add: proof_ok_def)
  note emit = assms [unfolded v]
  from emit p show ?thesis
  proof (cases rule: emit_opaq_instruction_cases)
    case (public tag u xs)
    obtain args where "data = tag # args" "args_ok tag (length args)" "carries_proof p args"
      "\<forall>P. statement_of P tag args = Some (public_vk tag, xs)"
      unfolding public(3) by (rule public_instruction_statement [OF ok public(5)])
    then show ?thesis
      using v p sizes public(1,2,4) by (intro exI conjI disjI1) assumption+
  next
    case (fields w f)
    obtain tag args where a: "data = tag # args" "args_ok tag (length args)" "carries_proof p args"
      "action_of circuit f \<noteq> None" "\<forall>accounts. decode accounts data = action_of circuit f"
      by (rule opaq_instruction_decodes [OF fields(3) ok])
    then have "circuit \<in> {''deposit'', ''withdraw'', ''burn''}"
      by (auto simp: action_of_def split: if_splits)
    then show ?thesis
      using v p sizes fields(1,2) a by (intro exI conjI disjI2) assumption+
  qed
qed

text \<open>Numbers in unary, and a proof made of them.\<close>

definition demo_field :: "nat field_ops" where
  "demo_field =
     \<lparr>fq_from_str = (\<lambda>s. Some (length s)), fq_is_zero = (\<lambda>n. n = 0), fq_inverse = (\<lambda>n. Some n),
      fq_mul = (*), fq_neg = (\<lambda>n. n + 1), fq_bytes_be = (\<lambda>n. [word_of_nat n]),
      fr_bytes_be = (\<lambda>s. Some [word_of_nat (length s)])\<rparr>"

definition demo_proof :: demo_json where
  "demo_proof =
     (let one = JStr ''x''; pair = JArr [one, one] in
      JObj [(''pi_a'', JArr [one, one, one]), (''pi_b'', JArr [pair, pair, pair]),
            (''pi_c'', JArr [one, one, one])])"

definition demo_public :: demo_json where
  "demo_public = JArr [JStr ''r'', JStr ''nn'', JStr ''ccc'', JStr ''oooo'']"

lemma demo_emits:
  "\<exists>data. emit_opaq_instruction demo_crates (demo_json_api []) demo_field ''xburn-source''
     (Some demo_proof) (Some demo_public) None = Ok data"
  by (simp add: emit_opaq_instruction_def proof_from_json_def g1_def g2_def coordinate_def
      coordinate_bytes_def nth_value_def nth_array_def fq_def fq_bytes_def fr_be_def to32_def
      public_from_json_def demo_proof_def demo_public_def demo_field_def demo_json_api_def Let_def)

lemma demo_public_values:
  "public_from_json (demo_json_api []) demo_field demo_public = Ok xs \<Longrightarrow>
     xs = [bytes_b32 (replicate 31 0 @ [1]), bytes_b32 (replicate 31 0 @ [2]),
           bytes_b32 (replicate 31 0 @ [3]), bytes_b32 (replicate 31 0 @ [4])]"
  by (simp add: public_from_json_def demo_public_def demo_field_def demo_json_api_def fr_be_def
      to32_def)

theorem emitted_instruction_reads_back_witness:
  "\<exists>data tag args. emit_opaq_instruction demo_crates (demo_json_api []) demo_field ''xburn-source''
       (Some demo_proof) (Some demo_public) None = Ok data \<and>
     data = tag # args \<and> args_ok tag (length args) \<and>
     (\<exists>vk r n rest. statement_of demo_poseidon tag args = Some (vk, r # n # rest) \<and>
        n = bytes_b32 (replicate 31 0 @ [2]))"
proof -
  obtain data where data: "emit_opaq_instruction demo_crates (demo_json_api []) demo_field
      ''xburn-source'' (Some demo_proof) (Some demo_public) None = Ok data"
    using demo_emits by blast
  from emitted_instruction_reads_back [OF data] obtain tag args xs where
    "data = tag # args" "args_ok tag (length args)"
    "public_from_json (demo_json_api []) demo_field demo_public = Ok xs"
    "\<forall>P. statement_of P tag args = Some (public_vk tag, xs)"
    by auto
  then show ?thesis
    using data demo_public_values [of xs] by blast
qed

section \<open>Note discovery\<close>

text \<open>
  C37: A transfer with an attached memo runs exactly as without it, and the recipient finds the
  note: the memo is 156 bytes, and when \<open>list_unspent\<close> completes over a history that contains it
  next to the commitment it opens, and the note is not spent, the note is in its result with the
  mint, the amount and the blinding factor the sender put in.
\<close>

theorem sent_note_is_found:
  assumes "view_laws X" and "codec_laws c" and "length nonce = 12" and "length args = 416"
    and "attach_recipient_memo X esk nonce (tag # args) (viewing_pubkey X vk) opening = Ok (blob, n)"
    and "list_unspent c J X P identity v = Ok found"
    and "j_as_str J (j_index J identity ''spend_key'') = Some (hex_encode c (b32_bytes spend_key))"
    and "j_as_str J (j_index J identity ''view_key'') =
           Some (hex_encode c (b32_bytes (view_key_to_bytes vk)))"
    and "j_as_array J (j_index J v ''memos'') = Some memos" and "m \<in> set memos"
    and "j_as_str J (j_index J m ''memo'') = Some (hex_encode c (drop 417 blob))"
    and "j_as_str J (j_index J m ''commitment'') = Some (hex_encode c (b32_bytes commitment))"
    and "poseidon_be P [spend_key] = Some owner" and "to_field_be P (no_mint opening) = Some token_id"
    and "poseidon_be P [token_id, no_amount opening, owner, no_blinding_factor opening] = Some commitment"
    and "poseidon_be P [commitment, spend_key] = Some nullifier"
    and "j_as_array J (j_index J v ''nullifiers'') = Some ns"
    and "\<forall>x \<in> set ns. \<forall>s. j_as_str J x = Some s \<longrightarrow> wallet_hex32 c s \<noteq> Ok nullifier"
  shows "n = 156 \<and> take 417 blob = tag # args \<and>
    transfer rt pid accounts (tl blob) L = transfer rt pid accounts args L \<and>
    \<lparr>fn_mint = no_mint opening, fn_amount = u64_from_be (sub (b32_bytes (no_amount opening)) 24 8),
     fn_spend_key = spend_key, fn_blinding = no_blinding_factor opening, fn_owner_pubkey = owner,
     fn_commitment = commitment\<rparr> \<in> set found"
proof -
  note codec = codec_lawsD [OF assms(2)]
  have hex: "wallet_hex32 c (hex_encode c (b32_bytes w)) = Ok w" for w
    by (simp add: wallet_hex32_def codec)
  obtain mm b where enc: "encrypt_for X esk nonce (viewing_pubkey X vk) opening = Ok mm"
    and b: "memo_to_bytes mm = Ok b" "length b = MEMO_LEN" "memo_from_bytes b = mm"
    and dec: "try_decrypt X vk mm = Some opening"
    by (rule encrypt_for_Ok [OF assms(1,3)])
  have blob: "blob = tag # args @ b" and n: "n = 156"
    using assms(5) enc b by (auto simp: attach_recipient_memo_def recipient_memo_def MEMO_LEN_def)
  have drop: "drop 417 blob = b"
    using assms(4) by (simp add: blob)
  obtain sk vb owner' ns' spent_set memos' where l:
    "wallet_hex32 c (hex_encode c (b32_bytes spend_key)) = Ok sk"
    "wallet_hex32 c (hex_encode c (b32_bytes (view_key_to_bytes vk))) = Ok vb"
    "poseidon_be P [sk] = Some owner'" "ns' = ns"
    "collect_ok (\<lambda>x. and_then (expect (j_as_str J x)) (wallet_hex32 c)) ns' = Ok spent_set"
    "memos' = memos"
    "scan_memos (scan_memo c J X P (view_key_from_bytes vb) sk owner' spent_set) memos' = Ok found"
    by (rule list_unspent_Ok [OF assms(6)]) (use assms(7-9,17) in auto)
  then have eqs: "sk = spend_key" "view_key_from_bytes vb = vk" "owner' = owner"
    using hex assms(13) by (auto simp: view_key_from_bytes_def view_key_to_bytes_def)
  have "nullifier \<notin> set spent_set"
    using collect_ok_all [OF l(5)] assms(18) l(4) by (auto simp: outcome_simps)
  then have "scan_memo c J X P vk spend_key owner spent_set m = Ok (Some
      \<lparr>fn_mint = no_mint opening, fn_amount = u64_from_be (sub (b32_bytes (no_amount opening)) 24 8),
       fn_spend_key = spend_key, fn_blinding = no_blinding_factor opening, fn_owner_pubkey = owner,
       fn_commitment = commitment\<rparr>)"
    using assms(11-16) b dec by (simp add: scan_memo_def drop hex codec)
  then have "\<lparr>fn_mint = no_mint opening,
      fn_amount = u64_from_be (sub (b32_bytes (no_amount opening)) 24 8), fn_spend_key = spend_key,
      fn_blinding = no_blinding_factor opening, fn_owner_pubkey = owner, fn_commitment = commitment\<rparr>
      \<in> set found"
    using scan_memos_notes [OF l(7)] assms(10) l(6) eqs by blast
  moreover have "transfer rt pid accounts (tl blob) L = transfer rt pid accounts args L"
    using transfer_ignores_tail [OF assms(4)] by (simp add: blob)
  moreover have "take 417 blob = tag # args"
    using assms(4) by (simp add: blob)
  ultimately show ?thesis
    using n by blast
qed

text \<open>A history with one memo, under a toy cipher and a hash that counts its inputs.\<close>

definition demo_view :: view_crypto where
  "demo_view =
     \<lparr>x25519_public = (\<lambda>s. s), diffie_hellman = (*), blake3_derive_key = (\<lambda>ctx s. s),
      aead_encrypt = (\<lambda>k n p. Some (p @ replicate 16 0)),
      aead_decrypt = (\<lambda>k n ct. Some (take (length ct - 16) ct))\<rparr>"

lemma demo_view_laws: "view_laws demo_view"
  by (simp add: view_laws_def demo_view_def mult.commute)

definition count_poseidon :: poseidon where
  "count_poseidon xs = Some (word_of_nat (length xs))"

definition demo_opening :: note_opening where
  "demo_opening = \<lparr>no_mint = 5, no_amount = be32 1000, no_blinding_factor = 8\<rparr>"

definition demo_identity :: demo_json where
  "demo_identity = JObj [(''spend_key'', JStr (demo_hex (b32_bytes 9))),
                         (''view_key'', JStr (demo_hex (b32_bytes 3)))]"

definition demo_memo_entry :: "bytes \<Rightarrow> demo_json" where
  "demo_memo_entry blob = JObj [(''memo'', JStr (demo_hex (drop 417 blob))),
                                (''commitment'', JStr (demo_hex (b32_bytes 4)))]"

definition demo_history :: "bytes \<Rightarrow> demo_json" where
  "demo_history blob =
     JObj [(''nullifiers'', JArr [JStr (demo_hex (b32_bytes 77))]), (''memos'', JArr [demo_memo_entry blob])]"

lemma demo_wallet_hex: "wallet_hex32 demo_crates (demo_hex (b32_bytes w)) = Ok w"
  using trim_0x_id [OF hex_no_x [of "b32_bytes w"]] by (simp add: wallet_hex32_def unhex_hex)

lemma demo_list_unspent:
  "\<exists>found. list_unspent demo_crates (demo_json_api []) demo_view count_poseidon demo_identity
     (demo_history blob) = Ok found"
proof -
  have "\<exists>r. scan_memo demo_crates (demo_json_api []) demo_view count_poseidon vk 9 1 [77]
      (demo_memo_entry blob) = Ok r" for vk
    by (simp add: scan_memo_def demo_memo_entry_def demo_json_api_def demo_wallet_hex unhex_hex
        try_decrypt_def demo_view_def Let_def to_field_be_def poseidon_be_def count_poseidon_def)
  then obtain r where "scan_memo demo_crates (demo_json_api []) demo_view count_poseidon
      (view_key_from_bytes 3) 9 1 [77] (demo_memo_entry blob) = Ok r" by blast
  then show ?thesis
    by (simp add: list_unspent_def demo_identity_def demo_history_def demo_json_simps
        demo_wallet_hex poseidon_be_def count_poseidon_def)
qed

theorem sent_note_is_found_witness:
  "\<exists>blob found note. attach_recipient_memo demo_view 6 (replicate 12 1) (3 # replicate 416 0)
       (viewing_pubkey demo_view \<lparr>vk_secret = 3\<rparr>) demo_opening = Ok (blob, 156) \<and>
     list_unspent demo_crates (demo_json_api []) demo_view count_poseidon demo_identity
       (demo_history blob) = Ok found \<and>
     note \<in> set found \<and> fn_amount note = 1000 \<and> fn_mint note = 5"
proof -
  let ?vk = "\<lparr>vk_secret = 3\<rparr>"
  have twelve: "length (replicate 12 (1 :: byte)) = 12" and args: "length (replicate 416 (0 :: byte)) = 416"
    by simp_all
  obtain blob n where attach: "attach_recipient_memo demo_view 6 (replicate 12 1) (3 # replicate 416 0)
      (viewing_pubkey demo_view ?vk) demo_opening = Ok (blob, n)"
    using encrypt_for_Ok [OF demo_view_laws twelve, of 6 ?vk demo_opening]
    by (fastforce simp: attach_recipient_memo_def recipient_memo_def)
  obtain found where found: "list_unspent demo_crates (demo_json_api []) demo_view count_poseidon
      demo_identity (demo_history blob) = Ok found"
    using demo_list_unspent by blast
  have amount: "u64_from_be (sub (b32_bytes (no_amount demo_opening)) 24 8) = 1000"
    by (simp add: demo_opening_def) code_simp
  let ?note = "\<lparr>fn_mint = no_mint demo_opening,
      fn_amount = u64_from_be (sub (b32_bytes (no_amount demo_opening)) 24 8), fn_spend_key = 9,
      fn_blinding = no_blinding_factor demo_opening, fn_owner_pubkey = 1, fn_commitment = 4\<rparr>"
  have "n = 156 \<and> ?note \<in> set found"
    using sent_note_is_found [OF demo_view_laws demo_codec_laws twelve args attach found,
        where spend_key = 9 and memos = "[demo_memo_entry blob]" and m = "demo_memo_entry blob"
          and commitment = 4 and owner = 1 and token_id = 2 and nullifier = 2
          and ns = "[JStr (demo_hex (b32_bytes 77))]"]
    by (simp add: demo_identity_def demo_history_def demo_memo_entry_def demo_json_simps
        view_key_to_bytes_def poseidon_be_def count_poseidon_def to_field_be_def demo_wallet_hex)
  moreover have "fn_amount ?note = 1000" and "fn_mint ?note = 5"
    using amount by (simp_all add: demo_opening_def)
  ultimately show ?thesis
    using attach found by blast
qed

end
