(* ===== verification/Circuits.thy ===== *)
theory Circuits
  imports Pool_Tree
begin

text \<open>
  The relations the Noir circuits enforce (\<open>circuits/withdraw\<close>, \<open>deposit\<close>, \<open>burn\<close>, \<open>xburn\<close>, \<open>transfer\<close>), as
  executable checks of a witness. A field element is its 32 bytes; the hash is the parameter \<open>P\<close>,
  and a missing hash value fails the check.
\<close>

definition deposit_circuit ::
    "poseidon \<Rightarrow> bytes32 \<Rightarrow> bytes32 \<Rightarrow> bytes32 \<Rightarrow> bytes32 \<Rightarrow> bytes32 \<Rightarrow> bool" where
  "deposit_circuit P token_id amount new_commitment owner_pubkey blinding_factor \<longleftrightarrow>
     unat amount < 2 ^ 64 \<and>
     P [token_id, amount, owner_pubkey, blinding_factor] = Some new_commitment"

text \<open>The note behind a spending key, its nullifier, and its place in the tree.\<close>

record note_input =
  ni_amount :: bytes32
  ni_spend_key :: bytes32
  ni_blinding :: bytes32
  ni_is_dummy :: bool
  ni_merkle_path :: "bytes32 list"
  ni_merkle_path_indices :: "bool list"

definition input_ok :: "poseidon \<Rightarrow> bytes32 \<Rightarrow> bytes32 \<Rightarrow> bytes32 \<Rightarrow> note_input \<Rightarrow> bool" where
  "input_ok P root token_id nullifier i \<longleftrightarrow>
     unat (ni_amount i) < 2 ^ 64 \<and>
     length (ni_merkle_path i) = TREE_DEPTH \<and> length (ni_merkle_path_indices i) = TREE_DEPTH \<and>
     (case P [ni_spend_key i] of None \<Rightarrow> False
      | Some owner \<Rightarrow>
          (case P [token_id, ni_amount i, owner, ni_blinding i] of None \<Rightarrow> False
           | Some commitment \<Rightarrow>
               (if ni_is_dummy i then ni_amount i = 0
                else merkle_root_be P commitment (ni_merkle_path i) (ni_merkle_path_indices i) =
                       Some root) \<and>
               P [commitment, ni_spend_key i] = Some nullifier))"

text \<open>\<open>recipient\<close>, \<open>dest_chain\<close> and \<open>dest_address\<close> are bound and otherwise unconstrained.\<close>

definition withdraw_circuit ::
    "poseidon \<Rightarrow> bytes32 \<Rightarrow> bytes32 \<Rightarrow> bytes32 \<Rightarrow> bytes32 \<Rightarrow> bytes32 \<Rightarrow> bytes32 \<Rightarrow> bytes32
      \<Rightarrow> bytes32 list \<Rightarrow> bool list \<Rightarrow> bool" where
  "withdraw_circuit P root nullifier token_id amount recipient spend_key blinding_factor
       merkle_path merkle_path_indices \<longleftrightarrow>
     input_ok P root token_id nullifier
       \<lparr>ni_amount = amount, ni_spend_key = spend_key, ni_blinding = blinding_factor,
        ni_is_dummy = False, ni_merkle_path = merkle_path,
        ni_merkle_path_indices = merkle_path_indices\<rparr>"

definition burn_circuit ::
    "poseidon \<Rightarrow> bytes32 \<Rightarrow> bytes32 \<Rightarrow> bytes32 \<Rightarrow> bytes32 \<Rightarrow> bytes32 \<Rightarrow> bytes32 \<Rightarrow> bytes32 \<Rightarrow> bytes32
      \<Rightarrow> bytes32 list \<Rightarrow> bool list \<Rightarrow> bool" where
  "burn_circuit P root nullifier token_id amount dest_chain dest_address spend_key
       blinding_factor merkle_path merkle_path_indices \<longleftrightarrow>
     input_ok P root token_id nullifier
       \<lparr>ni_amount = amount, ni_spend_key = spend_key, ni_blinding = blinding_factor,
        ni_is_dummy = False, ni_merkle_path = merkle_path,
        ni_merkle_path_indices = merkle_path_indices\<rparr>"

text \<open>\<open>circuits/xburn\<close>: the source note is spent and a note of the same token and amount is bound.\<close>

definition xburn_circuit ::
    "poseidon \<Rightarrow> bytes32 \<Rightarrow> bytes32 \<Rightarrow> bytes32 \<Rightarrow> bytes32 \<Rightarrow> bytes32 \<Rightarrow> bytes32 \<Rightarrow> bytes32 \<Rightarrow> bytes32
      \<Rightarrow> bytes32 list \<Rightarrow> bool list \<Rightarrow> bytes32 \<Rightarrow> bytes32 \<Rightarrow> bool" where
  "xburn_circuit P src_root src_nullifier dest_chain out_commitment token_id amount src_spend_key
       src_blinding src_merkle_path src_merkle_path_indices dest_owner_pubkey dest_blinding \<longleftrightarrow>
     input_ok P src_root token_id src_nullifier
       \<lparr>ni_amount = amount, ni_spend_key = src_spend_key, ni_blinding = src_blinding,
        ni_is_dummy = False, ni_merkle_path = src_merkle_path,
        ni_merkle_path_indices = src_merkle_path_indices\<rparr> \<and>
     P [token_id, amount, dest_owner_pubkey, dest_blinding] = Some out_commitment"

record note_output =
  out_amount :: bytes32
  out_owner_pubkey :: bytes32
  out_blinding :: bytes32

definition output_ok :: "poseidon \<Rightarrow> bytes32 \<Rightarrow> bytes32 \<Rightarrow> note_output \<Rightarrow> bool" where
  "output_ok P token_id commitment out \<longleftrightarrow>
     unat (out_amount out) < 2 ^ 64 \<and>
     P [token_id, out_amount out, out_owner_pubkey out, out_blinding out] = Some commitment"

text \<open>The sums are field sums.\<close>

definition transfer_circuit ::
    "poseidon \<Rightarrow> bytes32 \<Rightarrow> bytes32 list \<Rightarrow> bytes32 list \<Rightarrow> bytes32 \<Rightarrow> note_input list
      \<Rightarrow> note_output list \<Rightarrow> bool" where
  "transfer_circuit P root nfs cms token_id ins outs \<longleftrightarrow>
     length ins = 2 \<and> length outs = 2 \<and>
     list_all2 (input_ok P root token_id) nfs ins \<and>
     list_all2 (output_ok P token_id) cms outs \<and>
     sum_list (map (unat \<circ> ni_amount) ins) mod bn254_fr =
       sum_list (map (unat \<circ> out_amount) outs) mod bn254_fr"

text \<open>With the range checks the field sums are the sums: no value is created.\<close>

lemma transfer_conserves:
  assumes "transfer_circuit P root nfs cs token_id ins outs"
  shows "sum_list (map (unat \<circ> ni_amount) ins) = sum_list (map (unat \<circ> out_amount) outs)"
proof -
  from assms obtain i0 i1 o0 o1 where two: "ins = [i0, i1]" "outs = [o0, o1]"
    by (auto simp: transfer_circuit_def length_Suc_conv numeral_2_eq_2)
  then have "unat (ni_amount i0) < 2 ^ 64" "unat (ni_amount i1) < 2 ^ 64"
    "unat (out_amount o0) < 2 ^ 64" "unat (out_amount o1) < 2 ^ 64"
    using assms by (auto simp: transfer_circuit_def input_ok_def output_ok_def list_all2_Cons2)
  then have "unat (ni_amount i0) + unat (ni_amount i1) < bn254_fr"
    "unat (out_amount o0) + unat (out_amount o1) < bn254_fr"
    by (simp_all add: bn254_fr_def)
  then show ?thesis
    using assms by (simp add: transfer_circuit_def two)
qed

section \<open>Amounts\<close>

lemma be32_ucast: "be32 n = ucast n"
proof -
  have "nat_of_be (be_of_nat 16 (unat n)) = unat n"
    using unat_bound [of n] by (simp add: nat_of_be_of_nat)
  then have "be32 n = word_of_nat (unat n)"
    by (simp add: be32_def patch_def bytes_b32_def nat_of_be_append)
  then show ?thesis by simp
qed

lemma unat_be32_amount [simp]: "unat (be32 (ucast (a :: u64))) = unat a"
proof -
  have a: "unat a < 2 ^ 64"
    using unat_bound [of a] by simp
  have "unat (word_of_nat (unat a) :: 128 word) = unat a"
    using a by (subst unat_of_nat) simp
  then have u: "unat (ucast a :: 128 word) = unat a"
    by simp
  have "unat (word_of_nat (unat a) :: bytes32) = unat a"
    using a by (subst unat_of_nat) simp
  moreover have "be32 (ucast a) = word_of_nat (unat (ucast a :: 128 word))"
    unfolding be32_ucast by (rule of_nat_unat [symmetric])
  ultimately show ?thesis
    unfolding u by simp
qed

lemma be32_amount_u64: "be32 (ucast (a :: u64)) = be32_u64 a"
proof (rule word_unat_eq_iff [THEN iffD2])
  show "unat (be32 (ucast a)) = unat (be32_u64 a)"
    using unat_bound [of a] by (simp add: be32_u64_ucast unsigned_ucast_eq take_bit_nat_eq_self)
qed

end
