(* ===== verification/Wallet_Env.thy ===== *)
theory Wallet_Env
  imports View_Key Read_Path Circuits
begin

text \<open>
  What the wallet (\<open>crates/prover/src/main.rs\<close>) is built on: commands that read and write files, draw
  random values and run other programs, as functions on an explicit state; the command line
  (\<open>flags\<close>, \<open>req\<close>), the argument parsers, the encrypted note files (\<open>write_note\<close>, \<open>read_note\<close>) and
  the privacy warnings of \<open>warn.rs\<close>. File access, other programs and the random source are functions
  of the record \<open>wallet\<close>. An error is its message, without the text of the operating system's error;
  the progress lines the commands print are left out.
\<close>

section \<open>Commands\<close>

type_synonym files = "string \<Rightarrow> bytes option"

record recipient_history =
  rh_count :: u64
  rh_capped :: bool

datatype wallet_event =
  Wrote string bytes
| Ran string "string list"
| WarnRecipient string "recipient_history option"
| WarnAmount u64 bool

record wallet_state =
  ws_files :: files
  ws_drawn :: nat
  ws_events :: "wallet_event list"

record command_output =
  co_success :: bool
  co_stdout :: bytes

text \<open>
  \<open>w_fr_rand\<close> and \<open>w_fill_bytes\<close> give the \<open>n\<close>th draw: a random scalar as the bytes of its integer, or
  so many random bytes. \<open>w_command\<close> is \<open>None\<close> for a program that cannot be started; otherwise its
  output and the files it leaves. \<open>w_text\<close> is the trimmed text of an output. \<open>w_tmp\<close> is a file name in
  the directory for temporary files.
\<close>

record 'j wallet =
  w_crates :: crates
  w_json :: "'j json"
  w_to_string :: "json_lit \<Rightarrow> string"
  w_poseidon :: poseidon
  w_view :: view_crypto
  w_argon2 :: "string \<Rightarrow> bytes \<Rightarrow> bytes32 option"
  w_env :: "string \<Rightarrow> string option"
  w_tmp :: "string \<Rightarrow> string"
  w_pid :: string
  w_text :: "bytes \<Rightarrow> string"
  w_can_write :: "string \<Rightarrow> bool"
  w_fr_rand :: "nat \<Rightarrow> bytes"
  w_fill_bytes :: "nat \<Rightarrow> nat \<Rightarrow> bytes"
  w_command :: "string \<Rightarrow> string list \<Rightarrow> files \<Rightarrow> (command_output \<times> files) option"

type_synonym 'a command = "wallet_state \<Rightarrow> (string, 'a) outcome \<times> wallet_state"

definition cbind :: "'a command \<Rightarrow> ('a \<Rightarrow> 'b command) \<Rightarrow> 'b command" where
  "cbind m k = (\<lambda>s. case m s of (Inl e, s') \<Rightarrow> (Inl e, s') | (Inr x, s') \<Rightarrow> k x s')"

definition lift :: "'a tool \<Rightarrow> 'a command" where
  "lift r = (\<lambda>s. (r, s))"

definition event :: "wallet_event \<Rightarrow> unit command" where
  "event e = (\<lambda>s. (Ok (), s\<lparr>ws_events := ws_events s @ [e]\<rparr>))"

definition as_bytes :: "string \<Rightarrow> bytes" where
  "as_bytes s = map of_char s"

definition read_file :: "string \<Rightarrow> bytes command" where
  "read_file p = (\<lambda>s. (ok_or (ws_files s p) (''read '' @ p), s))"

definition write_file :: "'j wallet \<Rightarrow> string \<Rightarrow> string \<Rightarrow> bytes \<Rightarrow> unit command" where
  "write_file W msg p b =
     (\<lambda>s. if w_can_write W p
          then (Ok (), s\<lparr>ws_files := (ws_files s)(p \<mapsto> b), ws_events := ws_events s @ [Wrote p b]\<rparr>)
          else (Err msg, s))"

definition fill_bytes :: "'j wallet \<Rightarrow> nat \<Rightarrow> bytes command" where
  "fill_bytes W n = (\<lambda>s. (Ok (w_fill_bytes W (ws_drawn s) n), s\<lparr>ws_drawn := ws_drawn s + 1\<rparr>))"

definition wallet_to32 :: "bytes \<Rightarrow> bytes32 tool" where
  "wallet_to32 v = (if length v \<le> 32 then Ok (bytes_b32 (patch (replicate 32 0) (32 - length v) v)) else Panic)"

definition random_scalar :: "'j wallet \<Rightarrow> bytes32 command" where
  "random_scalar W =
     (\<lambda>s. (wallet_to32 (w_fr_rand W (ws_drawn s)), s\<lparr>ws_drawn := ws_drawn s + 1\<rparr>))"

definition spawn :: "'j wallet \<Rightarrow> string \<Rightarrow> string list \<Rightarrow> command_output command" where
  "spawn W cmd args =
     (\<lambda>s. case w_command W cmd args (ws_files s) of
            None \<Rightarrow> (Err (''spawn '' @ cmd), s)
          | Some (out, fs) \<Rightarrow>
              (Ok out, s\<lparr>ws_files := fs, ws_events := ws_events s @ [Ran cmd args]\<rparr>))"

section \<open>Sequencing\<close>

named_theorems command_simps "the steps of a command that succeeds"

lemma cbind_Ok_iff [command_simps]:
  "cbind m k s = (Inr y, s') \<longleftrightarrow> (\<exists>x t. m s = (Inr x, t) \<and> k x t = (Inr y, s'))"
  by (auto simp: cbind_def split: prod.splits sum.splits)

lemma lift_Ok_iff [command_simps]: "lift r s = (Inr x, t) \<longleftrightarrow> r = Inr x \<and> t = s"
  by (auto simp: lift_def)

lemma event_Ok_iff [command_simps]:
  "event e s = (r, t) \<longleftrightarrow> r = Ok () \<and> t = s\<lparr>ws_events := ws_events s @ [e]\<rparr>"
  by (auto simp: event_def)

lemma read_file_Ok_iff [command_simps]:
  "read_file p s = (Inr b, t) \<longleftrightarrow> ws_files s p = Some b \<and> t = s"
  by (auto simp: read_file_def outcome_simps)

lemma write_file_Ok_iff [command_simps]:
  "write_file W msg p b s = (Inr u, t) \<longleftrightarrow> w_can_write W p \<and>
     t = s\<lparr>ws_files := (ws_files s)(p \<mapsto> b), ws_events := ws_events s @ [Wrote p b]\<rparr>"
  by (auto simp: write_file_def)

lemma fill_bytes_Ok_iff [command_simps]:
  "fill_bytes W n s = (r, t) \<longleftrightarrow>
     r = Ok (w_fill_bytes W (ws_drawn s) n) \<and> t = s\<lparr>ws_drawn := ws_drawn s + 1\<rparr>"
  by (auto simp: fill_bytes_def)

lemma random_scalar_Ok_iff [command_simps]:
  "random_scalar W s = (Inr x, t) \<longleftrightarrow>
     wallet_to32 (w_fr_rand W (ws_drawn s)) = Inr x \<and> t = s\<lparr>ws_drawn := ws_drawn s + 1\<rparr>"
  by (auto simp: random_scalar_def)

text \<open>The \<open>n\<close>th scalar drawn from a state on.\<close>

definition drawn :: "'j wallet \<Rightarrow> wallet_state \<Rightarrow> nat \<Rightarrow> bytes32 tool" where
  "drawn W s n = wallet_to32 (w_fr_rand W (ws_drawn s + n))"

lemma spawn_Ok_iff [command_simps]:
  "spawn W cmd args s = (Inr out, t) \<longleftrightarrow> (\<exists>fs. w_command W cmd args (ws_files s) = Some (out, fs) \<and>
     t = s\<lparr>ws_files := fs, ws_events := ws_events s @ [Ran cmd args]\<rparr>)"
  by (auto simp: spawn_def split: option.splits)

section \<open>Numbers and JSON text\<close>

fun nat_text :: "nat \<Rightarrow> string" where
  "nat_text n = (if n < 10 then [char_of (48 + n)] else nat_text (n div 10) @ [char_of (48 + n mod 10)])"

declare nat_text.simps [simp del]

text \<open>\<open>str::parse\<close> of an unsigned integer: an optional plus sign, then decimal digits, no overflow.\<close>

fun radix10 :: "nat \<Rightarrow> nat \<Rightarrow> string \<Rightarrow> nat option" where
  "radix10 bound acc [] = Some acc"
| "radix10 bound acc (c # cs) =
     (let d = of_char c in
      if 48 \<le> d \<and> d \<le> 57 \<and> acc * 10 + (d - 48) < bound then radix10 bound (acc * 10 + (d - 48)) cs
      else None)"

definition parse_decimal :: "nat \<Rightarrow> string \<Rightarrow> nat option" where
  "parse_decimal bound s =
     (let digits = (case s of CHR ''+'' # r \<Rightarrow> r | _ \<Rightarrow> s)
      in if digits = [] then None else radix10 bound 0 digits)"

definition parse_u64 :: "string \<Rightarrow> u64 option" where
  "parse_u64 s = map_option word_of_nat (parse_decimal (2 ^ 64) s)"

definition parse_u128 :: "string \<Rightarrow> 128 word option" where
  "parse_u128 s = map_option word_of_nat (parse_decimal (2 ^ 128) s)"

text \<open>The compact JSON text that the code writes with \<open>format!\<close>; its strings need no escapes.\<close>

fun join_with :: "string \<Rightarrow> string list \<Rightarrow> string" where
  "join_with sep [] = []"
| "join_with sep [x] = x"
| "join_with sep (x # y # r) = x @ sep @ join_with sep (y # r)"

definition quoted :: "string \<Rightarrow> string" where
  "quoted s = [CHR 0x22] @ s @ [CHR 0x22]"

fun json_text :: "json_lit \<Rightarrow> string" where
  "json_text LNull = ''null''"
| "json_text (LBool b) = (if b then ''true'' else ''false'')"
| "json_text (LNum n) = nat_text n"
| "json_text (LStr s) = quoted s"
| "json_text (LArr xs) = ''['' @ join_with '','' (map json_text xs) @ '']''"
| "json_text (LObj fs) =
     CHR 0x7B # join_with '','' (map (\<lambda>(k, v). quoted k @ '':'' @ json_text v) fs) @ [CHR 0x7D]"

declare json_text.simps [simp del]

definition field_hex :: "crates \<Rightarrow> bytes32 \<Rightarrow> string" where
  "field_hex c bytes32 = ''0x'' @ hex_encode c (b32_bytes bytes32)"

definition LHex :: "crates \<Rightarrow> bytes32 \<Rightarrow> json_lit" where
  "LHex c b = LStr (hex_encode c (b32_bytes b))"

definition LField :: "crates \<Rightarrow> bytes32 \<Rightarrow> json_lit" where
  "LField c b = LStr (field_hex c b)"

text \<open>
  Documented behaviour of \<open>serde_json\<close>: what it prints for an object of scalars it reads back, and
  indexing then finds each value, and nothing under any other key.
\<close>

definition reads_as :: "'j json \<Rightarrow> 'j \<Rightarrow> json_lit \<Rightarrow> bool" where
  "reads_as J j v =
     (case v of
        LNull \<Rightarrow> j_is_null J j
      | LBool b \<Rightarrow> j_as_bool J j = Some b
      | LNum n \<Rightarrow> n < 2 ^ 64 \<longrightarrow> j_as_u64 J j = Some (word_of_nat n)
      | LStr s \<Rightarrow> j_as_str J j = Some s
      | _ \<Rightarrow> True)"

definition reads_object :: "'j json \<Rightarrow> 'j \<Rightarrow> (string \<times> json_lit) list \<Rightarrow> bool" where
  "reads_object J j fs \<longleftrightarrow>
     (\<forall>(k, v) \<in> set fs. reads_as J (j_index J j k) v) \<and>
     (\<forall>k. k \<notin> fst ` set fs \<longrightarrow> j_as_str J (j_index J j k) = None)"

definition serde_law :: "'j json \<Rightarrow> (json_lit \<Rightarrow> string) \<Rightarrow> bool" where
  "serde_law J to_string \<longleftrightarrow>
     (\<forall>fs. distinct (map fst fs) \<longrightarrow>
        (\<exists>j. j_from_slice J (as_bytes (to_string (LObj fs))) = Some j \<and> reads_object J j fs))"

section \<open>The command line\<close>

type_synonym flag_map = "string \<Rightarrow> string option"

definition dashes :: "string \<Rightarrow> bool" where
  "dashes s \<longleftrightarrow> take 2 s = ''--''"

fun flags_from :: "flag_map \<Rightarrow> string list \<Rightarrow> flag_map" where
  "flags_from m [] = m"
| "flags_from m [a] = (if dashes a then m(drop 2 a \<mapsto> '''') else m)"
| "flags_from m (a # v # rest) =
     (if dashes a
      then if dashes v then flags_from (m(drop 2 a \<mapsto> '''')) (v # rest)
           else flags_from (m(drop 2 a \<mapsto> v)) rest
      else flags_from m (v # rest))"

definition flags :: "string list \<Rightarrow> flag_map" where
  "flags args = flags_from (\<lambda>_. None) args"

definition req :: "flag_map \<Rightarrow> string \<Rightarrow> string tool" where
  "req f k = ok_or (f k) (''missing --'' @ k)"

definition has_flag :: "flag_map \<Rightarrow> string \<Rightarrow> bool" where
  "has_flag f k \<longleftrightarrow> f k \<noteq> None"

definition unwrap_or :: "'a option \<Rightarrow> 'a \<Rightarrow> 'a" where
  "unwrap_or m d = (case m of None \<Rightarrow> d | Some x \<Rightarrow> x)"

text \<open>A 32-byte key in hex, or else in base 58.\<close>

definition wallet_pubkey :: "crates \<Rightarrow> string \<Rightarrow> bytes32 tool" where
  "wallet_pubkey c s =
     (let base58 = ok_or (case bs58_decode c s of None \<Rightarrow> None | Some b \<Rightarrow> try_into32 b)
                         (''invalid pubkey: '' @ s)
      in case hex_decode c (trim_0x s) of
           Some b \<Rightarrow> (if length b = 32 then Ok (bytes_b32 b) else base58)
         | None \<Rightarrow> base58)"

definition wallet_evm_address :: "crates \<Rightarrow> string \<Rightarrow> bytes32 tool" where
  "wallet_evm_address c s =
     and_then (ok_or (hex_decode c (trim_0x s)) ''dest-address must be hex'') (\<lambda>bytes.
       if length bytes \<noteq> 20 then Err ''dest-address must be a 20-byte EVM address (40 hex chars)''
       else Ok (bytes_b32 (patch (replicate 32 0) 12 bytes)))"

section \<open>Note files\<close>

definition passphrase :: "'j wallet \<Rightarrow> string tool" where
  "passphrase W =
     ok_or (w_env W ''OPAQ_PASSPHRASE'') ''set $OPAQ_PASSPHRASE to encrypt/decrypt the note''"

definition derive_key :: "'j wallet \<Rightarrow> string \<Rightarrow> bytes \<Rightarrow> bytes32 tool" where
  "derive_key W pass salt = expect (w_argon2 W pass salt)"

text \<open>\<open>Nonce::from_slice\<close>.\<close>

definition nonce12 :: "bytes \<Rightarrow> bytes tool" where
  "nonce12 b = (if length b = 12 then Ok b else Panic)"

definition note_envelope :: "crates \<Rightarrow> bytes \<Rightarrow> bytes \<Rightarrow> bytes \<Rightarrow> (string \<times> json_lit) list" where
  "note_envelope c salt nonce ct =
     [(''v'', LNum 1), (''salt'', LStr (hex_encode c salt)), (''nonce'', LStr (hex_encode c nonce)),
      (''ct'', LStr (hex_encode c ct))]"

definition write_note :: "'j wallet \<Rightarrow> string \<Rightarrow> (string \<times> json_lit) list \<Rightarrow> unit command" where
  "write_note W path note =
     cbind (lift (passphrase W)) (\<lambda>pass.
     cbind (fill_bytes W 16) (\<lambda>salt.
     cbind (fill_bytes W 12) (\<lambda>nonce.
     cbind (lift (derive_key W pass salt)) (\<lambda>key.
     cbind (lift (nonce12 nonce)) (\<lambda>nonce.
     cbind (lift (ok_or (aead_encrypt (w_view W) key nonce (as_bytes (w_to_string W (LObj note))))
                        ''encrypt failed'')) (\<lambda>ct.
       write_file W (''write '' @ path) path
         (as_bytes (w_to_string W (LObj (note_envelope (w_crates W) salt nonce ct))))))))))"

definition envelope_field :: "crates \<Rightarrow> 'j json \<Rightarrow> 'j \<Rightarrow> string \<Rightarrow> bytes tool" where
  "envelope_field c J env k =
     and_then (ok_or (j_as_str J (j_index J env k)) (''note missing '' @ k)) (\<lambda>s.
       ok_or (hex_decode c s) (''bad '' @ k))"

definition read_note :: "'j wallet \<Rightarrow> string \<Rightarrow> 'j command" where
  "read_note W path =
     (let c = w_crates W; J = w_json W in
     cbind (lift (passphrase W)) (\<lambda>pass.
     cbind (read_file path) (\<lambda>b.
     cbind (lift (ok_or (j_from_slice J b) ''note is not valid JSON'')) (\<lambda>env.
     cbind (lift (envelope_field c J env ''salt'')) (\<lambda>salt.
     cbind (lift (envelope_field c J env ''nonce'')) (\<lambda>nonce.
     cbind (lift (envelope_field c J env ''ct'')) (\<lambda>ct.
     cbind (lift (derive_key W pass salt)) (\<lambda>key.
     cbind (lift (nonce12 nonce)) (\<lambda>nonce.
     cbind (lift (ok_or (aead_decrypt (w_view W) key nonce ct)
                        ''decrypt failed (wrong passphrase?)'')) (\<lambda>pt.
       lift (ok_or (j_from_slice J pt) ''decrypted note is not valid JSON'')))))))))))"

section \<open>Warnings\<close>

definition is_round :: "u64 \<Rightarrow> bool" where
  "is_round n \<longleftrightarrow> n \<in> {1, 5, 10, 25, 50, 100, 500, 1000} \<or> (n \<noteq> 0 \<and> n mod 1000 = 0)"

text \<open>The ellipsis in UTF-8 between the first six and the last four characters.\<close>

definition short :: "string \<Rightarrow> string" where
  "short s =
     (if 12 < length s
      then take 6 s @ [CHR 0xE2, CHR 0x80, CHR 0xA6] @ drop (length s - 4) s else s)"

text \<open>The flag says whether the amount's anonymity set is called tiny.\<close>

definition warn_amount :: "u64 \<Rightarrow> unit command" where
  "warn_amount amount = event (WarnAmount amount (\<not> is_round amount))"

definition warn_recipient :: "crates \<Rightarrow> bytes32 \<Rightarrow> recipient_history option \<Rightarrow> unit command" where
  "warn_recipient c recipient past =
     event (WarnRecipient (short (bs58_encode c (b32_bytes recipient))) past)"

section \<open>A note file opens to the note\<close>

text \<open>\<open>note_file W b fs\<close>: whoever has the passphrase reads the fields \<open>fs\<close> out of the file's bytes.\<close>

definition note_file :: "'j wallet \<Rightarrow> bytes \<Rightarrow> (string \<times> json_lit) list \<Rightarrow> bool" where
  "note_file W b fs \<longleftrightarrow>
     (\<forall>p s. ws_files s p = Some b \<longrightarrow>
        (\<exists>j. read_note W p s = (Ok j, s) \<and> reads_object (w_json W) j fs))"

lemma reads_objectD:
  "reads_object J j fs \<Longrightarrow> (k, LStr s) \<in> set fs \<Longrightarrow> j_as_str J (j_index J j k) = Some s"
  "reads_object J j fs \<Longrightarrow> (k, LNum n) \<in> set fs \<Longrightarrow> n < 2 ^ 64 \<Longrightarrow>
     j_as_u64 J (j_index J j k) = Some (word_of_nat n)"
  by (fastforce simp: reads_object_def reads_as_def)+

lemma serde_lawE:
  assumes "serde_law J to_string" and "distinct (map fst fs)"
  obtains j where "j_from_slice J (as_bytes (to_string (LObj fs))) = Some j" and "reads_object J j fs"
  using assms by (auto simp: serde_law_def)

lemma write_note_Ok:
  assumes "codec_laws (w_crates W)" and "serde_law (w_json W) (w_to_string W)" and "view_laws (w_view W)"
    and "distinct (map fst note)" and "write_note W path note s = (Ok u, t)"
  obtains b where "note_file W b note" and "w_can_write W path"
    and "t = s\<lparr>ws_files := (ws_files s)(path \<mapsto> b), ws_drawn := ws_drawn s + 2,
               ws_events := ws_events s @ [Wrote path b]\<rparr>"
proof -
  let ?c = "w_crates W" and ?J = "w_json W"
  define salt where "salt = w_fill_bytes W (ws_drawn s) 16"
  define nonce where "nonce = w_fill_bytes W (ws_drawn s + 1) 12"
  obtain pass key ct where pass: "passphrase W = Ok pass" and key: "derive_key W pass salt = Ok key"
    and nonce: "nonce12 nonce = Ok nonce"
    and ct: "aead_encrypt (w_view W) key nonce (as_bytes (w_to_string W (LObj note))) = Some ct"
    and w: "w_can_write W path"
      "t = s\<lparr>ws_files := (ws_files s)(path \<mapsto> as_bytes (w_to_string W (LObj (note_envelope ?c salt nonce ct)))),
            ws_drawn := ws_drawn s + 2,
            ws_events := ws_events s @ [Wrote path (as_bytes (w_to_string W (LObj (note_envelope ?c salt nonce ct))))]\<rparr>"
    using assms(5)
    by (auto simp: write_note_def command_simps outcome_simps salt_def nonce_def nonce12_def split: if_splits)
  let ?b = "as_bytes (w_to_string W (LObj (note_envelope ?c salt nonce ct)))"
  have d: "distinct (map fst (note_envelope ?c salt nonce ct))"
    by (simp add: note_envelope_def)
  obtain env where env: "j_from_slice ?J ?b = Some env" and re: "reads_object ?J env (note_envelope ?c salt nonce ct)"
    by (rule serde_lawE [OF assms(2) d])
  obtain j where j: "j_from_slice ?J (as_bytes (w_to_string W (LObj note))) = Some j" "reads_object ?J j note"
    by (rule serde_lawE [OF assms(2,4)])
  have dec: "aead_decrypt (w_view W) key nonce ct = Some (as_bytes (w_to_string W (LObj note)))"
    using assms(3) ct unfolding view_laws_def by (metis option.inject)
  have fields: "envelope_field ?c ?J env ''salt'' = Ok salt" "envelope_field ?c ?J env ''nonce'' = Ok nonce"
    "envelope_field ?c ?J env ''ct'' = Ok ct"
    using re codec_lawsD(1) [OF assms(1)]
    by (simp_all add: envelope_field_def reads_object_def reads_as_def note_envelope_def)
  have "read_note W p s' = (Ok j, s')" if "ws_files s' p = Some ?b" for p s'
    using that pass key nonce env fields dec j(1)
    by (simp add: read_note_def Let_def cbind_def lift_def read_file_def)
  then have "note_file W ?b note"
    using j(2) by (auto simp: note_file_def)
  then show thesis
    using that w by blast
qed

end
