(* ===== verification/Wallet.thy ===== *)
theory Wallet
  imports Wallet_Env
begin

text \<open>
  The wallet's commands (\<open>crates/prover/src/main.rs\<close>): \<open>deposit\<close>, \<open>withdraw\<close>, \<open>burn\<close>, \<open>transfer\<close>,
  \<open>address\<close>, \<open>list_unspent\<close> and \<open>main\<close>, with what they share: the leaf list (\<open>parse_leaves\<close>,
  \<open>load_leaves\<close>, \<open>harvest_leaves\<close>), the proving pipeline (\<open>prove_and_emit\<close>, \<open>run\<close>) and the submit
  helpers. The circuit inputs and the sidecars are literals whose text is what \<open>format!\<close> writes. The
  names carry the prefix \<open>wallet\<close> where the program has an operation of the same name.
\<close>

section \<open>Building blocks\<close>

definition skip_cmd :: "unit command" where
  "skip_cmd = lift (Ok ())"

text \<open>\<open>match r { Ok(x) => Some(x), Err(_) => None }\<close>; a panic is not caught.\<close>

definition attempt :: "'a command \<Rightarrow> 'a option command" where
  "attempt m = (\<lambda>s. case m s of
      (Inr x, t) \<Rightarrow> (Ok (Some x), t)
    | (Inl (Failed e), t) \<Rightarrow> (Ok None, t)
    | (Inl Panicked, t) \<Rightarrow> (Panic, t))"

definition run :: "'j wallet \<Rightarrow> string \<Rightarrow> string list \<Rightarrow> unit command" where
  "run W cmd args =
     cbind (spawn W cmd args) (\<lambda>st.
       if \<not> co_success st then lift (Err (''`'' @ cmd @ '' '' @ join_with '' '' args @ ''` failed''))
       else skip_cmd)"

subsection \<open>Leaves\<close>

fun leaves_from :: "crates \<Rightarrow> 'j json \<Rightarrow> nat \<Rightarrow> 'j list \<Rightarrow> bytes32 list tool" where
  "leaves_from c J i [] = Ok []"
| "leaves_from c J i (e # es) =
     and_then (ok_or (j_as_str J e) (''leaf '' @ nat_text i @ '' is not a string'')) (\<lambda>s.
     and_then (wallet_hex32 c s) (\<lambda>l.
       map_ok ((#) l) (leaves_from c J (Suc i) es)))"

definition parse_leaves :: "crates \<Rightarrow> 'j json \<Rightarrow> bytes \<Rightarrow> bytes32 list tool" where
  "parse_leaves c J b =
     and_then (ok_or (j_from_slice J b) ''leaves are not valid JSON'') (\<lambda>v.
     and_then (ok_or (j_as_array J v) ''leaves must be a JSON array of hex commitments'') (\<lambda>arr.
       leaves_from c J 0 arr))"

definition load_leaves :: "'j wallet \<Rightarrow> string \<Rightarrow> bytes32 list command" where
  "load_leaves W path =
     cbind (read_file path) (\<lambda>b. lift (parse_leaves (w_crates W) (w_json W) b))"

definition harvest_leaves :: "'j wallet \<Rightarrow> string \<Rightarrow> string \<Rightarrow> bytes32 list command" where
  "harvest_leaves W rpc program =
     (let script = unwrap_or (w_env W ''OPAQ_READ_SCRIPT'') ''tests/read_leaves.mjs'' in
      cbind (spawn W ''node'' [script, rpc, program]) (\<lambda>out.
        if \<not> co_success out then lift (Err ''read path failed'')
        else lift (parse_leaves (w_crates W) (w_json W) (co_stdout out))))"

text \<open>The choice in \<open>withdraw\<close> and \<open>burn\<close>: a file first, then the chain, or no leaves at all.\<close>

definition spend_leaves :: "'j wallet \<Rightarrow> flag_map \<Rightarrow> bytes32 list option command" where
  "spend_leaves W f =
     (case f ''leaves'' of
        Some path \<Rightarrow> cbind (load_leaves W path) (\<lambda>l. lift (Ok (Some l)))
      | None \<Rightarrow>
          (case (f ''rpc'', f ''program'') of
             (Some rpc, Some program) \<Rightarrow> cbind (harvest_leaves W rpc program) (\<lambda>l. lift (Ok (Some l)))
           | _ \<Rightarrow> lift (Ok None)))"

definition leaf_position :: "bytes32 \<Rightarrow> bytes32 list \<Rightarrow> string \<Rightarrow> u64 tool" where
  "leaf_position commitment ls msg =
     map_ok word_of_nat (ok_or (position (\<lambda>l. l = commitment) ls) msg)"

definition rebuild_path ::
    "poseidon \<Rightarrow> bytes32 list \<Rightarrow> u64 \<Rightarrow> (bytes32 list \<times> bool list \<times> bytes32) tool" where
  "rebuild_path P ls leaf_index =
     and_then (expect (zero_hashes (poseidon2 P))) (\<lambda>zeros.
       expect (reconstruct_path (poseidon2 P) zeros ls leaf_index))"

subsection \<open>Proving and submitting\<close>

definition to_uppercase :: "string \<Rightarrow> string" where
  "to_uppercase = map (\<lambda>ch. let n = of_char ch in
     if 97 \<le> n \<and> n \<le> (122 :: nat) then char_of (n - 32) else ch)"

definition scratch_file :: "'j wallet \<Rightarrow> string \<Rightarrow> string \<Rightarrow> string" where
  "scratch_file W circuit part = w_tmp W (''opaq-'' @ circuit @ ''-'' @ part @ ''-'' @ w_pid W @ ''.json'')"

definition prove_and_emit ::
    "'j wallet \<Rightarrow> string \<Rightarrow> string \<Rightarrow> string \<Rightarrow> string \<Rightarrow> flag_map \<Rightarrow> unit command" where
  "prove_and_emit W circuit inputs sidecar out f =
     (let root = unwrap_or (w_env W ''OPAQ_ROOT'') ''.'';
          zkey_var = ''OPAQ_'' @ to_uppercase circuit @ ''_ZKEY'';
          inputs_path = scratch_file W circuit ''inputs'';
          sidecar_path = scratch_file W circuit ''sidecar'';
          provedir = (case f ''prove-dir'' of Some d \<Rightarrow> d
                      | None \<Rightarrow> w_tmp W (''opaq-'' @ circuit @ ''-prove-'' @ w_pid W))
      in
      cbind (lift (ok_or (case f ''zkey'' of Some z \<Rightarrow> Some z | None \<Rightarrow> w_env W zkey_var)
          (''--zkey <circuit.zkey> (or $'' @ zkey_var @ '') required for --prove''))) (\<lambda>zkey.
      cbind (write_file W ''write inputs'' inputs_path (as_bytes inputs)) (\<lambda>_.
      cbind (write_file W ''write sidecar'' sidecar_path (as_bytes sidecar)) (\<lambda>_.
      cbind (run W ''bash'' [root @ ''/scripts/groth16-prove-note.sh'', circuit, zkey, inputs_path,
          provedir]) (\<lambda>_.
        run W ''cargo''
          [''run'', ''-q'', ''--manifest-path'', root @ ''/crates/groth16-verify/Cargo.toml'',
           ''--bin'', ''emit_opaq_instruction'', ''--'', circuit, provedir, sidecar_path, out])))))"

text \<open>The four submit functions differ in the script and in what they append to its arguments.\<close>

definition submit_script ::
    "'j wallet \<Rightarrow> string \<Rightarrow> string \<Rightarrow> string \<Rightarrow> string list \<Rightarrow> flag_map \<Rightarrow> string command" where
  "submit_script W var fallback blob extra f =
     cbind (lift (ok_or (f ''rpc'') ''--submit requires --rpc <url>'')) (\<lambda>rpc.
     cbind (lift (ok_or (f ''program'') ''--submit requires --program <id>'')) (\<lambda>program.
     cbind (lift (ok_or (f ''payer'') ''--submit requires --payer <keypair.json>'')) (\<lambda>payer.
     let script = unwrap_or (w_env W var) fallback in
     cbind (spawn W ''node'' ([script, rpc, program, blob, payer] @ extra)) (\<lambda>out.
       if \<not> co_success out then lift (Err ''submit failed'')
       else lift (Ok (w_text W (co_stdout out)))))))"

definition submit_transfer :: "'j wallet \<Rightarrow> string \<Rightarrow> flag_map \<Rightarrow> string command" where
  "submit_transfer W blob f =
     submit_script W ''OPAQ_SUBMIT_TRANSFER_SCRIPT'' ''tests/submit_transfer.mjs'' blob [] f"

definition submit_burn :: "'j wallet \<Rightarrow> string \<Rightarrow> flag_map \<Rightarrow> string command" where
  "submit_burn W blob f =
     submit_script W ''OPAQ_SUBMIT_BURN_SCRIPT'' ''tests/submit_burn.mjs'' blob [] f"

definition submit_withdraw ::
    "'j wallet \<Rightarrow> string \<Rightarrow> bytes32 \<Rightarrow> bytes32 \<Rightarrow> flag_map \<Rightarrow> string command" where
  "submit_withdraw W blob mint recipient f =
     submit_script W ''OPAQ_SUBMIT_SCRIPT'' ''tests/submit_withdraw.mjs'' blob
       [hex_encode (w_crates W) (b32_bytes mint), bs58_encode (w_crates W) (b32_bytes recipient)] f"

definition submit_deposit :: "'j wallet \<Rightarrow> string \<Rightarrow> bytes32 \<Rightarrow> flag_map \<Rightarrow> string command" where
  "submit_deposit W blob mint f =
     submit_script W ''OPAQ_SUBMIT_DEPOSIT_SCRIPT'' ''tests/submit_deposit.mjs'' blob
       [hex_encode (w_crates W) (b32_bytes mint)] f"

text \<open>The end of each command: the inputs where they are asked for, then proof and submission.\<close>

definition write_inputs :: "'j wallet \<Rightarrow> flag_map \<Rightarrow> string \<Rightarrow> unit command" where
  "write_inputs W f inputs =
     (case f ''inputs-out'' of None \<Rightarrow> skip_cmd
      | Some p \<Rightarrow> write_file W (''write '' @ p) p (as_bytes inputs))"

definition prove_and_submit ::
    "'j wallet \<Rightarrow> string \<Rightarrow> string \<Rightarrow> string \<Rightarrow> string \<Rightarrow> flag_map \<Rightarrow> (string \<Rightarrow> unit command)
      \<Rightarrow> (string \<Rightarrow> string command) \<Rightarrow> unit command" where
  "prove_and_submit W circuit inputs sidecar fallback f attach submit =
     (if has_flag f ''prove'' \<or> has_flag f ''submit'' then
        let out = unwrap_or (f ''out'') fallback in
        cbind (prove_and_emit W circuit inputs sidecar out f) (\<lambda>_.
        cbind (attach out) (\<lambda>_.
          if has_flag f ''submit'' then cbind (submit out) (\<lambda>_. skip_cmd) else skip_cmd))
      else skip_cmd)"

section \<open>Notes\<close>

definition note_fields ::
    "crates \<Rightarrow> bytes32 \<Rightarrow> u64 \<Rightarrow> bytes32 \<Rightarrow> bytes32 \<Rightarrow> bytes32 \<Rightarrow> bytes32 \<Rightarrow> (string \<times> json_lit) list" where
  "note_fields c mint amount spend_key blinding owner_pubkey commitment =
     [(''mint'', LHex c mint), (''amount'', LNum (unat amount)), (''spend_key'', LHex c spend_key),
      (''blinding'', LHex c blinding), (''owner_pubkey'', LHex c owner_pubkey),
      (''commitment'', LHex c commitment), (''leaf_index'', LNull)]"

text \<open>\<open>hex32(note[k].as_str().ok_or(..)?)?\<close> and \<open>note["amount"].as_u64().ok_or(..)?\<close>.\<close>

definition note_hex32 :: "crates \<Rightarrow> 'j json \<Rightarrow> 'j \<Rightarrow> string \<Rightarrow> bytes32 tool" where
  "note_hex32 c J note k =
     and_then (ok_or (j_as_str J (j_index J note k)) (''note missing '' @ k)) (wallet_hex32 c)"

definition note_amount :: "'j json \<Rightarrow> 'j \<Rightarrow> u64 tool" where
  "note_amount J note = ok_or (j_as_u64 J (j_index J note ''amount'')) ''note missing amount''"

definition parse_amount :: "string \<Rightarrow> u64 tool" where
  "parse_amount s = ok_or (parse_u64 s) ''amount must be u64''"

section \<open>\<open>deposit\<close>\<close>

definition deposit_inputs ::
    "crates \<Rightarrow> bytes32 \<Rightarrow> bytes32 \<Rightarrow> bytes32 \<Rightarrow> bytes32 \<Rightarrow> bytes32 \<Rightarrow> json_lit" where
  "deposit_inputs c token_id amount commitment owner_pubkey blinding =
     LObj [(''token_id'', LField c token_id), (''amount'', LField c amount),
           (''new_commitment'', LField c commitment), (''owner_pubkey'', LField c owner_pubkey),
           (''blinding_factor'', LField c blinding)]"

definition deposit_sidecar :: "crates \<Rightarrow> bytes32 \<Rightarrow> u64 \<Rightarrow> bytes32 \<Rightarrow> (string \<times> json_lit) list" where
  "deposit_sidecar c mint amount commitment =
     [(''mint_hex'', LHex c mint), (''amount'', LNum (unat amount)), (''commitment'', LHex c commitment),
      (''nullifier'', LStr (replicate 64 (CHR ''0''))), (''merkle_root'', LStr (replicate 64 (CHR ''0''))),
      (''recipient_hex'', LStr (replicate 64 (CHR ''0'')))]"

definition wallet_deposit :: "'j wallet \<Rightarrow> flag_map \<Rightarrow> unit command" where
  "wallet_deposit W f =
     (let c = w_crates W; P = w_poseidon W in
     cbind (lift (and_then (req f ''token'') (wallet_pubkey c))) (\<lambda>mint.
     cbind (lift (and_then (req f ''amount'') parse_amount)) (\<lambda>amount.
     cbind (lift (req f ''note'')) (\<lambda>note_path.
     cbind (random_scalar W) (\<lambda>spend_key.
     cbind (random_scalar W) (\<lambda>blinding.
     cbind (lift (expect (poseidon_be P [spend_key]))) (\<lambda>owner_pubkey.
     cbind (lift (expect (to_field_be P mint))) (\<lambda>token_id.
     cbind (lift (expect (poseidon_be P [token_id, be32 (ucast amount), owner_pubkey, blinding])))
       (\<lambda>commitment.
     cbind (write_note W note_path
       (note_fields c mint amount spend_key blinding owner_pubkey commitment)) (\<lambda>_.
     let inputs = w_to_string W
       (deposit_inputs c token_id (be32 (ucast amount)) commitment owner_pubkey blinding) in
     cbind (write_inputs W f inputs) (\<lambda>_.
     cbind (prove_and_submit W ''deposit'' inputs
       (json_text (LObj (deposit_sidecar c mint amount commitment))) ''deposit.bin'' f
       (\<lambda>out. skip_cmd) (\<lambda>out. submit_deposit W out mint f)) (\<lambda>_.
       warn_amount amount))))))))))))"

section \<open>\<open>withdraw\<close>\<close>

definition withdraw_inputs ::
    "crates \<Rightarrow> bytes32 \<Rightarrow> bytes32 \<Rightarrow> bytes32 \<Rightarrow> bytes32 \<Rightarrow> bytes32 \<Rightarrow> bytes32 \<Rightarrow> bytes32 \<Rightarrow> bytes32 list
      \<Rightarrow> bool list \<Rightarrow> json_lit" where
  "withdraw_inputs c root nullifier token_id amount recipient spend_key blinding path indices =
     LObj [(''merkle_root'', LField c root), (''nullifier'', LField c nullifier),
           (''token_id'', LField c token_id), (''amount'', LField c amount),
           (''recipient'', LField c recipient), (''spend_key'', LField c spend_key),
           (''blinding_factor'', LField c blinding), (''merkle_path'', LArr (map (LField c) path)),
           (''merkle_path_indices'', LArr (map LBool indices))]"

definition withdraw_sidecar ::
    "crates \<Rightarrow> bytes32 \<Rightarrow> bytes32 \<Rightarrow> bytes32 \<Rightarrow> u64 \<Rightarrow> bytes32 \<Rightarrow> (string \<times> json_lit) list" where
  "withdraw_sidecar c root nullifier mint amount recipient =
     [(''merkle_root'', LHex c root), (''nullifier'', LHex c nullifier), (''mint_hex'', LHex c mint),
      (''amount'', LNum (unat amount)), (''recipient_hex'', LHex c recipient),
      (''commitment'', LStr (replicate 64 (CHR ''0'')))]"

definition withdraw_from_leaves ::
    "'j wallet \<Rightarrow> flag_map \<Rightarrow> 'j \<Rightarrow> bytes32 \<Rightarrow> bytes32 \<Rightarrow> bytes32 \<Rightarrow> u64 \<Rightarrow> bytes32 \<Rightarrow> bytes32
      \<Rightarrow> bytes32 list \<Rightarrow> unit command" where
  "withdraw_from_leaves W f note recipient commitment spend_key amount mint nullifier ls =
     (let c = w_crates W; P = w_poseidon W in
     cbind (lift (leaf_position commitment ls
       ''note commitment not found in on-chain leaves (wrong pool/passphrase?)'')) (\<lambda>leaf_index.
     cbind (lift (note_hex32 c (w_json W) note ''blinding'')) (\<lambda>blinding.
     cbind (lift (rebuild_path P ls leaf_index)) (\<lambda>(siblings, right, root).
     cbind (lift (expect (to_field_be P mint))) (\<lambda>token_id.
     cbind (lift (expect (to_field_be P recipient))) (\<lambda>recipient_field.
     let inputs = json_text (withdraw_inputs c root nullifier token_id (be32 (ucast amount))
       recipient_field spend_key blinding siblings right) in
     cbind (write_inputs W f inputs) (\<lambda>_.
       prove_and_submit W ''withdraw'' inputs
         (json_text (LObj (withdraw_sidecar c root nullifier mint amount recipient))) ''withdraw.bin'' f
         (\<lambda>out. skip_cmd) (\<lambda>out. submit_withdraw W out mint recipient f))))))))"

definition parse_history :: "'j json \<Rightarrow> bytes \<Rightarrow> recipient_history tool" where
  "parse_history J b =
     and_then (ok_or (j_from_slice J b) ''recipient history is not valid JSON'') (\<lambda>v.
     and_then (ok_or (j_as_u64 J (j_index J v ''count'')) ''history missing count'') (\<lambda>count.
       Ok \<lparr>rh_count = count, rh_capped = unwrap_or (j_as_bool J (j_index J v ''capped'')) False\<rparr>))"

definition lookup_history :: "'j wallet \<Rightarrow> string \<Rightarrow> string \<Rightarrow> recipient_history command" where
  "lookup_history W rpc recipient_b58 =
     (let script = unwrap_or (w_env W ''OPAQ_RECIPIENT_SCRIPT'') ''tests/recipient_history.mjs'' in
      cbind (spawn W ''node'' [script, rpc, recipient_b58]) (\<lambda>out.
        if \<not> co_success out then lift (Err ''recipient history check failed'')
        else lift (parse_history (w_json W) (co_stdout out))))"

definition wallet_withdraw :: "'j wallet \<Rightarrow> flag_map \<Rightarrow> unit command" where
  "wallet_withdraw W f =
     (let c = w_crates W; J = w_json W; P = w_poseidon W in
     cbind (lift (req f ''note'')) (\<lambda>note_path.
     cbind (read_note W note_path) (\<lambda>note.
     cbind (lift (and_then (req f ''recipient'') (wallet_pubkey c))) (\<lambda>recipient.
     cbind (lift (note_hex32 c J note ''commitment'')) (\<lambda>commitment.
     cbind (lift (note_hex32 c J note ''spend_key'')) (\<lambda>spend_key.
     cbind (lift (note_hex32 c J note ''mint'')) (\<lambda>mint.
     cbind (lift (note_amount J note)) (\<lambda>amount.
     cbind (lift (expect (poseidon_be P [commitment, spend_key]))) (\<lambda>nullifier.
     cbind (spend_leaves W f) (\<lambda>ls.
     cbind (case ls of None \<Rightarrow> skip_cmd
            | Some ls \<Rightarrow>
                withdraw_from_leaves W f note recipient commitment spend_key amount mint nullifier ls)
       (\<lambda>_.
     cbind (case f ''rpc'' of None \<Rightarrow> lift (Ok None)
            | Some rpc \<Rightarrow> attempt (lookup_history W rpc (bs58_encode c (b32_bytes recipient)))) (\<lambda>past.
     cbind (warn_recipient c recipient past) (\<lambda>_.
       warn_amount amount)))))))))))))"

section \<open>\<open>burn\<close>\<close>

definition burn_inputs ::
    "crates \<Rightarrow> bytes32 \<Rightarrow> bytes32 \<Rightarrow> bytes32 \<Rightarrow> bytes32 \<Rightarrow> bytes32 \<Rightarrow> bytes32 \<Rightarrow> bytes32 \<Rightarrow> bytes32
      \<Rightarrow> bytes32 list \<Rightarrow> bool list \<Rightarrow> json_lit" where
  "burn_inputs c root nullifier token_id amount dest_chain dest_address spend_key blinding path indices =
     LObj [(''merkle_root'', LField c root), (''nullifier'', LField c nullifier),
           (''token_id'', LField c token_id), (''amount'', LField c amount),
           (''dest_chain'', LField c dest_chain), (''dest_address'', LField c dest_address),
           (''spend_key'', LField c spend_key), (''blinding_factor'', LField c blinding),
           (''merkle_path'', LArr (map (LField c) path)),
           (''merkle_path_indices'', LArr (map LBool indices))]"

definition burn_sidecar ::
    "crates \<Rightarrow> bytes32 \<Rightarrow> u64 \<Rightarrow> bytes32 \<Rightarrow> bytes32 \<Rightarrow> bytes32 \<Rightarrow> bytes32 \<Rightarrow> bytes32
      \<Rightarrow> (string \<times> json_lit) list" where
  "burn_sidecar c mint amount commitment nullifier root dest_chain dest_address =
     [(''mint_hex'', LHex c mint), (''amount'', LNum (unat amount)), (''commitment'', LHex c commitment),
      (''nullifier'', LHex c nullifier), (''merkle_root'', LHex c root),
      (''dest_chain'', LHex c dest_chain), (''recipient_hex'', LHex c dest_address)]"

definition burn_from_leaves ::
    "'j wallet \<Rightarrow> flag_map \<Rightarrow> 'j \<Rightarrow> bytes32 \<Rightarrow> bytes32 \<Rightarrow> bytes32 \<Rightarrow> bytes32 \<Rightarrow> u64 \<Rightarrow> bytes32 \<Rightarrow> bytes32
      \<Rightarrow> bytes32 list \<Rightarrow> unit command" where
  "burn_from_leaves W f note dest_chain dest_address commitment spend_key amount mint nullifier ls =
     (let c = w_crates W; P = w_poseidon W in
     cbind (lift (leaf_position commitment ls
       ''note commitment not found in on-chain leaves (wrong pool/passphrase?)'')) (\<lambda>leaf_index.
     cbind (lift (note_hex32 c (w_json W) note ''blinding'')) (\<lambda>blinding.
     cbind (lift (rebuild_path P ls leaf_index)) (\<lambda>(siblings, right, root).
     cbind (lift (expect (to_field_be P mint))) (\<lambda>token_id.
     let inputs = json_text (burn_inputs c root nullifier token_id (be32 (ucast amount)) dest_chain
       dest_address spend_key blinding siblings right) in
     cbind (write_inputs W f inputs) (\<lambda>_.
       prove_and_submit W ''burn'' inputs
         (json_text (LObj (burn_sidecar c mint amount commitment nullifier root dest_chain dest_address)))
         ''burn.bin'' f (\<lambda>out. skip_cmd) (\<lambda>out. submit_burn W out f)))))))"

definition wallet_burn :: "'j wallet \<Rightarrow> flag_map \<Rightarrow> unit command" where
  "wallet_burn W f =
     (let c = w_crates W; J = w_json W; P = w_poseidon W in
     cbind (lift (req f ''note'')) (\<lambda>note_path.
     cbind (read_note W note_path) (\<lambda>note.
     cbind (lift (and_then (req f ''dest-chain'') (\<lambda>s.
       ok_or (parse_u64 s) ''dest-chain must be a u64 EVM chain id''))) (\<lambda>dest_chain.
     cbind (lift (and_then (req f ''dest-address'') (wallet_evm_address c))) (\<lambda>dest_address.
     cbind (lift (note_hex32 c J note ''commitment'')) (\<lambda>commitment.
     cbind (lift (note_hex32 c J note ''spend_key'')) (\<lambda>spend_key.
     cbind (lift (note_hex32 c J note ''mint'')) (\<lambda>mint.
     cbind (lift (note_amount J note)) (\<lambda>amount.
     cbind (lift (expect (poseidon_be P [commitment, spend_key]))) (\<lambda>nullifier.
     cbind (spend_leaves W f) (\<lambda>ls.
     cbind (case ls of None \<Rightarrow> skip_cmd
            | Some ls \<Rightarrow>
                burn_from_leaves W f note (be32 (ucast dest_chain)) dest_address commitment spend_key
                  amount mint nullifier ls) (\<lambda>_.
       warn_amount amount))))))))))))"

section \<open>\<open>transfer\<close>\<close>

text \<open>The dummy input's path is written as \<open>"0x00"\<close> for every level.\<close>

definition path_text :: "crates \<Rightarrow> note_input \<Rightarrow> json_lit" where
  "path_text c i =
     LArr (if ni_is_dummy i then replicate 24 (LStr ''0x00'') else map (LField c) (ni_merkle_path i))"

definition transfer_inputs ::
    "crates \<Rightarrow> bytes32 \<Rightarrow> bytes32 list \<Rightarrow> bytes32 list \<Rightarrow> bytes32 \<Rightarrow> note_input list \<Rightarrow> note_output list
      \<Rightarrow> json_lit" where
  "transfer_inputs c root nfs cms token_id ins outs =
     LObj [(''merkle_root'', LField c root), (''nullifiers'', LArr (map (LField c) nfs)),
           (''out_commitments'', LArr (map (LField c) cms)), (''token_id'', LField c token_id),
           (''in_amount'', LArr (map (LField c \<circ> ni_amount) ins)),
           (''in_spend_key'', LArr (map (LField c \<circ> ni_spend_key) ins)),
           (''in_blinding'', LArr (map (LField c \<circ> ni_blinding) ins)),
           (''in_is_dummy'', LArr (map (LBool \<circ> ni_is_dummy) ins)),
           (''in_merkle_path'', LArr (map (path_text c) ins)),
           (''in_merkle_path_indices'', LArr (map (\<lambda>i. LArr (map LBool (ni_merkle_path_indices i))) ins)),
           (''out_amount'', LArr (map (LField c \<circ> out_amount) outs)),
           (''out_owner_pubkey'', LArr (map (LField c \<circ> out_owner_pubkey) outs)),
           (''out_blinding'', LArr (map (LField c \<circ> out_blinding) outs))]"

definition dummy_input :: "bytes32 \<Rightarrow> bytes32 \<Rightarrow> note_input" where
  "dummy_input spend_key blinding =
     \<lparr>ni_amount = be32 0, ni_spend_key = spend_key, ni_blinding = blinding, ni_is_dummy = True,
      ni_merkle_path = replicate 24 0, ni_merkle_path_indices = replicate 24 False\<rparr>"

definition transfer_leaves :: "'j wallet \<Rightarrow> flag_map \<Rightarrow> bytes32 list command" where
  "transfer_leaves W f =
     (case (f ''rpc'', f ''program'') of
        (Some rpc, Some program) \<Rightarrow> harvest_leaves W rpc program
      | _ \<Rightarrow>
          (case f ''leaves'' of Some p \<Rightarrow> load_leaves W p
           | None \<Rightarrow> lift (Err ''transfer needs --rpc <url> --program <id> (or --leaves <file>)'')))"

text \<open>\<open>attach_recipient_memo\<close> on the blob's file.\<close>

definition attach_memo_file :: "'j wallet \<Rightarrow> string \<Rightarrow> bytes32 \<Rightarrow> note_opening \<Rightarrow> nat command" where
  "attach_memo_file W path to_view opening =
     cbind (fill_bytes W 32) (\<lambda>esk.
     cbind (fill_bytes W 12) (\<lambda>nonce.
     cbind (lift (recipient_memo (w_view W) (bytes_b32 esk) nonce to_view opening)) (\<lambda>memo_bytes.
     cbind (read_file path) (\<lambda>blob.
     cbind (write_file W (''write '' @ path) path (blob @ memo_bytes)) (\<lambda>_.
       lift (Ok (length memo_bytes)))))))"

definition attach_for :: "'j wallet \<Rightarrow> flag_map \<Rightarrow> note_opening \<Rightarrow> string \<Rightarrow> unit command" where
  "attach_for W f opening out =
     (case f ''to-view'' of None \<Rightarrow> skip_cmd
      | Some to_view \<Rightarrow>
          cbind (lift (wallet_hex32 (w_crates W) to_view)) (\<lambda>to_pubkey.
          cbind (attach_memo_file W out to_pubkey opening) (\<lambda>_. skip_cmd)))"

definition recipient_fields ::
    "crates \<Rightarrow> bytes32 \<Rightarrow> u64 \<Rightarrow> bytes32 \<Rightarrow> bytes32 \<Rightarrow> bytes32 \<Rightarrow> (string \<times> json_lit) list" where
  "recipient_fields c mint amount owner_pubkey blinding commitment =
     [(''mint'', LHex c mint), (''amount'', LNum (unat amount)), (''owner_pubkey'', LHex c owner_pubkey),
      (''blinding'', LHex c blinding), (''commitment'', LHex c commitment), (''leaf_index'', LNull)]"

definition wallet_transfer :: "'j wallet \<Rightarrow> flag_map \<Rightarrow> unit command" where
  "wallet_transfer W f =
     (let c = w_crates W; J = w_json W; P = w_poseidon W in
     cbind (lift (req f ''note'')) (\<lambda>note_path.
     cbind (read_note W note_path) (\<lambda>note.
     cbind (lift (note_hex32 c J note ''mint'')) (\<lambda>mint.
     cbind (lift (note_amount J note)) (\<lambda>in_amount.
     cbind (lift (note_hex32 c J note ''spend_key'')) (\<lambda>in_spend_key.
     cbind (lift (note_hex32 c J note ''blinding'')) (\<lambda>in_blinding.
     cbind (lift (note_hex32 c J note ''commitment'')) (\<lambda>in_commitment.
     cbind (lift (expect (to_field_be P mint))) (\<lambda>token_id.
     cbind (lift (and_then (req f ''to'') (wallet_hex32 c))) (\<lambda>recipient_owner.
     cbind (lift (and_then (req f ''amount'') parse_amount)) (\<lambda>send_amount.
     if in_amount < send_amount then
       lift (Err (''send amount '' @ nat_text (unat send_amount) @ '' exceeds note amount '' @
         nat_text (unat in_amount)))
     else
     let change = in_amount - send_amount in
     cbind (lift (expect (poseidon_be P [in_commitment, in_spend_key]))) (\<lambda>in_nullifier.
     cbind (random_scalar W) (\<lambda>dummy_sk.
     cbind (random_scalar W) (\<lambda>dummy_bl.
     cbind (lift (expect (poseidon_be P [dummy_sk]))) (\<lambda>dummy_owner.
     cbind (lift (expect (poseidon_be P [token_id, be32 0, dummy_owner, dummy_bl]))) (\<lambda>dummy_commit.
     cbind (lift (expect (poseidon_be P [dummy_commit, dummy_sk]))) (\<lambda>dummy_nf.
     cbind (random_scalar W) (\<lambda>out0_bl.
     let out0_amt = be32 (ucast send_amount) in
     cbind (lift (expect (poseidon_be P [token_id, out0_amt, recipient_owner, out0_bl]))) (\<lambda>out0_commit.
     cbind (random_scalar W) (\<lambda>change_sk.
     cbind (random_scalar W) (\<lambda>change_bl.
     cbind (lift (expect (poseidon_be P [change_sk]))) (\<lambda>change_owner.
     let out1_amt = be32 (ucast change) in
     cbind (lift (expect (poseidon_be P [token_id, out1_amt, change_owner, change_bl]))) (\<lambda>out1_commit.
     cbind (transfer_leaves W f) (\<lambda>ls.
     cbind (lift (leaf_position in_commitment ls
       ''input note commitment not found in on-chain leaves (wrong pool/passphrase?)'')) (\<lambda>leaf_index.
     cbind (lift (rebuild_path P ls leaf_index)) (\<lambda>(siblings, right, root).
     let inputs = json_text (transfer_inputs c root [in_nullifier, dummy_nf] [out0_commit, out1_commit]
           token_id
           [\<lparr>ni_amount = be32 (ucast in_amount), ni_spend_key = in_spend_key, ni_blinding = in_blinding,
             ni_is_dummy = False, ni_merkle_path = siblings, ni_merkle_path_indices = right\<rparr>,
            dummy_input dummy_sk dummy_bl]
           [\<lparr>out_amount = out0_amt, out_owner_pubkey = recipient_owner, out_blinding = out0_bl\<rparr>,
            \<lparr>out_amount = out1_amt, out_owner_pubkey = change_owner, out_blinding = change_bl\<rparr>])
     in
     cbind (case f ''change-note'' of None \<Rightarrow> skip_cmd
            | Some p \<Rightarrow> write_note W p
                (note_fields c mint change change_sk change_bl change_owner out1_commit)) (\<lambda>_.
     cbind (case f ''out-note'' of None \<Rightarrow> skip_cmd
            | Some p \<Rightarrow> write_file W (''write '' @ p) p (as_bytes (w_to_string W (LObj
                (recipient_fields c mint send_amount recipient_owner out0_bl out0_commit))))) (\<lambda>_.
     cbind (prove_and_submit W ''transfer'' inputs ''{}'' ''transfer.bin'' f
       (attach_for W f \<lparr>no_mint = mint, no_amount = out0_amt, no_blinding_factor = out0_bl\<rparr>)
       (\<lambda>out. submit_transfer W out f)) (\<lambda>_.
       warn_amount send_amount)))))))))))))))))))))))))))))"

section \<open>\<open>address\<close> and \<open>list_unspent\<close>\<close>

definition identity_fields ::
    "crates \<Rightarrow> bytes32 \<Rightarrow> bytes32 \<Rightarrow> bytes32 \<Rightarrow> bytes32 \<Rightarrow> (string \<times> json_lit) list" where
  "identity_fields c spend_key secret owner_pubkey view_pubkey =
     [(''spend_key'', LHex c spend_key), (''view_key'', LHex c secret),
      (''owner_pubkey'', LHex c owner_pubkey), (''viewing_pubkey'', LHex c view_pubkey)]"

definition wallet_address :: "'j wallet \<Rightarrow> flag_map \<Rightarrow> unit command" where
  "wallet_address W f =
     (let c = w_crates W in
     cbind (lift (req f ''out'')) (\<lambda>out_path.
     cbind (random_scalar W) (\<lambda>spend_key.
     cbind (lift (expect (poseidon_be (w_poseidon W) [spend_key]))) (\<lambda>owner_pubkey.
     cbind (fill_bytes W 32) (\<lambda>secret.
     let view_key = view_key_from_bytes (bytes_b32 secret) in
       write_note W out_path (identity_fields c spend_key (view_key_to_bytes view_key) owner_pubkey
         (viewing_pubkey (w_view W) view_key)))))))"

text \<open>The scan, writing each note it keeps; the result counts them.\<close>

fun write_found ::
    "'j wallet \<Rightarrow> string \<Rightarrow> ('j \<Rightarrow> found_note option tool) \<Rightarrow> nat \<Rightarrow> 'j list \<Rightarrow> nat command" where
  "write_found W out_dir scan found [] = lift (Ok found)"
| "write_found W out_dir scan found (m # ms) =
     cbind (lift (scan m)) (\<lambda>r.
       case r of None \<Rightarrow> write_found W out_dir scan found ms
       | Some n \<Rightarrow>
           (let c = w_crates W;
                note_path = out_dir @ ''/note-'' @ take 16 (hex_encode c (b32_bytes (fn_commitment n))) @
                  ''.json''
            in
            cbind (write_note W note_path (note_fields c (fn_mint n) (fn_amount n) (fn_spend_key n)
              (fn_blinding n) (fn_owner_pubkey n) (fn_commitment n))) (\<lambda>_.
              write_found W out_dir scan (found + 1) ms)))"

definition wallet_list_unspent :: "'j wallet \<Rightarrow> flag_map \<Rightarrow> unit command" where
  "wallet_list_unspent W f =
     (let c = w_crates W; J = w_json W; P = w_poseidon W;
          identity_hex = (\<lambda>identity k. and_then
            (ok_or (j_as_str J (j_index J identity k)) (''identity missing '' @ k)) (wallet_hex32 c))
      in
     cbind (lift (req f ''identity'')) (\<lambda>path.
     cbind (read_note W path) (\<lambda>identity.
     cbind (lift (identity_hex identity ''spend_key'')) (\<lambda>spend_key.
     cbind (lift (identity_hex identity ''view_key'')) (\<lambda>view_key_bytes.
     cbind (lift (expect (poseidon_be P [spend_key]))) (\<lambda>owner_pubkey.
     cbind (lift (req f ''rpc'')) (\<lambda>rpc.
     cbind (lift (req f ''program'')) (\<lambda>program.
     let out_dir = unwrap_or (f ''out-dir'') ''.'';
         script = unwrap_or (w_env W ''OPAQ_LIST_UNSPENT_SCRIPT'') ''tests/list_unspent.mjs''
     in
     cbind (spawn W ''node'' [script, rpc, program]) (\<lambda>out.
       if \<not> co_success out then lift (Err ''list_unspent read path failed'')
       else
     cbind (lift (ok_or (j_from_slice J (co_stdout out)) ''list_unspent output is not valid JSON'')) (\<lambda>v.
     cbind (lift (ok_or (j_as_array J (j_index J v ''nullifiers'')) ''missing nullifiers'')) (\<lambda>ns.
     cbind (lift (collect_ok (\<lambda>x. and_then (expect (j_as_str J x)) (wallet_hex32 c)) ns)) (\<lambda>spent_set.
     cbind (lift (ok_or (j_as_array J (j_index J v ''memos'')) ''missing memos'')) (\<lambda>memos.
     cbind (write_found W out_dir (scan_memo c J (w_view W) P (view_key_from_bytes view_key_bytes)
       spend_key owner_pubkey spent_set) 0 memos) (\<lambda>_.
       skip_cmd))))))))))))))"

section \<open>\<open>main\<close>\<close>

definition wallet_main :: "'j wallet \<Rightarrow> string list \<Rightarrow> unit command" where
  "wallet_main W args =
     (case args of
        program # cmd # rest \<Rightarrow>
          (let f = flags rest in
           if cmd = ''deposit'' then wallet_deposit W f
           else if cmd = ''withdraw'' then wallet_withdraw W f
           else if cmd = ''transfer'' then wallet_transfer W f
           else if cmd = ''burn'' then wallet_burn W f
           else if cmd = ''address'' then wallet_address W f
           else if cmd = ''list-unspent'' then wallet_list_unspent W f
           else lift (Err ''usage: opaq <deposit|withdraw|transfer|burn|address|list-unspent> ...''))
      | _ \<Rightarrow> lift (Err ''usage: opaq <deposit|withdraw|transfer|burn|address|list-unspent> ...''))"

end
