(* ===== verification/Wallet_Notes.thy ===== *)
theory Wallet_Notes
  imports Wallet "HOL-Library.Sublist"
begin

text \<open>
  What the wallet's commands guarantee, step by step: what they log stays logged, a note file gives
  its fields back, the rebuilt path opens the note's leaf, and so the inputs of a spend satisfy its
  circuit. The interface \<open>proof_sidecar\<close> says that the instruction made from a sidecar states what
  the proof was made for; it is interpreted for deposits, withdrawals and burns.
\<close>

section \<open>Nothing logged is lost\<close>

definition logs :: "'a command \<Rightarrow> bool" where
  "logs m \<longleftrightarrow> (\<forall>s. prefix (ws_events s) (ws_events (snd (m s))))"

named_theorems logs_intros "commands that only add to the log"

lemma logsD: "logs m \<Longrightarrow> m s = (r, t) \<Longrightarrow> prefix (ws_events s) (ws_events t)"
  by (metis logs_def snd_conv)

lemma logs_cbind [logs_intros]:
  assumes "logs m" and "\<And>x. logs (k x)"
  shows "logs (cbind m k)"
  unfolding logs_def
proof
  fix s
  obtain r t where m: "m s = (r, t)" by fastforce
  with assms(1) have p: "prefix (ws_events s) (ws_events t)" by (rule logsD)
  show "prefix (ws_events s) (ws_events (snd (cbind m k s)))"
  proof (cases r)
    case (Inl e)
    then show ?thesis using m p by (simp add: cbind_def)
  next
    case (Inr x)
    have "prefix (ws_events t) (ws_events (snd (k x t)))"
      using assms(2) [of x] by (simp add: logs_def)
    then show ?thesis
      using m p Inr prefix_order.trans by (fastforce simp: cbind_def)
  qed
qed

lemma logs_basic [logs_intros]:
  "logs (lift r)" "logs skip_cmd" "logs (event e)" "logs (read_file p)" "logs (write_file W msg p b)"
  "logs (fill_bytes W n)" "logs (random_scalar W)" "logs (spawn W cmd args)"
  by (auto simp: logs_def lift_def skip_cmd_def event_def read_file_def write_file_def fill_bytes_def
      random_scalar_def spawn_def split: option.splits)

lemma logs_run [logs_intros]: "logs (run W cmd args)"
  unfolding run_def by (auto intro!: logs_intros)

lemma logs_prove_and_emit [logs_intros]: "logs (prove_and_emit W circuit inputs sidecar out f)"
  unfolding prove_and_emit_def Let_def by (intro logs_intros)

lemma logs_submit_script [logs_intros]: "logs (submit_script W var fallback blob extra f)"
  unfolding submit_script_def Let_def by (auto intro!: logs_intros)

lemma logs_submit [logs_intros]:
  "logs (submit_deposit W out mint f)" "logs (submit_withdraw W out mint recipient f)"
  "logs (submit_burn W out f)" "logs (submit_transfer W out f)"
  unfolding submit_deposit_def submit_withdraw_def submit_burn_def submit_transfer_def
  by (intro logs_intros)+

lemma logs_write_inputs [logs_intros]: "logs (write_inputs W f inputs)"
  unfolding write_inputs_def by (auto intro!: logs_intros split: option.splits)

lemma logs_write_note [logs_intros]: "logs (write_note W p note)"
  unfolding write_note_def by (intro logs_intros)

lemma logs_attach_for [logs_intros]: "logs (attach_for W f opening out)"
  unfolding attach_for_def attach_memo_file_def by (auto intro!: logs_intros split: option.splits)

lemma logs_prove_and_submit [logs_intros]:
  assumes "\<And>out. logs (attach out)" and "\<And>out. logs (submit out)"
  shows "logs (prove_and_submit W circuit inputs sidecar fallback f attach submit)"
  unfolding prove_and_submit_def Let_def using assms by (auto intro!: logs_intros)

lemma logs_warn [logs_intros]: "logs (warn_amount a)" "logs (warn_recipient c r past)"
  unfolding warn_amount_def warn_recipient_def by (intro logs_intros)+

lemma logs_attempt [logs_intros]:
  assumes "logs m" shows "logs (attempt m)"
  unfolding logs_def
proof
  fix s
  obtain r t where m: "m s = (r, t)" by fastforce
  then have "snd (attempt m s) = t"
    by (auto simp: attempt_def split: sum.splits exec_error.splits)
  then show "prefix (ws_events s) (ws_events (snd (attempt m s)))"
    using logsD [OF assms m] by simp
qed

lemma logs_lookup_history [logs_intros]: "logs (lookup_history W rpc b58)"
  unfolding lookup_history_def Let_def by (auto intro!: logs_intros)

section \<open>What a spend writes\<close>

text \<open>Inputs and sidecar for the prover where a proof is asked for, and the inputs for the user.\<close>

definition prove_logged :: "'j wallet \<Rightarrow> flag_map \<Rightarrow> string \<Rightarrow> string \<Rightarrow> string \<Rightarrow> wallet_event list \<Rightarrow> bool"
  where
  "prove_logged W f circuit inputs sidecar es \<longleftrightarrow>
     (has_flag f ''prove'' \<or> has_flag f ''submit'' \<longrightarrow>
        Wrote (scratch_file W circuit ''inputs'') (as_bytes inputs) \<in> set es \<and>
        Wrote (scratch_file W circuit ''sidecar'') (as_bytes sidecar) \<in> set es)"

definition spend_logged :: "'j wallet \<Rightarrow> flag_map \<Rightarrow> string \<Rightarrow> string \<Rightarrow> string \<Rightarrow> wallet_event list \<Rightarrow> bool"
  where
  "spend_logged W f circuit inputs sidecar es \<longleftrightarrow>
     (\<forall>p. f ''inputs-out'' = Some p \<longrightarrow> Wrote p (as_bytes inputs) \<in> set es) \<and>
     prove_logged W f circuit inputs sidecar es"

lemma prove_and_emit_logged:
  assumes "prove_and_emit W circuit inputs sidecar out f s = (Ok u, t)"
  shows "Wrote (scratch_file W circuit ''inputs'') (as_bytes inputs) \<in> set (ws_events t)"
    and "Wrote (scratch_file W circuit ''sidecar'') (as_bytes sidecar) \<in> set (ws_events t)"
  using assms
  by (auto simp: prove_and_emit_def Let_def command_simps run_def skip_cmd_def split: if_splits)

lemma prove_logged_done:
  assumes "prove_and_submit W circuit inputs sidecar fallback f attach submit s = (Ok u, t)"
    and "\<And>out. logs (attach out)" and "\<And>out. logs (submit out)"
    and "prefix (ws_events t) (ws_events t')"
  shows "prove_logged W f circuit inputs sidecar (ws_events t')"
  unfolding prove_logged_def
proof
  assume go: "has_flag f ''prove'' \<or> has_flag f ''submit''"
  let ?out = "unwrap_or (f ''out'') fallback"
  let ?rest = "cbind (attach ?out) (\<lambda>_.
    if has_flag f ''submit'' then cbind (submit ?out) (\<lambda>_. skip_cmd) else skip_cmd)"
  obtain v where e: "prove_and_emit W circuit inputs sidecar ?out f s = (Ok (), v)"
    and rest: "?rest v = (Ok u, t)"
    using assms(1) go by (auto simp: prove_and_submit_def Let_def cbind_Ok_iff)
  have "logs ?rest"
    using assms(2,3) by (auto intro!: logs_intros)
  then have "prefix (ws_events v) (ws_events t)"
    using rest by (rule logsD)
  then show "Wrote (scratch_file W circuit ''inputs'') (as_bytes inputs) \<in> set (ws_events t') \<and>
      Wrote (scratch_file W circuit ''sidecar'') (as_bytes sidecar) \<in> set (ws_events t')"
    using prove_and_emit_logged [OF e] set_mono_prefix set_mono_prefix [OF assms(4)] by blast
qed

lemma spend_logged_done:
  assumes "write_inputs W f inputs s = (Ok u, s')"
    and "prove_and_submit W circuit inputs sidecar fallback f attach submit s' = (Ok u', t)"
    and "\<And>out. logs (attach out)" and "\<And>out. logs (submit out)"
    and "prefix (ws_events t) (ws_events t')"
  shows "spend_logged W f circuit inputs sidecar (ws_events t')"
proof -
  have "Wrote p (as_bytes inputs) \<in> set (ws_events t')" if "f ''inputs-out'' = Some p" for p
  proof -
    have "Wrote p (as_bytes inputs) \<in> set (ws_events s')"
      using assms(1) that by (auto simp: write_inputs_def command_simps)
    then show ?thesis
      using logsD [OF logs_prove_and_submit [OF assms(3,4)] assms(2)] set_mono_prefix
        set_mono_prefix [OF assms(5)] by blast
  qed
  then show ?thesis
    using prove_logged_done [OF assms(2-5)] by (simp add: spend_logged_def)
qed

section \<open>Reading a note\<close>

lemma note_readers:
  assumes "codec_laws c"
    and "reads_object J j (note_fields c mint amount spend_key blinding owner_pubkey commitment)"
  shows "note_hex32 c J j ''mint'' = Ok mint" and "note_amount J j = Ok amount"
    and "note_hex32 c J j ''spend_key'' = Ok spend_key" and "note_hex32 c J j ''blinding'' = Ok blinding"
    and "note_hex32 c J j ''commitment'' = Ok commitment"
  using assms(2) codec_lawsD(1,2) [OF assms(1)] unat_bound [of amount]
  by (simp_all add: note_hex32_def note_amount_def reads_object_def reads_as_def note_fields_def
      LHex_def wallet_hex32_def)

lemma distinct_note_fields: "distinct (map fst (note_fields c mint amount sk bl owner cm))"
  by (simp add: note_fields_def)

section \<open>The path\<close>

lemma length_reconstructed:
  assumes "path_levels h zeros is level idx = Some (path, level2)"
  shows "length path = length is"
  using assms
  by (induction h zeros "is" level idx arbitrary: path level2 rule: path_levels.induct)
    (auto simp: Let_def bind_eq_Some_conv split: if_splits)

lemma opened_path:
  assumes "hashes_to (poseidon2 P) H" and "list_all field_elem ls" and "length ls \<le> 2 ^ TREE_DEPTH"
    and "leaf_position commitment ls msg = Ok i" and "rebuild_path P ls i = Ok (siblings, right, root)"
  shows "merkle_root_be P commitment siblings right = Some root" and "root = merkle_root H ls"
    and "length siblings = TREE_DEPTH" and "length right = TREE_DEPTH"
proof -
  obtain k where k: "position (\<lambda>l. l = commitment) ls = Some k" and i: "i = word_of_nat k"
    using assms(4) by (auto simp: leaf_position_def outcome_simps)
  have at: "k < length ls" "ls ! k = commitment"
    using position_Some [OF k] by auto
  then have "k < 2 ^ 64"
    using assms(3) by (simp add: TREE_DEPTH_def)
  then have uk: "unat i = k"
    by (simp add: i unat_of_nat)
  have r: "reconstruct_path (poseidon2 P) (zeros_of H) ls i = Some (siblings, right, root)"
    using assms(5) zero_hashes_spec [OF assms(1)] by (auto simp: rebuild_path_def outcome_simps)
  have "unat i < 2 ^ TREE_DEPTH"
    using at assms(3) by (simp add: uk)
  from reconstructed_path_opens [OF assms(1,2) this r]
  show "merkle_root_be P commitment siblings right = Some root" and "root = merkle_root H ls"
    using at by (simp_all add: uk)
  show "length siblings = TREE_DEPTH" and "length right = TREE_DEPTH"
    using r by (auto simp: reconstruct_path_def bind_eq_Some_conv dest!: length_reconstructed)
qed

lemma path_exists:
  assumes "hashes_to (poseidon2 P) H" and "list_all field_elem ls" and "commitment \<in> set ls"
  obtains i siblings right where "\<forall>msg. leaf_position commitment ls msg = Ok i"
    and "rebuild_path P ls i = Ok (siblings, right, merkle_root H ls)"
proof -
  have "\<exists>k. position (\<lambda>l. l = commitment) ls = Some k"
    using assms(3) by (induction ls) auto
  then obtain k where k: "position (\<lambda>l. l = commitment) ls = Some k" by blast
  then have pos: "\<forall>msg. leaf_position commitment ls msg = Ok (word_of_nat k)"
    by (simp add: leaf_position_def map_ok_def)
  have "rebuild_path P ls (word_of_nat k) = Ok
      (map fst (auth_path H ls (unat (word_of_nat k :: u64)) [0..<TREE_DEPTH]),
       map snd (auth_path H ls (unat (word_of_nat k :: u64)) [0..<TREE_DEPTH]), merkle_root H ls)"
    by (simp add: rebuild_path_def zero_hashes_spec [OF assms(1)] reconstruct_path_spec [OF assms(1,2)])
  with pos show thesis by (rule that)
qed

section \<open>A note that opens satisfies the circuits\<close>

text \<open>\<open>opens P token_id amount spend_key blinding commitment\<close>: the commitment is that of the note.\<close>

definition opens :: "poseidon \<Rightarrow> bytes32 \<Rightarrow> bytes32 \<Rightarrow> bytes32 \<Rightarrow> bytes32 \<Rightarrow> bytes32 \<Rightarrow> bool" where
  "opens P token_id amount spend_key blinding commitment \<longleftrightarrow>
     (\<exists>owner. P [spend_key] = Some owner \<and> P [token_id, amount, owner, blinding] = Some commitment)"

lemma amount_in_range: "unat (be32 (ucast (amount :: u64))) < 2 ^ 64"
  using unat_bound [of amount] by simp

lemma input_ok_opens:
  assumes "opens P token_id (be32 (ucast (a :: u64))) sk bl cm" and "P [cm, sk] = Some nf"
    and "merkle_root_be P cm siblings right = Some root"
    and "length siblings = TREE_DEPTH" and "length right = TREE_DEPTH"
  shows "input_ok P root token_id nf
    \<lparr>ni_amount = be32 (ucast a), ni_spend_key = sk, ni_blinding = bl, ni_is_dummy = False,
     ni_merkle_path = siblings, ni_merkle_path_indices = right\<rparr>"
  using assms amount_in_range [of a] by (auto simp: input_ok_def opens_def)

section \<open>Sidecars\<close>

text \<open>
  \<open>proof_sidecar\<close>: a command hands the prover a sidecar for the fields \<open>x\<close>; the tool that makes the
  instruction reads the sidecar as these fields (those its circuit does not use are zero), and the
  program takes the public values \<open>public P x\<close> from the instruction.
\<close>

definition hex_zeros :: "crates \<Rightarrow> bool" where
  "hex_zeros c \<longleftrightarrow> hex_encode c (b32_bytes 0) = replicate 64 (CHR ''0'')"

locale proof_sidecar =
  fixes J :: "'j json" and circuit :: string and tag :: u8 and vk :: verifying_key
    and sidecar :: "crates \<Rightarrow> opaq_fields \<Rightarrow> (string \<times> json_lit) list"
    and used :: "opaq_fields \<Rightarrow> opaq_fields"
    and public :: "poseidon \<Rightarrow> opaq_fields \<Rightarrow> bytes32 list option"
  assumes sidecar_read:
      "codec_laws c \<Longrightarrow> hex_zeros c \<Longrightarrow> reads_object J j (sidecar c x) \<Longrightarrow>
         sidecar_fields c J j = Ok (used x)"
    and layout: "proof_ok p \<Longrightarrow> \<exists>args. opaq_instruction circuit p (used x) = Ok (tag # args) \<and>
         carries_proof p args \<and> statement_of P tag args = map_option (Pair vk) (public P x)"
    and own_layout: "circuit \<notin> {''transfer'', ''xburn'', ''xburn-source''}"
begin

text \<open>The emitted instruction makes the statement the proof is for.\<close>

lemma emitted_states:
  assumes "codec_laws c" and "hex_zeros c" and "reads_object J j (sidecar c x)"
    and "proof_from_json J F v = Ok p"
  shows "\<exists>args. emit_opaq_instruction c J F circuit (Some v) public_json (Some j) = Ok (tag # args) \<and>
    carries_proof p args \<and> statement_of P tag args = map_option (Pair vk) (public P x)"
proof -
  obtain args where a: "opaq_instruction circuit p (used x) = Ok (tag # args)" "carries_proof p args"
    "statement_of P tag args = map_option (Pair vk) (public P x)"
    using layout [OF proof_from_json_ok [OF assms(4)]] by blast
  have "emit_opaq_instruction c J F circuit (Some v) public_json (Some j) = Ok (tag # args)"
    using own_layout sidecar_read [OF assms(1-3)] assms(4) a(1)
    by (simp add: emit_opaq_instruction_def Let_def)
  then show ?thesis using a by blast
qed

end

lemma sidecar_field_hex:
  "codec_laws c \<Longrightarrow> j_as_str J (j_index J j k) = Some (hex_encode c (b32_bytes b)) \<Longrightarrow>
     sidecar_field c J j k = Ok b"
  by (simp add: sidecar_field_def tool_hex32_def codec_lawsD)

lemma sidecar_field_zeros:
  assumes "codec_laws c" and "hex_zeros c"
    and "j_as_str J (j_index J j k) = Some (replicate 64 (CHR ''0''))"
  shows "sidecar_field c J j k = Ok 0"
  using assms(2,3) by (intro sidecar_field_hex [OF assms(1)]) (simp add: hex_zeros_def)

lemma amount_word: "word_of_nat (unat (a :: u64)) = a" "unat (a :: u64) < 2 ^ 64"
  using unat_bound [of a] by simp_all

lemmas sidecar_simps =
  reads_object_def reads_as_def LHex_def sidecar_fields_def sidecar_field_hex sidecar_field_zeros

definition deposit_public :: "poseidon \<Rightarrow> opaq_fields \<Rightarrow> bytes32 list option" where
  "deposit_public P x =
     do { t \<leftarrow> to_field_be P (of_mint x); Some [t, be32 (ucast (of_amount x)), of_commitment x] }"

definition withdraw_public :: "poseidon \<Rightarrow> opaq_fields \<Rightarrow> bytes32 list option" where
  "withdraw_public P x =
     do { t \<leftarrow> to_field_be P (of_mint x); r \<leftarrow> to_field_be P (of_recipient x);
          Some [of_merkle_root x, of_nullifier x, t, be32 (ucast (of_amount x)), r] }"

definition burn_public :: "poseidon \<Rightarrow> opaq_fields \<Rightarrow> bytes32 list option" where
  "burn_public P x =
     do { t \<leftarrow> to_field_be P (of_mint x);
          Some [of_merkle_root x, of_nullifier x, t, be32 (ucast (of_amount x)), of_dest_chain x,
                of_recipient x] }"

interpretation deposit_sidecar: proof_sidecar J "''deposit''" 1 DEPOSIT_VK
  "\<lambda>c x. deposit_sidecar c (of_mint x) (of_amount x) (of_commitment x)"
  "\<lambda>x. x\<lparr>of_nullifier := 0, of_merkle_root := 0, of_recipient := 0, of_dest_chain := 0\<rparr>"
  deposit_public for J
proof
  fix c j and x :: opaq_fields
  assume c: "codec_laws c" "hex_zeros c"
    and r: "reads_object J j (deposit_sidecar c (of_mint x) (of_amount x) (of_commitment x))"
  show "sidecar_fields c J j =
      Ok (x\<lparr>of_nullifier := 0, of_merkle_root := 0, of_recipient := 0, of_dest_chain := 0\<rparr>)"
    using r c amount_word [of "of_amount x"]
    by (cases x) (simp add: deposit_sidecar_def sidecar_simps)
next
  fix p P and x :: opaq_fields
  assume p: "proof_ok p"
  let ?rest = "b32_bytes (of_mint x) @ u64_to_le (of_amount x) @ b32_bytes (of_commitment x)"
  note at = fields_at [OF p, of ?rest] proof_slices(4) [OF p, of ?rest]
  show "\<exists>args. opaq_instruction ''deposit'' p
      (x\<lparr>of_nullifier := 0, of_merkle_root := 0, of_recipient := 0, of_dest_chain := 0\<rparr>) = Ok (1 # args) \<and>
    carries_proof p args \<and> statement_of P 1 args = map_option (Pair DEPOSIT_VK) (deposit_public P x)"
    using at(1) [of 0] at(1) [of 40] at(2) at(3) [of 32 8]
    by (intro exI [of _ "pb_a p @ pb_b p @ pb_c p @ ?rest"])
      (cases "to_field_be P (of_mint x)", simp_all add: opaq_instruction_def statement_of_def Let_def
        to_field_eq deposit_public_def be32_amount_u64 field_slices)
qed simp

interpretation withdraw_sidecar: proof_sidecar J "''withdraw''" 2 WITHDRAW_VK
  "\<lambda>c x. withdraw_sidecar c (of_merkle_root x) (of_nullifier x) (of_mint x) (of_amount x) (of_recipient x)"
  "\<lambda>x. x\<lparr>of_commitment := 0, of_dest_chain := 0\<rparr>" withdraw_public for J
proof
  fix c j and x :: opaq_fields
  assume c: "codec_laws c" "hex_zeros c" and r: "reads_object J j
    (withdraw_sidecar c (of_merkle_root x) (of_nullifier x) (of_mint x) (of_amount x) (of_recipient x))"
  show "sidecar_fields c J j = Ok (x\<lparr>of_commitment := 0, of_dest_chain := 0\<rparr>)"
    using r c amount_word [of "of_amount x"] by (cases x) (simp add: withdraw_sidecar_def sidecar_simps)
next
  fix p P and x :: opaq_fields
  assume p: "proof_ok p"
  let ?rest = "b32_bytes (of_merkle_root x) @ b32_bytes (of_nullifier x) @ b32_bytes (of_mint x) @
    u64_to_le (of_amount x) @ b32_bytes (of_recipient x)"
  note at = fields_at [OF p, of ?rest] proof_slices(4) [OF p, of ?rest]
  show "\<exists>args. opaq_instruction ''withdraw'' p (x\<lparr>of_commitment := 0, of_dest_chain := 0\<rparr>) = Ok (2 # args) \<and>
    carries_proof p args \<and> statement_of P 2 args = map_option (Pair WITHDRAW_VK) (withdraw_public P x)"
    using at(1) [of 0] at(1) [of 32] at(1) [of 64] at(1) [of 104] at(2) at(3) [of 96 8]
    by (intro exI [of _ "pb_a p @ pb_b p @ pb_c p @ ?rest"])
      (cases "to_field_be P (of_mint x)"; cases "to_field_be P (of_recipient x)";
        simp add: opaq_instruction_def statement_of_def Let_def to_field_eq withdraw_public_def
          be32_amount_u64 field_slices)
qed simp

interpretation burn_sidecar: proof_sidecar J "''burn''" 4 BURN_VK
  "\<lambda>c x. burn_sidecar c (of_mint x) (of_amount x) (of_commitment x) (of_nullifier x) (of_merkle_root x)
    (of_dest_chain x) (of_recipient x)" "\<lambda>x. x" burn_public for J
proof
  fix c j and x :: opaq_fields
  assume c: "codec_laws c" "hex_zeros c" and r: "reads_object J j
    (burn_sidecar c (of_mint x) (of_amount x) (of_commitment x) (of_nullifier x) (of_merkle_root x)
      (of_dest_chain x) (of_recipient x))"
  have d: "sidecar_field c J j ''dest_chain'' = Ok (of_dest_chain x)"
    using r c by (simp add: burn_sidecar_def sidecar_simps)
  show "sidecar_fields c J j = Ok x"
    using r c d amount_word [of "of_amount x"] codec_lawsD(1) [OF c(1)]
    by (cases x) (simp add: burn_sidecar_def sidecar_simps tool_hex32_def)
next
  fix p P and x :: opaq_fields
  assume p: "proof_ok p"
  let ?rest = "b32_bytes (of_merkle_root x) @ b32_bytes (of_nullifier x) @ b32_bytes (of_mint x) @
    u64_to_le (of_amount x) @ b32_bytes (of_dest_chain x) @ b32_bytes (of_recipient x)"
  note at = fields_at [OF p, of ?rest] proof_slices(4) [OF p, of ?rest]
  show "\<exists>args. opaq_instruction ''burn'' p x = Ok (4 # args) \<and>
    carries_proof p args \<and> statement_of P 4 args = map_option (Pair BURN_VK) (burn_public P x)"
    using at(1) [of 0] at(1) [of 32] at(1) [of 64] at(1) [of 104] at(1) [of 136] at(2) at(3) [of 96 8]
    by (intro exI [of _ "pb_a p @ pb_b p @ pb_c p @ ?rest"])
      (cases "to_field_be P (of_mint x)"; simp add: opaq_instruction_def statement_of_def Let_def
        to_field_eq burn_public_def be32_amount_u64 field_slices)
qed simp

end
