(* ===== verification/Wallet_Laws.thy ===== *)
theory Wallet_Laws
  imports Wallet_Notes
begin

text \<open>
  The wallet's commands as a whole: what a successful deposit, withdrawal, burn or transfer has
  written, and that the inputs it handed to the prover satisfy the circuit. A withdrawal from a leaf
  file, without proving, is shown to succeed.
\<close>

section \<open>Deposit\<close>

lemma wallet_deposit_Ok:
  assumes "codec_laws (w_crates W)" and "serde_law (w_json W) (w_to_string W)" and "view_laws (w_view W)"
    and "wallet_deposit W f s = (Ok u, t)"
  obtains mint amount path n sk bl owner token_id cm b es where
    "and_then (req f ''token'') (wallet_pubkey (w_crates W)) = Ok mint"
    and "and_then (req f ''amount'') parse_amount = Ok amount" and "f ''note'' = Some path"
    and "wallet_to32 (w_fr_rand W n) = Ok sk"
    and "w_poseidon W [sk] = Some owner" and "to_field_be (w_poseidon W) mint = Some token_id"
    and "w_poseidon W [token_id, be32 (ucast amount), owner, bl] = Some cm"
    and "ws_events t = ws_events s @ Wrote path b # es"
    and "note_file W b (note_fields (w_crates W) mint amount sk bl owner cm)"
    and "spend_logged W f ''deposit''
      (w_to_string W (deposit_inputs (w_crates W) token_id (be32 (ucast amount)) cm owner bl))
      (json_text (LObj (deposit_sidecar (w_crates W) mint amount cm))) (ws_events t)"
proof -
  let ?c = "w_crates W" and ?P = "w_poseidon W"
  from assms(4) obtain mint amount path sk bl owner token_id cm s2 s3 s4 where
    args: "and_then (req f ''token'') (wallet_pubkey ?c) = Ok mint"
      "and_then (req f ''amount'') parse_amount = Ok amount" "f ''note'' = Some path"
    and sk: "wallet_to32 (w_fr_rand W (ws_drawn s)) = Ok sk"
    and h: "?P [sk] = Some owner" "to_field_be ?P mint = Some token_id"
      "?P [token_id, be32 (ucast amount), owner, bl] = Some cm"
    and w: "write_note W path (note_fields ?c mint amount sk bl owner cm)
        (s\<lparr>ws_drawn := Suc (Suc (ws_drawn s))\<rparr>) = (Ok (), s2)"
    and i: "write_inputs W f (w_to_string W
        (deposit_inputs ?c token_id (be32 (ucast amount)) cm owner bl)) s2 = (Ok (), s3)"
    and p: "prove_and_submit W ''deposit''
        (w_to_string W (deposit_inputs ?c token_id (be32 (ucast amount)) cm owner bl))
        (json_text (LObj (deposit_sidecar ?c mint amount cm))) ''deposit.bin'' f (\<lambda>out. skip_cmd)
        (\<lambda>out. submit_deposit W out mint f) s3 = (Ok (), s4)"
    and fin: "warn_amount amount s4 = (Ok u, t)"
    by (auto simp: wallet_deposit_def Let_def command_simps outcome_simps req_def poseidon_be_def)
  obtain b where b: "note_file W b (note_fields ?c mint amount sk bl owner cm)"
    and s2: "ws_events s2 = ws_events s @ [Wrote path b]"
    by (rule write_note_Ok [OF assms(1-3) distinct_note_fields w]) auto
  have "prefix (ws_events s2) (ws_events s3)"
    using logs_write_inputs i by (rule logsD)
  also have "prefix \<dots> (ws_events s4)"
    using _ p by (rule logsD) (intro logs_intros)
  also have end_log: "prefix (ws_events s4) (ws_events t)"
    using logs_warn(1) fin by (rule logsD)
  finally obtain es where es: "ws_events t = ws_events s @ Wrote path b # es"
    by (auto simp: s2 prefix_def)
  have "spend_logged W f ''deposit''
      (w_to_string W (deposit_inputs ?c token_id (be32 (ucast amount)) cm owner bl))
      (json_text (LObj (deposit_sidecar ?c mint amount cm))) (ws_events t)"
    by (rule spend_logged_done [OF i p _ _ end_log]) (intro logs_intros)+
  with args sk h es b show thesis by (rule that)
qed

section \<open>Withdrawal\<close>

lemma spend_leaves_state: "logs (spend_leaves W f)"
  unfolding spend_leaves_def load_leaves_def harvest_leaves_def Let_def
  by (auto intro!: logs_intros split: option.splits prod.splits)

text \<open>Whatever note it read, a withdrawal that found leaves handed these inputs on.\<close>

lemma wallet_withdraw_Ok:
  assumes "wallet_withdraw W g s = (Ok u, t)"
    and "g ''note'' = Some path" and "read_note W path s = (Ok j, s)"
    and "codec_laws (w_crates W)"
    and "reads_object (w_json W) j (note_fields (w_crates W) mint amount sk bl owner cm)"
    and "spend_leaves W g s = (Ok (Some ls), s')"
  obtains recipient nf i siblings right root token_id rf where
    "and_then (req g ''recipient'') (wallet_pubkey (w_crates W)) = Ok recipient"
    and "w_poseidon W [cm, sk] = Some nf"
    and "leaf_position cm ls ''note commitment not found in on-chain leaves (wrong pool/passphrase?)'' = Ok i"
    and "rebuild_path (w_poseidon W) ls i = Ok (siblings, right, root)"
    and "to_field_be (w_poseidon W) mint = Some token_id" and "to_field_be (w_poseidon W) recipient = Some rf"
    and "spend_logged W g ''withdraw''
      (json_text (withdraw_inputs (w_crates W) root nf token_id (be32 (ucast amount)) rf sk bl siblings right))
      (json_text (LObj (withdraw_sidecar (w_crates W) root nf mint amount recipient))) (ws_events t)"
proof -
  let ?c = "w_crates W" and ?P = "w_poseidon W"
  let ?rest = "\<lambda>recipient. cbind (case g ''rpc'' of None \<Rightarrow> lift (Ok None)
      | Some rpc \<Rightarrow> attempt (lookup_history W rpc (bs58_encode ?c (b32_bytes recipient)))) (\<lambda>past.
      cbind (warn_recipient ?c recipient past) (\<lambda>_. warn_amount amount))"
  note readers = note_readers [OF assms(4,5)]
  from assms(1-3,6) readers obtain recipient nf s1 where
    r: "and_then (req g ''recipient'') (wallet_pubkey ?c) = Ok recipient" and nf: "?P [cm, sk] = Some nf"
    and l: "withdraw_from_leaves W g j recipient cm sk amount mint nf ls s' = (Ok (), s1)"
    and fin: "?rest recipient s1 = (Ok u, t)"
    by (auto simp: wallet_withdraw_def Let_def cbind_Ok_iff lift_Ok_iff outcome_simps req_def poseidon_be_def)
  let ?inp = "\<lambda>root token_id rf siblings right. json_text (withdraw_inputs ?c root nf token_id
    (be32 (ucast amount)) rf sk bl siblings right)"
  let ?sc = "\<lambda>root. json_text (LObj (withdraw_sidecar ?c root nf mint amount recipient))"
  from l readers obtain i siblings right root token_id rf s2 where
    p: "leaf_position cm ls ''note commitment not found in on-chain leaves (wrong pool/passphrase?)'' = Ok i"
      "rebuild_path ?P ls i = Ok (siblings, right, root)"
      "to_field_be ?P mint = Some token_id" "to_field_be ?P recipient = Some rf"
    and wi: "write_inputs W g (?inp root token_id rf siblings right) s' = (Ok (), s2)"
    and ps: "prove_and_submit W ''withdraw'' (?inp root token_id rf siblings right) (?sc root)
        ''withdraw.bin'' g (\<lambda>out. skip_cmd) (\<lambda>out. submit_withdraw W out mint recipient g) s2 = (Ok (), s1)"
    by (auto simp: withdraw_from_leaves_def Let_def cbind_Ok_iff lift_Ok_iff outcome_simps)
  have "logs (?rest recipient)"
    by (auto intro!: logs_intros split: option.splits)
  then have "prefix (ws_events s1) (ws_events t)"
    using fin by (rule logsD)
  then have "spend_logged W g ''withdraw'' (?inp root token_id rf siblings right) (?sc root) (ws_events t)"
    by (rule spend_logged_done [OF wi ps, rotated 2]) (intro logs_intros)+
  with r nf p show thesis by (rule that)
qed

text \<open>From a leaf file that holds the commitment, without proving, a withdrawal succeeds.\<close>

definition offline :: "flag_map \<Rightarrow> bool" where
  "offline f \<longleftrightarrow> \<not> has_flag f ''prove'' \<and> \<not> has_flag f ''submit'' \<and> f ''rpc'' = None"

lemma prove_and_submit_offline [simp]:
  "offline f \<Longrightarrow> prove_and_submit W circuit inputs sidecar fallback f attach submit = skip_cmd"
  by (simp add: prove_and_submit_def offline_def)

lemma to_field_total:
  assumes "hashes_to (poseidon2 P) H"
  shows "\<exists>t. to_field_be P x = Some t"
  using hashes_toD(1) [OF assms field_elem_limbs(1,2) [of x]]
  by (simp add: to_field_be_limbs poseidon_be_def poseidon2_def)

lemma wallet_withdraw_offline:
  assumes "g ''note'' = Some path" and "read_note W path s = (Ok j, s)" and "codec_laws (w_crates W)"
    and "reads_object (w_json W) j (note_fields (w_crates W) mint amount sk bl owner cm)"
    and "and_then (req g ''recipient'') (wallet_pubkey (w_crates W)) = Ok recipient"
    and "hashes_to (poseidon2 (w_poseidon W)) H" and "field_elem sk"
    and "spend_leaves W g s = (Ok (Some ls), s')" and "cm \<in> set ls" and "list_all field_elem ls"
    and "offline g" and "g ''inputs-out'' = Some out" and "w_can_write W out"
  obtains t nf token_id rf i siblings right where "wallet_withdraw W g s = (Ok (), t)"
    and "w_poseidon W [cm, sk] = Some nf" and "to_field_be (w_poseidon W) mint = Some token_id"
    and "to_field_be (w_poseidon W) recipient = Some rf"
    and "leaf_position cm ls '''' = Ok i"
    and "rebuild_path (w_poseidon W) ls i = Ok (siblings, right, merkle_root H ls)"
    and "ws_files t out = Some (as_bytes (json_text (withdraw_inputs (w_crates W) (merkle_root H ls) nf
          token_id (be32 (ucast amount)) rf sk bl siblings right)))"
proof -
  let ?c = "w_crates W" and ?P = "w_poseidon W"
  note readers = note_readers [OF assms(3,4)]
  have "field_elem cm"
    using assms(9,10) by (simp add: list_all_iff)
  then obtain nf where nf: "?P [cm, sk] = Some nf"
    using hashes_toD(1) [OF assms(6) _ assms(7)] by (auto simp: poseidon2_def)
  obtain token_id rf where tf: "to_field_be ?P mint = Some token_id" "to_field_be ?P recipient = Some rf"
    using to_field_total [OF assms(6)] by blast
  obtain i siblings right where p: "\<forall>msg. leaf_position cm ls msg = Ok i"
      "rebuild_path ?P ls i = Ok (siblings, right, merkle_root H ls)"
    by (rule path_exists [OF assms(6,10,9)])
  let ?b = "as_bytes (json_text (withdraw_inputs ?c (merkle_root H ls) nf token_id
    (be32 (ucast amount)) rf sk bl siblings right))"
  have l: "withdraw_from_leaves W g j recipient cm sk amount mint nf ls s' =
      (Ok (), s'\<lparr>ws_files := (ws_files s')(out \<mapsto> ?b), ws_events := ws_events s' @ [Wrote out ?b]\<rparr>)"
    using readers(4) p tf assms(11-13)
    by (simp add: withdraw_from_leaves_def Let_def cbind_def lift_def write_inputs_def write_file_def
        skip_cmd_def)
  have rpc: "g ''rpc'' = None"
    using assms(11) by (simp add: offline_def)
  have "\<exists>t. wallet_withdraw W g s = (Ok (), t) \<and> ws_files t out = Some ?b"
    using assms(1,2,5,8) readers nf l rpc
    by (simp add: wallet_withdraw_def Let_def cbind_def lift_def req_def poseidon_be_def
        warn_recipient_def warn_amount_def event_def)
  then show thesis
    using that nf tf p by blast
qed

section \<open>Burn\<close>

lemma wallet_burn_Ok:
  assumes "wallet_burn W g s = (Ok u, t)"
    and "g ''note'' = Some path" and "read_note W path s = (Ok j, s)"
    and "codec_laws (w_crates W)"
    and "reads_object (w_json W) j (note_fields (w_crates W) mint amount sk bl owner cm)"
    and "spend_leaves W g s = (Ok (Some ls), s')"
  obtains dest_chain dest_address nf i siblings right root token_id where
    "and_then (req g ''dest-chain'') (\<lambda>s.
       ok_or (parse_u64 s) ''dest-chain must be a u64 EVM chain id'') = Ok dest_chain"
    and "and_then (req g ''dest-address'') (wallet_evm_address (w_crates W)) = Ok dest_address"
    and "w_poseidon W [cm, sk] = Some nf"
    and "leaf_position cm ls ''note commitment not found in on-chain leaves (wrong pool/passphrase?)'' = Ok i"
    and "rebuild_path (w_poseidon W) ls i = Ok (siblings, right, root)"
    and "to_field_be (w_poseidon W) mint = Some token_id"
    and "spend_logged W g ''burn''
      (json_text (burn_inputs (w_crates W) root nf token_id (be32 (ucast amount))
        (be32 (ucast dest_chain)) dest_address sk bl siblings right))
      (json_text (LObj (burn_sidecar (w_crates W) mint amount cm nf root (be32 (ucast dest_chain))
        dest_address))) (ws_events t)"
proof -
  let ?c = "w_crates W" and ?P = "w_poseidon W"
  note readers = note_readers [OF assms(4,5)]
  from assms(1-3,6) readers obtain dest_chain dest_address nf s1 where
    d: "and_then (req g ''dest-chain'') (\<lambda>s.
       ok_or (parse_u64 s) ''dest-chain must be a u64 EVM chain id'') = Ok dest_chain"
      "and_then (req g ''dest-address'') (wallet_evm_address ?c) = Ok dest_address"
    and nf: "?P [cm, sk] = Some nf"
    and l: "burn_from_leaves W g j (be32 (ucast dest_chain)) dest_address cm sk amount mint nf ls s' =
        (Ok (), s1)"
    and fin: "warn_amount amount s1 = (Ok u, t)"
    by (auto simp: wallet_burn_def Let_def cbind_Ok_iff lift_Ok_iff outcome_simps req_def poseidon_be_def)
  let ?inp = "\<lambda>root token_id siblings right. json_text (burn_inputs ?c root nf token_id
    (be32 (ucast amount)) (be32 (ucast dest_chain)) dest_address sk bl siblings right)"
  let ?sc = "\<lambda>root. json_text (LObj (burn_sidecar ?c mint amount cm nf root (be32 (ucast dest_chain))
    dest_address))"
  from l readers obtain i siblings right root token_id s2 where
    p: "leaf_position cm ls ''note commitment not found in on-chain leaves (wrong pool/passphrase?)'' = Ok i"
      "rebuild_path ?P ls i = Ok (siblings, right, root)" "to_field_be ?P mint = Some token_id"
    and wi: "write_inputs W g (?inp root token_id siblings right) s' = (Ok (), s2)"
    and ps: "prove_and_submit W ''burn'' (?inp root token_id siblings right) (?sc root)
        ''burn.bin'' g (\<lambda>out. skip_cmd) (\<lambda>out. submit_burn W out g) s2 = (Ok (), s1)"
    by (auto simp: burn_from_leaves_def Let_def cbind_Ok_iff lift_Ok_iff outcome_simps)
  have "prefix (ws_events s1) (ws_events t)"
    using logs_warn(1) fin by (rule logsD)
  then have "spend_logged W g ''burn'' (?inp root token_id siblings right) (?sc root) (ws_events t)"
    by (rule spend_logged_done [OF wi ps, rotated 2]) (intro logs_intros)+
  with d nf p show thesis by (rule that)
qed

section \<open>Transfer\<close>

text \<open>
  The four notes of a transfer: the note that was read, the dummy, the recipient's and the change,
  as inputs and outputs of the circuit.
\<close>

definition real_input :: "u64 \<Rightarrow> bytes32 \<Rightarrow> bytes32 \<Rightarrow> bytes32 list \<Rightarrow> bool list \<Rightarrow> note_input" where
  "real_input amount sk bl siblings right =
     \<lparr>ni_amount = be32 (ucast amount), ni_spend_key = sk, ni_blinding = bl, ni_is_dummy = False,
      ni_merkle_path = siblings, ni_merkle_path_indices = right\<rparr>"

definition output_of :: "u64 \<Rightarrow> bytes32 \<Rightarrow> bytes32 \<Rightarrow> note_output" where
  "output_of amount owner bl =
     \<lparr>out_amount = be32 (ucast amount), out_owner_pubkey = owner, out_blinding = bl\<rparr>"

lemma logs_optional_note:
  "logs (case f k of None \<Rightarrow> skip_cmd | Some p \<Rightarrow> write_note W p note)"
  "logs (case f k of None \<Rightarrow> skip_cmd | Some p \<Rightarrow> write_file W (msg p) p b)"
  by (auto intro!: logs_intros split: option.splits)

lemma wallet_transfer_Ok:
  assumes "wallet_transfer W f s = (Ok u, t)" and "f ''note'' = Some path"
    and "read_note W path s = (Ok j, s)" and "codec_laws (w_crates W)"
    and "reads_object (w_json W) j (note_fields (w_crates W) mint amount sk bl owner cm)"
    and "serde_law (w_json W) (w_to_string W)" and "view_laws (w_view W)"
  obtains recipient send token_id nf dsk dbl downer dcm dnf bl0 cm0 csk cbl cowner cm1 ls i siblings
    right root s2 where
    "and_then (req f ''to'') (wallet_hex32 (w_crates W)) = Ok recipient"
    and "and_then (req f ''amount'') parse_amount = Ok send" and "send \<le> amount"
    and "to_field_be (w_poseidon W) mint = Some token_id" and "w_poseidon W [cm, sk] = Some nf"
    and "w_poseidon W [dsk] = Some downer" and "w_poseidon W [token_id, be32 0, downer, dbl] = Some dcm"
    and "w_poseidon W [dcm, dsk] = Some dnf"
    and "w_poseidon W [token_id, be32 (ucast send), recipient, bl0] = Some cm0"
    and "w_poseidon W [csk] = Some cowner"
    and "w_poseidon W [token_id, be32 (ucast (amount - send)), cowner, cbl] = Some cm1"
    and "drawn W s 0 = Ok dsk" and "drawn W s 1 = Ok dbl" and "drawn W s 2 = Ok bl0"
    and "drawn W s 3 = Ok csk" and "drawn W s 4 = Ok cbl"
    and "transfer_leaves W f (s\<lparr>ws_drawn := ws_drawn s + 5\<rparr>) = (Ok ls, s2)"
    and "leaf_position cm ls
      ''input note commitment not found in on-chain leaves (wrong pool/passphrase?)'' = Ok i"
    and "rebuild_path (w_poseidon W) ls i = Ok (siblings, right, root)"
    and "prove_logged W f ''transfer''
      (json_text (transfer_inputs (w_crates W) root [nf, dnf] [cm0, cm1] token_id
        [real_input amount sk bl siblings right, dummy_input dsk dbl]
        [output_of send recipient bl0, output_of (amount - send) cowner cbl])) ''{}'' (ws_events t)"
    and "\<forall>p. f ''change-note'' = Some p \<longrightarrow> (\<exists>b. Wrote p b \<in> set (ws_events t) \<and>
      note_file W b (note_fields (w_crates W) mint (amount - send) csk cbl cowner cm1))"
    and "\<forall>p. f ''out-note'' = Some p \<longrightarrow> Wrote p (as_bytes (w_to_string W (LObj
      (recipient_fields (w_crates W) mint send recipient bl0 cm0)))) \<in> set (ws_events t)"
proof -
  let ?c = "w_crates W" and ?P = "w_poseidon W"
  note readers = note_readers [OF assms(4,5)]
  let ?inputs = "\<lambda>root nf dnf cm0 cm1 token_id siblings right dsk dbl send recipient bl0 cowner cbl.
    json_text (transfer_inputs ?c root [nf, dnf] [cm0, cm1] token_id
        [real_input amount sk bl siblings right, dummy_input dsk dbl]
        [output_of send recipient bl0, output_of (amount - send) cowner cbl])"
  from assms(1-3) readers obtain recipient send token_id nf dsk dbl downer dcm dnf bl0 cm0 csk cbl cowner
    cm1 ls i siblings right root s2 v s3 s4 where
    a: "and_then (req f ''to'') (wallet_hex32 ?c) = Ok recipient"
      "and_then (req f ''amount'') parse_amount = Ok send" "send \<le> amount"
      "to_field_be ?P mint = Some token_id" "?P [cm, sk] = Some nf"
    and d: "?P [dsk] = Some downer" "?P [token_id, be32 0, downer, dbl] = Some dcm" "?P [dcm, dsk] = Some dnf"
    and o: "?P [token_id, be32 (ucast send), recipient, bl0] = Some cm0" "?P [csk] = Some cowner"
      "?P [token_id, be32 (ucast (amount - send)), cowner, cbl] = Some cm1"
    and r: "drawn W s 0 = Ok dsk" "drawn W s 1 = Ok dbl" "drawn W s 2 = Ok bl0" "drawn W s 3 = Ok csk"
      "drawn W s 4 = Ok cbl"
    and l: "transfer_leaves W f (s\<lparr>ws_drawn := ws_drawn s + 5\<rparr>) = (Ok ls, s2)"
      "leaf_position cm ls
        ''input note commitment not found in on-chain leaves (wrong pool/passphrase?)'' = Ok i"
      "rebuild_path ?P ls i = Ok (siblings, right, root)"
    and cn: "(case f ''change-note'' of None \<Rightarrow> skip_cmd | Some p \<Rightarrow> write_note W p
        (note_fields ?c mint (amount - send) csk cbl cowner cm1)) s2 = (Ok (), v)"
    and on: "(case f ''out-note'' of None \<Rightarrow> skip_cmd | Some p \<Rightarrow> write_file W (''write '' @ p) p
        (as_bytes (w_to_string W (LObj (recipient_fields ?c mint send recipient bl0 cm0))))) v = (Ok (), s3)"
    and ps: "prove_and_submit W ''transfer''
        (?inputs root nf dnf cm0 cm1 token_id siblings right dsk dbl send recipient bl0 cowner cbl) ''{}''
        ''transfer.bin'' f
        (attach_for W f \<lparr>no_mint = mint, no_amount = be32 (ucast send), no_blinding_factor = bl0\<rparr>)
        (\<lambda>out. submit_transfer W out f) s3 = (Ok (), s4)"
    and fin: "warn_amount send s4 = (Ok u, t)"
    by (auto simp: wallet_transfer_def Let_def cbind_Ok_iff lift_Ok_iff outcome_simps req_def
        poseidon_be_def random_scalar_Ok_iff drawn_def real_input_def output_of_def not_less
        eval_nat_numeral split: if_splits)
  have e4: "prefix (ws_events s4) (ws_events t)"
    using logs_warn(1) fin by (rule logsD)
  have "prefix (ws_events v) (ws_events s3)"
    using logs_optional_note(2) on by (rule logsD)
  moreover have e3: "prefix (ws_events s3) (ws_events t)"
    using logsD [OF logs_prove_and_submit [OF logs_attach_for logs_submit(4)] ps] e4 by simp
  ultimately have ev: "set (ws_events v) \<subseteq> set (ws_events t)"
    using set_mono_prefix by blast
  have "\<exists>b. Wrote p b \<in> set (ws_events t) \<and>
      note_file W b (note_fields ?c mint (amount - send) csk cbl cowner cm1)"
    if "f ''change-note'' = Some p" for p
  proof -
    have "write_note W p (note_fields ?c mint (amount - send) csk cbl cowner cm1) s2 = (Ok (), v)"
      using cn that by simp
    then show ?thesis
      using ev by (auto elim!: write_note_Ok [OF assms(4,6,7) distinct_note_fields])
  qed
  moreover have "Wrote p (as_bytes (w_to_string W (LObj (recipient_fields ?c mint send recipient bl0 cm0))))
      \<in> set (ws_events t)" if "f ''out-note'' = Some p" for p
    using on that set_mono_prefix [OF e3] by (auto simp: write_file_Ok_iff)
  moreover from e4 have "prove_logged W f ''transfer''
      (?inputs root nf dnf cm0 cm1 token_id siblings right dsk dbl send recipient bl0 cowner cbl) ''{}''
      (ws_events t)"
    by (rule prove_logged_done [OF ps, rotated 2]) (intro logs_intros)+
  ultimately show thesis
    using a d o r l by (intro that) (assumption | blast)+
qed

lemma be32_zero [simp]: "be32 0 = 0"
  by (simp add: be32_ucast)

text \<open>A real input and an empty one, the amount split over two outputs.\<close>

lemma two_notes_ok:
  assumes "input_ok P root token_id nf (real_input amount sk bl siblings right)"
    and "P [dsk] = Some downer" and "P [token_id, be32 0, downer, dbl] = Some dcm"
    and "P [dcm, dsk] = Some dnf"
    and "P [token_id, be32 (ucast send), recipient, bl0] = Some cm0"
    and "P [token_id, be32 (ucast (amount - send)), cowner, cbl] = Some cm1"
    and "send \<le> (amount :: u64)"
  shows "transfer_circuit P root [nf, dnf] [cm0, cm1] token_id
      [real_input amount sk bl siblings right, dummy_input dsk dbl]
      [output_of send recipient bl0, output_of (amount - send) cowner cbl]"
proof -
  have "unat send + unat (amount - send) = unat amount"
    using assms(7) by (simp add: unat_sub word_le_nat_alt)
  moreover have "input_ok P root token_id dnf (dummy_input dsk dbl)"
    using assms(2-4) by (simp add: input_ok_def dummy_input_def TREE_DEPTH_def)
  moreover have "output_ok P token_id cm0 (output_of send recipient bl0)"
    "output_ok P token_id cm1 (output_of (amount - send) cowner cbl)"
    using assms(5,6) amount_in_range [of send] amount_in_range [of "amount - send"]
    by (simp_all add: output_ok_def output_of_def)
  ultimately show ?thesis
    using assms(1) by (simp add: transfer_circuit_def real_input_def dummy_input_def output_of_def)
qed

lemma transfer_inputs_ok:
  assumes "P [sk] = Some owner" and "P [token_id, be32 (ucast amount), owner, bl] = Some cm"
    and "P [cm, sk] = Some nf" and "hashes_to (poseidon2 P) H" and "list_all field_elem ls"
    and "length ls \<le> 2 ^ TREE_DEPTH" and "leaf_position cm ls msg = Ok i"
    and "rebuild_path P ls i = Ok (siblings, right, root)"
    and "P [dsk] = Some downer" and "P [token_id, be32 0, downer, dbl] = Some dcm"
    and "P [dcm, dsk] = Some dnf"
    and "P [token_id, be32 (ucast send), recipient, bl0] = Some cm0"
    and "P [token_id, be32 (ucast (amount - send)), cowner, cbl] = Some cm1"
    and "send \<le> (amount :: u64)"
  shows "transfer_circuit P (merkle_root H ls) [nf, dnf] [cm0, cm1] token_id
      [real_input amount sk bl siblings right, dummy_input dsk dbl]
      [output_of send recipient bl0, output_of (amount - send) cowner cbl]"
    and "unat send + unat (amount - send) = unat amount"
proof -
  show "unat send + unat (amount - send) = unat amount"
    using assms(14) by (simp add: unat_sub word_le_nat_alt)
  have "input_ok P (merkle_root H ls) token_id nf (real_input amount sk bl siblings right)"
    unfolding real_input_def using assms(1-3) opened_path [OF assms(4-8)]
    by (intro input_ok_opens) (auto simp: opens_def)
  then show "transfer_circuit P (merkle_root H ls) [nf, dnf] [cm0, cm1] token_id
      [real_input amount sk bl siblings right, dummy_input dsk dbl]
      [output_of send recipient bl0, output_of (amount - send) cowner cbl]"
    using assms(9-14) by (rule two_notes_ok)
qed

section \<open>Identities and discovery\<close>

definition found_fields :: "crates \<Rightarrow> found_note \<Rightarrow> (string \<times> json_lit) list" where
  "found_fields c n = note_fields c (fn_mint n) (fn_amount n) (fn_spend_key n) (fn_blinding n)
     (fn_owner_pubkey n) (fn_commitment n)"

text \<open>The scan writes exactly the notes of \<open>scan_memos\<close>, each into a file that reads back.\<close>

lemma write_found_Ok:
  assumes "codec_laws (w_crates W)" and "serde_law (w_json W) (w_to_string W)" and "view_laws (w_view W)"
    and "write_found W dir scan k ms s = (Ok n, t)"
  shows "\<exists>found. scan_memos scan ms = Ok found \<and> n = k + length found \<and>
    (\<forall>note \<in> set found. \<exists>p b. Wrote p b \<in> set (ws_events t) \<and>
       note_file W b (found_fields (w_crates W) note)) \<and> prefix (ws_events s) (ws_events t)"
  using assms(4)
proof (induction ms arbitrary: k s)
  case Nil
  then show ?case by (simp add: lift_Ok_iff)
next
  case (Cons m ms)
  then obtain r where r: "scan m = Ok r"
    by (auto simp: cbind_Ok_iff lift_Ok_iff)
  show ?case
  proof (cases r)
    case None
    then have "write_found W dir scan k ms s = (Ok n, t)"
      using Cons.prems r by (simp add: cbind_Ok_iff lift_Ok_iff)
    from Cons.IH [OF this] show ?thesis
      using r None by auto
  next
    case (Some fnote)
    then obtain p s' where
      w: "write_note W p (found_fields (w_crates W) fnote) s = (Ok (), s')"
      and rest: "write_found W dir scan (k + 1) ms s' = (Ok n, t)"
      using Cons.prems r by (auto simp: cbind_Ok_iff lift_Ok_iff Let_def found_fields_def)
    have "distinct (map fst (found_fields (w_crates W) fnote))"
      by (simp add: found_fields_def distinct_note_fields)
    then obtain b where b: "note_file W b (found_fields (w_crates W) fnote)"
        "ws_events s' = ws_events s @ [Wrote p b]"
      by (rule write_note_Ok [OF assms(1-3) _ w]) auto
    from Cons.IH [OF rest] obtain found where f: "scan_memos scan ms = Ok found" "n = k + 1 + length found"
      "\<forall>note \<in> set found. \<exists>p b. Wrote p b \<in> set (ws_events t) \<and>
         note_file W b (found_fields (w_crates W) note)" "prefix (ws_events s') (ws_events t)"
      by auto
    have "Wrote p b \<in> set (ws_events t)" "prefix (ws_events s) (ws_events t)"
      using f(4) b(2) by (auto simp: prefix_def)
    then show ?thesis
      using r Some f b(1) by auto
  qed
qed

lemma wallet_list_unspent_Ok:
  assumes "codec_laws (w_crates W)" and "serde_law (w_json W) (w_to_string W)" and "view_laws (w_view W)"
    and "wallet_list_unspent W f s = (Ok u, t)"
  obtains path identity rpc program out fs v found where "f ''identity'' = Some path"
    and "read_note W path s = (Ok identity, s)" and "f ''rpc'' = Some rpc" and "f ''program'' = Some program"
    and "w_command W ''node'' [unwrap_or (w_env W ''OPAQ_LIST_UNSPENT_SCRIPT'') ''tests/list_unspent.mjs'',
          rpc, program] (ws_files s) = Some (out, fs)"
    and "co_success out" and "j_from_slice (w_json W) (co_stdout out) = Some v"
    and "list_unspent (w_crates W) (w_json W) (w_view W) (w_poseidon W) identity v = Ok found"
    and "\<forall>note \<in> set found. \<exists>p b. Wrote p b \<in> set (ws_events t) \<and>
           note_file W b (found_fields (w_crates W) note)"
proof -
  have state: "read_note W p s = (r, s') \<longleftrightarrow> s' = s \<and> fst (read_note W p s) = r" for p r s'
    by (auto simp: read_note_def Let_def cbind_def lift_def read_file_def split: sum.splits)
  from assms(4) obtain path identity sk vb owner rpc program out fs v ns spent_set ms s1 k s2 where
    a: "f ''identity'' = Some path" "read_note W path s = (Ok identity, s)"
      "f ''rpc'' = Some rpc" "f ''program'' = Some program"
    and sp: "w_command W ''node'' [unwrap_or (w_env W ''OPAQ_LIST_UNSPENT_SCRIPT'')
        ''tests/list_unspent.mjs'', rpc, program] (ws_files s) = Some (out, fs)"
      "co_success out" "j_from_slice (w_json W) (co_stdout out) = Some v"
    and i: "and_then (ok_or (j_as_str (w_json W) (j_index (w_json W) identity ''spend_key''))
        ''identity missing spend_key'') (wallet_hex32 (w_crates W)) = Ok sk"
      "and_then (ok_or (j_as_str (w_json W) (j_index (w_json W) identity ''view_key''))
        ''identity missing view_key'') (wallet_hex32 (w_crates W)) = Ok vb"
      "poseidon_be (w_poseidon W) [sk] = Some owner"
    and n: "j_as_array (w_json W) (j_index (w_json W) v ''nullifiers'') = Some ns"
      "collect_ok (\<lambda>x. and_then (expect (j_as_str (w_json W) x)) (wallet_hex32 (w_crates W))) ns = Ok spent_set"
      "j_as_array (w_json W) (j_index (w_json W) v ''memos'') = Some ms"
    and w: "write_found W (unwrap_or (f ''out-dir'') ''.'') (scan_memo (w_crates W) (w_json W) (w_view W)
        (w_poseidon W) (view_key_from_bytes vb) sk owner spent_set) 0 ms s1 = (Ok k, t)"
    by (auto simp: wallet_list_unspent_def Let_def cbind_Ok_iff lift_Ok_iff outcome_simps req_def
        spawn_Ok_iff skip_cmd_def state split: if_splits)
  from write_found_Ok [OF assms(1-3) w] obtain found where
    "scan_memos (scan_memo (w_crates W) (w_json W) (w_view W) (w_poseidon W) (view_key_from_bytes vb)
        sk owner spent_set) ms = Ok found"
    and files: "\<forall>note \<in> set found. \<exists>p b. Wrote p b \<in> set (ws_events t) \<and>
       note_file W b (found_fields (w_crates W) note)"
    by blast
  then have "list_unspent (w_crates W) (w_json W) (w_view W) (w_poseidon W) identity v = Ok found"
    using i n by (auto simp: list_unspent_def outcome_simps)
  with a sp show thesis using files by (rule that)
qed

lemma wallet_address_Ok:
  assumes "codec_laws (w_crates W)" and "serde_law (w_json W) (w_to_string W)" and "view_laws (w_view W)"
    and "wallet_address W f s = (Ok u, t)"
  obtains path sk owner secret b where "f ''out'' = Some path" and "w_poseidon W [sk] = Some owner"
    and "Wrote path b \<in> set (ws_events t)"
    and "note_file W b (identity_fields (w_crates W) sk secret owner (x25519_public (w_view W) secret))"
proof -
  from assms(4) obtain path sk owner secret s1 where a: "f ''out'' = Some path" "w_poseidon W [sk] = Some owner"
    and w: "write_note W path (identity_fields (w_crates W) sk secret owner
        (x25519_public (w_view W) secret)) s1 = (Ok u, t)"
    by (auto simp: wallet_address_def Let_def command_simps outcome_simps req_def poseidon_be_def
        view_key_from_bytes_def view_key_to_bytes_def viewing_pubkey_def)
  have d: "distinct (map fst (identity_fields (w_crates W) sk secret owner (x25519_public (w_view W) secret)))"
    by (simp add: identity_fields_def)
  show thesis
    by (rule write_note_Ok [OF assms(1-3) d w]) (auto intro: that a)
qed

text \<open>A note file whose nonce decodes to another length ends the command instead of giving an error.\<close>

lemma short_nonce_panics:
  assumes "passphrase W = Ok pass" and "ws_files s p = Some b" and "j_from_slice (w_json W) b = Some env"
    and "envelope_field (w_crates W) (w_json W) env ''salt'' = Ok salt"
    and "envelope_field (w_crates W) (w_json W) env ''nonce'' = Ok nonce"
    and "envelope_field (w_crates W) (w_json W) env ''ct'' = Ok ct"
    and "length nonce \<noteq> 12"
  shows "read_note W p s = (Panic, s)"
  using assms
  by (cases "w_argon2 W pass salt")
    (simp_all add: read_note_def Let_def cbind_def lift_def read_file_def derive_key_def nonce12_def)

end
