(* ===== verification/Wallet_Properties.thy ===== *)
theory Wallet_Properties
  imports Wallet_Laws Tooling_Properties "HOL-Library.Countable"
begin

text \<open>
  What the wallet guarantees to its user: a deposited note can be withdrawn, a burn proves what it
  submits, a transfer neither creates nor loses value. The witnesses run the commands under a toy
  environment in which JSON text is a number in unary.
\<close>

section \<open>A toy environment\<close>

instance json_lit :: countable
  by countable_datatype

fun demo_value :: "json_lit \<Rightarrow> demo_json" where
  "demo_value LNull = JNull"
| "demo_value (LBool b) = JBool b"
| "demo_value (LNum n) = JNum (word_of_nat n)"
| "demo_value (LStr s) = JStr s"
| "demo_value (LArr xs) = JArr (map demo_value xs)"
| "demo_value (LObj fs) = JObj (map (\<lambda>(k, v). (k, demo_value v)) fs)"

definition demo_to_string :: "json_lit \<Rightarrow> string" where
  "demo_to_string v = replicate (to_nat v) (CHR ''i'')"

definition unary_json :: "demo_json json" where
  "unary_json =
     (demo_json_api [])\<lparr>j_from_slice := (\<lambda>b. Some (demo_value (from_nat (length b))))\<rparr>"

lemma unary_json_simps:
  "j_from_slice unary_json (as_bytes (demo_to_string v)) = Some (demo_value v)"
  "j_index unary_json (JObj fs) k = (case map_of fs k of Some x \<Rightarrow> x | None \<Rightarrow> JNull)"
  "j_as_str unary_json (JStr s) = Some s" "j_as_str unary_json JNull = None"
  "j_as_u64 unary_json (JNum n) = Some n" "j_as_bool unary_json (JBool b) = Some b"
  "j_is_null unary_json JNull" "j_as_array unary_json (JArr xs) = Some xs"
  by (simp_all add: unary_json_def demo_json_api_def demo_to_string_def as_bytes_def)

lemma map_of_demo_value:
  "distinct (map fst fs) \<Longrightarrow> (k, v) \<in> set fs \<Longrightarrow>
     map_of (map (\<lambda>(k, v). (k, demo_value v)) fs) k = Some (demo_value v)"
  by (force simp: map_of_eq_Some_iff comp_def split_beta)

lemma unary_serde: "serde_law unary_json demo_to_string"
proof -
  have "reads_as unary_json (j_index unary_json (demo_value (LObj fs)) k) v"
    if "distinct (map fst fs)" "(k, v) \<in> set fs" for fs k v
    using map_of_demo_value [OF that]
    by (cases v) (simp_all add: reads_as_def unary_json_simps)
  moreover have "j_as_str unary_json (j_index unary_json (demo_value (LObj fs)) k) = None"
    if "k \<notin> fst ` set fs" for fs k
  proof -
    have "map_of (map (\<lambda>(k, v). (k, demo_value v)) fs) k = None"
      using that by (force simp: map_of_eq_None_iff)
    then show ?thesis by (simp add: unary_json_simps)
  qed
  ultimately show ?thesis
    by (auto simp: serde_law_def reads_object_def unary_json_simps(1) split_beta
        simp del: demo_value.simps)
qed

definition demo_wallet :: "demo_json wallet" where
  "demo_wallet =
     \<lparr>w_crates = demo_crates, w_json = unary_json, w_to_string = demo_to_string,
      w_poseidon = count_poseidon, w_view = demo_view, w_argon2 = (\<lambda>pass salt. Some 7),
      w_env = (\<lambda>k. if k = ''OPAQ_PASSPHRASE'' then Some ''secret'' else None),
      w_tmp = (\<lambda>s. ''/tmp/'' @ s), w_pid = ''1'', w_text = map (\<lambda>b. char_of (unat b)), w_can_write = (\<lambda>p. True),
      w_fr_rand = (\<lambda>n. [9]), w_fill_bytes = (\<lambda>n len. replicate len 5),
      w_command = (\<lambda>cmd args fs. Some (\<lparr>co_success = True, co_stdout = []\<rparr>, fs))\<rparr>"

lemma demo_wallet_simps [simp]:
  "w_crates demo_wallet = demo_crates" "w_json demo_wallet = unary_json"
  "w_to_string demo_wallet = demo_to_string" "w_poseidon demo_wallet = count_poseidon"
  "w_view demo_wallet = demo_view" "w_argon2 demo_wallet pass salt = Some 7"
  "w_can_write demo_wallet p" "w_fr_rand demo_wallet n = [9]"
  "w_fill_bytes demo_wallet n len = replicate len 5"
  "w_env demo_wallet ''OPAQ_PASSPHRASE'' = Some ''secret''"
  by (simp_all add: demo_wallet_def)

lemma demo_wallet_laws:
  "codec_laws (w_crates demo_wallet)" "serde_law (w_json demo_wallet) (w_to_string demo_wallet)"
  "view_laws (w_view demo_wallet)"
  by (simp_all add: demo_codec_laws unary_serde demo_view_laws)

lemma count_hashes_to: "hashes_to (poseidon2 count_poseidon) (\<lambda>a b. 2)"
  by (simp add: hashes_to_def poseidon2_def count_poseidon_def field_elem_def bn254_fr_def)

lemma demo_scalar: "wallet_to32 [9] = Ok 9"
  by code_simp

lemma demo_draws: "wallet_to32 (w_fr_rand demo_wallet n) = Ok b \<Longrightarrow> field_elem b"
  by (simp add: demo_scalar field_elem_def bn254_fr_def)

section \<open>Deposit and withdrawal\<close>

lemma deposit_circuit_note:
  assumes "P [token_id, be32 (ucast (a :: u64)), owner, bl] = Some cm"
  shows "deposit_circuit P token_id (be32 (ucast a)) cm owner bl"
  using assms amount_in_range [of a] by (simp add: deposit_circuit_def)

lemma withdraw_circuit_path:
  assumes "P [sk] = Some owner" and "P [token_id, be32 (ucast (a :: u64)), owner, bl] = Some cm"
    and "P [cm, sk] = Some nf" and "hashes_to (poseidon2 P) H" and "list_all field_elem ls"
    and "length ls \<le> 2 ^ TREE_DEPTH" and "leaf_position cm ls msg = Ok i"
    and "rebuild_path P ls i = Ok (siblings, right, root)"
  shows "withdraw_circuit P root nf token_id (be32 (ucast a)) recipient sk bl siblings right"
  unfolding withdraw_circuit_def using assms(1-3) opened_path [OF assms(4-8)]
  by (intro input_ok_opens) (auto simp: opens_def)

text \<open>Whoever has a note's file can withdraw it against leaves that contain its commitment.\<close>

lemma note_withdraws:
  assumes "codec_laws (w_crates W)" and "hashes_to (poseidon2 (w_poseidon W)) H" and "field_elem sk"
    and "note_file W b (note_fields (w_crates W) mint amount sk bl owner cm)"
    and "w_poseidon W [sk] = Some owner" and "to_field_be (w_poseidon W) mint = Some token_id"
    and "w_poseidon W [token_id, be32 (ucast amount), owner, bl] = Some cm"
    and "g ''note'' = Some path" and "ws_files s path = Some b"
    and "and_then (req g ''recipient'') (wallet_pubkey (w_crates W)) = Ok recipient"
    and "spend_leaves W g s = (Ok (Some ls), s')" and "cm \<in> set ls" and "list_all field_elem ls"
    and "length ls \<le> 2 ^ TREE_DEPTH" and "offline g" and "g ''inputs-out'' = Some out" and "w_can_write W out"
  shows "\<exists>t nf rf siblings right. wallet_withdraw W g s = (Ok (), t) \<and>
    to_field_be (w_poseidon W) recipient = Some rf \<and>
    ws_files t out = Some (as_bytes (json_text (withdraw_inputs (w_crates W) (merkle_root H ls)
      nf token_id (be32 (ucast amount)) rf sk bl siblings right))) \<and>
    withdraw_circuit (w_poseidon W) (merkle_root H ls) nf token_id (be32 (ucast amount)) rf sk bl
      siblings right"
proof -
  let ?c = "w_crates W" and ?P = "w_poseidon W"
  obtain j where j: "read_note W path s = (Ok j, s)"
      "reads_object (w_json W) j (note_fields ?c mint amount sk bl owner cm)"
    using assms(4,9) by (auto simp: note_file_def)
  obtain t nf tid rf i siblings right where w: "wallet_withdraw W g s = (Ok (), t)"
    "?P [cm, sk] = Some nf" "to_field_be ?P mint = Some tid" "to_field_be ?P recipient = Some rf"
    "leaf_position cm ls '''' = Ok i" "rebuild_path ?P ls i = Ok (siblings, right, merkle_root H ls)"
    "ws_files t out = Some (as_bytes (json_text (withdraw_inputs ?c (merkle_root H ls) nf
        tid (be32 (ucast amount)) rf sk bl siblings right)))"
    by (rule wallet_withdraw_offline [OF assms(8) j(1) assms(1) j(2) assms(10,2,3,11-13,15-17)])
  moreover have "tid = token_id" using w(3) assms(6) by simp
  moreover have "withdraw_circuit ?P (merkle_root H ls) nf token_id (be32 (ucast amount)) rf sk bl siblings right"
    by (rule withdraw_circuit_path [of ?P, OF assms(5,7) w(2) assms(2,13,14) w(5,6)])
  ultimately show ?thesis
    by blast
qed

text \<open>
  C20: A deposited note can be withdrawn. A successful \<open>opaq deposit\<close> logs inputs that satisfy the
  deposit circuit, and the first thing it writes is the note file. Whoever has that file and the
  passphrase can run \<open>opaq withdraw\<close> offline (without \<open>--prove\<close> and \<open>--rpc\<close>) against any list of
  canonical leaves that contains the note's commitment: it succeeds, and the inputs it writes satisfy
  the withdraw circuit for the root of those leaves.
\<close>

theorem deposited_note_withdraws:
  assumes "codec_laws (w_crates W)" and "serde_law (w_json W) (w_to_string W)" and "view_laws (w_view W)"
    and "hashes_to (poseidon2 (w_poseidon W)) H"
    and "\<forall>n b. wallet_to32 (w_fr_rand W n) = Ok b \<longrightarrow> field_elem b"
    and "wallet_deposit W f s = (Ok u, t)"
  shows "\<exists>mint amount note_path b es token_id owner spend_key blinding commitment.
    and_then (req f ''token'') (wallet_pubkey (w_crates W)) = Ok mint \<and>
    and_then (req f ''amount'') parse_amount = Ok amount \<and> f ''note'' = Some note_path \<and>
    ws_events t = ws_events s @ Wrote note_path b # es \<and>
    to_field_be (w_poseidon W) mint = Some token_id \<and>
    deposit_circuit (w_poseidon W) token_id (be32 (ucast amount)) commitment owner blinding \<and>
    spend_logged W f ''deposit''
      (w_to_string W (deposit_inputs (w_crates W) token_id (be32 (ucast amount)) commitment owner blinding))
      (json_text (LObj (deposit_sidecar (w_crates W) mint amount commitment))) (ws_events t) \<and>
    (\<forall>g path s' recipient ls s'' out.
       g ''note'' = Some path \<and> ws_files s' path = Some b \<and>
       and_then (req g ''recipient'') (wallet_pubkey (w_crates W)) = Ok recipient \<and>
       spend_leaves W g s' = (Ok (Some ls), s'') \<and> commitment \<in> set ls \<and> list_all field_elem ls \<and>
       length ls \<le> 2 ^ TREE_DEPTH \<and> offline g \<and> g ''inputs-out'' = Some out \<and> w_can_write W out \<longrightarrow>
       (\<exists>t' nullifier rf siblings right.
          wallet_withdraw W g s' = (Ok (), t') \<and> to_field_be (w_poseidon W) recipient = Some rf \<and>
          ws_files t' out = Some (as_bytes (json_text (withdraw_inputs (w_crates W) (merkle_root H ls)
            nullifier token_id (be32 (ucast amount)) rf spend_key blinding siblings right))) \<and>
          withdraw_circuit (w_poseidon W) (merkle_root H ls) nullifier token_id (be32 (ucast amount)) rf
            spend_key blinding siblings right))"
proof -
  let ?c = "w_crates W" and ?P = "w_poseidon W"
  obtain mint amount path n sk bl owner token_id cm b es where
    args: "and_then (req f ''token'') (wallet_pubkey ?c) = Ok mint"
      "and_then (req f ''amount'') parse_amount = Ok amount" "f ''note'' = Some path"
    and sk: "wallet_to32 (w_fr_rand W n) = Ok sk"
    and h: "?P [sk] = Some owner" "to_field_be ?P mint = Some token_id"
      "?P [token_id, be32 (ucast amount), owner, bl] = Some cm"
    and ev: "ws_events t = ws_events s @ Wrote path b # es"
    and nfile: "note_file W b (note_fields ?c mint amount sk bl owner cm)"
    and logged: "spend_logged W f ''deposit''
      (w_to_string W (deposit_inputs ?c token_id (be32 (ucast amount)) cm owner bl))
      (json_text (LObj (deposit_sidecar ?c mint amount cm))) (ws_events t)"
    by (rule wallet_deposit_Ok [OF assms(1-3,6)])
  have circuit: "deposit_circuit ?P token_id (be32 (ucast amount)) cm owner bl"
    using h(3) by (rule deposit_circuit_note)
  have fe: "field_elem sk"
    using assms(5) sk by blast
  show ?thesis
    by (intro exI conjI)
      (rule args ev h(2) circuit logged allI impI |
       elim conjE, rule note_withdraws [OF assms(1,4) fe nfile h], assumption+)+
qed

text \<open>A deposit of 1000, and a withdrawal of it against a file with one leaf.\<close>

definition demo_deposit_flags :: flag_map where
  "demo_deposit_flags = [''token'' \<mapsto> demo_hex (b32_bytes 5), ''amount'' \<mapsto> ''1000'', ''note'' \<mapsto> ''n'']"

definition demo_withdraw_flags :: flag_map where
  "demo_withdraw_flags = [''note'' \<mapsto> ''n'', ''recipient'' \<mapsto> demo_hex (b32_bytes 6),
     ''leaves'' \<mapsto> ''l'', ''inputs-out'' \<mapsto> ''o'']"

definition demo_empty_state :: wallet_state where
  "demo_empty_state = \<lparr>ws_files = (\<lambda>_. None), ws_drawn = 0, ws_events = []\<rparr>"

definition demo_leaf_file :: bytes where
  "demo_leaf_file = as_bytes (demo_to_string (LArr [LHex demo_crates 4]))"

lemma demo_pubkey: "wallet_pubkey demo_crates (demo_hex (b32_bytes w)) = Ok w"
  using trim_0x_id [OF hex_no_x [of "b32_bytes w"]] by (simp add: wallet_pubkey_def unhex_hex)

lemma demo_amount: "parse_amount ''1000'' = Ok 1000"
  by (simp add: parse_amount_def parse_u64_def parse_decimal_def)

lemma demo_note_written: "\<exists>t. write_note demo_wallet p note s = (Ok (), t)"
  by (simp add: write_note_def cbind_def lift_def passphrase_def fill_bytes_def derive_key_def nonce12_def
      write_file_def demo_view_def)

lemma wallet_deposit_offline:
  assumes "and_then (req f ''token'') (wallet_pubkey (w_crates W)) = Ok mint"
    and "and_then (req f ''amount'') parse_amount = Ok amount" and "f ''note'' = Some path"
    and "wallet_to32 (w_fr_rand W (ws_drawn s)) = Ok sk" and "wallet_to32 (w_fr_rand W (ws_drawn s + 1)) = Ok bl"
    and "w_poseidon W [sk] = Some owner" and "to_field_be (w_poseidon W) mint = Some token_id"
    and "w_poseidon W [token_id, be32 (ucast amount), owner, bl] = Some cm"
    and "\<forall>p note s. \<exists>t. write_note W p note s = (Ok (), t)" and "offline f" and "f ''inputs-out'' = None"
  shows "\<exists>t. wallet_deposit W f s = (Ok (), t)"
proof -
  obtain t where "write_note W path (note_fields (w_crates W) mint amount sk bl owner cm)
      (s\<lparr>ws_drawn := Suc (Suc (ws_drawn s))\<rparr>) = (Ok (), t)"
    using assms(9) by blast
  then show ?thesis
    using assms(1-8,10,11)
    by (simp add: wallet_deposit_def Let_def cbind_def lift_def req_def random_scalar_def poseidon_be_def
        write_inputs_def skip_cmd_def warn_amount_def event_def)
qed

lemma demo_deposits: "\<exists>t. wallet_deposit demo_wallet demo_deposit_flags demo_empty_state = (Ok (), t)"
proof (rule wallet_deposit_offline)
  show "and_then (req demo_deposit_flags ''token'') (wallet_pubkey (w_crates demo_wallet)) = Ok 5"
    and "and_then (req demo_deposit_flags ''amount'') parse_amount = Ok 1000"
    and "demo_deposit_flags ''note'' = Some ''n''" and "offline demo_deposit_flags"
    and "demo_deposit_flags ''inputs-out'' = None"
    by (simp_all add: demo_deposit_flags_def req_def demo_pubkey demo_amount offline_def has_flag_def)
  show "wallet_to32 (w_fr_rand demo_wallet (ws_drawn demo_empty_state)) = Ok 9"
    and "wallet_to32 (w_fr_rand demo_wallet (ws_drawn demo_empty_state + 1)) = Ok 9"
    by (simp_all add: demo_scalar)
  show "w_poseidon demo_wallet [9] = Some 1" and "to_field_be (w_poseidon demo_wallet) 5 = Some 2"
    and "w_poseidon demo_wallet [2, be32 (ucast (1000 :: u64)), 1, 9] = Some 4"
    by (simp_all add: count_poseidon_def to_field_be_def poseidon_be_def)
  show "\<forall>p note s. \<exists>t. write_note demo_wallet p note s = (Ok (), t)"
    using demo_note_written by blast
qed

lemma demo_leaves:
  "ws_files s ''l'' = Some demo_leaf_file \<Longrightarrow>
     spend_leaves demo_wallet demo_withdraw_flags s = (Ok (Some [4]), s)"
  by (simp add: spend_leaves_def demo_withdraw_flags_def load_leaves_def cbind_def lift_def read_file_def
      parse_leaves_def demo_leaf_file_def unary_json_simps LHex_def demo_wallet_hex)

theorem deposited_note_withdraws_witness:
  "\<exists>t b t'. wallet_deposit demo_wallet demo_deposit_flags demo_empty_state = (Ok (), t) \<and>
     Wrote ''n'' b \<in> set (ws_events t) \<and>
     wallet_withdraw demo_wallet demo_withdraw_flags
       \<lparr>ws_files = [''n'' \<mapsto> b, ''l'' \<mapsto> demo_leaf_file], ws_drawn = 0, ws_events = []\<rparr> = (Ok (), t')"
proof -
  obtain t where t: "wallet_deposit demo_wallet demo_deposit_flags demo_empty_state = (Ok (), t)"
    using demo_deposits by blast
  have draws: "\<forall>n b. wallet_to32 (w_fr_rand demo_wallet n) = Ok b \<longrightarrow> field_elem b"
    using demo_draws by blast
  have h: "hashes_to (poseidon2 (w_poseidon demo_wallet)) (\<lambda>a b. 2)"
    by (simp add: count_hashes_to)
  let ?g = demo_withdraw_flags
  let ?s = "\<lambda>b. \<lparr>ws_files = [''n'' \<mapsto> b, ''l'' \<mapsto> demo_leaf_file], ws_drawn = 0, ws_events = []\<rparr>"
  from deposited_note_withdraws [OF demo_wallet_laws h draws t] obtain amount path b es token_id owner bl cm where
    path: "demo_deposit_flags ''note'' = Some path"
    and ev: "ws_events t = ws_events demo_empty_state @ Wrote path b # es"
    and cm: "deposit_circuit (w_poseidon demo_wallet) token_id (be32 (ucast (amount :: u64))) cm owner bl"
    and w: "?g ''note'' = Some ''n'' \<and> ws_files (?s b) ''n'' = Some b \<and>
       and_then (req ?g ''recipient'') (wallet_pubkey (w_crates demo_wallet)) = Ok 6 \<and>
       spend_leaves demo_wallet ?g (?s b) = (Ok (Some [4]), ?s b) \<and> cm \<in> set [4] \<and>
       list_all field_elem [4] \<and> length [4 :: bytes32] \<le> 2 ^ TREE_DEPTH \<and> offline ?g \<and>
       ?g ''inputs-out'' = Some ''o'' \<and> w_can_write demo_wallet ''o'' \<longrightarrow>
       (\<exists>t'. wallet_withdraw demo_wallet ?g (?s b) = (Ok (), t'))"
    by (elim exE conjE) (rule that,
        (assumption | rule impI, (drule spec)+, drule mp, assumption, elim exE conjE, rule exI, assumption)+)
  have "cm = 4"
    using cm by (simp add: deposit_circuit_def count_poseidon_def)
  moreover have "field_elem 4"
    by (simp add: field_elem_def bn254_fr_def)
  ultimately have "\<exists>t'. wallet_withdraw demo_wallet ?g (?s b) = (Ok (), t')"
    using w demo_leaves [of "?s b"]
    by (simp add: demo_withdraw_flags_def req_def demo_pubkey offline_def has_flag_def)
  moreover have "Wrote ''n'' b \<in> set (ws_events t)"
    using path by (simp add: ev demo_deposit_flags_def)
  ultimately show ?thesis
    using t by blast
qed

section \<open>Transfer and burn\<close>

text \<open>A note file whose commitment is that of the note.\<close>

definition spendable ::
    "'j wallet \<Rightarrow> bytes \<Rightarrow> bytes32 \<Rightarrow> u64 \<Rightarrow> bytes32 \<Rightarrow> bytes32 \<Rightarrow> bytes32 \<Rightarrow> bytes32 \<Rightarrow> bool" where
  "spendable W b mint amount token_id spend_key blinding commitment \<longleftrightarrow>
     to_field_be (w_poseidon W) mint = Some token_id \<and>
     (\<exists>owner. note_file W b
        (note_fields (w_crates W) mint amount spend_key blinding owner commitment) \<and>
      w_poseidon W [spend_key] = Some owner \<and>
      w_poseidon W [token_id, be32 (ucast amount), owner, blinding] = Some commitment)"

lemma spendable_read:
  assumes "spendable W b mint amount token_id sk bl cm" and "ws_files s path = Some b"
  obtains owner j where "w_poseidon W [sk] = Some owner"
    and "w_poseidon W [token_id, be32 (ucast amount), owner, bl] = Some cm"
    and "to_field_be (w_poseidon W) mint = Some token_id" and "read_note W path s = (Ok j, s)"
    and "reads_object (w_json W) j (note_fields (w_crates W) mint amount sk bl owner cm)"
  using assms unfolding spendable_def note_file_def by metis

text \<open>
  C21: A transfer neither creates nor loses value. Where \<open>opaq transfer\<close> succeeds on a note file, what
  it hands to the prover satisfies the transfer circuit for the root of the leaves it read, with the
  note and a dummy as inputs; the amounts of the two outputs add up to the note's amount; the first
  output is what \<open>--amount\<close> and \<open>--to\<close> say, and its opening is written for the recipient where
  \<open>--out-note\<close> is given. The blinding factor of the first output and the key and the blinding factor of
  the change are scalars the command draws for them, the third, the fourth and the fifth; where
  \<open>--change-note\<close> is given, the change is written as a note file from which it can be spent with that
  key. (Without the flag nothing keeps the key.)
\<close>

theorem transfer_conserves_value:
  assumes "codec_laws (w_crates W)" and "serde_law (w_json W) (w_to_string W)" and "view_laws (w_view W)"
    and "hashes_to (poseidon2 (w_poseidon W)) H"
    and "f ''note'' = Some path" and "ws_files s path = Some b"
    and "spendable W b mint amount token_id spend_key blinding commitment"
    and "wallet_transfer W f s = (Ok u, t)"
    and "transfer_leaves W f (s\<lparr>ws_drawn := ws_drawn s + 5\<rparr>) = (Ok ls, s')"
    and "list_all field_elem ls" and "length ls \<le> 2 ^ TREE_DEPTH"
  shows "\<exists>recipient send change nf dummy_nf cm0 cm1 real dummy_key dummy_blinding blinding0 change_key
      change_blinding change_owner.
    and_then (req f ''to'') (wallet_hex32 (w_crates W)) = Ok recipient \<and>
    and_then (req f ''amount'') parse_amount = Ok send \<and> unat send + unat change = unat amount \<and>
    transfer_circuit (w_poseidon W) (merkle_root H ls) [nf, dummy_nf] [cm0, cm1] token_id
      [real, dummy_input dummy_key dummy_blinding] [output_of send recipient blinding0, output_of change change_owner change_blinding] \<and>
    ni_amount real = be32 (ucast amount) \<and> ni_spend_key real = spend_key \<and>
    drawn W s 0 = Ok dummy_key \<and> drawn W s 1 = Ok dummy_blinding \<and> drawn W s 2 = Ok blinding0 \<and>
    drawn W s 3 = Ok change_key \<and> drawn W s 4 = Ok change_blinding \<and>
    w_poseidon W [change_key] = Some change_owner \<and>
    prove_logged W f ''transfer''
      (json_text (transfer_inputs (w_crates W) (merkle_root H ls) [nf, dummy_nf] [cm0, cm1] token_id
        [real, dummy_input dummy_key dummy_blinding]
        [output_of send recipient blinding0, output_of change change_owner change_blinding])) ''{}''
      (ws_events t) \<and>
    (\<forall>p. f ''out-note'' = Some p \<longrightarrow> Wrote p (as_bytes (w_to_string W (LObj
      (recipient_fields (w_crates W) mint send recipient blinding0 cm0)))) \<in> set (ws_events t)) \<and>
    (\<forall>p. f ''change-note'' = Some p \<longrightarrow> (\<exists>b. Wrote p b \<in> set (ws_events t) \<and>
      spendable W b mint change token_id change_key change_blinding cm1))"
proof -
  let ?c = "w_crates W" and ?P = "w_poseidon W"
  obtain owner j where n: "?P [spend_key] = Some owner"
      "?P [token_id, be32 (ucast amount), owner, blinding] = Some commitment"
    and tid: "to_field_be ?P mint = Some token_id" and j: "read_note W path s = (Ok j, s)"
      "reads_object (w_json W) j (note_fields ?c mint amount spend_key blinding owner commitment)"
    using assms(7,6) by (rule spendable_read)
  obtain recipient send tid' nf dsk dbl downer dcm dnf bl0 cm0 csk cbl cowner cm1 ls' i siblings right root s2
    where a: "and_then (req f ''to'') (wallet_hex32 ?c) = Ok recipient"
      "and_then (req f ''amount'') parse_amount = Ok send" "send \<le> amount"
      "to_field_be ?P mint = Some tid'" "?P [commitment, spend_key] = Some nf"
    and d: "?P [dsk] = Some downer" "?P [tid', be32 0, downer, dbl] = Some dcm" "?P [dcm, dsk] = Some dnf"
    and o: "?P [tid', be32 (ucast send), recipient, bl0] = Some cm0" "?P [csk] = Some cowner"
      "?P [tid', be32 (ucast (amount - send)), cowner, cbl] = Some cm1"
    and r: "drawn W s 0 = Ok dsk" "drawn W s 1 = Ok dbl" "drawn W s 2 = Ok bl0" "drawn W s 3 = Ok csk"
      "drawn W s 4 = Ok cbl"
    and l: "transfer_leaves W f (s\<lparr>ws_drawn := ws_drawn s + 5\<rparr>) = (Ok ls', s2)"
      "leaf_position commitment ls'
        ''input note commitment not found in on-chain leaves (wrong pool/passphrase?)'' = Ok i"
      "rebuild_path ?P ls' i = Ok (siblings, right, root)"
    and logged: "prove_logged W f ''transfer''
      (json_text (transfer_inputs ?c root [nf, dnf] [cm0, cm1] tid'
        [real_input amount spend_key blinding siblings right, dummy_input dsk dbl]
        [output_of send recipient bl0, output_of (amount - send) cowner cbl])) ''{}'' (ws_events t)"
    and change: "\<forall>p. f ''change-note'' = Some p \<longrightarrow> (\<exists>b. Wrote p b \<in> set (ws_events t) \<and>
      note_file W b (note_fields ?c mint (amount - send) csk cbl cowner cm1))"
    and out_note: "\<forall>p. f ''out-note'' = Some p \<longrightarrow> Wrote p (as_bytes (w_to_string W (LObj
      (recipient_fields ?c mint send recipient bl0 cm0)))) \<in> set (ws_events t)"
    by (rule wallet_transfer_Ok [OF assms(8,5) j(1) assms(1) j(2) assms(2,3)])
  have eqs: "tid' = token_id" "ls' = ls"
    using a(4) tid l(1) assms(9) by simp_all
  note steps = d o l(2,3) [unfolded eqs]
  have root: "root = merkle_root H ls"
    using opened_path(2) [OF assms(4,10,11) steps(7,8)] .
  have ok: "transfer_circuit ?P (merkle_root H ls) [nf, dnf] [cm0, cm1] token_id
      [real_input amount spend_key blinding siblings right, dummy_input dsk dbl]
      [output_of send recipient bl0, output_of (amount - send) cowner cbl]"
    and sum: "unat send + unat (amount - send) = unat amount"
    using transfer_inputs_ok [of ?P, OF n a(5) assms(4,10,11) steps(7,8) d(1) d(2,3) [unfolded eqs]
        o(1,3) [unfolded eqs] a(3)] by simp_all
  have change': "\<forall>p. f ''change-note'' = Some p \<longrightarrow> (\<exists>b. Wrote p b \<in> set (ws_events t) \<and>
      spendable W b mint (amount - send) token_id csk cbl cm1)"
    using change o(2,3) tid eqs(1) unfolding spendable_def by blast
  show ?thesis
    by (intro exI conjI) (rule a(1,2) sum ok r o(2) logged [unfolded eqs root] out_note change' |
      simp add: real_input_def)+
qed

text \<open>The instruction made of a burn's sidecar states the burn.\<close>

lemma burn_instruction_states:
  assumes "codec_laws c" and "hex_zeros c" and "to_field_be P mint = Some token_id"
    and "reads_object J j (burn_sidecar c mint amount cm nf root dest_chain dest_address)"
    and "proof_from_json J F v = Ok p"
  shows "\<exists>args. emit_opaq_instruction c J F ''burn'' (Some v) public_json (Some j) = Ok (4 # args) \<and>
    carries_proof p args \<and>
    statement_of P 4 args = Some (BURN_VK, [root, nf, token_id, be32 (ucast amount), dest_chain, dest_address])"
proof -
  let ?x = "\<lparr>of_mint = mint, of_amount = amount, of_commitment = cm, of_nullifier = nf,
    of_merkle_root = root, of_recipient = dest_address, of_dest_chain = dest_chain\<rparr>"
  show ?thesis
    using burn_sidecar.emitted_states [OF assms(1,2), of J j ?x F v p public_json P] assms(3-5)
    by (simp add: burn_public_def)
qed

text \<open>
  C22: A burn proves what it submits. Where \<open>opaq burn\<close> succeeds on a note file, the inputs it hands to
  the prover satisfy the burn circuit for the root of the leaves it read, and the instruction that is
  made from its sidecar and any proof states exactly the public inputs of that circuit: the root, the
  nullifier, the token, the amount, the destination chain and the destination address.
\<close>

theorem burn_states_its_proof:
  assumes "codec_laws (w_crates W)" and "hex_zeros (w_crates W)"
    and "hashes_to (poseidon2 (w_poseidon W)) H"
    and "f ''note'' = Some path" and "ws_files s path = Some b"
    and "spendable W b mint amount token_id spend_key blinding commitment"
    and "wallet_burn W f s = (Ok u, t)" and "spend_leaves W f s = (Ok (Some ls), s')"
    and "list_all field_elem ls" and "length ls \<le> 2 ^ TREE_DEPTH"
  shows "\<exists>dest_chain dest_address nf siblings right.
    and_then (req f ''dest-chain'') (\<lambda>s.
       ok_or (parse_u64 s) ''dest-chain must be a u64 EVM chain id'') = Ok dest_chain \<and>
    and_then (req f ''dest-address'') (wallet_evm_address (w_crates W)) = Ok dest_address \<and>
    spend_logged W f ''burn''
      (json_text (burn_inputs (w_crates W) (merkle_root H ls) nf token_id (be32 (ucast amount))
        (be32 (ucast dest_chain)) dest_address spend_key blinding siblings right))
      (json_text (LObj (burn_sidecar (w_crates W) mint amount commitment nf (merkle_root H ls)
        (be32 (ucast dest_chain)) dest_address))) (ws_events t) \<and>
    burn_circuit (w_poseidon W) (merkle_root H ls) nf token_id (be32 (ucast amount))
      (be32 (ucast dest_chain)) dest_address spend_key blinding siblings right \<and>
    (\<forall>(J :: 'k json) j (F :: 'f field_ops) v p public_json.
       reads_object J j (burn_sidecar (w_crates W) mint amount commitment nf (merkle_root H ls)
         (be32 (ucast dest_chain)) dest_address) \<longrightarrow> proof_from_json J F v = Ok p \<longrightarrow>
       (\<exists>args. emit_opaq_instruction (w_crates W) J F ''burn'' (Some v) public_json (Some j) =
            Ok (4 # args) \<and> carries_proof p args \<and>
          statement_of (w_poseidon W) 4 args = Some (BURN_VK, [merkle_root H ls, nf, token_id,
            be32 (ucast amount), be32 (ucast dest_chain), dest_address])))"
proof -
  let ?c = "w_crates W" and ?P = "w_poseidon W"
  obtain owner j where n: "?P [spend_key] = Some owner"
      "?P [token_id, be32 (ucast amount), owner, blinding] = Some commitment"
    and tid: "to_field_be ?P mint = Some token_id" and j: "read_note W path s = (Ok j, s)"
      "reads_object (w_json W) j (note_fields ?c mint amount spend_key blinding owner commitment)"
    using assms(6,5) by (rule spendable_read)
  obtain dest_chain dest_address nf i siblings right root tid' where
    a: "and_then (req f ''dest-chain'') (\<lambda>s.
       ok_or (parse_u64 s) ''dest-chain must be a u64 EVM chain id'') = Ok dest_chain"
      "and_then (req f ''dest-address'') (wallet_evm_address ?c) = Ok dest_address"
    and nf: "?P [commitment, spend_key] = Some nf"
    and l: "leaf_position commitment ls
        ''note commitment not found in on-chain leaves (wrong pool/passphrase?)'' = Ok i"
      "rebuild_path ?P ls i = Ok (siblings, right, root)"
    and tid': "to_field_be ?P mint = Some tid'"
    and logged: "spend_logged W f ''burn''
      (json_text (burn_inputs ?c root nf tid' (be32 (ucast amount)) (be32 (ucast dest_chain)) dest_address
        spend_key blinding siblings right))
      (json_text (LObj (burn_sidecar ?c mint amount commitment nf root (be32 (ucast dest_chain))
        dest_address))) (ws_events t)"
    by (rule wallet_burn_Ok [OF assms(7,4) j(1) assms(1) j(2) assms(8)])
  note path_ok = opened_path [OF assms(3,9,10) l]
  have eqs: "tid' = token_id" "root = merkle_root H ls"
    using tid tid' path_ok(2) by simp_all
  have circuit: "burn_circuit ?P (merkle_root H ls) nf token_id (be32 (ucast amount))
      (be32 (ucast dest_chain)) dest_address spend_key blinding siblings right"
    unfolding burn_circuit_def using n nf path_ok eqs(2)
    by (intro input_ok_opens) (auto simp: opens_def)
  show ?thesis
    by (intro exI conjI)
      (rule a logged [unfolded eqs] circuit allI impI burn_instruction_states [OF assms(1,2) tid], assumption?)+
qed

text \<open>One note file for both witnesses, with the commitment in a leaf file.\<close>

lemma demo_spendable: "\<exists>b. spendable demo_wallet b 5 1000 2 9 8 4"
proof -
  obtain t where w: "write_note demo_wallet ''n'' (note_fields demo_crates 5 1000 9 8 1 4) demo_empty_state =
      (Ok (), t)"
    using demo_note_written by blast
  obtain b where "note_file demo_wallet b (note_fields demo_crates 5 1000 9 8 1 4)"
    by (rule write_note_Ok [OF demo_wallet_laws distinct_note_fields w [folded demo_wallet_simps(1)]])
      simp
  then show ?thesis
    by (auto simp: spendable_def to_field_be_def poseidon_be_def count_poseidon_def)
qed

text \<open>With a total hash, canonical draws and writable notes a transfer and a burn offline succeed.\<close>

lemma to_field_some: "P = (\<lambda>xs. Some (h xs)) \<Longrightarrow> \<exists>t. to_field_be P x = Some t"
  by (simp add: to_field_be_def poseidon_be_def)

lemma wallet_transfer_offline:
  assumes "w_poseidon W = (\<lambda>xs. Some (h xs))" and "\<forall>n. wallet_to32 (w_fr_rand W n) = Ok r"
    and "\<forall>p note s. \<exists>t. write_note W p note s = (Ok (), t)" and "codec_laws (w_crates W)"
    and "f ''note'' = Some path" and "read_note W path s = (Ok j, s)"
    and "reads_object (w_json W) j (note_fields (w_crates W) mint amount sk bl owner cm)"
    and "and_then (req f ''to'') (wallet_hex32 (w_crates W)) = Ok recipient"
    and "and_then (req f ''amount'') parse_amount = Ok send" and "send \<le> amount"
    and "\<forall>s. ws_files s = fs \<longrightarrow> transfer_leaves W f s = (Ok ls, s)" and "ws_files s = fs"
    and "\<forall>msg. leaf_position cm ls msg = Ok i"
    and "rebuild_path (w_poseidon W) ls i = Ok (siblings, right, root)" and "offline f"
    and "f ''change-note'' = Some q" and "f ''out-note'' = None"
  shows "\<exists>t. wallet_transfer W f s = (Ok (), t)"
proof -
  note readers = note_readers [OF assms(4,7)]
  obtain tid where tid: "to_field_be (\<lambda>xs. Some (h xs)) mint = Some tid"
    using to_field_some by blast
  let ?note = "note_fields (w_crates W) mint (amount - send) r r (h [r])
    (h [tid, be32 (ucast (amount - send)), h [r], r])"
  obtain t where w: "write_note W q ?note
      (s\<lparr>ws_drawn := Suc (Suc (Suc (Suc (Suc (ws_drawn s)))))\<rparr>) = (Ok (), t)"
    using assms(3) by blast
  have l: "transfer_leaves W f (s\<lparr>ws_drawn := Suc (Suc (Suc (Suc (Suc (ws_drawn s)))))\<rparr>) =
      (Ok ls, s\<lparr>ws_drawn := Suc (Suc (Suc (Suc (Suc (ws_drawn s)))))\<rparr>)"
    using assms(11,12) by simp
  show ?thesis
    using assms(1,2,5,6,8-10,13-17) readers tid w l
    by (simp add: wallet_transfer_def Let_def cbind_def lift_def req_def random_scalar_def poseidon_be_def
        skip_cmd_def warn_amount_def event_def)
qed

lemma wallet_burn_offline:
  assumes "w_poseidon W = (\<lambda>xs. Some (h xs))" and "codec_laws (w_crates W)"
    and "f ''note'' = Some path" and "read_note W path s = (Ok j, s)"
    and "reads_object (w_json W) j (note_fields (w_crates W) mint amount sk bl owner cm)"
    and "and_then (req f ''dest-chain'') (\<lambda>s.
       ok_or (parse_u64 s) ''dest-chain must be a u64 EVM chain id'') = Ok dest_chain"
    and "and_then (req f ''dest-address'') (wallet_evm_address (w_crates W)) = Ok dest_address"
    and "spend_leaves W f s = (Ok (Some ls), s)" and "\<forall>msg. leaf_position cm ls msg = Ok i"
    and "rebuild_path (w_poseidon W) ls i = Ok (siblings, right, root)" and "offline f"
    and "f ''inputs-out'' = Some out" and "w_can_write W out"
  shows "\<exists>t. wallet_burn W f s = (Ok (), t)"
proof -
  note readers = note_readers [OF assms(2,5)]
  obtain tid where tid: "to_field_be (\<lambda>xs. Some (h xs)) mint = Some tid"
    using to_field_some by blast
  have "\<exists>t. burn_from_leaves W f j (be32 (ucast dest_chain)) dest_address cm sk amount mint (h [cm, sk]) ls s =
      (Ok (), t)"
    using readers tid assms(1,9-13)
    by (simp add: burn_from_leaves_def Let_def cbind_def lift_def write_inputs_def write_file_def
        skip_cmd_def)
  then show ?thesis
    using assms(1,3,4,6-8) readers
    by (force simp: wallet_burn_def Let_def cbind_def lift_def req_def poseidon_be_def warn_amount_def
        event_def)
qed

definition demo_transfer_flags :: flag_map where
  "demo_transfer_flags = [''note'' \<mapsto> ''n'', ''to'' \<mapsto> demo_hex (b32_bytes 6), ''amount'' \<mapsto> ''300'',
     ''leaves'' \<mapsto> ''l'', ''change-note'' \<mapsto> ''c'']"

definition demo_burn_flags :: flag_map where
  "demo_burn_flags = [''note'' \<mapsto> ''n'', ''dest-chain'' \<mapsto> ''1'', ''dest-address'' \<mapsto> demo_hex (replicate 20 7),
     ''leaves'' \<mapsto> ''l'', ''inputs-out'' \<mapsto> ''o'']"

lemma demo_leaf_list:
  "ws_files s ''l'' = Some demo_leaf_file \<Longrightarrow> f ''leaves'' = Some ''l'' \<Longrightarrow> f ''rpc'' = None \<Longrightarrow>
     spend_leaves demo_wallet f s = (Ok (Some [4]), s) \<and> transfer_leaves demo_wallet f s = (Ok [4], s)"
  by (simp add: spend_leaves_def transfer_leaves_def load_leaves_def cbind_def lift_def read_file_def
      parse_leaves_def demo_leaf_file_def unary_json_simps LHex_def demo_wallet_hex)

lemma field_elem_4: "field_elem 4"
  by (simp add: field_elem_def bn254_fr_def)

lemma demo_path:
  obtains i siblings right where "\<forall>msg. leaf_position 4 [4] msg = Ok i"
    and "rebuild_path count_poseidon [4] i = Ok (siblings, right, merkle_root (\<lambda>a b. 2) [4])"
  by (rule path_exists [OF count_hashes_to, of "[4]" 4]) (auto simp: field_elem_4)

text \<open>The note file and the leaf file, and what both commands find there.\<close>

definition demo_state :: "bytes \<Rightarrow> wallet_state" where
  "demo_state b = \<lparr>ws_files = [''n'' \<mapsto> b, ''l'' \<mapsto> demo_leaf_file], ws_drawn = 0, ws_events = []\<rparr>"

lemma demo_state_files:
  "ws_files (demo_state b) ''n'' = Some b" "ws_files (demo_state b) ''l'' = Some demo_leaf_file"
  by (simp_all add: demo_state_def)

lemma demo_scene:
  obtains b owner j i siblings right where "spendable demo_wallet b 5 1000 2 9 8 4"
    and "read_note demo_wallet ''n'' (demo_state b) = (Ok j, demo_state b)"
    and "reads_object (w_json demo_wallet) j (note_fields (w_crates demo_wallet) 5 1000 9 8 owner 4)"
    and "\<forall>msg. leaf_position 4 [4] msg = Ok i"
    and "rebuild_path (w_poseidon demo_wallet) [4] i = Ok (siblings, right, merkle_root (\<lambda>a b. 2) [4])"
proof -
  obtain b where b: "spendable demo_wallet b 5 1000 2 9 8 4"
    using demo_spendable by blast
  then obtain owner where "note_file demo_wallet b (note_fields (w_crates demo_wallet) 5 1000 9 8 owner 4)"
    by (auto simp: spendable_def)
  then obtain j where "read_note demo_wallet ''n'' (demo_state b) = (Ok j, demo_state b)"
      "reads_object (w_json demo_wallet) j (note_fields (w_crates demo_wallet) 5 1000 9 8 owner 4)"
    unfolding note_file_def using demo_state_files(1) [of b] by blast
  moreover obtain i siblings right where "\<forall>msg. leaf_position 4 [4] msg = Ok i"
      "rebuild_path (w_poseidon demo_wallet) [4] i = Ok (siblings, right, merkle_root (\<lambda>a b. 2) [4])"
    using demo_path by auto
  ultimately show thesis
    using b that by blast
qed

lemma demo_poseidon_total: "w_poseidon demo_wallet = (\<lambda>xs. Some (word_of_nat (length xs)))"
  by (simp add: count_poseidon_def fun_eq_iff)

lemma demo_wallet_hashes: "hashes_to (poseidon2 (w_poseidon demo_wallet)) (\<lambda>a b. 2)"
  by (simp add: count_hashes_to)

lemma demo_leaf_ok: "list_all field_elem [4]" "length [4 :: bytes32] \<le> 2 ^ TREE_DEPTH"
  by (simp_all add: field_elem_4)

theorem transfer_conserves_value_witness:
  "\<exists>b t send change b'. wallet_transfer demo_wallet demo_transfer_flags (demo_state b) = (Ok (), t) \<and>
     send = (300 :: u64) \<and> unat send + unat (change :: u64) = 1000 \<and> Wrote ''c'' b' \<in> set (ws_events t)"
proof -
  obtain b owner j i siblings right where b: "spendable demo_wallet b 5 1000 2 9 8 4"
    and j: "read_note demo_wallet ''n'' (demo_state b) = (Ok j, demo_state b)"
      "reads_object (w_json demo_wallet) j (note_fields (w_crates demo_wallet) 5 1000 9 8 owner 4)"
    and p: "\<forall>msg. leaf_position 4 [4] msg = Ok i"
      "rebuild_path (w_poseidon demo_wallet) [4] i = Ok (siblings, right, merkle_root (\<lambda>a b. 2) [4])"
    by (rule demo_scene)
  have f: "demo_transfer_flags ''note'' = Some ''n''" "demo_transfer_flags ''change-note'' = Some ''c''"
      "demo_transfer_flags ''out-note'' = None" "offline demo_transfer_flags"
      "demo_transfer_flags ''leaves'' = Some ''l''" "demo_transfer_flags ''rpc'' = None"
      "and_then (req demo_transfer_flags ''to'') (wallet_hex32 (w_crates demo_wallet)) = Ok 6"
    by (simp_all add: demo_transfer_flags_def offline_def has_flag_def req_def demo_wallet_hex)
  have send: "and_then (req demo_transfer_flags ''amount'') parse_amount = Ok 300"
    by (simp add: demo_transfer_flags_def req_def parse_amount_def parse_u64_def parse_decimal_def)
  have leaves: "\<forall>s'. ws_files s' = ws_files (demo_state b) \<longrightarrow> transfer_leaves demo_wallet demo_transfer_flags s' = (Ok [4], s')"
    using demo_leaf_list [OF _ f(5,6)] demo_state_files(2) by auto
  have r: "\<forall>n. wallet_to32 (w_fr_rand demo_wallet n) = Ok 9"
    by (simp add: demo_scalar)
  have wn: "\<forall>p note s. \<exists>t. write_note demo_wallet p note s = (Ok (), t)"
    using demo_note_written by blast
  have le: "(300 :: u64) \<le> 1000" by simp
  obtain t where t: "wallet_transfer demo_wallet demo_transfer_flags (demo_state b) = (Ok (), t)"
    using wallet_transfer_offline [OF demo_poseidon_total r wn demo_wallet_laws(1) f(1) j f(7) send le leaves refl p f(4,2,3)]
    by blast
  have five: "transfer_leaves demo_wallet demo_transfer_flags ((demo_state b)\<lparr>ws_drawn := ws_drawn (demo_state b) + 5\<rparr>) =
      (Ok [4], (demo_state b)\<lparr>ws_drawn := ws_drawn (demo_state b) + 5\<rparr>)"
    using leaves by simp
  obtain send' change b' where "and_then (req demo_transfer_flags ''amount'') parse_amount = Ok send'"
      "unat send' + unat (change :: u64) = unat (1000 :: u64)" "Wrote ''c'' b' \<in> set (ws_events t)"
    using transfer_conserves_value [OF demo_wallet_laws demo_wallet_hashes f(1) demo_state_files(1) b t five
        demo_leaf_ok] f(2) by blast
  then show ?thesis
    using t send by fastforce
qed

lemma demo_evm_address:
  "length a = 20 \<Longrightarrow> wallet_evm_address demo_crates (demo_hex a) = Ok (bytes_b32 (patch (replicate 32 0) 12 a))"
  using trim_0x_id [OF hex_no_x [of a]] by (simp add: wallet_evm_address_def unhex_hex)

lemma demo_hex_zeros: "hex_zeros demo_crates"
  by (simp add: hex_zeros_def) code_simp

lemma demo_proof_parses: "\<exists>p. proof_from_json unary_json demo_field demo_proof = Ok p"
  by (simp add: proof_from_json_def g1_def g2_def coordinate_def coordinate_bytes_def nth_value_def
      nth_array_def fq_def fq_bytes_def to32_def demo_proof_def demo_field_def unary_json_simps Let_def)

theorem burn_states_its_proof_witness:
  "\<exists>b t nf chain dest args. wallet_burn demo_wallet demo_burn_flags (demo_state b) = (Ok (), t) \<and>
     emit_opaq_instruction demo_crates unary_json demo_field ''burn'' (Some demo_proof) None
       (Some (demo_value (LObj (burn_sidecar demo_crates 5 1000 4 nf (merkle_root (\<lambda>a b. 2) [4]) chain dest)))) =
       Ok (4 # args) \<and>
     statement_of count_poseidon 4 args = Some (BURN_VK, [merkle_root (\<lambda>a b. 2) [4], nf, 2,
       be32 (ucast (1000 :: u64)), chain, dest])"
proof -
  obtain b owner j i siblings right where b: "spendable demo_wallet b 5 1000 2 9 8 4"
    and j: "read_note demo_wallet ''n'' (demo_state b) = (Ok j, demo_state b)"
      "reads_object (w_json demo_wallet) j (note_fields (w_crates demo_wallet) 5 1000 9 8 owner 4)"
    and p: "\<forall>msg. leaf_position 4 [4] msg = Ok i"
      "rebuild_path (w_poseidon demo_wallet) [4] i = Ok (siblings, right, merkle_root (\<lambda>a b. 2) [4])"
    by (rule demo_scene)
  have f: "demo_burn_flags ''note'' = Some ''n''" "demo_burn_flags ''inputs-out'' = Some ''o''"
      "offline demo_burn_flags" "demo_burn_flags ''leaves'' = Some ''l''" "demo_burn_flags ''rpc'' = None"
    by (simp_all add: demo_burn_flags_def offline_def has_flag_def)
  have dest: "and_then (req demo_burn_flags ''dest-chain'') (\<lambda>s.
       ok_or (parse_u64 s) ''dest-chain must be a u64 EVM chain id'') = Ok 1"
    "and_then (req demo_burn_flags ''dest-address'') (wallet_evm_address (w_crates demo_wallet)) =
       Ok (bytes_b32 (patch (replicate 32 0) 12 (replicate 20 7)))"
    by (simp_all add: demo_burn_flags_def req_def parse_u64_def parse_decimal_def demo_evm_address)
  have leaves: "spend_leaves demo_wallet demo_burn_flags (demo_state b) = (Ok (Some [4]), demo_state b)"
    using demo_leaf_list [OF demo_state_files(2) f(4,5)] by simp
  obtain t where t: "wallet_burn demo_wallet demo_burn_flags (demo_state b) = (Ok (), t)"
    using wallet_burn_offline [OF demo_poseidon_total demo_wallet_laws(1) f(1) j dest leaves p f(3,2)] by auto
  have z: "hex_zeros (w_crates demo_wallet)"
    by (simp add: demo_hex_zeros)
  let ?r = "merkle_root (\<lambda>a b. 2) [4]"
  obtain nf chain dest where st: "\<forall>(J :: demo_json json) j (F :: nat field_ops) v p public_json.
       reads_object J j (burn_sidecar (w_crates demo_wallet) 5 1000 4 nf ?r chain dest) \<longrightarrow>
       proof_from_json J F v = Ok p \<longrightarrow>
       (\<exists>args. emit_opaq_instruction (w_crates demo_wallet) J F ''burn'' (Some v) public_json (Some j) =
            Ok (4 # args) \<and> carries_proof p args \<and>
          statement_of (w_poseidon demo_wallet) 4 args = Some (BURN_VK, [?r, nf, 2, be32 (ucast (1000 :: u64)),
            chain, dest]))"
    using burn_states_its_proof [where 'k = demo_json and 'f = nat, OF demo_wallet_laws(1) z
        demo_wallet_hashes f(1) demo_state_files(1) b t leaves demo_leaf_ok] by blast
  have "distinct (map fst (burn_sidecar demo_crates 5 1000 4 nf ?r chain dest))"
    by (simp add: burn_sidecar_def)
  then have "reads_object unary_json (demo_value (LObj (burn_sidecar demo_crates 5 1000 4 nf ?r chain dest)))
      (burn_sidecar demo_crates 5 1000 4 nf ?r chain dest)"
    using unary_serde unary_json_simps(1) unfolding serde_law_def by (metis option.inject)
  moreover obtain p where "proof_from_json unary_json demo_field demo_proof = Ok p"
    using demo_proof_parses by blast
  ultimately obtain args where
    "emit_opaq_instruction demo_crates unary_json demo_field ''burn'' (Some demo_proof) None
       (Some (demo_value (LObj (burn_sidecar demo_crates 5 1000 4 nf ?r chain dest)))) = Ok (4 # args)"
    "statement_of count_poseidon 4 args = Some (BURN_VK, [?r, nf, 2, be32 (ucast (1000 :: u64)), chain, dest])"
    using st unfolding demo_wallet_simps by blast
  then show ?thesis
    using t by blast
qed

end
