(* ===== verification/Witness_Gen.thy ===== *)
theory Witness_Gen
  imports Wallet_Notes
begin

text \<open>
  The fixture generator \<open>crates/common/src/bin/gen_witness.rs\<close>: one note, its Merkle path as the first
  leaf of an empty tree, and from these the inputs of the five circuits, as TOML and as JSON, with the
  sidecars of the end-to-end tests. Its files and environment variables are those of the record
  \<open>wallet\<close>; a write that fails is unwrapped, so it panics. The lines it prints are left out.
\<close>

section \<open>Writing\<close>

definition write_or_panic :: "'j wallet \<Rightarrow> string \<Rightarrow> string \<Rightarrow> unit command" where
  "write_or_panic W p text =
     (\<lambda>s. case write_file W '''' p (as_bytes text) s of (Inl _, t) \<Rightarrow> (Panic, t) | r \<Rightarrow> r)"

lemma write_or_panic_Ok_iff [command_simps]:
  "write_or_panic W p text s = (Inr u, t) \<longleftrightarrow> w_can_write W p \<and>
     t = s\<lparr>ws_files := (ws_files s)(p \<mapsto> as_bytes text),
           ws_events := ws_events s @ [Wrote p (as_bytes text)]\<rparr>"
  by (auto simp: write_or_panic_def write_file_def)

definition path_join :: "string \<Rightarrow> string \<Rightarrow> string" where
  "path_join a b = a @ ''/'' @ b"

text \<open>TOML values are written like JSON, with a space after the comma.\<close>

fun toml_text :: "json_lit \<Rightarrow> string" where
  "toml_text (LArr xs) = ''['' @ join_with '', '' (map toml_text xs) @ '']''"
| "toml_text v = json_text v"

definition toml_of :: "(string \<times> json_lit) list \<Rightarrow> string" where
  "toml_of fs = concat (map (\<lambda>(k, v). k @ '' = '' @ toml_text v @ [CHR 0x0A]) fs)"

fun fields_of :: "json_lit \<Rightarrow> (string \<times> json_lit) list" where
  "fields_of (LObj fs) = fs"
| "fields_of _ = []"

definition write_prover :: "'j wallet \<Rightarrow> string \<Rightarrow> string \<Rightarrow> string \<Rightarrow> unit command" where
  "write_prover W dir circuit contents =
     write_or_panic W (path_join (path_join dir circuit) ''Prover.toml'') contents"

definition write_json :: "'j wallet \<Rightarrow> string \<Rightarrow> string \<Rightarrow> json_lit \<Rightarrow> unit command" where
  "write_json W dir circuit inputs =
     write_or_panic W (path_join (path_join dir circuit) ''inputs.json'') (json_text inputs)"

definition write_values :: "'j wallet \<Rightarrow> string \<Rightarrow> string \<Rightarrow> (string \<times> json_lit) list \<Rightarrow> unit command" where
  "write_values W dir name fs =
     write_or_panic W (path_join dir name) (json_text (LObj fs) @ [CHR 0x0A])"

section \<open>The note\<close>

record fixture =
  fx_mint :: bytes32
  fx_recipient :: bytes32
  fx_amount :: u64
  fx_spend_key :: bytes32
  fx_blinding :: bytes32
  fx_token_id :: bytes32
  fx_recipient_field :: bytes32
  fx_owner :: bytes32
  fx_commitment :: bytes32
  fx_nullifier :: bytes32

definition hex32_env :: "'j wallet \<Rightarrow> string \<Rightarrow> bytes32 option" where
  "hex32_env W var =
     (case w_env W var of None \<Rightarrow> None
      | Some s \<Rightarrow> (case hex_decode (w_crates W) (trim_0x s) of None \<Rightarrow> None | Some b \<Rightarrow> try_into32 b))"

definition dummy_pubkey :: "u8 \<Rightarrow> bytes32" where
  "dummy_pubkey seed = bytes_b32 (map (\<lambda>i. seed + word_of_nat i) [0..<32])"

definition parsed_env :: "'j wallet \<Rightarrow> string \<Rightarrow> (string \<Rightarrow> 'a option) \<Rightarrow> 'a option" where
  "parsed_env W var parse = (case w_env W var of None \<Rightarrow> None | Some s \<Rightarrow> parse s)"

definition gen_note :: "'j wallet \<Rightarrow> fixture tool" where
  "gen_note W =
     (let P = w_poseidon W;
          spend_key = be32 987654321;
          blinding = be32 (unwrap_or (parsed_env W ''OPAQ_BLINDING'' parse_u128) 123456789);
          amount_u64 = unwrap_or (parsed_env W ''OPAQ_AMOUNT'' parse_u64) 100;
          amount = be32 (ucast amount_u64);
          mint_bytes = unwrap_or (hex32_env W ''OPAQ_MINT_HEX'') (dummy_pubkey 0xAB);
          recipient_bytes = unwrap_or (hex32_env W ''OPAQ_RECIPIENT_HEX'') (dummy_pubkey 0xCD)
      in
      and_then (expect (to_field_be P mint_bytes)) (\<lambda>token_id.
      and_then (expect (to_field_be P recipient_bytes)) (\<lambda>recipient.
      and_then (expect (poseidon_be P [spend_key])) (\<lambda>owner_pubkey.
      and_then (expect (poseidon_be P [token_id, amount, owner_pubkey, blinding])) (\<lambda>commitment.
      and_then (expect (poseidon_be P [commitment, spend_key])) (\<lambda>nullifier.
        Ok \<lparr>fx_mint = mint_bytes, fx_recipient = recipient_bytes, fx_amount = amount_u64,
            fx_spend_key = spend_key, fx_blinding = blinding, fx_token_id = token_id,
            fx_recipient_field = recipient, fx_owner = owner_pubkey, fx_commitment = commitment,
            fx_nullifier = nullifier\<rparr>))))))"

definition fx_value :: "fixture \<Rightarrow> bytes32" where
  "fx_value n = be32 (ucast (fx_amount n))"

text \<open>The all-left path of leaf 0 beside empty subtrees, and the root it leads to.\<close>

definition gen_path :: "'j wallet \<Rightarrow> fixture \<Rightarrow> (bytes32 list \<times> bool list \<times> bytes32) tool" where
  "gen_path W n =
     (let P = w_poseidon W; right = replicate TREE_DEPTH False in
      and_then (expect (zero_hashes (poseidon_hash2_be P))) (\<lambda>siblings.
      and_then (expect (merkle_root_be P (fx_commitment n) siblings right)) (\<lambda>root.
        Ok (siblings, right, root))))"

section \<open>The circuits' inputs\<close>

definition gen_deposit :: "'j wallet \<Rightarrow> string \<Rightarrow> fixture \<Rightarrow> unit command" where
  "gen_deposit W dir n =
     (let inputs = deposit_inputs (w_crates W) (fx_token_id n) (fx_value n) (fx_commitment n) (fx_owner n)
            (fx_blinding n)
      in
      cbind (write_prover W dir ''deposit'' (toml_of (fields_of inputs))) (\<lambda>_.
        write_json W dir ''deposit'' inputs))"

definition gen_withdraw ::
    "'j wallet \<Rightarrow> string \<Rightarrow> fixture \<Rightarrow> bytes32 list \<Rightarrow> bool list \<Rightarrow> bytes32 \<Rightarrow> unit command" where
  "gen_withdraw W dir n siblings right root =
     (let inputs = withdraw_inputs (w_crates W) root (fx_nullifier n) (fx_token_id n) (fx_value n)
            (fx_recipient_field n) (fx_spend_key n) (fx_blinding n) siblings right
      in
      cbind (write_prover W dir ''withdraw'' (toml_of (fields_of inputs))) (\<lambda>_.
        write_json W dir ''withdraw'' inputs))"

definition burn_dest_chain :: bytes32 where
  "burn_dest_chain = be32 1"

definition burn_dest_address :: bytes32 where
  "burn_dest_address = bytes_b32 (patch (replicate 32 0) 12 (replicate 20 0x11))"

definition gen_burn ::
    "'j wallet \<Rightarrow> string \<Rightarrow> fixture \<Rightarrow> bytes32 list \<Rightarrow> bool list \<Rightarrow> bytes32 \<Rightarrow> unit command" where
  "gen_burn W dir n siblings right root =
     (let inputs = burn_inputs (w_crates W) root (fx_nullifier n) (fx_token_id n) (fx_value n)
            burn_dest_chain burn_dest_address (fx_spend_key n) (fx_blinding n) siblings right
      in
      cbind (write_prover W dir ''burn'' (toml_of (fields_of inputs))) (\<lambda>_.
      cbind (write_json W dir ''burn'' inputs) (\<lambda>_.
        write_values W dir ''burn_values.json'' (burn_sidecar (w_crates W) (fx_mint n) (fx_amount n)
          (fx_commitment n) (fx_nullifier n) root burn_dest_chain burn_dest_address))))"

text \<open>The TOML file has the destination note after the path, the JSON files before it or after it.\<close>

definition xburn_public_fields ::
    "crates \<Rightarrow> bytes32 \<Rightarrow> bytes32 \<Rightarrow> bytes32 \<Rightarrow> bytes32 \<Rightarrow> bytes32 \<Rightarrow> bytes32 \<Rightarrow> bytes32 \<Rightarrow> bytes32
      \<Rightarrow> (string \<times> json_lit) list" where
  "xburn_public_fields c root nullifier dest_chain out_commitment token_id amount spend_key blinding =
     [(''src_merkle_root'', LField c root), (''src_nullifier'', LField c nullifier),
      (''dest_chain'', LField c dest_chain), (''out_commitment'', LField c out_commitment),
      (''token_id'', LField c token_id), (''amount'', LField c amount),
      (''src_spend_key'', LField c spend_key), (''src_blinding'', LField c blinding)]"

definition xburn_path_fields :: "crates \<Rightarrow> bytes32 list \<Rightarrow> bool list \<Rightarrow> (string \<times> json_lit) list" where
  "xburn_path_fields c siblings right =
     [(''src_merkle_path'', LArr (map (LField c) siblings)),
      (''src_merkle_path_indices'', LArr (map LBool right))]"

definition xburn_dest_fields :: "crates \<Rightarrow> bytes32 \<Rightarrow> bytes32 \<Rightarrow> (string \<times> json_lit) list" where
  "xburn_dest_fields c owner blinding =
     [(''dest_owner_pubkey'', LField c owner), (''dest_blinding'', LField c blinding)]"

definition xburn_sidecar ::
    "crates \<Rightarrow> bytes32 \<Rightarrow> bytes32 \<Rightarrow> bytes32 \<Rightarrow> bytes32 \<Rightarrow> bytes32 \<Rightarrow> (string \<times> json_lit) list" where
  "xburn_sidecar c commitment nullifier root dest_chain out_commitment =
     [(''src_commitment'', LHex c commitment), (''src_nullifier'', LHex c nullifier),
      (''src_merkle_root'', LHex c root), (''dest_chain'', LHex c dest_chain),
      (''out_commitment'', LHex c out_commitment)]"

definition dest_blinding1 :: bytes32 where
  "dest_blinding1 = be32 272727272"

definition xburn_dest_chain :: "'j wallet \<Rightarrow> bytes32" where
  "xburn_dest_chain W =
     (case parsed_env W ''OPAQ_XBURN_DEST_CHAIN'' parse_u128 of Some k \<Rightarrow> be32 k
      | None \<Rightarrow> burn_dest_chain)"

text \<open>The result is the commitment of the destination note.\<close>

definition gen_xburn ::
    "'j wallet \<Rightarrow> string \<Rightarrow> fixture \<Rightarrow> bytes32 list \<Rightarrow> bool list \<Rightarrow> bytes32 \<Rightarrow> bytes32 command" where
  "gen_xburn W dir n siblings right root =
     (let c = w_crates W; P = w_poseidon W; dest_chain = xburn_dest_chain W in
      cbind (lift (expect (poseidon_be P [be32 848484848]))) (\<lambda>dest_owner_pubkey.
      cbind (lift (expect (poseidon_be P [fx_token_id n, fx_value n, dest_owner_pubkey, dest_blinding1])))
        (\<lambda>out_commitment.
      let public = xburn_public_fields c root (fx_nullifier n) dest_chain out_commitment (fx_token_id n)
            (fx_value n) (fx_spend_key n) (fx_blinding n);
          path = xburn_path_fields c siblings right;
          dest = xburn_dest_fields c dest_owner_pubkey dest_blinding1
      in
      cbind (write_prover W dir ''xburn'' (toml_of (public @ path @ dest))) (\<lambda>_.
      cbind (write_json W dir ''xburn'' (LObj (public @ dest @ path))) (\<lambda>_.
      cbind (write_values W dir ''xburn_values.json''
        ([(''mint_hex'', LHex c (fx_mint n)), (''amount'', LNum (unat (fx_amount n)))] @
         xburn_sidecar c (fx_commitment n) (fx_nullifier n) root dest_chain out_commitment)) (\<lambda>_.
        lift (Ok out_commitment)))))))"

text \<open>The way back: the note the first leg minted is the source.\<close>

definition gen_xburn2 ::
    "'j wallet \<Rightarrow> string \<Rightarrow> fixture \<Rightarrow> bytes32 list \<Rightarrow> bool list \<Rightarrow> bytes32 \<Rightarrow> unit command" where
  "gen_xburn2 W dir n siblings right src_commitment =
     (let c = w_crates W; P = w_poseidon W; src_spend_key = be32 848484848; dest_chain = be32 101;
          dest_blinding = be32 373737373
      in
      cbind (lift (expect (poseidon_be P [src_spend_key]))) (\<lambda>src_owner.
      cbind (lift (expect (merkle_root_be P src_commitment siblings right))) (\<lambda>src_root.
      cbind (lift (expect (poseidon_be P [src_commitment, src_spend_key]))) (\<lambda>src_nullifier.
      cbind (lift (expect (poseidon_be P [be32 909090909]))) (\<lambda>dest_owner_pubkey.
      cbind (lift (expect (poseidon_be P [fx_token_id n, fx_value n, dest_owner_pubkey, dest_blinding])))
        (\<lambda>out_commitment.
      cbind (write_or_panic W (path_join dir ''xburn2_inputs.json'') (json_text (LObj
        (xburn_public_fields c src_root src_nullifier dest_chain out_commitment (fx_token_id n) (fx_value n)
           src_spend_key dest_blinding1 @
         xburn_path_fields c siblings right @ xburn_dest_fields c dest_owner_pubkey dest_blinding)))) (\<lambda>_.
        write_values W dir ''xburn2_values.json''
          (xburn_sidecar c src_commitment src_nullifier src_root dest_chain out_commitment))))))))"

definition gen_transfer ::
    "'j wallet \<Rightarrow> string \<Rightarrow> fixture \<Rightarrow> bytes32 list \<Rightarrow> bool list \<Rightarrow> bytes32 \<Rightarrow> unit command" where
  "gen_transfer W dir n siblings right root =
     (let c = w_crates W; P = w_poseidon W;
          a = fx_amount n; b = a div 2; change = a - b;
          in1_sk = be32 111222333; in1_bl = be32 444555666;
          out0_bl = be32 555111555; out0_amt = be32 (ucast b);
          out1_bl = be32 666222666; out1_amt = be32 (ucast change)
      in
      cbind (lift (expect (poseidon_be P [in1_sk]))) (\<lambda>in1_owner.
      cbind (lift (expect (poseidon_be P [fx_token_id n, be32 0, in1_owner, in1_bl]))) (\<lambda>in1_commit.
      cbind (lift (expect (poseidon_be P [in1_commit, in1_sk]))) (\<lambda>in1_nf.
      cbind (lift (expect (poseidon_be P [be32 777000777]))) (\<lambda>out0_owner.
      cbind (lift (expect (poseidon_be P [fx_token_id n, out0_amt, out0_owner, out0_bl]))) (\<lambda>out0_commit.
      cbind (lift (expect (poseidon_be P [fx_token_id n, out1_amt, fx_owner n, out1_bl]))) (\<lambda>out1_commit.
      let inputs = transfer_inputs c root [fx_nullifier n, in1_nf] [out0_commit, out1_commit] (fx_token_id n)
        [\<lparr>ni_amount = be32 (ucast a), ni_spend_key = fx_spend_key n, ni_blinding = fx_blinding n,
          ni_is_dummy = False, ni_merkle_path = siblings, ni_merkle_path_indices = right\<rparr>,
         dummy_input in1_sk in1_bl]
        [\<lparr>out_amount = out0_amt, out_owner_pubkey = out0_owner, out_blinding = out0_bl\<rparr>,
         \<lparr>out_amount = out1_amt, out_owner_pubkey = fx_owner n, out_blinding = out1_bl\<rparr>]
      in
      cbind (write_prover W dir ''transfer'' (toml_of (fields_of inputs))) (\<lambda>_.
        write_json W dir ''transfer'' inputs))))))))"

section \<open>\<open>main\<close>\<close>

definition circuits_dir :: "string list \<Rightarrow> string" where
  "circuits_dir args = (case args of _ # d # _ \<Rightarrow> d | _ \<Rightarrow> ''circuits'')"

definition gen_witness :: "'j wallet \<Rightarrow> string list \<Rightarrow> unit command" where
  "gen_witness W args =
     (let dir = circuits_dir args; c = w_crates W in
      cbind (lift (gen_note W)) (\<lambda>n.
      cbind (gen_deposit W dir n) (\<lambda>_.
      cbind (lift (gen_path W n)) (\<lambda>(siblings, right, root).
      cbind (gen_withdraw W dir n siblings right root) (\<lambda>_.
      cbind (gen_burn W dir n siblings right root) (\<lambda>_.
      cbind (gen_xburn W dir n siblings right root) (\<lambda>out_commitment.
      cbind (gen_xburn2 W dir n siblings right out_commitment) (\<lambda>_.
      cbind (gen_transfer W dir n siblings right root) (\<lambda>_.
        write_values W dir ''e2e_values.json''
          [(''mint_hex'', LHex c (fx_mint n)), (''recipient_hex'', LHex c (fx_recipient n)),
           (''amount'', LNum (unat (fx_amount n))), (''commitment'', LHex c (fx_commitment n)),
           (''nullifier'', LHex c (fx_nullifier n)), (''merkle_root'', LHex c root)])))))))))"

end
