(* ===== verification/Generator_Properties.thy ===== *)
theory Generator_Properties
  imports Witness_Gen Wallet_Properties
begin

text \<open>
  The generated fixtures satisfy the circuits they are made for, and their root is the root of the
  commitment tree that holds just their note.
\<close>

section \<open>The path of the first leaf\<close>

lemma first_leaf_path:
  assumes "hashes_to (poseidon2 P) H" and "field_elem cm"
  shows "merkle_root_be P cm (zeros_of H) (replicate TREE_DEPTH False) = Some (merkle_root H [cm])"
proof -
  have "auth_path H [cm] 0 [0..<TREE_DEPTH] = zip (zeros_of H) (replicate TREE_DEPTH False)"
    by (rule nth_equalityI) (simp_all add: auth_path_def sibling_def node_empty)
  moreover have "merkle_fold P (node H [cm] 0 0) (auth_path H [cm] 0 [0..<TREE_DEPTH]) =
      Some (merkle_root H [cm])"
    using merkle_fold_auth_path [OF assms(1), of "[cm]" 0 0 TREE_DEPTH] assms(2)
    by (simp add: merkle_root_def)
  ultimately show ?thesis
    by (simp add: merkle_root_be_def)
qed

lemma gen_path_Ok:
  assumes "hashes_to (poseidon2 (w_poseidon W)) H" and "field_elem (fx_commitment n)"
    and "gen_path W n = Ok (siblings, right, root)"
  shows "siblings = zeros_of H" and "right = replicate TREE_DEPTH False"
    and "root = merkle_root H [fx_commitment n]"
  using assms(3) zero_hashes_spec [OF assms(1)] first_leaf_path [OF assms(1,2)]
  by (auto simp: gen_path_def Let_def outcome_simps poseidon_hash2_be_def [abs_def] poseidon_be_def
      poseidon2_def)

section \<open>The note and its files\<close>

lemma gen_note_Ok:
  assumes "gen_note W = Ok n"
  shows "w_poseidon W [fx_spend_key n] = Some (fx_owner n)"
    and "w_poseidon W [fx_token_id n, fx_value n, fx_owner n, fx_blinding n] = Some (fx_commitment n)"
    and "w_poseidon W [fx_commitment n, fx_spend_key n] = Some (fx_nullifier n)"
    and "to_field_be (w_poseidon W) (fx_mint n) = Some (fx_token_id n)"
    and "to_field_be (w_poseidon W) (fx_recipient n) = Some (fx_recipient_field n)"
  using assms by (auto simp: gen_note_def Let_def outcome_simps poseidon_be_def fx_value_def)

text \<open>\<open>made es dir circuit toml inputs\<close>: both input files of a circuit were written.\<close>

definition made :: "wallet_event list \<Rightarrow> string \<Rightarrow> string \<Rightarrow> (string \<times> json_lit) list
    \<Rightarrow> (string \<times> json_lit) list \<Rightarrow> bool" where
  "made es dir circuit toml json \<longleftrightarrow>
     Wrote (path_join (path_join dir circuit) ''Prover.toml'') (as_bytes (toml_of toml)) \<in> set es \<and>
     Wrote (path_join (path_join dir circuit) ''inputs.json'') (as_bytes (json_text (LObj json))) \<in> set es"

lemma logs_write_or_panic [logs_intros]: "logs (write_or_panic W p text)"
  by (auto simp: logs_def write_or_panic_def write_file_def)

lemma logs_writers [logs_intros]:
  "logs (write_prover W dir circuit text)" "logs (write_json W dir circuit inputs)"
  "logs (write_values W dir name fs)"
  unfolding write_prover_def write_json_def write_values_def by (intro logs_intros)+

lemma logs_gen [logs_intros]:
  "logs (gen_withdraw W dir n siblings right root)" "logs (gen_burn W dir n siblings right root)"
  "logs (gen_xburn W dir n siblings right root)" "logs (gen_xburn2 W dir n siblings right cm)"
  "logs (gen_transfer W dir n siblings right root)"
  unfolding gen_withdraw_def gen_burn_def gen_xburn_def gen_xburn2_def gen_transfer_def Let_def
  by (intro logs_intros)+

lemmas writer_simps =
  write_prover_def write_json_def write_values_def write_or_panic_Ok_iff cbind_Ok_iff lift_Ok_iff
  outcome_simps poseidon_be_def

lemma made_mono: "made es dir circuit toml json \<Longrightarrow> set es \<subseteq> set es' \<Longrightarrow> made es' dir circuit toml json"
  by (auto simp: made_def)

lemma gen_deposit_made:
  assumes "gen_deposit W dir n s = (Ok u, t)"
  shows "\<exists>fs. deposit_inputs (w_crates W) (fx_token_id n) (fx_value n) (fx_commitment n) (fx_owner n)
      (fx_blinding n) = LObj fs \<and>
    made (ws_events t) dir ''deposit'' fs fs"
  using assms by (auto simp: gen_deposit_def Let_def writer_simps made_def deposit_inputs_def)

lemma gen_withdraw_made:
  assumes "gen_withdraw W dir n siblings right root s = (Ok u, t)"
  shows "\<exists>fs. withdraw_inputs (w_crates W) root (fx_nullifier n) (fx_token_id n) (fx_value n)
      (fx_recipient_field n) (fx_spend_key n) (fx_blinding n) siblings right = LObj fs \<and>
    made (ws_events t) dir ''withdraw'' fs fs"
  using assms by (auto simp: gen_withdraw_def Let_def writer_simps made_def withdraw_inputs_def)

lemma gen_burn_made:
  assumes "gen_burn W dir n siblings right root s = (Ok u, t)"
  shows "\<exists>fs. burn_inputs (w_crates W) root (fx_nullifier n) (fx_token_id n) (fx_value n)
      burn_dest_chain burn_dest_address (fx_spend_key n) (fx_blinding n) siblings right = LObj fs \<and>
    made (ws_events t) dir ''burn'' fs fs"
  using assms by (auto simp: gen_burn_def Let_def writer_simps made_def burn_inputs_def)

lemma gen_xburn_made:
  assumes "gen_xburn W dir n siblings right root s = (Ok cm, t)"
  obtains owner where "w_poseidon W [be32 848484848] = Some owner"
    and "w_poseidon W [fx_token_id n, fx_value n, owner, dest_blinding1] = Some cm"
    and "made (ws_events t) dir ''xburn''
      (xburn_public_fields (w_crates W) root (fx_nullifier n) (xburn_dest_chain W) cm (fx_token_id n) (fx_value n)
         (fx_spend_key n) (fx_blinding n) @ xburn_path_fields (w_crates W) siblings right @
       xburn_dest_fields (w_crates W) owner dest_blinding1)
      (xburn_public_fields (w_crates W) root (fx_nullifier n) (xburn_dest_chain W) cm (fx_token_id n) (fx_value n)
         (fx_spend_key n) (fx_blinding n) @ xburn_dest_fields (w_crates W) owner dest_blinding1 @
       xburn_path_fields (w_crates W) siblings right)"
  using assms by (auto simp: gen_xburn_def Let_def writer_simps made_def intro!: that)

text \<open>The second leg spends what the first one made: \<open>848484848\<close> is the key behind its owner.\<close>

lemma gen_xburn2_made:
  assumes "gen_xburn2 W dir n siblings right cm s = (Ok u, t)"
    and "merkle_root_be (w_poseidon W) cm siblings right = Some root"
  obtains nf owner out where "w_poseidon W [cm, be32 848484848] = Some nf"
    and "w_poseidon W [fx_token_id n, fx_value n, owner, be32 373737373] = Some out"
    and "Wrote (path_join dir ''xburn2_inputs.json'') (as_bytes (json_text (LObj
      (xburn_public_fields (w_crates W) root nf (be32 101) out (fx_token_id n) (fx_value n) (be32 848484848)
         dest_blinding1 @ xburn_path_fields (w_crates W) siblings right @
       xburn_dest_fields (w_crates W) owner (be32 373737373))))) \<in> set (ws_events t)"
  using assms by (auto simp: gen_xburn2_def Let_def writer_simps)

lemma gen_transfer_made:
  assumes "gen_transfer W dir n siblings right root s = (Ok u, t)"
  obtains owner1 cm1 nf1 owner0 cm_a cm_b where "w_poseidon W [be32 111222333] = Some owner1"
    and "w_poseidon W [fx_token_id n, be32 0, owner1, be32 444555666] = Some cm1"
    and "w_poseidon W [cm1, be32 111222333] = Some nf1"
    and "w_poseidon W [fx_token_id n, be32 (ucast (fx_amount n div 2)), owner0, be32 555111555] = Some cm_a"
    and "w_poseidon W [fx_token_id n, be32 (ucast (fx_amount n - fx_amount n div 2)), fx_owner n,
           be32 666222666] = Some cm_b"
    and "\<exists>fs. transfer_inputs (w_crates W) root [fx_nullifier n, nf1] [cm_a, cm_b] (fx_token_id n)
        [real_input (fx_amount n) (fx_spend_key n) (fx_blinding n) siblings right,
         dummy_input (be32 111222333) (be32 444555666)]
        [output_of (fx_amount n div 2) owner0 (be32 555111555),
         output_of (fx_amount n - fx_amount n div 2) (fx_owner n) (be32 666222666)] = LObj fs \<and>
      made (ws_events t) dir ''transfer'' fs fs"
  using assms
  by (auto simp: gen_transfer_def Let_def writer_simps made_def transfer_inputs_def real_input_def
      output_of_def)

section \<open>The circuits accept them\<close>

lemma fixture_input_ok:
  assumes "P [sk] = Some owner" and "P [tid, be32 (ucast (a :: u64)), owner, bl] = Some cm"
    and "P [cm, sk] = Some nf" and "hashes_to (poseidon2 P) H" and "field_elem cm"
  shows "input_ok P (merkle_root H [cm]) tid nf
    \<lparr>ni_amount = be32 (ucast a), ni_spend_key = sk, ni_blinding = bl, ni_is_dummy = False,
     ni_merkle_path = zeros_of H, ni_merkle_path_indices = replicate TREE_DEPTH False\<rparr>"
  using assms first_leaf_path [OF assms(4,5)] by (intro input_ok_opens) (auto simp: opens_def)

lemma fresh_tree_root:
  assumes "hashes_to h H" and "field_elem cm"
  obtains t0 t1 i where "tree_new h = Some t0" and "insert_leaf h (zeros_of H) t0 cm = Ok (t1, i)"
    and "current_root t1 = merkle_root H [cm]"
proof -
  obtain t0 t1 where t: "tree_new h = Some t0" "insert_all (insert_leaf h (zeros_of H)) t0 [cm] = Ok t1"
      "represents h H t1 [cm]"
    using tree_new_insert_all [OF assms(1), of "[cm]"] assms(2) by auto
  then obtain i where "insert_leaf h (zeros_of H) t0 cm = Ok (t1, i)"
    by (auto simp: outcome_simps)
  with t show thesis
    using that represents_current_root by blast
qed

lemma half_le: "(a :: u64) div 2 \<le> a"
  by (simp add: word_le_nat_alt unat_div)

lemma gen_transfer_right:
  assumes "gen_transfer W dir n siblings right root s = (Ok u, t)"
    and "input_ok (w_poseidon W) root (fx_token_id n) (fx_nullifier n)
      \<lparr>ni_amount = fx_value n, ni_spend_key = fx_spend_key n, ni_blinding = fx_blinding n,
       ni_is_dummy = False, ni_merkle_path = siblings, ni_merkle_path_indices = right\<rparr>"
  obtains nfs cms ins outs fs where
    "transfer_inputs (w_crates W) root nfs cms (fx_token_id n) ins outs = LObj fs"
    and "made (ws_events t) dir ''transfer'' fs fs"
    and "transfer_circuit (w_poseidon W) root nfs cms (fx_token_id n) ins outs"
    and "sum_list (map (unat \<circ> out_amount) outs) = unat (fx_amount n)"
proof -
  obtain owner1 cm1 nf1 owner0 cm_a cm_b where f: "w_poseidon W [be32 111222333] = Some owner1"
      "w_poseidon W [fx_token_id n, be32 0, owner1, be32 444555666] = Some cm1"
      "w_poseidon W [cm1, be32 111222333] = Some nf1"
      "w_poseidon W [fx_token_id n, be32 (ucast (fx_amount n div 2)), owner0, be32 555111555] = Some cm_a"
      "w_poseidon W [fx_token_id n, be32 (ucast (fx_amount n - fx_amount n div 2)), fx_owner n,
         be32 666222666] = Some cm_b"
    and "\<exists>fs. transfer_inputs (w_crates W) root [fx_nullifier n, nf1] [cm_a, cm_b] (fx_token_id n)
        [real_input (fx_amount n) (fx_spend_key n) (fx_blinding n) siblings right,
         dummy_input (be32 111222333) (be32 444555666)]
        [output_of (fx_amount n div 2) owner0 (be32 555111555),
         output_of (fx_amount n - fx_amount n div 2) (fx_owner n) (be32 666222666)] = LObj fs \<and>
      made (ws_events t) dir ''transfer'' fs fs"
    using assms(1) by (rule gen_transfer_made)
  moreover have "transfer_circuit (w_poseidon W) root [fx_nullifier n, nf1] [cm_a, cm_b] (fx_token_id n)
        [real_input (fx_amount n) (fx_spend_key n) (fx_blinding n) siblings right,
         dummy_input (be32 111222333) (be32 444555666)]
        [output_of (fx_amount n div 2) owner0 (be32 555111555),
         output_of (fx_amount n - fx_amount n div 2) (fx_owner n) (be32 666222666)]"
    by (rule two_notes_ok [OF _ f half_le]) (use assms(2) in \<open>simp add: real_input_def fx_value_def\<close>)
  moreover have "unat (fx_amount n div 2) + unat (fx_amount n - fx_amount n div 2) = unat (fx_amount n)"
    using half_le [of "fx_amount n"] by (simp add: unat_sub word_le_nat_alt)
  ultimately show thesis
    using that by (fastforce simp: output_of_def)
qed

text \<open>The fixtures that spend the note, on its opening \<open>input_ok\<close> for the root.\<close>

definition fixture_opens :: "'j wallet \<Rightarrow> fixture \<Rightarrow> bytes32 list \<Rightarrow> bool list \<Rightarrow> bytes32 \<Rightarrow> bool" where
  "fixture_opens W n siblings right root \<longleftrightarrow>
     input_ok (w_poseidon W) root (fx_token_id n) (fx_nullifier n)
       \<lparr>ni_amount = fx_value n, ni_spend_key = fx_spend_key n, ni_blinding = fx_blinding n,
        ni_is_dummy = False, ni_merkle_path = siblings, ni_merkle_path_indices = right\<rparr>"

lemma gen_path_opens:
  assumes "hashes_to (poseidon2 (w_poseidon W)) H" and "gen_note W = Ok n"
    and "field_elem (fx_commitment n)" and "gen_path W n = Ok (siblings, right, root)"
  shows "fixture_opens W n siblings right root"
  using fixture_input_ok [OF gen_note_Ok(1) [OF assms(2)] gen_note_Ok(2) [OF assms(2), unfolded fx_value_def]
      gen_note_Ok(3) [OF assms(2)] assms(1,3)]
  unfolding gen_path_Ok [OF assms(1,3,4)] fixture_opens_def fx_value_def .

lemma gen_withdraw_right:
  assumes "gen_withdraw W dir n siblings right root s = (Ok u, t)" and "fixture_opens W n siblings right root"
  obtains fs where "withdraw_inputs (w_crates W) root (fx_nullifier n) (fx_token_id n) (fx_value n)
      (fx_recipient_field n) (fx_spend_key n) (fx_blinding n) siblings right = LObj fs"
    and "made (ws_events t) dir ''withdraw'' fs fs"
    and "withdraw_circuit (w_poseidon W) root (fx_nullifier n) (fx_token_id n) (fx_value n)
      (fx_recipient_field n) (fx_spend_key n) (fx_blinding n) siblings right"
  using gen_withdraw_made [OF assms(1)] assms(2) that
  by (auto simp: withdraw_circuit_def fixture_opens_def)

lemma gen_burn_right:
  assumes "gen_burn W dir n siblings right root s = (Ok u, t)" and "fixture_opens W n siblings right root"
  obtains fs where "burn_inputs (w_crates W) root (fx_nullifier n) (fx_token_id n) (fx_value n)
      burn_dest_chain burn_dest_address (fx_spend_key n) (fx_blinding n) siblings right = LObj fs"
    and "made (ws_events t) dir ''burn'' fs fs"
    and "burn_circuit (w_poseidon W) root (fx_nullifier n) (fx_token_id n) (fx_value n) burn_dest_chain
      burn_dest_address (fx_spend_key n) (fx_blinding n) siblings right"
  using gen_burn_made [OF assms(1)] assms(2) that
  by (auto simp: burn_circuit_def fixture_opens_def)

lemma gen_xburn_pair:
  assumes "hashes_to (poseidon2 (w_poseidon W)) H" and "\<forall>xs y. w_poseidon W xs = Some y \<longrightarrow> field_elem y"
    and "gen_xburn W dir n (zeros_of H) (replicate TREE_DEPTH False) root s = (Ok out1, s')"
    and "gen_xburn2 W dir n (zeros_of H) (replicate TREE_DEPTH False) out1 s' = (Ok (), t)"
    and "fixture_opens W n (zeros_of H) (replicate TREE_DEPTH False) root"
  obtains owner1 nf2 owner2 out2 where
    "made (ws_events s') dir ''xburn''
      (xburn_public_fields (w_crates W) root (fx_nullifier n) (xburn_dest_chain W) out1 (fx_token_id n)
         (fx_value n) (fx_spend_key n) (fx_blinding n) @
       xburn_path_fields (w_crates W) (zeros_of H) (replicate TREE_DEPTH False) @
       xburn_dest_fields (w_crates W) owner1 dest_blinding1)
      (xburn_public_fields (w_crates W) root (fx_nullifier n) (xburn_dest_chain W) out1 (fx_token_id n)
         (fx_value n) (fx_spend_key n) (fx_blinding n) @
       xburn_dest_fields (w_crates W) owner1 dest_blinding1 @
       xburn_path_fields (w_crates W) (zeros_of H) (replicate TREE_DEPTH False))"
    and "Wrote (path_join dir ''xburn2_inputs.json'') (as_bytes (json_text (LObj
      (xburn_public_fields (w_crates W) (merkle_root H [out1]) nf2 (be32 101) out2 (fx_token_id n) (fx_value n)
         (be32 848484848) dest_blinding1 @
       xburn_path_fields (w_crates W) (zeros_of H) (replicate TREE_DEPTH False) @
       xburn_dest_fields (w_crates W) owner2 (be32 373737373))))) \<in> set (ws_events t)"
    and "xburn_circuit (w_poseidon W) root (fx_nullifier n) (xburn_dest_chain W) out1 (fx_token_id n) (fx_value n)
      (fx_spend_key n) (fx_blinding n) (zeros_of H) (replicate TREE_DEPTH False) owner1 dest_blinding1"
    and "xburn_circuit (w_poseidon W) (merkle_root H [out1]) nf2 (be32 101) out2 (fx_token_id n) (fx_value n)
      (be32 848484848) dest_blinding1 (zeros_of H) (replicate TREE_DEPTH False) owner2 (be32 373737373)"
  using assms(3)
proof (rule gen_xburn_made)
  fix owner1
  assume o1: "w_poseidon W [be32 848484848] = Some owner1"
      "w_poseidon W [fx_token_id n, fx_value n, owner1, dest_blinding1] = Some out1"
    and m1: "made (ws_events s') dir ''xburn''
      (xburn_public_fields (w_crates W) root (fx_nullifier n) (xburn_dest_chain W) out1 (fx_token_id n)
         (fx_value n) (fx_spend_key n) (fx_blinding n) @
       xburn_path_fields (w_crates W) (zeros_of H) (replicate TREE_DEPTH False) @
       xburn_dest_fields (w_crates W) owner1 dest_blinding1)
      (xburn_public_fields (w_crates W) root (fx_nullifier n) (xburn_dest_chain W) out1 (fx_token_id n)
         (fx_value n) (fx_spend_key n) (fx_blinding n) @
       xburn_dest_fields (w_crates W) owner1 dest_blinding1 @
       xburn_path_fields (w_crates W) (zeros_of H) (replicate TREE_DEPTH False))"
  have fe: "field_elem out1"
    using assms(2) o1(2) by blast
  show thesis
    using assms(4) first_leaf_path [OF assms(1) fe]
  proof (rule gen_xburn2_made)
    fix nf2 owner2 out2
    assume o2: "w_poseidon W [out1, be32 848484848] = Some nf2"
      "w_poseidon W [fx_token_id n, fx_value n, owner2, be32 373737373] = Some out2"
      and m2: "Wrote (path_join dir ''xburn2_inputs.json'') (as_bytes (json_text (LObj
        (xburn_public_fields (w_crates W) (merkle_root H [out1]) nf2 (be32 101) out2 (fx_token_id n) (fx_value n)
           (be32 848484848) dest_blinding1 @
         xburn_path_fields (w_crates W) (zeros_of H) (replicate TREE_DEPTH False) @
         xburn_dest_fields (w_crates W) owner2 (be32 373737373))))) \<in> set (ws_events t)"
    have in2: "input_ok (w_poseidon W) (merkle_root H [out1]) (fx_token_id n) nf2
        \<lparr>ni_amount = fx_value n, ni_spend_key = be32 848484848, ni_blinding = dest_blinding1,
         ni_is_dummy = False, ni_merkle_path = zeros_of H, ni_merkle_path_indices = replicate TREE_DEPTH False\<rparr>"
      using fixture_input_ok [OF o1(1) o1(2) [unfolded fx_value_def] o2(1) assms(1) fe] unfolding fx_value_def .
    show thesis
      using m1 m2
      by (rule that) (use assms(5) in2 o1(2) o2(2) in \<open>simp_all add: xburn_circuit_def fixture_opens_def\<close>)
  qed
qed

text \<open>
  C40: The fixtures are right. A successful run of \<open>gen_witness\<close> has written, for each of the five
  circuits, TOML and JSON inputs that satisfy the circuit, all for one note, with the root a fresh
  commitment tree has after the note's commitment is inserted; the second cross-chain fixture spends
  the note that the first one creates, and the two outputs of the transfer add up to its amount.
\<close>

theorem generated_inputs_satisfy_circuits:
  assumes "hashes_to (poseidon2 (w_poseidon W)) H" and "\<forall>xs y. w_poseidon W xs = Some y \<longrightarrow> field_elem y"
    and "gen_witness W args s = (Ok u, t)"
  shows "\<exists>n root siblings right tree0 tree i.
    gen_note W = Ok n \<and> tree_new (poseidon2 (w_poseidon W)) = Some tree0 \<and>
    insert_leaf (poseidon2 (w_poseidon W)) (zeros_of H) tree0 (fx_commitment n) = Ok (tree, i) \<and>
    current_root tree = root \<and>
    (let c = w_crates W; P = w_poseidon W; dir = circuits_dir args; es = ws_events t;
         tid = fx_token_id n; a = fx_value n; cm = fx_commitment n; nf = fx_nullifier n;
         sk = fx_spend_key n; bl = fx_blinding n; dest = xburn_dest_chain W in
       (\<exists>fs. deposit_inputs c tid a cm (fx_owner n) bl = LObj fs \<and> made es dir ''deposit'' fs fs) \<and>
       deposit_circuit P tid a cm (fx_owner n) bl \<and>
       (\<exists>fs. withdraw_inputs c root nf tid a (fx_recipient_field n) sk bl siblings right = LObj fs \<and>
          made es dir ''withdraw'' fs fs) \<and>
       withdraw_circuit P root nf tid a (fx_recipient_field n) sk bl siblings right \<and>
       (\<exists>fs. burn_inputs c root nf tid a burn_dest_chain burn_dest_address sk bl siblings right = LObj fs \<and>
          made es dir ''burn'' fs fs) \<and>
       burn_circuit P root nf tid a burn_dest_chain burn_dest_address sk bl siblings right \<and>
       (\<exists>owner1 out1 nf2 owner2 out2 pub path to.
          pub = xburn_public_fields c root nf dest out1 tid a sk bl \<and>
          path = xburn_path_fields c siblings right \<and> to = xburn_dest_fields c owner1 dest_blinding1 \<and>
          made es dir ''xburn'' (pub @ path @ to) (pub @ to @ path) \<and>
          xburn_circuit P root nf dest out1 tid a sk bl siblings right owner1 dest_blinding1 \<and>
          Wrote (path_join dir ''xburn2_inputs.json'') (as_bytes (json_text (LObj
            (xburn_public_fields c (merkle_root H [out1]) nf2 (be32 101) out2 tid a (be32 848484848)
               dest_blinding1 @ path @ xburn_dest_fields c owner2 (be32 373737373))))) \<in> set es \<and>
          xburn_circuit P (merkle_root H [out1]) nf2 (be32 101) out2 tid a (be32 848484848) dest_blinding1
            siblings right owner2 (be32 373737373)) \<and>
       (\<exists>nfs cms ins outs fs. transfer_inputs c root nfs cms tid ins outs = LObj fs \<and>
          made es dir ''transfer'' fs fs \<and> transfer_circuit P root nfs cms tid ins outs \<and>
          sum_list (map (unat \<circ> out_amount) outs) = unat (fx_amount n)))"
proof -
  let ?P = "w_poseidon W" and ?c = "w_crates W" and ?dir = "circuits_dir args"
  from assms(3) obtain n siblings right root s1 s2 s3 out1 s4 s5 s6 v where
    n: "gen_note W = Ok n" and d: "gen_deposit W ?dir n s = (Ok (), s1)"
    and p: "gen_path W n = Ok (siblings, right, root)"
    and w: "gen_withdraw W ?dir n siblings right root s1 = (Ok (), s2)"
    and b: "gen_burn W ?dir n siblings right root s2 = (Ok (), s3)"
    and x: "gen_xburn W ?dir n siblings right root s3 = (Ok out1, s4)"
    and x2: "gen_xburn2 W ?dir n siblings right out1 s4 = (Ok (), s5)"
    and tr: "gen_transfer W ?dir n siblings right root s5 = (Ok (), s6)"
    and e: "write_values W ?dir ''e2e_values.json'' v s6 = (Ok u, t)"
    by (auto simp: gen_witness_def Let_def cbind_Ok_iff lift_Ok_iff)
  have fe: "field_elem (fx_commitment n)"
    using assms(2) gen_note_Ok(2) [OF n] by blast
  note path_ok = gen_path_Ok [OF assms(1) fe p] and opens = gen_path_opens [OF assms(1) n fe p]
  have mono: "set (ws_events s1) \<subseteq> set (ws_events t)" "set (ws_events s2) \<subseteq> set (ws_events t)"
    "set (ws_events s3) \<subseteq> set (ws_events t)" "set (ws_events s4) \<subseteq> set (ws_events t)"
    "set (ws_events s5) \<subseteq> set (ws_events t)" "set (ws_events s6) \<subseteq> set (ws_events t)"
    using logsD [OF logs_gen(1) w] logsD [OF logs_gen(2) b] logsD [OF logs_gen(3) x]
      logsD [OF logs_gen(4) x2] logsD [OF logs_gen(5) tr] logsD [OF logs_writers(3) e]
    by (meson set_mono_prefix order_trans)+
  note fd = gen_deposit_made [OF d]
    and dc = deposit_circuit_note [of ?P, OF gen_note_Ok(2) [OF n, unfolded fx_value_def], folded fx_value_def]
  obtain fd where fd: "deposit_inputs ?c (fx_token_id n) (fx_value n) (fx_commitment n) (fx_owner n)
      (fx_blinding n) = LObj fd" "made (ws_events s1) ?dir ''deposit'' fd fd"
    using gen_deposit_made [OF d] by blast
  obtain t0 t1 i where tree: "tree_new (poseidon2 ?P) = Some t0"
      "insert_leaf (poseidon2 ?P) (zeros_of H) t0 (fx_commitment n) = Ok (t1, i)" "current_root t1 = root"
    using fresh_tree_root [OF assms(1) fe] path_ok(3) by metis
  show ?thesis
  proof (rule gen_withdraw_right [OF w opens], rule gen_burn_right [OF b opens],
      rule gen_xburn_pair [OF assms(1,2) x [unfolded path_ok(1,2)] x2 [unfolded path_ok(1,2)]
        opens [unfolded path_ok(1,2)], folded path_ok(1,2)],
      rule gen_transfer_right [OF tr opens [unfolded fixture_opens_def]], goal_cases)
    case (1 fw fb owner1 nf2 owner2 out2 nfs cms ins outs ft)
    show ?case
      unfolding Let_def
      by (intro exI conjI)
        (rule n tree dc fd(1) 1(1,3,4,6,9,10,11,13,14) refl made_mono [OF fd(2) mono(1)]
          made_mono [OF 1(2) mono(2)] made_mono [OF 1(5) mono(3)] made_mono [OF 1(7) mono(4)]
          made_mono [OF 1(12) mono(6)] subsetD [OF mono(5) 1(8)])+
  qed
qed

section \<open>A run of the generator\<close>

definition runs :: "'a command \<Rightarrow> bool" where
  "runs m \<longleftrightarrow> (\<forall>s. \<exists>a t. m s = (Ok a, t))"

lemma runs_cbind: "runs m \<Longrightarrow> (\<And>a. runs (k a)) \<Longrightarrow> runs (cbind m k)"
  unfolding runs_def cbind_def by (metis (mono_tags, lifting) old.prod.case old.sum.simps(6))

lemma runs_lift: "runs (lift (Ok a))"
  by (simp add: runs_def lift_def)

lemma runs_writers:
  assumes "\<forall>p. w_can_write W p"
  shows "runs (write_or_panic W p text)" "runs (write_prover W dir c text)"
    "runs (write_json W dir c inputs)" "runs (write_values W dir name fs)"
  using assms by (simp_all add: runs_def write_prover_def write_json_def write_values_def
      write_or_panic_def write_file_def)

lemma runs_poseidon: "P = (\<lambda>xs. Some (h xs)) \<Longrightarrow> runs (lift (expect (poseidon_be P xs)))"
  by (simp add: runs_def lift_def poseidon_be_def)

lemma runs_gen:
  assumes "w_poseidon W = (\<lambda>xs. Some (h xs))" and "\<forall>p. w_can_write W p"
  shows "runs (gen_deposit W dir n)" "runs (gen_withdraw W dir n siblings right root)"
    "runs (gen_burn W dir n siblings right root)" "runs (gen_xburn W dir n siblings right root)"
    "runs (gen_transfer W dir n siblings right root)"
    "merkle_root_be (w_poseidon W) cm siblings right = Some r \<Longrightarrow> runs (gen_xburn2 W dir n siblings right cm)"
  using assms unfolding gen_deposit_def gen_withdraw_def gen_burn_def gen_xburn_def gen_transfer_def
    gen_xburn2_def Let_def
  by (auto intro!: runs_cbind runs_lift runs_writers runs_poseidon)

lemma runsE: "runs m \<Longrightarrow> (\<And>a t. m s = (Ok a, t) \<Longrightarrow> thesis) \<Longrightarrow> thesis"
  by (auto simp: runs_def)

lemma gen_witness_runs:
  assumes "w_poseidon W = (\<lambda>xs. Some (h xs))" and "\<forall>p. w_can_write W p"
    and "hashes_to (poseidon2 (w_poseidon W)) H" and "\<forall>xs y. w_poseidon W xs = Some y \<longrightarrow> field_elem y"
  obtains u t where "gen_witness W args s = (Ok u, t)"
proof -
  obtain g where "\<forall>x. to_field_be (w_poseidon W) x = Some (g x)"
    using to_field_some [OF assms(1)] by metis
  then have "\<exists>n. gen_note W = Ok n"
    using assms(1) by (simp add: gen_note_def Let_def poseidon_be_def)
  then obtain n where n: "gen_note W = Ok n" by blast
  have fe: "field_elem (fx_commitment n)"
    using assms(4) gen_note_Ok(2) [OF n] by blast
  obtain siblings right root where p: "gen_path W n = Ok (siblings, right, root)"
    using zero_hashes_spec [OF assms(3)] first_leaf_path [OF assms(3) fe]
    by (auto simp: gen_path_def Let_def outcome_simps poseidon_hash2_be_def [abs_def] poseidon_be_def
        poseidon2_def)
  note gens = runs_gen [where dir = "circuits_dir args" and n = n, OF assms(1,2)]
  obtain s1 where d: "gen_deposit W (circuits_dir args) n s = (Ok (), s1)"
    using gens(1) by (rule runsE) simp
  obtain s2 where w: "gen_withdraw W (circuits_dir args) n siblings right root s1 = (Ok (), s2)"
    using gens(2) by (rule runsE) simp
  obtain s3 where b: "gen_burn W (circuits_dir args) n siblings right root s2 = (Ok (), s3)"
    using gens(3) by (rule runsE) simp
  obtain cm s4 where x: "gen_xburn W (circuits_dir args) n siblings right root s3 = (Ok cm, s4)"
    using gens(4) by (rule runsE)
  have "field_elem cm"
    using x by (rule gen_xburn_made) (use assms(4) in blast)
  then have "merkle_root_be (w_poseidon W) cm siblings right = Some (merkle_root H [cm])"
    using first_leaf_path [OF assms(3)] gen_path_Ok [OF assms(3) fe p] by simp
  from gens(6) [OF this] obtain s5 where x2: "gen_xburn2 W (circuits_dir args) n siblings right cm s4 = (Ok (), s5)"
    by (rule runsE) simp
  obtain s6 where tr: "gen_transfer W (circuits_dir args) n siblings right root s5 = (Ok (), s6)"
    using gens(5) by (rule runsE) simp
  define v where "v = [(''mint_hex'', LHex (w_crates W) (fx_mint n)),
    (''recipient_hex'', LHex (w_crates W) (fx_recipient n)), (''amount'', LNum (unat (fx_amount n))),
    (''commitment'', LHex (w_crates W) (fx_commitment n)), (''nullifier'', LHex (w_crates W) (fx_nullifier n)),
    (''merkle_root'', LHex (w_crates W) root)]"
  obtain t where "write_values W (circuits_dir args) ''e2e_values.json'' v s6 = (Ok (), t)"
    using runs_writers(4) [OF assms(2)] by (rule runsE) simp
  with n d p w b x x2 tr show thesis
    by (intro that) (auto simp: gen_witness_def Let_def cbind_Ok_iff lift_Ok_iff v_def)
qed

definition mod_poseidon :: poseidon where
  "mod_poseidon xs = Some (word_of_nat (length xs mod 8))"

definition demo_generator :: "demo_json wallet" where
  "demo_generator = demo_wallet\<lparr>w_poseidon := mod_poseidon\<rparr>"

lemma mod_poseidon_canonical: "mod_poseidon xs = Some y \<Longrightarrow> field_elem y"
proof -
  assume "mod_poseidon xs = Some y"
  then have "y = word_of_nat (length xs mod 8)"
    by (simp add: mod_poseidon_def)
  moreover have "unat (word_of_nat (length xs mod 8) :: bytes32) < 8"
    by (subst unat_of_nat) (rule le_less_trans [OF mod_less_eq_dividend], simp)
  ultimately show "field_elem y"
    by (simp add: field_elem_def bn254_fr_def)
qed

lemma demo_generator_laws:
  "w_poseidon demo_generator = (\<lambda>xs. Some (word_of_nat (length xs mod 8)))"
  "\<forall>p. w_can_write demo_generator p" "hashes_to (poseidon2 (w_poseidon demo_generator)) (\<lambda>a b. 2)"
  "\<forall>xs y. w_poseidon demo_generator xs = Some y \<longrightarrow> field_elem y"
  using mod_poseidon_canonical
  by (simp_all add: demo_generator_def mod_poseidon_def [abs_def] hashes_to_def poseidon2_def field_elem_def
      bn254_fr_def)

theorem generated_inputs_satisfy_circuits_witness:
  "\<exists>t n root siblings right. gen_witness demo_generator [] (demo_state []) = (Ok (), t) \<and>
     gen_note demo_generator = Ok n \<and>
     withdraw_circuit mod_poseidon root (fx_nullifier n) (fx_token_id n) (fx_value n) (fx_recipient_field n)
       (fx_spend_key n) (fx_blinding n) siblings right \<and>
     (\<exists>fs. withdraw_inputs demo_crates root (fx_nullifier n) (fx_token_id n) (fx_value n)
         (fx_recipient_field n) (fx_spend_key n) (fx_blinding n) siblings right = LObj fs \<and>
       made (ws_events t) ''circuits'' ''withdraw'' fs fs)"
proof -
  obtain u t where t: "gen_witness demo_generator [] (demo_state []) = (Ok u, t)"
    using demo_generator_laws by (rule gen_witness_runs)
  show ?thesis
    using generated_inputs_satisfy_circuits [OF demo_generator_laws(3,4) t] t
    unfolding Let_def circuits_dir_def
    by (simp add: demo_generator_def) blast
qed
end
