(* ===== verification/Artifacts.thy ===== *)
theory Artifacts
  imports Witness_Gen
begin

text \<open>
  The generators of Rust sources: \<open>emit_artifacts\<close> (\<open>crates/groth16-verify\<close>), which writes the
  verifying key of a circuit as constants and the proof as instruction data, and \<open>emit_tree_consts\<close>
  (\<open>crates/common\<close>), which writes the empty subtrees. What they print is left out; a file that cannot
  be read, parsed or written panics, as \<open>unwrap\<close> does.
\<close>

section \<open>Array literals\<close>

definition list_lit :: "('a \<Rightarrow> string) \<Rightarrow> 'a list \<Rightarrow> string" where
  "list_lit f xs = ''['' @ join_with '', '' (map f xs) @ '']''"

definition byte_text :: "u8 \<Rightarrow> string" where
  "byte_text b = nat_text (unat b)"

definition bytes_lit :: "bytes \<Rightarrow> string" where
  "bytes_lit b = list_lit byte_text b"

definition const_line :: "string \<Rightarrow> string \<Rightarrow> string \<Rightarrow> string" where
  "const_line name type value = ''pub const '' @ name @ '': '' @ type @ '' = '' @ value @ '';'' @ [CHR 0x0A]"

text \<open>A dash in UTF-8.\<close>

definition em_dash :: string where
  "em_dash = [CHR 0xE2, CHR 0x80, CHR 0x94]"

section \<open>\<open>emit_artifacts\<close>\<close>

definition vk_header :: "bool \<Rightarrow> string" where
  "vk_header real =
     (if real then ''// @generated by `emit_artifacts --real` '' @ em_dash @ '' do not edit.'' @ [CHR 0x0A] @
        ''// Real-ceremony VK: PPoT phase-1 + per-circuit phase-2 (see ceremony/transcript.md).'' @ [CHR 0x0A]
      else ''// @generated by `emit_artifacts` '' @ em_dash @ '' do not edit.'' @ [CHR 0x0A] @
        ''// INSECURE test vk (trivial ceremony) '' @ em_dash @ '' see OPAQ.md B.6 SECURITY CAVEAT.'' @
        [CHR 0x0A])"

definition vk_rs :: "bool \<Rightarrow> vk_bytes \<Rightarrow> string" where
  "vk_rs real vk =
     vk_header real @
     const_line ''VK_ALPHA_G1'' ''[u8; 64]'' (bytes_lit (vb_alpha vk)) @
     const_line ''VK_BETA_G2'' ''[u8; 128]'' (bytes_lit (vb_beta vk)) @
     const_line ''VK_GAMME_G2'' ''[u8; 128]'' (bytes_lit (vb_gamma vk)) @
     const_line ''VK_DELTA_G2'' ''[u8; 128]'' (bytes_lit (vb_delta vk)) @
     const_line ''VK_IC'' (''[[u8; 64]; '' @ nat_text (length (vb_ic vk)) @ '']'')
       (list_lit bytes_lit (vb_ic vk))"

definition artifact_data :: "proof_bytes \<Rightarrow> bytes32 list \<Rightarrow> bytes" where
  "artifact_data p public = pb_a p @ pb_b p @ pb_c p @ concat (map b32_bytes public)"

text \<open>The closure \<open>read\<close>.\<close>

definition read_json_file :: "'j wallet \<Rightarrow> string \<Rightarrow> 'j command" where
  "read_json_file W p =
     (\<lambda>s. (and_then (expect (ws_files s p)) (\<lambda>b. expect (j_from_slice (w_json W) b)), s))"

definition write_bytes_or_panic :: "'j wallet \<Rightarrow> string \<Rightarrow> bytes \<Rightarrow> unit command" where
  "write_bytes_or_panic W p b =
     (\<lambda>s. case write_file W '''' p b s of (Inl _, t) \<Rightarrow> (Panic, t) | r \<Rightarrow> r)"

text \<open>
  The closing message names the number of inputs, \<open>vk.ic.len() - 1\<close>: in the debug build that
  \<open>cargo run\<close> makes, a key without a point panics there, after both files are written.
\<close>

definition emit_artifacts :: "'j wallet \<Rightarrow> 'f field_ops \<Rightarrow> string list \<Rightarrow> unit command" where
  "emit_artifacts W F args =
     (let J = w_json W in
     cbind (lift (nth_value args 1)) (\<lambda>groth_dir.
     cbind (lift (nth_value args 2)) (\<lambda>out_dir.
     let real = list_ex (\<lambda>a. a = ''--real'') args in
     cbind (read_json_file W (path_join groth_dir ''verification_key.json'')) (\<lambda>vk_json.
     cbind (lift (vk_from_json J F vk_json)) (\<lambda>vk.
     cbind (read_json_file W (path_join groth_dir ''proof.json'')) (\<lambda>proof_json.
     cbind (lift (proof_from_json J F proof_json)) (\<lambda>p.
     cbind (read_json_file W (path_join groth_dir ''public.json'')) (\<lambda>public_json.
     cbind (lift (public_from_json J F public_json)) (\<lambda>public.
     cbind (write_or_panic W (path_join out_dir ''vk.rs'') (vk_rs real vk)) (\<lambda>_.
     cbind (write_bytes_or_panic W (path_join out_dir ''instruction.bin'') (artifact_data p public)) (\<lambda>_.
       lift (if vb_ic vk = [] then Panic else Ok ()))))))))))))"

section \<open>\<open>emit_tree_consts\<close>\<close>

definition tree_consts_rs :: "bytes32 list \<Rightarrow> bytes32 \<Rightarrow> string" where
  "tree_consts_rs zeros root =
     ''// @generated by `emit_tree_consts` '' @ em_dash @ '' do not edit.'' @ [CHR 0x0A] @
     ''// Empty-subtree hashes (Poseidon, original/Circom params) for the depth-'' @ nat_text TREE_DEPTH @
     '' tree.'' @ [CHR 0x0A] @
     const_line ''TREE_DEPTH'' ''usize'' (nat_text TREE_DEPTH) @
     const_line ''ZEROS'' (''[[u8; 32]; '' @ nat_text TREE_DEPTH @ '']'')
       (list_lit (bytes_lit \<circ> b32_bytes) zeros) @
     const_line ''EMPTY_ROOT'' ''[u8; 32]'' (bytes_lit (b32_bytes root))"

definition emit_tree_consts_main :: "'j wallet \<Rightarrow> string list \<Rightarrow> unit command" where
  "emit_tree_consts_main W args =
     cbind (lift (nth_value args 1)) (\<lambda>out.
     cbind (lift (expect (emit_tree_consts (w_poseidon W)))) (\<lambda>(zeros, root).
       write_or_panic W out (tree_consts_rs zeros root)))"

section \<open>The text determines the values\<close>

text \<open>
  \<open>literal\<close>: texts that can be told apart at the front of a longer one, as long as what follows is
  something that may follow them.
\<close>

locale literal =
  fixes lit :: "'a \<Rightarrow> string" and follow :: "string \<Rightarrow> bool"
  assumes cancel: "lit x @ r = lit y @ r' \<Longrightarrow> follow r \<Longrightarrow> follow r' \<Longrightarrow> x = y \<and> r = r'"
    and follow_item: "follow (CHR '','' # r)" and follow_last: "follow (CHR '']'' # r)"
    and opens: "\<exists>c cs. lit x = c # cs \<and> c \<noteq> CHR '']''"
begin

lemma items_Cons:
  obtains t where "join_with '', '' (map lit (x # xs)) @ CHR '']'' # r = lit x @ t" and "follow t"
    and "t = (if xs = [] then CHR '']'' # r
              else CHR '','' # CHR '' '' # join_with '', '' (map lit xs) @ CHR '']'' # r)"
  using that follow_item follow_last by (cases xs) auto

lemma items_cancel:
  "join_with '', '' (map lit xs) @ CHR '']'' # r = join_with '', '' (map lit ys) @ CHR '']'' # r' \<Longrightarrow>
     xs = ys \<and> r = r'"
proof (induction xs arbitrary: ys)
  case Nil
  show ?case
  proof (cases ys)
    case (Cons y zs)
    obtain c cs where "lit y = c # cs" "c \<noteq> CHR '']''"
      using opens by blast
    with Nil Cons show ?thesis
      by (cases zs) auto
  qed (use Nil in simp)
next
  case (Cons x xs)
  obtain c cs where x: "lit x = c # cs" "c \<noteq> CHR '']''"
    using opens by blast
  with Cons.prems obtain y zs where ys: "ys = y # zs"
    by (cases ys; cases xs) auto
  obtain t where t: "join_with '', '' (map lit (x # xs)) @ CHR '']'' # r = lit x @ t" "follow t"
      "t = (if xs = [] then CHR '']'' # r
            else CHR '','' # CHR '' '' # join_with '', '' (map lit xs) @ CHR '']'' # r)"
    by (rule items_Cons)
  obtain t' where t': "join_with '', '' (map lit (y # zs)) @ CHR '']'' # r' = lit y @ t'" "follow t'"
      "t' = (if zs = [] then CHR '']'' # r'
             else CHR '','' # CHR '' '' # join_with '', '' (map lit zs) @ CHR '']'' # r')"
    by (rule items_Cons)
  have "lit x @ t = lit y @ t'"
    using Cons.prems t(1) t'(1) unfolding ys by metis
  then have "x = y" "t = t'"
    using cancel t(2) t'(2) by blast+
  then show ?case
    using Cons.IH [of zs] t(3) t'(3) ys by (auto split: if_splits)
qed

lemma list_cancel: "list_lit lit xs @ r = list_lit lit ys @ r' \<Longrightarrow> xs = ys \<and> r = r'"
  using items_cancel [of xs r ys r'] by (simp add: list_lit_def)

end

definition digit :: "char \<Rightarrow> bool" where
  "digit c \<longleftrightarrow> 48 \<le> (of_char c :: nat) \<and> (of_char c :: nat) \<le> 57"

definition no_digit :: "string \<Rightarrow> bool" where
  "no_digit r \<longleftrightarrow> (case r of [] \<Rightarrow> True | c # _ \<Rightarrow> \<not> digit c)"

definition decimal_value :: "string \<Rightarrow> nat" where
  "decimal_value s = foldl (\<lambda>acc c. acc * 10 + (of_char c - 48)) 0 s"

lemma nat_text_rec:
  "nat_text n = (if n < 10 then [] else nat_text (n div 10)) @ [char_of (48 + n mod 10)]"
  by (subst nat_text.simps) simp

lemma nat_text_digits: "list_all digit (nat_text n) \<and> decimal_value (nat_text n) = n \<and> nat_text n \<noteq> []"
proof (induction n rule: less_induct)
  case (less n)
  have c: "(of_char (char_of (48 + n mod 10)) :: nat) = 48 + n mod 10"
    by simp
  then have "digit (char_of (48 + n mod 10))"
    unfolding digit_def by simp
  with c less.IH [of "n div 10"] show ?case
    by (subst (1 2 3) nat_text_rec) (auto simp: decimal_value_def)
qed

lemma nat_text_cancel:
  assumes "nat_text n @ r = nat_text m @ r'" and "no_digit r" and "no_digit r'"
  shows "n = m \<and> r = r'"
proof -
  have "takeWhile digit (nat_text k @ t) = nat_text k" if "no_digit t" for k t
    using nat_text_digits [of k] that
    by (subst takeWhile_append2) (auto simp: list_all_iff no_digit_def takeWhile_eq_Nil_iff split: list.splits)
  with assms have same: "nat_text n = nat_text m"
    by metis
  then have "decimal_value (nat_text n) = decimal_value (nat_text m)"
    by (rule arg_cong)
  then have "n = m"
    by (simp only: nat_text_digits [THEN conjunct2, THEN conjunct1])
  with assms(1) show ?thesis
    by blast
qed

interpretation byte: literal byte_text no_digit
proof
  fix x y :: u8 and r r'
  assume "byte_text x @ r = byte_text y @ r'" "no_digit r" "no_digit r'"
  then show "x = y \<and> r = r'"
    using nat_text_cancel [of "unat x" r "unat y" r'] by (simp add: byte_text_def word_unat_eq_iff)
next
  fix x :: u8
  show "\<exists>c cs. byte_text x = c # cs \<and> c \<noteq> CHR '']''"
    using nat_text_digits [of "unat x"] by (cases "byte_text x") (auto simp: byte_text_def digit_def)
qed (simp_all add: no_digit_def digit_def)

interpretation point: literal bytes_lit "\<lambda>_. True"
  by unfold_locales (simp_all add: bytes_lit_def byte.list_cancel, auto simp: list_lit_def)

text \<open>Two constants of one name and type.\<close>

lemma const_line_bytes:
  "const_line n t (bytes_lit a) @ r = const_line n t (bytes_lit b) @ r' \<longleftrightarrow> a = b \<and> r = r'"
  using point.cancel [of a _ b] by (auto simp: const_line_def)

text \<open>The generated source names exactly one key.\<close>

lemma vk_rs_inj:
  assumes "vk_rs real vk = vk_rs real' vk'"
  shows "vk = vk'"
proof -
  have "real = real'"
    using assms by (cases real; cases real') (simp_all add: vk_rs_def vk_header_def)
  with assms have a: "vb_alpha vk = vb_alpha vk'" "vb_beta vk = vb_beta vk'" "vb_gamma vk = vb_gamma vk'"
      "vb_delta vk = vb_delta vk'"
    and ic: "const_line ''VK_IC'' (''[[u8; 64]; '' @ nat_text (length (vb_ic vk)) @ '']'')
        (list_lit bytes_lit (vb_ic vk)) =
      const_line ''VK_IC'' (''[[u8; 64]; '' @ nat_text (length (vb_ic vk')) @ '']'')
        (list_lit bytes_lit (vb_ic vk'))"
    by (simp_all add: vk_rs_def const_line_bytes)
  define rest where "rest ps = '']'' @ '' = '' @ list_lit bytes_lit ps @ '';'' @ [CHR 0x0A]" for ps
  have "nat_text (length (vb_ic vk)) @ rest (vb_ic vk) = nat_text (length (vb_ic vk')) @ rest (vb_ic vk')"
    using ic by (simp add: const_line_def rest_def)
  moreover have "no_digit (rest ps)" for ps
    by (simp add: rest_def no_digit_def digit_def)
  ultimately have "rest (vb_ic vk) = rest (vb_ic vk')"
    using nat_text_cancel by blast
  then have "vb_ic vk = vb_ic vk'"
    using point.list_cancel [of "vb_ic vk" "'';'' @ [CHR 0x0A]" "vb_ic vk'"] by (simp add: rest_def)
  with a show ?thesis
    by simp
qed

lemma as_bytes_inj: "as_bytes s = as_bytes t \<Longrightarrow> s = t"
proof (induction s arbitrary: t)
  case (Cons c s)
  then obtain d u where t: "t = d # u" "(of_char c :: u8) = of_char d" "as_bytes s = as_bytes u"
    by (cases t) (auto simp: as_bytes_def)
  have "unat (of_char x :: u8) = of_char x" for x
    using nat_of_char_less_256 [of x] by (subst of_nat_of_char [symmetric], subst unat_of_nat) simp
  then have "(of_char c :: nat) = of_char d"
    using t(2) by metis
  then show ?case
    using Cons.IH t by simp
qed (simp add: as_bytes_def)

text \<open>So does the generated table of the program.\<close>

lemma const_line_points:
  "const_line n t (list_lit bytes_lit a) @ r = const_line n t (list_lit bytes_lit b) @ r' \<longleftrightarrow> a = b \<and> r = r'"
  using point.list_cancel [of a _ b] by (auto simp: const_line_def)

lemma tree_consts_rs_inj:
  assumes "tree_consts_rs zeros root = tree_consts_rs zeros' root'"
  shows "zeros = zeros' \<and> root = root'"
proof -
  have points: "list_lit (bytes_lit \<circ> b32_bytes) zs = list_lit bytes_lit (map b32_bytes zs)" for zs
    by (simp add: list_lit_def)
  have inj: "inj b32_bytes"
    by (rule inj_on_inverseI [of _ bytes_b32]) simp
  from assms have "map b32_bytes zeros = map b32_bytes zeros'"
    and "const_line ''EMPTY_ROOT'' ''[u8; 32]'' (bytes_lit (b32_bytes root)) =
      const_line ''EMPTY_ROOT'' ''[u8; 32]'' (bytes_lit (b32_bytes root'))"
    by (simp_all add: tree_consts_rs_def points const_line_points)
  then show ?thesis
    using inj const_line_bytes [where r = "[]" and r' = "[]"] by (simp add: inj_map_eq_map)
qed

end
