(* ===== verification/Probes.thy ===== *)
theory Probes
  imports Instruction_Codec
begin

text \<open>
  The measuring programs: \<open>programs/cu-probe\<close> repeats a curve or field operation,
  \<open>programs/poseidon-syscall-check\<close> compares the runtime's hash with an expected value and
  \<open>programs/groth16-verify-check\<close> verifies the proof that \<open>emit_artifacts\<close> writes. They touch no
  account; a result is the return data, where the program sets any. The log lines are left out.
\<close>

section \<open>\<open>cu-probe\<close>\<close>

text \<open>The curve syscalls, \<open>None\<close> for an error, and the field crate.\<close>

record 'f probe_ops =
  alt_bn128_multiplication :: "bytes \<Rightarrow> bytes option"
  alt_bn128_addition :: "bytes \<Rightarrow> bytes option"
  fr_from_u64 :: "u64 \<Rightarrow> 'f"
  fr_mul :: "'f \<Rightarrow> 'f \<Rightarrow> 'f"
  fr_to_bytes_be :: "'f \<Rightarrow> bytes"

definition probe_be32 :: "u64 \<Rightarrow> bytes" where
  "probe_be32 n = patch (replicate 32 0) 24 (rev (u64_to_le n))"

definition probe_g1 :: bytes where
  "probe_g1 = patch (patch (replicate 64 0) 0 (probe_be32 1)) 32 (probe_be32 2)"

text \<open>\<open>for _ in 0..n { sink[0] ^= f(input)?[0] }\<close>.\<close>

fun probe_loop :: "nat \<Rightarrow> (bytes \<Rightarrow> bytes option) \<Rightarrow> bytes \<Rightarrow> u8 \<Rightarrow> (program_error, u8) outcome" where
  "probe_loop 0 f input acc = Ok acc"
| "probe_loop (Suc n) f input acc =
     (case f input of None \<Rightarrow> Err InvalidInstructionData
      | Some out \<Rightarrow> and_then (byte_at out 0) (\<lambda>b. probe_loop n f input (xor acc b)))"

fun fr_loop :: "'f probe_ops \<Rightarrow> nat \<Rightarrow> 'f \<Rightarrow> 'f \<Rightarrow> 'f" where
  "fr_loop X 0 m acc = acc"
| "fr_loop X (Suc n) m acc = fr_loop X n m (fr_mul X acc m)"

definition cu_probe :: "'f probe_ops \<Rightarrow> bytes \<Rightarrow> (program_error, bytes) outcome" where
  "cu_probe X data =
     (if length data < 5 then Err InvalidInstructionData
      else
        let mode = data ! 0; n = nat_of_le (sub data 1 4); sink = replicate 32 0 in
        if mode = 0 then
          let input = patch (patch (replicate 96 0) 0 probe_g1) 64 (probe_be32 7) in
          map_ok (\<lambda>b. patch sink 0 [b]) (probe_loop n (alt_bn128_multiplication X) input 0)
        else if mode = 1 then
          let input = patch (patch (replicate 128 0) 0 probe_g1) 64 probe_g1 in
          map_ok (\<lambda>b. patch sink 0 [b]) (probe_loop n (alt_bn128_addition X) input 0)
        else if mode = 3 then
          let b = fr_to_bytes_be X (fr_loop X n (fr_from_u64 X 7) (fr_from_u64 X 3)) in
          Ok (patch sink 0 (take (min (length b) 32) b))
        else Err InvalidInstructionData)"

text \<open>The loop reports the first byte of the result if it ran an odd number of times, else zero.\<close>

lemma probe_loop_parity:
  "f input = Some (b # bs) \<Longrightarrow> probe_loop n f input acc = Ok (if even n then acc else xor acc b)"
  by (induction n arbitrary: acc) (auto simp: byte_at_def ac_simps)

lemma fr_loop_power: "fr_loop X n m acc = ((\<lambda>a. fr_mul X a m) ^^ n) acc"
  by (induction n arbitrary: acc) (simp_all add: funpow_swap1 [of "\<lambda>a. fr_mul X a m", symmetric])

lemma cu_probe_returns:
  assumes "cu_probe X data = Ok r"
  shows "length r = 32 \<and> 5 \<le> length data \<and> data ! 0 \<in> {0, 1, 3}"
  using assms
  by (auto simp: cu_probe_def Let_def outcome_simps not_less split: if_splits)

section \<open>\<open>poseidon-syscall-check\<close>\<close>

definition syscall_check :: "runtime \<Rightarrow> bytes \<Rightarrow> (program_error, bytes) outcome" where
  "syscall_check rt data =
     (if length data < 64 then Err InvalidInstructionData
      else
        case poseidon_syscall rt [b32_at data 0, b32_at data 32] of
          None \<Rightarrow> Err InvalidInstructionData
        | Some out \<Rightarrow>
            if 96 \<le> length data \<and> b32_bytes out \<noteq> sub data 64 32 then Err (Custom 1)
            else Ok (b32_bytes out))"

text \<open>Accepting three words says that the runtime's hash of the first two is the third.\<close>

lemma syscall_check_parity:
  "syscall_check rt (b32_bytes a @ b32_bytes b @ b32_bytes h) = Ok r \<longleftrightarrow>
     poseidon_syscall rt [a, b] = Some h \<and> r = b32_bytes h"
proof -
  let ?d = "b32_bytes a @ b32_bytes b @ b32_bytes h"
  have "sub ?d 64 32 = b32_bytes h"
    by (simp add: sub_def)
  moreover have "b32_at ?d 0 = a" "b32_at ?d 32 = b"
    by (simp_all add: b32_at_def sub_def)
  ultimately show ?thesis
    by (auto simp: syscall_check_def split: option.splits)
qed

section \<open>\<open>groth16-verify-check\<close>\<close>

text \<open>
  The verifier crate: \<open>None\<close> where \<open>Groth16Verifier::new\<close> fails, else whether \<open>verify\<close> accepts. The
  key is the embedded \<open>vk.rs\<close>, with three public inputs declared.
\<close>

type_synonym groth16 = "nat \<Rightarrow> vk_bytes \<Rightarrow> bytes \<Rightarrow> bytes \<Rightarrow> bytes \<Rightarrow> bytes32 list \<Rightarrow> bool option"

definition groth16_check :: "groth16 \<Rightarrow> vk_bytes \<Rightarrow> bytes \<Rightarrow> (program_error, unit) outcome" where
  "groth16_check G vk data =
     (if length data \<noteq> 256 + 3 * 32 then Err InvalidInstructionData
      else
        let proof_a = sub data 0 64; proof_b = sub data 64 128; proof_c = sub data 192 64;
            public = map (\<lambda>i. b32_at data (256 + i * 32)) [0..<3]
        in
        case G 3 vk proof_a proof_b proof_c public of
          None \<Rightarrow> Err InvalidInstructionData
        | Some accepted \<Rightarrow> if accepted then Ok () else Err (Custom 1))"

lemma groth16_check_data:
  assumes "proof_ok p" and "length public = 3"
  shows "groth16_check G vk (pb_a p @ pb_b p @ pb_c p @ concat (map b32_bytes public)) =
    (case G 3 vk (pb_a p) (pb_b p) (pb_c p) public of
       None \<Rightarrow> Err InvalidInstructionData
     | Some accepted \<Rightarrow> if accepted then Ok () else Err (Custom 1))"
proof -
  let ?d = "pb_a p @ pb_b p @ pb_c p @ concat (map b32_bytes public)"
  have "map (\<lambda>i. b32_at ?d (256 + i * 32)) [0..<3] = public"
    using assms by (intro nth_equalityI) (simp_all add: public_fields)
  moreover have "length ?d = 256 + 3 * 32"
    using assms by (simp add: proof_ok_def length_chunks)
  ultimately show ?thesis
    using proof_slices(1-3) [OF assms(1)] by (simp add: groth16_check_def)
qed

end
