(* ===== verification/Artifact_Properties.thy ===== *)
theory Artifact_Properties
  imports Artifacts Probes Wallet_Properties
begin

text \<open>
  What \<open>emit_artifacts\<close> writes and what the measuring program \<open>groth16-verify-check\<close> makes of it, and
  the table \<open>emit_tree_consts\<close> writes.
\<close>

section \<open>Reading the inputs\<close>

text \<open>\<open>json_at W s p v\<close>: the file holds JSON that parses to \<open>v\<close>.\<close>

definition json_at :: "'j wallet \<Rightarrow> wallet_state \<Rightarrow> string \<Rightarrow> 'j \<Rightarrow> bool" where
  "json_at W s p v \<longleftrightarrow> (\<exists>b. ws_files s p = Some b \<and> j_from_slice (w_json W) b = Some v)"

lemma read_json_file_Ok_iff [command_simps]:
  "read_json_file W p s = (Inr v, t) \<longleftrightarrow> json_at W s p v \<and> t = s"
  by (auto simp: read_json_file_def json_at_def outcome_simps)

lemma write_bytes_or_panic_Ok_iff [command_simps]:
  "write_bytes_or_panic W p b s = (Inr u, t) \<longleftrightarrow> w_can_write W p \<and>
     t = s\<lparr>ws_files := (ws_files s)(p \<mapsto> b), ws_events := ws_events s @ [Wrote p b]\<rparr>"
  by (auto simp: write_bytes_or_panic_def write_file_def)

lemma nth_value_Ok_iff [outcome_simps]: "nth_value xs i = Inr x \<longleftrightarrow> i < length xs \<and> x = xs ! i"
  by (auto simp: nth_value_def)

text \<open>
  C38: The artifacts of a proof lead to the verifier's verdict. What \<open>emit_artifacts\<close> writes are a Rust
  source that names exactly one verifying key, the one read, and the bytes of the proof and the
  public inputs read; a program with that key embedded, given these bytes, returns what the verifier
  says of exactly this key, proof and inputs if there are three of them, and refuses the data otherwise.
\<close>

theorem artifacts_reach_the_verifier:
  assumes "emit_artifacts W F args s = (Ok u, t)"
  shows "\<exists>vk p public vk_json proof_json public_json src data.
    json_at W s (path_join (args ! 1) ''verification_key.json'') vk_json \<and>
    vk_from_json (w_json W) F vk_json = Ok vk \<and>
    json_at W s (path_join (args ! 1) ''proof.json'') proof_json \<and>
    proof_from_json (w_json W) F proof_json = Ok p \<and>
    json_at W s (path_join (args ! 1) ''public.json'') public_json \<and>
    public_from_json (w_json W) F public_json = Ok public \<and>
    ws_events t = ws_events s @ [Wrote (path_join (args ! 2) ''vk.rs'') src,
      Wrote (path_join (args ! 2) ''instruction.bin'') data] \<and>
    src = as_bytes (vk_rs (''--real'' \<in> set args) vk) \<and>
    (\<forall>real' vk'. as_bytes (vk_rs real' vk') = src \<longrightarrow> vk' = vk) \<and>
    length data = 256 + length public * 32 \<and>
    (\<forall>G. groth16_check G vk data =
       (if length public = 3 then
          (case G 3 vk (pb_a p) (pb_b p) (pb_c p) public of
             None \<Rightarrow> Err InvalidInstructionData
           | Some accepted \<Rightarrow> if accepted then Ok () else Err (Custom 1))
        else Err InvalidInstructionData))"
proof -
  let ?J = "w_json W"
  obtain vk p public vk_json proof_json public_json where
    vk: "json_at W s (path_join (args ! 1) ''verification_key.json'') vk_json" "vk_from_json ?J F vk_json = Ok vk"
    and p: "json_at W s (path_join (args ! 1) ''proof.json'') proof_json" "proof_from_json ?J F proof_json = Ok p"
    and public: "json_at W s (path_join (args ! 1) ''public.json'') public_json"
      "public_from_json ?J F public_json = Ok public"
    and t: "ws_events t = ws_events s @ [
      Wrote (path_join (args ! 2) ''vk.rs'') (as_bytes (vk_rs (''--real'' \<in> set args) vk)),
      Wrote (path_join (args ! 2) ''instruction.bin'') (artifact_data p public)]"
    using assms
    by (auto simp: emit_artifacts_def Let_def command_simps outcome_simps write_or_panic_Ok_iff list_ex_iff)
  have ok: "proof_ok p"
    by (rule proof_from_json_ok [OF p(2)])
  then have len: "length (artifact_data p public) = 256 + length public * 32"
    by (simp add: artifact_data_def proof_ok_def length_chunks)
  have inj: "\<forall>real' vk'. as_bytes (vk_rs real' vk') = as_bytes (vk_rs real vk) \<longrightarrow> vk' = vk" for real
    using as_bytes_inj vk_rs_inj by blast
  have "groth16_check G vk (artifact_data p public) =
      (if length public = 3 then
         (case G 3 vk (pb_a p) (pb_b p) (pb_c p) public of
            None \<Rightarrow> Err InvalidInstructionData
          | Some accepted \<Rightarrow> if accepted then Ok () else Err (Custom 1))
       else Err InvalidInstructionData)" for G
    using groth16_check_data [OF ok, of public G vk] len
    by (simp add: artifact_data_def groth16_check_def)
  then show ?thesis
    using vk p public t inj len by blast
qed

definition demo_points :: "nat \<Rightarrow> json_lit" where
  "demo_points n = LArr (replicate n (LArr (replicate 3 (LStr ''x''))))"

definition demo_artifacts :: files where
  "demo_artifacts =
     (let g1 = LArr (replicate 3 (LStr ''x'')); g2 = LArr (replicate 3 (LArr (replicate 2 (LStr ''x''))))
      in [''g/verification_key.json'' \<mapsto> as_bytes (demo_to_string (LObj [(''vk_alpha_1'', g1), (''vk_beta_2'', g2),
            (''vk_gamma_2'', g2), (''vk_delta_2'', g2), (''IC'', demo_points 4)])),
          ''g/proof.json'' \<mapsto> as_bytes (demo_to_string (LObj [(''pi_a'', g1), (''pi_b'', g2), (''pi_c'', g1)])),
          ''g/public.json'' \<mapsto> as_bytes (demo_to_string (LArr [LStr ''r'', LStr ''nn'', LStr ''ccc'']))])"

definition demo_artifact_state :: wallet_state where
  "demo_artifact_state = \<lparr>ws_files = demo_artifacts, ws_drawn = 0, ws_events = []\<rparr>"

lemmas point_simps =
  g1_def g2_def coordinate_def coordinate_bytes_def nth_value_def nth_array_def fq_def fq_bytes_def
  to32_def demo_field_def unary_json_simps Let_def numeral_3_eq_3 numeral_2_eq_2

lemma emit_artifacts_runs:
  assumes "read_json_file W (path_join g ''verification_key.json'') s = (Ok a, s)"
    and "read_json_file W (path_join g ''proof.json'') s = (Ok b, s)"
    and "read_json_file W (path_join g ''public.json'') s = (Ok c, s)"
    and "vk_from_json (w_json W) F a = Ok vk" and "proof_from_json (w_json W) F b = Ok p"
    and "public_from_json (w_json W) F c = Ok xs" and "\<And>p. w_can_write W p"
    and "vb_ic vk \<noteq> []"
  shows "\<exists>t. emit_artifacts W F [e, g, out] s = (Ok (), t)"
  using assms by (simp add: emit_artifacts_def Let_def cbind_def lift_def nth_value_def write_or_panic_def
      write_bytes_or_panic_def write_file_def)

lemma demo_artifacts_emitted:
  "\<exists>t. emit_artifacts demo_wallet demo_field [''emit'', ''g'', ''o''] demo_artifact_state = (Ok (), t)"
proof -
  let ?g1 = "LArr (replicate 3 (LStr ''x''))" and ?g2 = "LArr (replicate 3 (LArr (replicate 2 (LStr ''x''))))"
  let ?vk = "LObj [(''vk_alpha_1'', ?g1), (''vk_beta_2'', ?g2), (''vk_gamma_2'', ?g2), (''vk_delta_2'', ?g2),
    (''IC'', demo_points 4)]"
  let ?proof = "LObj [(''pi_a'', ?g1), (''pi_b'', ?g2), (''pi_c'', ?g1)]"
    and ?public = "LArr [LStr ''r'', LStr ''nn'', LStr ''ccc'']"
  obtain vk where vk: "vk_from_json unary_json demo_field (demo_value ?vk) = Ok vk" "vb_ic vk \<noteq> []"
    by (atomize_elim) (simp add: vk_from_json_def point_simps demo_points_def eval_nat_numeral)
  obtain p where p: "proof_from_json unary_json demo_field (demo_value ?proof) = Ok p"
    by (atomize_elim) (simp add: proof_from_json_def point_simps)
  obtain xs where xs: "public_from_json unary_json demo_field (demo_value ?public) = Ok xs"
    by (atomize_elim) (simp add: public_from_json_def fr_be_def point_simps)
  have files: "read_json_file demo_wallet ''g/verification_key.json'' s = (Ok (demo_value ?vk), s)"
    "read_json_file demo_wallet ''g/proof.json'' s = (Ok (demo_value ?proof), s)"
    "read_json_file demo_wallet ''g/public.json'' s = (Ok (demo_value ?public), s)"
    if "ws_files s = demo_artifacts" for s
    using that by (simp_all add: read_json_file_def demo_artifacts_def Let_def unary_json_simps(1) del: demo_value.simps)
  have s: "ws_files demo_artifact_state = demo_artifacts"
    by (simp add: demo_artifact_state_def)
  show ?thesis
    using files [OF s] vk p xs
    by (intro emit_artifacts_runs) (simp_all add: path_join_def del: demo_value.simps)
qed

lemma demo_public_length:
  assumes "json_at demo_wallet demo_artifact_state ''g/public.json'' v"
    and "public_from_json unary_json demo_field v = Ok xs"
  shows "length xs = 3"
proof -
  have "v = demo_value (LArr [LStr ''r'', LStr ''nn'', LStr ''ccc''])"
    using assms(1) by (auto simp: json_at_def demo_artifact_state_def demo_artifacts_def Let_def unary_json_simps(1)
        simp del: demo_value.simps)
  with assms(2) show ?thesis
    by (auto simp: public_from_json_def unary_json_simps outcome_simps)
qed

theorem artifacts_reach_the_verifier_witness:
  "\<exists>t vk p data. emit_artifacts demo_wallet demo_field [''emit'', ''g'', ''o''] demo_artifact_state = (Ok (), t) \<and>
     Wrote ''o/vk.rs'' (as_bytes (vk_rs False vk)) \<in> set (ws_events t) \<and>
     Wrote ''o/instruction.bin'' data \<in> set (ws_events t) \<and> length (pb_a (p :: proof_bytes)) = 64 \<and>
     groth16_check (\<lambda>n k a b c xs. Some (k = vk \<and> a = pb_a p \<and> length xs = 3)) vk data = Ok ()"
proof -
  obtain t where t: "emit_artifacts demo_wallet demo_field [''emit'', ''g'', ''o''] demo_artifact_state = (Ok (), t)"
    using demo_artifacts_emitted by blast
  obtain vk p public proof_json public_json src data where
    j: "json_at demo_wallet demo_artifact_state (path_join ([''emit'', ''g'', ''o''] ! 1) ''public.json'') public_json"
      "public_from_json (w_json demo_wallet) demo_field public_json = Ok public"
    and p: "proof_from_json (w_json demo_wallet) demo_field proof_json = Ok p"
    and ev: "ws_events t = ws_events demo_artifact_state @ [Wrote (path_join ([''emit'', ''g'', ''o''] ! 2) ''vk.rs'') src,
      Wrote (path_join ([''emit'', ''g'', ''o''] ! 2) ''instruction.bin'') data]"
    and src: "src = as_bytes (vk_rs (''--real'' \<in> set [''emit'', ''g'', ''o'']) vk)"
    and check: "\<forall>G. groth16_check G vk data =
       (if length public = 3 then
          (case G 3 vk (pb_a p) (pb_b p) (pb_c p) public of
             None \<Rightarrow> Err InvalidInstructionData
           | Some accepted \<Rightarrow> if accepted then Ok () else Err (Custom 1))
        else Err InvalidInstructionData)"
    using artifacts_reach_the_verifier [OF t] by (elim exE conjE) (rule that, assumption+)
  have "length public = 3"
    using j by (intro demo_public_length [of public_json]) (simp_all add: path_join_def)
  moreover have "length (pb_a p) = 64"
    using proof_from_json_ok [OF p] by (simp add: proof_ok_def)
  ultimately show ?thesis
    using t ev src check by (intro exI [of _ t] exI [of _ vk] exI [of _ p] exI [of _ data])
      (simp add: path_join_def)
qed

section \<open>The tree's table\<close>

text \<open>The source written is the program's own exactly if the hash is the one it was generated with.\<close>

lemma emitted_table:
  assumes "hashes_to (poseidon2 (w_poseidon W)) H" and "emit_tree_consts_main W args s = (Ok u, t)"
  shows "\<exists>src. ws_events t = ws_events s @ [Wrote (args ! 1) (as_bytes src)] \<and>
    (src = tree_consts_rs ZEROS EMPTY_ROOT \<longleftrightarrow> consts_match H)"
proof -
  obtain zeros root where e: "emit_tree_consts (w_poseidon W) = Some (zeros, root)"
    and t: "ws_events t = ws_events s @ [Wrote (args ! 1) (as_bytes (tree_consts_rs zeros root))]"
    using assms(2)
    by (auto simp: emit_tree_consts_main_def command_simps outcome_simps write_or_panic_Ok_iff)
  have "consts_match H \<longleftrightarrow> (zeros, root) = (ZEROS, EMPTY_ROOT)"
    using consts_match_emitted [OF assms(1)] e by simp
  then show ?thesis
    using t tree_consts_rs_inj by blast
qed

end
