(* ===== verification/Sample_Programs.thy ===== *)
theory Sample_Programs
  imports Pool_Program
begin

text \<open>
  The two sample programs kept beside the pool: the shared canvas (\<open>programs/rplace\<close>) and the pet
  whose stats decay with on-chain time (\<open>programs/tamagotchi\<close>). The slot of the \<open>Clock\<close> sysvar is
  an argument.
\<close>

section \<open>r/place\<close>

definition CANVAS_W :: nat where "CANVAS_W = 32"
definition CANVAS_H :: nat where "CANVAS_H = 32"
definition CANVAS_SIZE :: nat where "CANVAS_SIZE = CANVAS_W * CANVAS_H"

definition CANVAS_SEED :: bytes where
  "CANVAS_SEED = map of_char ''canvas''"

definition paint :: "account_info \<Rightarrow> bytes \<Rightarrow> ledger \<Rightarrow> (program_error, ledger) outcome" where
  "paint canvas args L =
     and_then (reject_if (length args \<noteq> 3) InvalidInstructionData) (\<lambda>_.
     let x = unat (args ! 0); y = unat (args ! 1); color = args ! 2 AND 0x0F in
     and_then (reject_if (CANVAS_W \<le> x \<or> CANVAS_H \<le> y) InvalidInstructionData) (\<lambda>_.
     and_then (reject_if (length (data_of L canvas) < CANVAS_SIZE) UninitializedAccount) (\<lambda>_.
     and_then (set_byte (data_of L canvas) (y * CANVAS_W + x) color) (\<lambda>d.
       Ok (set_data L (ai_key canvas) d)))))"

definition rplace_process_instruction ::
    "runtime \<Rightarrow> pubkey \<Rightarrow> account_info list \<Rightarrow> bytes \<Rightarrow> ledger \<Rightarrow> (program_error, ledger) outcome" where
  "rplace_process_instruction rt program_id accounts data L =
     (case data of
        [] \<Rightarrow> Err InvalidInstructionData
      | tag # args \<Rightarrow>
          and_then (next_account_info accounts) (\<lambda>(payer, accounts).
          and_then (next_account_info accounts) (\<lambda>(canvas, accounts).
          let (canvas_pda, bump) = find_program_address rt [CANVAS_SEED] program_id in
          and_then (reject_if (ai_key canvas \<noteq> canvas_pda) InvalidSeeds) (\<lambda>_.
            if tag = 0 then
              and_then (next_account_info accounts) (\<lambda>(system, accounts).
              and_then (reject_if (\<not> is_signer payer) MissingRequiredSignature) (\<lambda>_.
              and_then (rent_get rt) (\<lambda>minimum_balance.
                cpi rt
                  (create_account_ix (ai_key payer) (ai_key canvas) (minimum_balance CANVAS_SIZE)
                     (word_of_nat CANVAS_SIZE) program_id)
                  [payer, canvas, system] [[CANVAS_SEED, [bump]]] L)))
            else if tag = 1 then paint canvas args L
            else Err InvalidInstructionData))))"

text \<open>The canvas as a picture, and the bytes a canvas account may hold.\<close>

definition pixel :: "bytes \<Rightarrow> nat \<Rightarrow> nat \<Rightarrow> byte" where
  "pixel d x y = d ! (y * 32 + x)"

definition canvas_ok :: "bytes \<Rightarrow> bool" where
  "canvas_ok d \<longleftrightarrow> length d = 1024 \<and> (\<forall>b \<in> set d. b < 16)"

lemma low_nibble: "(c :: byte) AND 0x0F < 16"
proof -
  have "c AND 0x0F = take_bit 4 c"
    by (simp add: take_bit_eq_mask mask_eq_exp_minus_1)
  then have "unat (c AND 0x0F) = unat c mod 16"
    by (simp add: take_bit_eq_mod unat_mod)
  then show ?thesis
    by (simp add: word_less_nat_alt)
qed

lemma pixel_index:
  "x < 32 \<Longrightarrow> x' < 32 \<Longrightarrow> y * 32 + x = y' * 32 + x' \<longleftrightarrow> x = x' \<and> (y :: nat) = y'"
  by (metis add.commute div_mult_self3 mod_mult_self3 div_less mod_less zero_neq_numeral add_0)

lemma paint_Ok_iff:
  "paint canvas args L = Ok L' \<longleftrightarrow>
     length args = 3 \<and> unat (args ! 0) < 32 \<and> unat (args ! 1) < 32 \<and> 1024 \<le> length (data_of L canvas) \<and>
     L' = set_data L (ai_key canvas)
       ((data_of L canvas)[unat (args ! 1) * 32 + unat (args ! 0) := args ! 2 AND 0x0F])"
proof -
  have "unat (args ! 1) * 32 + unat (args ! 0) < length (data_of L canvas)"
    if "unat (args ! 0) < 32" "unat (args ! 1) < 32" "1024 \<le> length (data_of L canvas)"
    using that by linarith
  then show ?thesis
    by (auto simp: paint_def CANVAS_W_def CANVAS_H_def CANVAS_SIZE_def Let_def outcome_simps not_le not_less)
qed

lemma canvas_ok_update:
  assumes "canvas_ok d" and "x < 32" and "y < 32"
  shows "canvas_ok (d[y * 32 + x := c AND 0x0F])"
    and "x' < 32 \<Longrightarrow> y' < 32 \<Longrightarrow> pixel (d[y * 32 + x := c AND 0x0F]) x' y' =
      (if x' = x \<and> y' = y then c AND 0x0F else pixel d x' y')"
  using assms low_nibble [of c] pixel_index [of x x' y y']
  by (auto simp: canvas_ok_def pixel_def nth_list_update dest: set_update_subset_insert [THEN subsetD])

section \<open>The pet\<close>

definition PET_SIZE :: nat where "PET_SIZE = 28"

definition PET_SEED :: bytes where
  "PET_SEED = map of_char ''pet''"

definition sat_add :: "u8 \<Rightarrow> u8 \<Rightarrow> u8" where
  "sat_add a b = word_of_nat (min 255 (unat a + unat b))"

definition sat_sub :: "u8 \<Rightarrow> u8 \<Rightarrow> u8" where
  "sat_sub a b = word_of_nat (unat a - unat b)"

text \<open>\<open>(a as u16 + b).min(100) as u8\<close>.\<close>

definition add_max100 :: "u8 \<Rightarrow> nat \<Rightarrow> u8" where
  "add_max100 a b = word_of_nat (min 100 (unat a + b))"

record pet_state =
  hunger :: u8
  happiness :: u8
  energy :: u8
  alive :: u8

definition slots_elapsed :: "u64 \<Rightarrow> u64 \<Rightarrow> u8" where
  "slots_elapsed now prev = word_of_nat (min 255 (unat now - unat prev))"

text \<open>The decay applied before every action, and the starvation check.\<close>

definition age :: "u8 \<Rightarrow> pet_state \<Rightarrow> pet_state" where
  "age elapsed p =
     (let h = sat_add (hunger p) elapsed in
      \<lparr>hunger = h, happiness = sat_sub (happiness p) elapsed,
       energy = sat_sub (energy p) (elapsed div 2),
       alive = (if alive p = 1 \<and> 100 \<le> h then 0 else alive p)\<rparr>)"

definition act :: "u8 \<Rightarrow> pet_state \<Rightarrow> (program_error, pet_state) outcome" where
  "act tag p =
     (if alive p = 1 then
        if tag = 1 then
          Ok (p\<lparr>hunger := sat_sub (hunger p) 40, happiness := add_max100 (happiness p) 5\<rparr>)
        else if tag = 2 then
          Ok (p\<lparr>happiness := add_max100 (happiness p) 25, energy := sat_sub (energy p) 20,
                hunger := add_max100 (hunger p) 10\<rparr>)
        else if tag = 3 then Ok (p\<lparr>energy := 100\<rparr>)
        else if tag = 4 then Ok p
        else Err InvalidInstructionData
      else Ok p)"

definition read_pet :: "bytes \<Rightarrow> pet_state" where
  "read_pet d = \<lparr>hunger = d ! 8, happiness = d ! 9, energy = d ! 10, alive = d ! 11\<rparr>"

definition write_pet :: "u64 \<Rightarrow> pet_state \<Rightarrow> bytes \<Rightarrow> bytes" where
  "write_pet now p d =
     (patch d 0 (u64_to_le now))[8 := hunger p, 9 := happiness p, 10 := energy p, 11 := alive p]"

definition hatch ::
    "runtime \<Rightarrow> u64 \<Rightarrow> pubkey \<Rightarrow> account_info list \<Rightarrow> account_info \<Rightarrow> account_info \<Rightarrow> u8 \<Rightarrow> bytes
      \<Rightarrow> ledger \<Rightarrow> (program_error, ledger) outcome" where
  "hatch rt now program_id accounts owner pet bump args L =
     and_then (next_account_info accounts) (\<lambda>(system, accounts).
     and_then (reject_if (\<not> is_signer owner) MissingRequiredSignature) (\<lambda>_.
     and_then (rent_get rt) (\<lambda>minimum_balance.
     and_then (cpi rt
       (create_account_ix (ai_key owner) (ai_key pet) (minimum_balance PET_SIZE)
          (word_of_nat PET_SIZE) program_id)
       [owner, pet, system] [[PET_SEED, b32_bytes (ai_key owner), [bump]]] L) (\<lambda>L.
     let d = data_of L pet; n = min (length args) 16 in
     and_then (write_at d 0 (u64_to_le now)) (\<lambda>d.
     and_then (set_byte d 8 20) (\<lambda>d.
     and_then (set_byte d 9 80) (\<lambda>d.
     and_then (set_byte d 10 80) (\<lambda>d.
     and_then (set_byte d 11 1) (\<lambda>d.
     and_then (write_at d 12 (take n args)) (\<lambda>d.
       Ok (set_data L (ai_key pet) d)))))))))))"

definition tamagotchi_process_instruction ::
    "runtime \<Rightarrow> u64 \<Rightarrow> pubkey \<Rightarrow> account_info list \<Rightarrow> bytes \<Rightarrow> ledger \<Rightarrow> (program_error, ledger) outcome" where
  "tamagotchi_process_instruction rt now program_id accounts data L =
     (case data of
        [] \<Rightarrow> Err InvalidInstructionData
      | tag # args \<Rightarrow>
          and_then (next_account_info accounts) (\<lambda>(owner, accounts).
          and_then (next_account_info accounts) (\<lambda>(pet, accounts).
          let (pet_pda, bump) =
                find_program_address rt [PET_SEED, b32_bytes (ai_key owner)] program_id in
          and_then (reject_if (ai_key pet \<noteq> pet_pda) InvalidSeeds) (\<lambda>_.
            if tag = 0 then hatch rt now program_id accounts owner pet bump args L
            else
              and_then (reject_if (length (data_of L pet) < PET_SIZE) UninitializedAccount) (\<lambda>_.
              let d = data_of L pet; elapsed = slots_elapsed now (u64_from_le (sub d 0 8)) in
              and_then (act tag (age elapsed (read_pet d))) (\<lambda>p.
                Ok (set_data L (ai_key pet) (write_pet now p d))))))))"

lemma sat_simps:
  "unat (sat_add a b) = min 255 (unat a + unat b)"
  "unat (sat_sub a b) = unat a - unat b"
  "n \<le> 155 \<Longrightarrow> unat (add_max100 a n) = min 100 (unat a + n)"
proof -
  have "unat a - unat b < 256"
    using unat_byte_less [of a] by linarith
  then show "unat (sat_sub a b) = unat a - unat b"
    by (simp add: sat_sub_def unat_of_nat)
qed (simp_all add: sat_add_def add_max100_def unat_of_nat min_def)

lemma unat_elapsed: "unat (slots_elapsed now prev) = min 255 (unat now - unat prev)"
  by (simp add: slots_elapsed_def unat_of_nat min_def)

text \<open>The stats a pet account may hold.\<close>

definition pet_ok :: "pet_state \<Rightarrow> bool" where
  "pet_ok p \<longleftrightarrow> unat (happiness p) \<le> 100 \<and> unat (energy p) \<le> 100 \<and>
     (alive p = 0 \<or> alive p = 1 \<and> unat (hunger p) \<le> 100)"

lemma age_alive: "alive (age e p) = 1 \<longleftrightarrow> alive p = 1 \<and> unat (hunger p) + unat e < 100"
  by (auto simp: age_def Let_def word_le_nat_alt sat_simps)

lemma age_dead: "alive p = 0 \<Longrightarrow> alive (age e p) = 0"
  by (simp add: age_def Let_def)

lemma age_ok:
  assumes "pet_ok p"
  shows "pet_ok (age e p)"
  using assms by (auto simp: pet_ok_def age_def Let_def sat_simps word_le_nat_alt)

lemma act_ok:
  assumes "pet_ok p" and "act tag p = Ok p'"
  shows "pet_ok p'" and "alive p' = alive p"
  using assms by (auto simp: act_def pet_ok_def sat_simps split: if_splits)

text \<open>Writing a pet to the account's bytes and reading it back.\<close>

lemma read_write_pet:
  assumes "28 \<le> length d"
  shows "read_pet (write_pet now p d) = p" and "length (write_pet now p d) = length d"
    and "sub (write_pet now p d) 0 8 = u64_to_le now"
    and "drop 12 (write_pet now p d) = drop 12 d"
proof -
  show "read_pet (write_pet now p d) = p" and "length (write_pet now p d) = length d"
    using assms by (simp_all add: read_pet_def write_pet_def nth_list_update)
  show "sub (write_pet now p d) 0 8 = u64_to_le now"
    using assms by (simp add: write_pet_def bytes_simps)
  show "drop 12 (write_pet now p d) = drop 12 d"
    using assms by (simp add: write_pet_def patch_def)
qed

lemma tamagotchi_action_Ok:
  assumes "tamagotchi_process_instruction rt now pid accounts (tag # args) L = Ok L'" and "tag \<noteq> 0"
  obtains owner pet rest p where "accounts = owner # pet # rest"
    and "ai_key pet = fst (find_program_address rt [PET_SEED, b32_bytes (ai_key owner)] pid)"
    and "28 \<le> length (data_of L pet)"
    and "act tag (age (slots_elapsed now (u64_from_le (sub (data_of L pet) 0 8)))
           (read_pet (data_of L pet))) = Ok p"
    and "L' = set_data L (ai_key pet) (write_pet now p (data_of L pet))"
  using assms
  by (auto simp: tamagotchi_process_instruction_def PET_SIZE_def Let_def outcome_simps split_beta
      not_less)

lemma hatch_Ok:
  assumes "hatch rt now pid accounts owner pet bump args L = Ok L'" and "create_account_law rt"
  shows "read_pet (acc_data (L' (ai_key pet))) = \<lparr>hunger = 20, happiness = 80, energy = 80, alive = 1\<rparr>"
    and "length (acc_data (L' (ai_key pet))) = 28"
    and "sub (acc_data (L' (ai_key pet))) 0 8 = u64_to_le now"
    and "sub (acc_data (L' (ai_key pet))) 12 (min (length args) 16) = take (min (length args) 16) args"
    and "k \<noteq> ai_key pet \<Longrightarrow> acc_data (L' k) = acc_data (L k)"
    and "acc_owner (L (ai_key pet)) = SYSTEM_PROGRAM"
proof -
  let ?n = "min (length args) 16"
  obtain system rest mb L1 where create: "cpi rt (create_account_ix (ai_key owner) (ai_key pet)
      (mb PET_SIZE) (word_of_nat PET_SIZE) pid) [owner, pet, system]
      [[PET_SEED, b32_bytes (ai_key owner), [bump]]] L = Ok L1"
    and L': "L' = set_data L1 (ai_key pet)
      (patch ((patch (data_of L1 pet) 0 (u64_to_le now))[8 := 20, 9 := 80, 10 := 80, 11 := 1]) 12
        (take ?n args))"
    using assms(1) by (auto simp: hatch_def Let_def outcome_simps)
  note c = create_account_spec [OF assms(2) create]
  have d: "data_of L1 pet = replicate 28 0"
    using c(2) by (simp add: data_of_def PET_SIZE_def)
  define d1 where "d1 = (patch (replicate 28 0) 0 (u64_to_le now))[8 := 20, 9 := 80, 10 := 80, 11 := 1 :: u8]"
  have data: "acc_data (L' (ai_key pet)) = patch d1 12 (take ?n args)"
    by (simp add: L' d d1_def)
  have len: "length d1 = 28" and fit: "12 + length (take ?n args) \<le> length d1"
    by (simp_all add: d1_def)
  have stats: "d1 ! 8 = 20" "d1 ! 9 = 80" "d1 ! 10 = 80" "d1 ! 11 = 1" and slot: "sub d1 0 8 = u64_to_le now"
    by (simp_all add: d1_def bytes_simps)
  show "read_pet (acc_data (L' (ai_key pet))) = \<lparr>hunger = 20, happiness = 80, energy = 80, alive = 1\<rparr>"
    using fit stats by (simp add: data read_pet_def nth_patch_outside)
  show "length (acc_data (L' (ai_key pet))) = 28"
    using length_patch [OF fit] by (simp only: data len)
  show "sub (acc_data (L' (ai_key pet))) 0 8 = u64_to_le now"
    using len slot by (simp add: data sub_patch_before)
  show "sub (acc_data (L' (ai_key pet))) 12 ?n = take ?n args"
    unfolding data by (rule sub_patch_same [OF fit]) simp
  show "k \<noteq> ai_key pet \<Longrightarrow> acc_data (L' k) = acc_data (L k)"
    using c(4) by (simp add: L')
  show "acc_owner (L (ai_key pet)) = SYSTEM_PROGRAM"
    by (rule c(1))
qed

end
