(* ===== verification/Sample_Properties.thy ===== *)
theory Sample_Properties
  imports Sample_Programs Demo_Runtime
begin

text \<open>
  What the sample programs guarantee: a canvas only ever changes by one painted pixel, a pet's stats
  stay in their ranges, and a neglected pet starves.
\<close>

text \<open>
  A successful instruction on an existing canvas is a paint of one pixel inside the picture
  with a palette colour: the account keeps 1024 palette bytes, every other pixel and every other
  account is as before.
\<close>

theorem canvas_changes_by_paint:
  assumes "create_account_law rt" and "pid \<noteq> SYSTEM_PROGRAM"
    and "key = fst (find_program_address rt [CANVAS_SEED] pid)"
    and "acc_owner (L key) = pid" and "canvas_ok (acc_data (L key))"
    and "rplace_process_instruction rt pid accounts data L = Ok L'"
  shows "canvas_ok (acc_data (L' key)) \<and> (\<forall>k. k \<noteq> key \<longrightarrow> L' k = L k) \<and>
    (\<exists>x y c. data = [1, x, y, c] \<and> unat x < 32 \<and> unat y < 32 \<and>
       (\<forall>x' y'. x' < 32 \<longrightarrow> y' < 32 \<longrightarrow> pixel (acc_data (L' key)) x' y' =
          (if x' = unat x \<and> y' = unat y then c AND 0x0F else pixel (acc_data (L key)) x' y')))"
proof -
  obtain tag args payer canvas rest where data: "data = tag # args" and acc: "accounts = payer # canvas # rest"
    and key: "ai_key canvas = key"
    using assms(6) by (auto simp: rplace_process_instruction_def Let_def outcome_simps split_beta
        assms(3) split: list.splits)
  have "tag \<noteq> 0"
  proof
    assume "tag = 0"
    then obtain system mb where "cpi rt (create_account_ix (ai_key payer) (ai_key canvas)
        (mb CANVAS_SIZE) (word_of_nat CANVAS_SIZE) pid) [payer, canvas, system]
        [[CANVAS_SEED, [snd (find_program_address rt [CANVAS_SEED] pid)]]] L = Ok L'"
      using assms(6) by (auto simp: rplace_process_instruction_def data acc Let_def outcome_simps split_beta)
    then show False
      using create_account_spec(1) [OF assms(1)] assms(2,4) key by metis
  qed
  then have "paint canvas args L = Ok L'"
    using assms(6) by (auto simp: rplace_process_instruction_def data acc Let_def outcome_simps
        split_beta split: if_splits)
  then have p: "length args = 3" "unat (args ! 0) < 32" "unat (args ! 1) < 32"
    and L': "L' = set_data L key
      ((acc_data (L key))[unat (args ! 1) * 32 + unat (args ! 0) := args ! 2 AND 0x0F])"
    by (simp_all add: paint_Ok_iff data_of_def key)
  then have "args = [args ! 0, args ! 1, args ! 2]" and "tag = 1"
    using assms(6) \<open>tag \<noteq> 0\<close>
    by (auto simp: rplace_process_instruction_def data acc Let_def outcome_simps split_beta
        length_Suc_conv numeral_3_eq_3 split: if_splits)
  then have "data = [1, args ! 0, args ! 1, args ! 2]"
    by (simp add: data)
  then show ?thesis
    using p canvas_ok_update [OF assms(5) p(2,3)] unfolding L'
    by (intro conjI exI) (assumption | simp)+
qed

definition demo_canvas_key :: pubkey where
  "demo_canvas_key = fst (find_program_address demo_runtime [CANVAS_SEED] 9)"

definition demo_canvas_ledger :: ledger where
  "demo_canvas_ledger =
     demo_ledger(demo_canvas_key := \<lparr>acc_lamports = 1, acc_data = replicate 1024 0, acc_owner = 9\<rparr>)"

lemma demo_paint:
  "\<exists>L'. rplace_process_instruction demo_runtime 9 [demo_payer, demo_info demo_canvas_key] [1, 3, 2, 0x17]
     demo_canvas_ledger = Ok L'"
  by (simp add: rplace_process_instruction_def Let_def split_beta paint_Ok_iff data_of_def
      demo_canvas_ledger_def flip: demo_canvas_key_def)

theorem canvas_changes_by_paint_witness:
  "\<exists>L'. rplace_process_instruction demo_runtime 9 [demo_payer, demo_info demo_canvas_key] [1, 3, 2, 0x17]
     demo_canvas_ledger = Ok L' \<and> pixel (acc_data (L' demo_canvas_key)) 3 2 = 7 \<and>
     canvas_ok (acc_data (L' demo_canvas_key))"
proof -
  obtain L' where L': "rplace_process_instruction demo_runtime 9 [demo_payer, demo_info demo_canvas_key]
      [1, 3, 2, 0x17] demo_canvas_ledger = Ok L'"
    using demo_paint by blast
  have "canvas_ok (acc_data (demo_canvas_ledger demo_canvas_key))"
    by (simp add: demo_canvas_ledger_def canvas_ok_def)
  moreover have "acc_owner (demo_canvas_ledger demo_canvas_key) = 9" and "(9 :: pubkey) \<noteq> SYSTEM_PROGRAM"
    by (simp_all add: demo_canvas_ledger_def SYSTEM_PROGRAM_def)
  ultimately show ?thesis
    using canvas_changes_by_paint [OF demo_create _ demo_canvas_key_def _ _ L'] L' by fastforce
qed

text \<open>
  C39: Happiness and energy never leave 0 to 100, the alive flag is 0 or 1, and a living pet's
  hunger is at most 100: hatching establishes it with the documented start values and every action
  keeps it, also for a gap of more than 255 slots; the account's slot becomes the current one and no
  other account's data changes.
\<close>

theorem pet_stats_bounded:
  assumes "create_account_law rt"
    and "tamagotchi_process_instruction rt now pid (owner # pet # rest) (tag # args) L = Ok L'"
    and "tag = 0 \<or> pet_ok (read_pet (acc_data (L (ai_key pet))))"
  shows "pet_ok (read_pet (acc_data (L' (ai_key pet)))) \<and>
    28 \<le> length (acc_data (L' (ai_key pet))) \<and>
    u64_from_le (sub (acc_data (L' (ai_key pet))) 0 8) = now \<and>
    (tag = 0 \<longrightarrow> read_pet (acc_data (L' (ai_key pet))) =
       \<lparr>hunger = 20, happiness = 80, energy = 80, alive = 1\<rparr>) \<and>
    (\<forall>k. k \<noteq> ai_key pet \<longrightarrow> acc_data (L' k) = acc_data (L k))"
proof (cases "tag = 0")
  case True
  then obtain bump where h: "hatch rt now pid rest owner pet bump args L = Ok L'"
    using assms(2) by (auto simp: tamagotchi_process_instruction_def Let_def outcome_simps split_beta)
  show ?thesis
    using hatch_Ok [OF h assms(1)] True by (simp add: pet_ok_def)
next
  case False
  obtain p where len: "28 \<le> length (data_of L pet)"
    and act: "act tag (age (slots_elapsed now (u64_from_le (sub (data_of L pet) 0 8)))
        (read_pet (data_of L pet))) = Ok p"
    and L': "L' = set_data L (ai_key pet) (write_pet now p (data_of L pet))"
    by (rule tamagotchi_action_Ok [OF assms(2) False]) auto
  have "pet_ok p"
    using act_ok(1) [OF age_ok act] assms(3) False by (simp add: data_of_def)
  then show ?thesis
    using False read_write_pet [OF len, of now p] len by (simp add: L' data_of_def)
qed

text \<open>
  Feeding, playing, sleeping and ticking are always possible on an existing pet, and after any
  of them the pet is alive exactly if it was and its hunger plus the elapsed slots had not reached
  100: a pet left alone for 100 slots starves, one looked after in time does not, and a dead one
  stays dead.
\<close>

theorem neglected_pet_starves:
  assumes "ai_key pet = fst (find_program_address rt [PET_SEED, b32_bytes (ai_key owner)] pid)"
    and "28 \<le> length (acc_data (L (ai_key pet)))"
    and "p = read_pet (acc_data (L (ai_key pet)))" and "pet_ok p"
    and "elapsed = unat now - unat (u64_from_le (sub (acc_data (L (ai_key pet))) 0 8))"
    and "tag \<in> {1, 2, 3, 4}"
  shows "\<exists>L'. tamagotchi_process_instruction rt now pid (owner # pet # rest) (tag # args) L = Ok L' \<and>
    (alive (read_pet (acc_data (L' (ai_key pet)))) = 1 \<longleftrightarrow>
       alive p = 1 \<and> unat (hunger p) + elapsed < 100)"
proof -
  let ?e = "slots_elapsed now (u64_from_le (sub (acc_data (L (ai_key pet))) 0 8))"
  have "\<exists>p'. act tag (age ?e p) = Ok p'"
    using assms(6) by (auto simp: act_def)
  then obtain p' where act: "act tag (age ?e p) = Ok p'" ..
  have "tag \<noteq> 0"
    using assms(6) by auto
  then have run: "tamagotchi_process_instruction rt now pid (owner # pet # rest) (tag # args) L =
      Ok (set_data L (ai_key pet) (write_pet now p' (acc_data (L (ai_key pet)))))"
    using assms(1-3) act
    by (simp add: tamagotchi_process_instruction_def PET_SIZE_def Let_def split_beta data_of_def)
  have "alive p' = 1 \<longleftrightarrow> alive p = 1 \<and> unat (hunger p) + unat ?e < 100"
    using act_ok(2) [OF age_ok [OF assms(4)] act] age_alive by simp
  moreover have "h + min 255 n < 100 \<longleftrightarrow> h + n < 100" for h n :: nat
    by auto
  then have "unat (hunger p) + unat ?e < 100 \<longleftrightarrow> unat (hunger p) + elapsed < 100"
    by (simp only: unat_elapsed assms(5))
  ultimately show ?thesis
    using run read_write_pet(1) [OF assms(2), of now p'] by simp
qed

definition demo_pet_key :: pubkey where
  "demo_pet_key = fst (find_program_address demo_runtime [PET_SEED, b32_bytes (ai_key demo_payer)] 9)"

definition demo_pet_bytes :: bytes where
  "demo_pet_bytes = u64_to_le 1000 @ [60, 80, 80, 1] @ replicate 16 0"

definition demo_pet_ledger :: ledger where
  "demo_pet_ledger =
     demo_ledger(demo_pet_key := \<lparr>acc_lamports = 1, acc_data = demo_pet_bytes, acc_owner = 9\<rparr>)"

lemma demo_pet_address:
  "fst (find_program_address demo_runtime [PET_SEED, b32_bytes 2] 9) = demo_pet_key"
  by (simp add: demo_pet_key_def demo_payer_def)

lemma demo_pet_data:
  "acc_data (demo_pet_ledger (ai_key (demo_info demo_pet_key))) = demo_pet_bytes"
  "length demo_pet_bytes = 28" "sub demo_pet_bytes 0 8 = u64_to_le 1000"
  "read_pet demo_pet_bytes = \<lparr>hunger = 60, happiness = 80, energy = 80, alive = 1\<rparr>"
  "pet_ok (read_pet demo_pet_bytes)"
  "pet_ok (read_pet (acc_data (demo_pet_ledger (ai_key (demo_info demo_pet_key)))))"
  by (simp_all add: demo_pet_ledger_def demo_pet_bytes_def sub_prefix read_pet_def nth_append pet_ok_def)

theorem neglected_pet_starves_witness:
  "\<exists>L1 L2. tamagotchi_process_instruction demo_runtime 1030 9 [demo_payer, demo_info demo_pet_key] [1]
       demo_pet_ledger = Ok L1 \<and> alive (read_pet (acc_data (L1 demo_pet_key))) = 1 \<and>
     tamagotchi_process_instruction demo_runtime 1040 9 [demo_payer, demo_info demo_pet_key] [1]
       demo_pet_ledger = Ok L2 \<and> alive (read_pet (acc_data (L2 demo_pet_key))) \<noteq> 1"
proof -
  have key: "ai_key (demo_info demo_pet_key) =
      fst (find_program_address demo_runtime [PET_SEED, b32_bytes (ai_key demo_payer)] 9)"
    by (simp add: demo_pet_key_def)
  have len: "28 \<le> length (acc_data (demo_pet_ledger (ai_key (demo_info demo_pet_key))))"
    by (simp only: demo_pet_data)
  show ?thesis
    using neglected_pet_starves [where tag = 1 and L = demo_pet_ledger
          and pet = "demo_info demo_pet_key" and now = 1030 and rest = "[]" and args = "[]",
        OF key len refl demo_pet_data(6) refl]
      neglected_pet_starves [where tag = 1 and L = demo_pet_ledger
          and pet = "demo_info demo_pet_key" and now = 1040 and rest = "[]" and args = "[]",
        OF key len refl demo_pet_data(6) refl]
    unfolding demo_pet_data by auto
qed

theorem pet_stats_bounded_witness:
  "\<exists>L'. tamagotchi_process_instruction demo_runtime 1030 9 [demo_payer, demo_info demo_pet_key] [2]
       demo_pet_ledger = Ok L' \<and> pet_ok (read_pet (acc_data (L' demo_pet_key)))"
proof -
  have "act 2 (age (slots_elapsed 1030 1000) (read_pet demo_pet_bytes)) \<noteq> Inl e" for e
    by (simp add: act_def)
  then obtain p where act: "act 2 (age (slots_elapsed 1030 1000) (read_pet demo_pet_bytes)) = Ok p"
    by (metis sum.exhaust)
  have "data_of demo_pet_ledger (demo_info demo_pet_key) = demo_pet_bytes"
    using demo_pet_data(1) by (simp add: data_of_def)
  then obtain L' where run: "tamagotchi_process_instruction demo_runtime 1030 9
      [demo_payer, demo_info demo_pet_key] [2] demo_pet_ledger = Ok L'"
    using act by (simp add: tamagotchi_process_instruction_def PET_SIZE_def Let_def split_beta
        demo_pet_data(2,3) demo_pet_address)
  show ?thesis
    using pet_stats_bounded [OF demo_create run] run demo_pet_data(1,5) by auto
qed

end
