(* ===== verification/Evm_Contract.thy ===== *)
theory Evm_Contract
  imports Opaq_Prelude
begin

text \<open>
  What the two Solidity contracts (\<open>evm/src/OpaqPool.sol\<close>, \<open>evm/src/OpaqMint.sol\<close>) have in common: reverts
  as error values, the message of a call, checked addition, \<open>abi.encode\<close>, the call of a verifier, and
  runs of calls. Both mint against an operator's attestation, once per nullifier; the interface
  \<open>mint_guard\<close> states how, and is interpreted on each contract in its theory.
\<close>

section \<open>Values and results\<close>

type_synonym u256 = bytes32
type_synonym address = "160 word"
type_synonym groth_words = "(u256 \<times> u256) \<times> ((u256 \<times> u256) \<times> (u256 \<times> u256)) \<times> (u256 \<times> u256)"

text \<open>\<open>require(b, reason)\<close>, a revert inside a called contract, and the panics of checked code.\<close>

datatype revert = Require string | CallReverted | PanicCode nat

text \<open>A call without value: its sender and the chain it runs on.\<close>

record evm_msg =
  msg_sender :: address
  block_chainid :: u256

definition require :: "bool \<Rightarrow> string \<Rightarrow> (revert, unit) outcome" where
  "require b reason = (if b then Ok () else Err (Require reason))"

lemma require_simps [simp]:
  "require True reason = Ok ()" "require False reason = Err (Require reason)"
  by (simp_all add: require_def)

lemma require_Ok_iff [outcome_simps]: "require b reason = Inr u \<longleftrightarrow> b"
  by (simp add: require_def)

text \<open>\<open>a + b\<close> of Solidity 0.8.\<close>

definition checked_add :: "u256 \<Rightarrow> u256 \<Rightarrow> (revert, u256) outcome" where
  "checked_add a b = (if unat a + unat b < 2 ^ 256 then Ok (a + b) else Err (PanicCode 0x11))"

lemma checked_add_Ok_iff [outcome_simps]:
  "checked_add a b = Inr c \<longleftrightarrow> unat a + unat b < 2 ^ 256 \<and> c = a + b"
  by (auto simp: checked_add_def)

text \<open>\<open>require(verifier.verifyProof(a, b, c, signals), "bad proof")\<close>; the call itself may revert.\<close>

definition evm_check_proof :: "('p \<Rightarrow> 's \<Rightarrow> bool option) \<Rightarrow> 'p \<Rightarrow> 's \<Rightarrow> (revert, unit) outcome" where
  "evm_check_proof verify proof signals =
     (case verify proof signals of
        None \<Rightarrow> Err CallReverted
      | Some b \<Rightarrow> require b ''bad proof'')"

lemma evm_check_proof_Ok_iff [outcome_simps]:
  "evm_check_proof verify proof signals = Inr u \<longleftrightarrow> verify proof signals = Some True"
  by (auto simp: evm_check_proof_def outcome_simps split: option.splits)

text \<open>\<open>abi.encode\<close> of 32-byte values.\<close>

definition abi_encode :: "u256 list \<Rightarrow> bytes" where
  "abi_encode ws = concat (map b32_bytes ws)"

lemma abi_encode_inj:
  assumes "abi_encode ws = abi_encode vs" and "length ws = length vs"
  shows "ws = vs"
  using assms(2,1)
proof (induction ws vs rule: list_induct2)
  case (Cons w ws v vs)
  then have "b32_bytes w = b32_bytes v \<and> abi_encode ws = abi_encode vs"
    by (auto simp: abi_encode_def append_eq_append_conv)
  with Cons show ?case by simp
qed simp

section \<open>Calls in sequence\<close>

text \<open>
  The log of a contract: the calls that succeeded, with their messages, by whoever sent them. A call
  that reverts leaves the storage as it was and is not in the log.
\<close>

inductive call_run ::
    "('m \<Rightarrow> 'c \<Rightarrow> 's \<Rightarrow> (revert, 's \<times> 'ev) outcome) \<Rightarrow> 's \<Rightarrow> ('m \<times> 'c) list \<Rightarrow> 's \<Rightarrow> bool"
  for exec :: "'m \<Rightarrow> 'c \<Rightarrow> 's \<Rightarrow> (revert, 's \<times> 'ev) outcome" and s0 :: 's where
  no_call: "call_run exec s0 [] s0"
| one_more: "call_run exec s0 log s \<Longrightarrow> exec m c s = Ok (s', ev) \<Longrightarrow> call_run exec s0 (log @ [(m, c)]) s'"

inductive_simps call_run_Nil_iff [simp]: "call_run exec s0 [] s"
inductive_simps call_run_snoc_iff: "call_run exec s0 (log @ [x]) s"

lemma call_run_prefix:
  assumes "call_run exec s0 (xs @ ys) s"
  shows "\<exists>s1. call_run exec s0 xs s1"
  using assms
proof (induction ys arbitrary: s rule: rev_induct)
  case (snoc y ys)
  then have "call_run exec s0 ((xs @ ys) @ [y]) s" by simp
  then show ?case
    unfolding call_run_snoc_iff using snoc.IH by blast
qed auto

lemma call_run_middle:
  assumes "call_run exec s0 (xs @ (m, c) # ys) s"
  obtains s1 s2 ev where "call_run exec s0 xs s1" and "exec m c s1 = Ok (s2, ev)"
proof -
  have "call_run exec s0 ((xs @ [(m, c)]) @ ys) s"
    using assms by simp
  from call_run_prefix [OF this] show ?thesis
    unfolding call_run_snoc_iff using that by blast
qed

lemma call_run_invariant:
  assumes "call_run exec s0 log s" and "I [] s0"
    and "\<And>log m c s s' ev. I log s \<Longrightarrow> exec m c s = Ok (s', ev) \<Longrightarrow> I (log @ [(m, c)]) s'"
  shows "I log s"
  using assms(1) by induction (use assms(2,3) in blast)+

section \<open>Minting against an attestation\<close>

text \<open>
  \<open>attests c\<close> and \<open>mints c\<close> are the nullifier a call attests or mints with the hash of the destination
  it names. What a log leaves pending, and what it minted.
\<close>

fun guard_effect ::
    "('c \<Rightarrow> (bytes32 \<times> bytes32) option) \<Rightarrow> ('c \<Rightarrow> (bytes32 \<times> bytes32) option) \<Rightarrow> 'm \<times> 'c
      \<Rightarrow> (bytes32 \<Rightarrow> bytes32) \<Rightarrow> bytes32 \<Rightarrow> bytes32" where
  "guard_effect attests mints (m, c) f =
     (case attests c of Some (n, h) \<Rightarrow> f(n := h)
      | None \<Rightarrow> (case mints c of Some (n, h) \<Rightarrow> f(n := 0) | None \<Rightarrow> f))"

definition pending_after ::
    "('c \<Rightarrow> (bytes32 \<times> bytes32) option) \<Rightarrow> ('c \<Rightarrow> (bytes32 \<times> bytes32) option) \<Rightarrow> ('m \<times> 'c) list
      \<Rightarrow> bytes32 \<Rightarrow> bytes32" where
  "pending_after attests mints log = fold (guard_effect attests mints) log (\<lambda>_. 0)"

definition minted_in :: "('c \<Rightarrow> (bytes32 \<times> bytes32) option) \<Rightarrow> ('m \<times> 'c) list \<Rightarrow> bytes32 list" where
  "minted_in mints log = map fst (List.map_filter (mints \<circ> snd) log)"

lemma guard_simps_log [simp]:
  "pending_after attests mints [] = (\<lambda>_. 0)"
  "pending_after attests mints (log @ [x]) = guard_effect attests mints x (pending_after attests mints log)"
  "minted_in mints [] = []"
  "minted_in mints (log @ log') = minted_in mints log @ minted_in mints log'"
  "minted_in mints ((m, c) # log) = (case mints c of None \<Rightarrow> [] | Some (n, h) \<Rightarrow> [n]) @ minted_in mints log"
  by (auto simp: pending_after_def minted_in_def List.map_filter_def split: option.splits)

lemma pending_after_attested:
  "pending_after attests mints log n \<noteq> 0 \<Longrightarrow>
     \<exists>x \<in> set log. attests (snd x) = Some (n, pending_after attests mints log n)"
proof (induction log rule: rev_induct)
  case (snoc x log)
  obtain m c where x: "x = (m, c)"
    using prod.exhaust by blast
  then show ?case
    using snoc by (cases "attests c") (auto split: option.splits if_splits)
qed simp

locale mint_guard =
  fixes exec :: "'m \<Rightarrow> 'c \<Rightarrow> 's \<Rightarrow> (revert, 's \<times> 'ev) outcome"
    and sender :: "'m \<Rightarrow> address" and operator :: "'s \<Rightarrow> address"
    and pending :: "'s \<Rightarrow> bytes32 \<Rightarrow> bytes32" and minted :: "'s \<Rightarrow> bytes32 \<Rightarrow> bool"
    and attests :: "'c \<Rightarrow> (bytes32 \<times> bytes32) option"
    and mints :: "'c \<Rightarrow> (bytes32 \<times> bytes32) option"
  assumes operator_fixed: "exec m c s = Inr (s', ev) \<Longrightarrow> operator s' = operator s"
    and attest_step: "exec m c s = Inr (s', ev) \<Longrightarrow> attests c = Some (n, h) \<Longrightarrow>
      sender m = operator s \<and> \<not> minted s n \<and> pending s' = (pending s)(n := h) \<and> minted s' = minted s"
    and mint_step: "exec m c s = Inr (s', ev) \<Longrightarrow> mints c = Some (n, h) \<Longrightarrow>
      attests c = None \<and> \<not> minted s n \<and> pending s n = h \<and> h \<noteq> 0 \<and>
      pending s' = (pending s)(n := 0) \<and> minted s' = (minted s)(n := True)"
    and other_step: "exec m c s = Inr (s', ev) \<Longrightarrow> attests c = None \<Longrightarrow> mints c = None \<Longrightarrow>
      pending s' = pending s \<and> minted s' = minted s"
begin

text \<open>The storage after a run is what the log says, and a nullifier is minted once.\<close>

lemma run_explained:
  assumes "call_run exec s0 log s" and "pending s0 = (\<lambda>_. 0)" and "minted s0 = (\<lambda>_. False)"
  shows "operator s = operator s0 \<and> pending s = pending_after attests mints log \<and>
    (\<forall>n. minted s n \<longleftrightarrow> n \<in> set (minted_in mints log)) \<and> distinct (minted_in mints log) \<and>
    (\<forall>n \<in> set (minted_in mints log). pending s n = 0) \<and>
    (\<forall>(m, c) \<in> set log. attests c \<noteq> None \<longrightarrow> sender m = operator s0)"
proof (rule call_run_invariant [OF assms(1)], goal_cases)
  case 1
  then show ?case using assms(2,3) by simp
next
  case (2 log m c s s' ev)
  note op = operator_fixed [OF 2(2)]
  show ?case
  proof (cases "attests c")
    case None
    then show ?thesis
    proof (cases "mints c")
      case None
      with \<open>attests c = None\<close> 2(1) op other_step [OF 2(2)] show ?thesis by auto
    next
      case (Some q)
      obtain n h where "mints c = Some (n, h)" using Some by (cases q) simp
      with \<open>attests c = None\<close> 2(1) op mint_step [OF 2(2)] show ?thesis by auto
    qed
  next
    case (Some q)
    obtain n h where a: "attests c = Some (n, h)" using Some by (cases q) simp
    have "mints c = None"
      using mint_step [OF 2(2)] a by (cases "mints c") auto
    with a 2(1) op attest_step [OF 2(2)] show ?thesis by auto
  qed
qed

text \<open>A mint was attested by the operator, for the hash of the destination minted.\<close>

lemma guarded_mint_attested:
  assumes "call_run exec s0 (g @ (m, c) # k) s" and "pending s0 = (\<lambda>_. 0)" and "minted s0 = (\<lambda>_. False)"
    and "mints c = Some (n, h)"
  obtains m' c' where "(m', c') \<in> set g" and "attests c' = Some (n, h)" and "sender m' = operator s0"
    and "n \<notin> set (minted_in mints g)"
proof -
  obtain s1 s2 ev where pre: "call_run exec s0 g s1" and step: "exec m c s1 = Ok (s2, ev)"
    by (rule call_run_middle [OF assms(1)])
  note ex = run_explained [OF pre assms(2,3)] and ms = mint_step [OF step assms(4)]
  have "pending_after attests mints g n = h" and "h \<noteq> 0"
    using ex ms by simp_all
  then obtain m' c' where "(m', c') \<in> set g" and "attests c' = Some (n, h)"
    using pending_after_attested by (metis prod.collapse)
  with ex ms show ?thesis by (intro that [of m' c']) auto
qed

text \<open>A nullifier that was minted is never attested again.\<close>

lemma minted_not_attested:
  assumes "call_run exec s0 log s" and "pending s0 = (\<lambda>_. 0)" and "minted s0 = (\<lambda>_. False)"
    and "n \<in> set (minted_in mints log)" and "attests c = Some (n, h) \<or> mints c = Some (n, h)"
  shows "exec m c s \<noteq> Inr r"
  using run_explained [OF assms(1-3)] assms(4,5) attest_step [of m c s "fst r" "snd r"]
    mint_step [of m c s "fst r" "snd r"]
  by auto

end

end
