(* ===== verification/Evm_Pool.thy ===== *)
theory Evm_Pool
  imports Evm_Contract Pool_Spec Tree_Consts
begin

text \<open>
  The pool contract of the EVM side (\<open>evm/src/OpaqPool.sol\<close>): its storage as a record, one function
  per entry point, a revert being an error value that leaves the storage as it was. The hash of the
  vendored library \<open>PoseidonT3\<close>, \<open>keccak256\<close> and the Groth16 verifier contract behind the immutable
  address are arguments; the verifier is a \<open>view\<close>, so a call of it changes nothing. Integers are 256
  bits wide; the checked additions of Solidity 0.8 panic on overflow.

  The lemmas show that the contract's tree is the host tree of \<open>Commitment_Tree\<close> on the same leaves
  (\<open>evm_tree\<close>), interpret \<open>root_history\<close> on it, and relate the storage after any sequence of calls to
  the calls that succeeded (\<open>pool_log\<close>).
\<close>

text \<open>The public inputs: source root, source nullifier, destination chain, output commitment.\<close>

type_synonym xburn_signals = "u256 \<times> u256 \<times> u256 \<times> u256"

section \<open>Storage\<close>

record pool_storage =
  xburn_verifier :: "groth_words \<Rightarrow> xburn_signals \<Rightarrow> bool option"
  pool_operator :: address
  nextIndex :: u256
  currentRootIndex :: u256
  filledSubtrees :: "u256 list"
  pool_roots :: "u256 list"
  pool_zeros :: "u256 list"
  nullifierSpent :: "bytes32 \<Rightarrow> bool"
  pendingMint :: "bytes32 \<Rightarrow> bytes32"
  minted :: "bytes32 \<Rightarrow> bool"

datatype pool_event =
  XBurned bytes32 bytes32 bytes32
| PendingAdded bytes32 u256 u256
| Minted bytes32 bytes32 u256

text \<open>The literal table of the constructor.\<close>

definition z_table :: "u256 list" where
  "z_table =
    [0x0000000000000000000000000000000000000000000000000000000000000000,
     0x2098f5fb9e239eab3ceac3f27b81e481dc3124d55ffed523a839ee8446b64864,
     0x1069673dcdb12263df301a6ff584a7ec261a44cb9dc68df067a4774460b1f1e1,
     0x18f43331537ee2af2e3d758d50f72106467c6eea50371dd528d57eb2b856d238,
     0x07f9d837cb17b0d36320ffe93ba52345f1b728571a568265caac97559dbc952a,
     0x2b94cf5e8746b3f5c9631f4c5df32907a699c58c94b2ad4d7b5cec1639183f55,
     0x2dee93c5a666459646ea7d22cca9e1bcfed71e6951b953611d11dda32ea09d78,
     0x078295e5a22b84e982cf601eb639597b8b0515a88cb5ac7fa8a4aabe3c87349d,
     0x2fa5e5f18f6027a6501bec864564472a616b2e274a41211a444cbe3a99f3cc61,
     0x0e884376d0d8fd21ecb780389e941f66e45e7acce3e228ab3e2156a614fcd747,
     0x1b7201da72494f1e28717ad1a52eb469f95892f957713533de6175e5da190af2,
     0x1f8d8822725e36385200c0b201249819a6e6e1e4650808b5bebc6bface7d7636,
     0x2c5d82f66c914bafb9701589ba8cfcfb6162b0a12acf88a8d0879a0471b5f85a,
     0x14c54148a0940bb820957f5adf3fa1134ef5c4aaa113f4646458f270e0bfbfd0,
     0x190d33b12f986f961e10c0ee44d8b9af11be25588cad89d416118e4bf4ebe80c,
     0x22f98aa9ce704152ac17354914ad73ed1167ae6596af510aa5b3649325e06c92,
     0x2a7c7c9b6ce5880b9f6f228d72bf6a575a526f29c66ecceef8b753d38bba7323,
     0x2e8186e558698ec1c67af9c14d463ffc470043c9c2988b954d75dd643f36b992,
     0x0f57c5571e9a4eab49e2c8cf050dae948aef6ead647392273546249d1c1ff10f,
     0x1830ee67b5fb554ad5f63d4388800e1cfe78e310697d46e43c9ce36134f72cca,
     0x2134e76ac5d21aab186c2be1dd8f84ee880a1e46eaf712f9d371b6df22191f3e,
     0x19df90ec844ebc4ffeebd866f33859b0c051d8c958ee3aa88f8f8df3db91a5b1,
     0x18cca2a66b5c0787981e69aefd84852d74af0e93ef4912b4648c05f722efe52b,
     0x2388909415230d1b4d1304d2d54f473a628338f2efad83fadf05644549d2538d]"

definition genesis_root :: u256 where
  "genesis_root = 0x27171fb4a97b6cc0e9e8f543b5294de866a2af2c9c8d0b1d96e673e4529ed540"

text \<open>The copying loop of the constructor.\<close>

fun copy_table :: "u256 list \<Rightarrow> nat list \<Rightarrow> pool_storage \<Rightarrow> pool_storage" where
  "copy_table z [] s = s"
| "copy_table z (i # is) s =
     copy_table z is (s\<lparr>pool_zeros := (pool_zeros s)[i := z ! i],
                        filledSubtrees := (filledSubtrees s)[i := z ! i]\<rparr>)"

definition pool_constructor ::
    "(groth_words \<Rightarrow> xburn_signals \<Rightarrow> bool option) \<Rightarrow> address \<Rightarrow> pool_storage" where
  "pool_constructor verifier operator =
     (let s = copy_table z_table [0..<TREE_DEPTH]
        \<lparr>xburn_verifier = verifier, pool_operator = operator, nextIndex = 0, currentRootIndex = 0,
         filledSubtrees = replicate TREE_DEPTH 0, pool_roots = replicate ROOT_HISTORY 0,
         pool_zeros = replicate TREE_DEPTH 0, nullifierSpent = (\<lambda>_. False), pendingMint = (\<lambda>_. 0),
         minted = (\<lambda>_. False)\<rparr>
      in s\<lparr>pool_roots := (pool_roots s)[0 := genesis_root]\<rparr>)"

section \<open>The tree\<close>

text \<open>The loop of \<open>_insert\<close> over the levels still to do.\<close>

fun insert_loop ::
    "hash2_fun \<Rightarrow> u256 list \<Rightarrow> nat list \<Rightarrow> u256 \<Rightarrow> u256 \<Rightarrow> u256 list \<Rightarrow> u256 \<times> u256 list" where
  "insert_loop hash zeros [] idx current filled = (current, filled)"
| "insert_loop hash zeros (i # is) idx current filled =
     (let (left, right, filled') =
        (if idx AND 1 = 0 then (current, zeros ! i, filled[i := current])
         else (filled ! i, current, filled))
      in insert_loop hash zeros is (drop_bit 1 idx) (hash left right) filled')"

definition evm_insert ::
    "hash2_fun \<Rightarrow> pool_storage \<Rightarrow> u256 \<Rightarrow> (revert, pool_storage \<times> u256) outcome" where
  "evm_insert hash s leaf =
     (let idx = nextIndex s in
      and_then (require (idx < push_bit TREE_DEPTH 1) ''tree full'') (\<lambda>_.
      let leafIndex = idx;
          (current, filled) =
            insert_loop hash (pool_zeros s) [0..<TREE_DEPTH] idx leaf (filledSubtrees s) in
      and_then (checked_add (currentRootIndex s) 1) (\<lambda>next_root.
      let cri = next_root mod word_of_nat ROOT_HISTORY in
      and_then (checked_add leafIndex 1) (\<lambda>next_leaf.
        Ok (s\<lparr>filledSubtrees := filled, currentRootIndex := cri,
              pool_roots := (pool_roots s)[unat cri := current], nextIndex := next_leaf\<rparr>,
            leafIndex)))))"

definition evm_is_known_root :: "pool_storage \<Rightarrow> u256 \<Rightarrow> bool" where
  "evm_is_known_root s root \<longleftrightarrow>
     root \<noteq> 0 \<and> list_ex (\<lambda>i. pool_roots s ! i = root) [0..<ROOT_HISTORY]"

section \<open>Entry points\<close>

definition evm_xburn ::
    "groth_words \<Rightarrow> xburn_signals \<Rightarrow> pool_storage \<Rightarrow> (revert, pool_storage \<times> pool_event) outcome" where
  "evm_xburn proof signals s =
     (case signals of (src_root, nullifier, dest_chain, out_commitment) \<Rightarrow>
      and_then (require (evm_is_known_root s src_root) ''unknown root'') (\<lambda>_.
      and_then (require (\<not> nullifierSpent s nullifier) ''already spent'') (\<lambda>_.
      and_then (evm_check_proof (xburn_verifier s) proof signals) (\<lambda>_.
        Ok (s\<lparr>nullifierSpent := (nullifierSpent s)(nullifier := True)\<rparr>,
            XBurned nullifier dest_chain out_commitment)))))"

definition evm_add_pending ::
    "(bytes \<Rightarrow> bytes32) \<Rightarrow> evm_msg \<Rightarrow> bytes32 \<Rightarrow> u256 \<Rightarrow> u256 \<Rightarrow> pool_storage
      \<Rightarrow> (revert, pool_storage \<times> pool_event) outcome" where
  "evm_add_pending keccak msg nullifier dest_chain out_commitment s =
     and_then (require (msg_sender msg = pool_operator s) ''not operator'') (\<lambda>_.
     and_then (require (\<not> minted s nullifier) ''already minted'') (\<lambda>_.
       Ok (s\<lparr>pendingMint := (pendingMint s)(nullifier := keccak (abi_encode [dest_chain, out_commitment]))\<rparr>,
           PendingAdded nullifier dest_chain out_commitment)))"

definition evm_mint_from_xburn ::
    "hash2_fun \<Rightarrow> (bytes \<Rightarrow> bytes32) \<Rightarrow> evm_msg \<Rightarrow> groth_words \<Rightarrow> xburn_signals \<Rightarrow> pool_storage
      \<Rightarrow> (revert, pool_storage \<times> pool_event) outcome" where
  "evm_mint_from_xburn hash keccak msg proof signals s =
     (case signals of (src_root, nullifier, dest_chain, out_commitment) \<Rightarrow>
      and_then (require (\<not> minted s nullifier) ''already minted'') (\<lambda>_.
      let expected = keccak (abi_encode [dest_chain, out_commitment]) in
      and_then (require (pendingMint s nullifier = expected \<and> expected \<noteq> 0)
        ''not pending / wrong destination'') (\<lambda>_.
      and_then (require (dest_chain = block_chainid msg) ''wrong dest chain'') (\<lambda>_.
      and_then (evm_check_proof (xburn_verifier s) proof signals) (\<lambda>_.
      let s1 = s\<lparr>minted := (minted s)(nullifier := True)\<rparr>;
          s2 = s1\<lparr>pendingMint := (pendingMint s1)(nullifier := 0)\<rparr> in
      and_then (evm_insert hash s2 out_commitment) (\<lambda>(s3, leafIndex).
        Ok (s3, Minted nullifier out_commitment leafIndex)))))))"

text \<open>One transaction: the entry point its call data names.\<close>

datatype pool_call =
  XburnCall groth_words xburn_signals
| AddPendingCall bytes32 u256 u256
| MintCall groth_words xburn_signals

fun pool_exec ::
    "hash2_fun \<Rightarrow> (bytes \<Rightarrow> bytes32) \<Rightarrow> evm_msg \<Rightarrow> pool_call \<Rightarrow> pool_storage
      \<Rightarrow> (revert, pool_storage \<times> pool_event) outcome" where
  "pool_exec hash keccak msg (XburnCall p sg) s = evm_xburn p sg s"
| "pool_exec hash keccak msg (AddPendingCall n d oc) s = evm_add_pending keccak msg n d oc s"
| "pool_exec hash keccak msg (MintCall p sg) s = evm_mint_from_xburn hash keccak msg p sg s"

section \<open>Deployment\<close>

text \<open>The table the contract repeats is the generated one of the Solana program.\<close>

lemma z_table_ZEROS: "z_table = ZEROS"
  by (simp add: z_table_def ZEROS_def)

lemma genesis_root_EMPTY_ROOT: "genesis_root = EMPTY_ROOT"
  by (simp add: genesis_root_def EMPTY_ROOT_def)

lemma copy_table_append: "copy_table z (xs @ ys) s = copy_table z ys (copy_table z xs s)"
  by (induction xs arbitrary: s) auto

lemma copy_table_prefix:
  assumes "k \<le> length z" and "length (pool_zeros s) = length z" and "length (filledSubtrees s) = length z"
  shows "copy_table z [0..<k] s =
    s\<lparr>pool_zeros := take k z @ drop k (pool_zeros s),
      filledSubtrees := take k z @ drop k (filledSubtrees s)\<rparr>"
  using assms(1)
proof (induction k)
  case (Suc k)
  have "(take k z @ drop k xs)[k := z ! k] = take (Suc k) z @ drop (Suc k) xs"
    if "length xs = length z" for xs :: "u256 list"
    using that Suc.prems Cons_nth_drop_Suc [of k xs, symmetric]
    by (simp add: list_update_append take_Suc_conv_app_nth)
  then show ?case
    using Suc assms(2,3) by (simp add: copy_table_append)
qed simp

lemma pool_constructor_storage:
  "pool_constructor verifier operator =
     \<lparr>xburn_verifier = verifier, pool_operator = operator, nextIndex = 0, currentRootIndex = 0,
      filledSubtrees = ZEROS, pool_roots = (replicate ROOT_HISTORY 0)[0 := EMPTY_ROOT],
      pool_zeros = ZEROS, nullifierSpent = (\<lambda>_. False), pendingMint = (\<lambda>_. 0), minted = (\<lambda>_. False)\<rparr>"
  by (simp add: pool_constructor_def copy_table_prefix z_table_ZEROS genesis_root_EMPTY_ROOT)

section \<open>The contract's tree is the host tree\<close>

definition evm_tree :: "pool_storage \<Rightarrow> commitment_tree" where
  "evm_tree s =
     \<lparr>next_index = ucast (nextIndex s), filled_subtrees = filledSubtrees s, roots = pool_roots s,
      current_root_index = ucast (currentRootIndex s)\<rparr>"

definition evm_tree_holds :: "hash2_fun \<Rightarrow> hash2_fun \<Rightarrow> pool_storage \<Rightarrow> bytes32 list \<Rightarrow> bool" where
  "evm_tree_holds hash H s ls \<longleftrightarrow>
     represents (\<lambda>a b. Some (hash a b)) H (evm_tree s) ls \<and> pool_zeros s = zeros_of H \<and>
     unat (nextIndex s) = length ls \<and> unat (currentRootIndex s) = length ls mod ROOT_HISTORY"

lemma u256_and_1: "idx AND 1 = 0 \<longleftrightarrow> even (unat (idx :: u256))"
proof -
  have "odd idx = odd (unat idx)"
    by (simp add: bit_unsigned_iff flip: bit_0)
  then show ?thesis by (simp add: and_one_eq mod_2_eq_odd)
qed

lemma insert_loop_levels:
  assumes "unat idx = unat (index :: u64)"
  shows "insert_levels (\<lambda>a b. Some (hash a b)) zeros levels index current filled =
    Some (insert_loop hash zeros levels idx current filled)"
  using assms
proof (induction levels arbitrary: index idx current filled)
  case (Cons i levels)
  have "unat (drop_bit 1 idx) = unat (drop_bit 1 index)"
    by (simp add: unat_drop_bit_eq Cons.prems)
  moreover have "idx AND 1 = 0 \<longleftrightarrow> index AND 1 = 0"
    by (simp only: u256_and_1 and_1_eq_0_iff Cons.prems)
  ultimately show ?case
    using Cons.IH by (simp add: Let_def)
qed simp

lemma unat_ucast_small: "unat (x :: u256) < 2 ^ 64 \<Longrightarrow> unat (ucast x :: u64) = unat x"
  by (subst of_nat_unat [symmetric], subst unat_of_nat) simp

lemma evm_insert_Ok:
  assumes "evm_insert hash s leaf = Ok (s', i)"
  shows "pool_zeros s' = pool_zeros s \<and> nullifierSpent s' = nullifierSpent s \<and>
    pendingMint s' = pendingMint s \<and> minted s' = minted s \<and> pool_operator s' = pool_operator s \<and>
    xburn_verifier s' = xburn_verifier s"
  using assms by (auto simp: evm_insert_def Let_def outcome_simps split: prod.splits)

lemma u256_depth: "unat (push_bit TREE_DEPTH (1 :: u256)) = 2 ^ TREE_DEPTH"
  by (simp add: push_bit_eq_mult TREE_DEPTH_def)

lemma evm_insert_holds:
  assumes "evm_tree_holds hash H s ls" and "field_elem leaf" and "length ls < 2 ^ TREE_DEPTH"
  shows "\<exists>s'. evm_insert hash s leaf = Ok (s', word_of_nat (length ls)) \<and>
    evm_tree_holds hash H s' (ls @ [leaf])"
proof -
  let ?h = "\<lambda>a b. Some (hash a b)" and ?n = "length ls"
  have rep: "represents ?h H (evm_tree s) ls" and z: "pool_zeros s = zeros_of H"
    and nx: "unat (nextIndex s) = ?n" and cri: "unat (currentRootIndex s) = ?n mod ROOT_HISTORY"
    using assms(1) by (simp_all add: evm_tree_holds_def)
  obtain t' where ins: "insert_leaf ?h (zeros_of H) (evm_tree s) leaf = Ok (t', word_of_nat ?n)"
    and rep': "represents ?h H t' (ls @ [leaf])"
    using insert_leaf_represents [OF rep assms(2,3)] by blast
  have small: "?n < 2 ^ 64"
    using assms(3) by (simp add: TREE_DEPTH_def)
  have n64: "unat (ucast (nextIndex s) :: u64) = unat (nextIndex s)"
    using small nx by (intro unat_ucast_small) simp
  obtain current filled where loop: "insert_loop hash (pool_zeros s) [0..<TREE_DEPTH] (nextIndex s) leaf
      (filledSubtrees s) = (current, filled)"
    by (cases "insert_loop hash (pool_zeros s) [0..<TREE_DEPTH] (nextIndex s) leaf (filledSubtrees s)")
  have run: "insert_levels ?h (zeros_of H) [0..<TREE_DEPTH] (ucast (nextIndex s)) leaf
      (filledSubtrees s) = Some (current, filled)"
    using insert_loop_levels [OF n64 [symmetric], of hash "zeros_of H" "[0..<TREE_DEPTH]" leaf
        "filledSubtrees s"] loop z by simp
  have room: "nextIndex s < push_bit TREE_DEPTH 1"
    unfolding word_less_nat_alt u256_depth nx by (rule assms(3))
  let ?next = "currentRootIndex s + 1" and ?cri = "(currentRootIndex s + 1) mod word_of_nat ROOT_HISTORY"
  have lt: "unat (currentRootIndex s) < ROOT_HISTORY"
    by (simp add: cri)
  then have add1: "checked_add (currentRootIndex s) 1 = Ok ?next"
    and un1: "unat ?next = unat (currentRootIndex s) + 1"
    by (simp_all add: checked_add_def ROOT_HISTORY_def unat_word_ariths)
  have ucri: "unat ?cri = (?n mod ROOT_HISTORY + 1) mod ROOT_HISTORY"
    unfolding unat_mod_distrib un1 cri by (simp add: ROOT_HISTORY_def)
  have add2: "checked_add (nextIndex s) 1 = Ok (nextIndex s + 1)"
    and un2: "unat (nextIndex s + 1) = ?n + 1"
    using small nx by (simp_all add: checked_add_def unat_word_ariths)
  define s' where "s' = s\<lparr>filledSubtrees := filled, currentRootIndex := ?cri,
      pool_roots := (pool_roots s)[unat ?cri := current], nextIndex := nextIndex s + 1\<rparr>"
  have "nextIndex s = word_of_nat ?n"
    using nx by (metis of_nat_unat ucast_id)
  then have run256: "evm_insert hash s leaf = Ok (s', word_of_nat ?n)"
    using room loop add1 add2 by (simp add: evm_insert_def Let_def s'_def)
  have small32: "unat ?cri < ROOT_HISTORY"
    unfolding ucri by simp
  have "evm_tree s' = t'"
  proof -
    have full: "\<not> push_bit TREE_DEPTH 1 \<le> (ucast (nextIndex s) :: u64)"
      using full_iff [of ?n] assms(3) rep by (simp add: represents_def evm_tree_def)
    have c8: "unat (ucast (currentRootIndex s) :: u8) = ?n mod ROOT_HISTORY"
      using rep by (simp add: represents_def evm_tree_def)
    have w8: "(word_of_nat (unat ?cri) :: u8) = ucast ?cri"
      by (metis of_nat_unat)
    have "(ucast (nextIndex s + 1) :: u64) = ucast (nextIndex s) + 1"
      using un2 nx small by (metis of_nat_unat of_nat_Suc Suc_eq_plus1 add.commute)
    moreover have "unat (word_of_nat ((?n mod ROOT_HISTORY + 1) mod ROOT_HISTORY) :: u8) = unat ?cri"
      unfolding ucri [symmetric] by (subst unat_of_nat) (use small32 in \<open>simp add: ROOT_HISTORY_def\<close>)
    ultimately show ?thesis
      using ins full by (auto simp: insert_leaf_def evm_tree_def Let_def run c8 s'_def ucri w8 [symmetric])
  qed
  then have "evm_tree_holds hash H s' (ls @ [leaf])"
    using rep' z ucri un2 by (simp add: evm_tree_holds_def s'_def mod_Suc_eq)
  with run256 show ?thesis by blast
qed

text \<open>The contract keeps the contract of a tree with a window of roots.\<close>

definition tree_insert_call ::
    "hash2_fun \<Rightarrow> pool_storage \<Rightarrow> u256 \<Rightarrow> (revert, pool_storage \<times> u64) outcome" where
  "tree_insert_call hash s leaf = map_ok (\<lambda>(s', i). (s', ucast i)) (evm_insert hash s leaf)"

interpretation evm_pool_tree:
  root_history "tree_insert_call hash" evm_is_known_root "evm_tree_holds hash H"
    "Require ''tree full''" H for hash H
proof
  fix s ls x r
  assume holds: "evm_tree_holds hash H s ls"
  show "length ls \<le> 2 ^ TREE_DEPTH"
    using holds by (simp add: evm_tree_holds_def represents_def)
  show "\<exists>s'. tree_insert_call hash s x = Inr (s', word_of_nat (length ls)) \<and>
      evm_tree_holds hash H s' (ls @ [x])" if "field_elem x" "length ls < 2 ^ TREE_DEPTH"
  proof -
    have "(ucast (word_of_nat (length ls) :: u256) :: u64) = word_of_nat (length ls)"
      using that(2) by (simp add: TREE_DEPTH_def unsigned_of_nat take_bit_nat_eq_self)
    then show ?thesis
      using evm_insert_holds [OF holds that] by (auto simp: tree_insert_call_def)
  qed
  show "tree_insert_call hash s x = Err (Require ''tree full'')" if "length ls = 2 ^ TREE_DEPTH"
  proof -
    have "\<not> nextIndex s < push_bit TREE_DEPTH 1"
      using holds that unfolding evm_tree_holds_def word_less_nat_alt u256_depth by simp
    then show ?thesis by (simp add: tree_insert_call_def evm_insert_def Let_def)
  qed
  show "evm_is_known_root s r \<longleftrightarrow> r \<noteq> 0 \<and>
      (\<exists>m \<le> length ls. length ls < m + ROOT_HISTORY \<and> r = merkle_root H (take m ls))"
  proof -
    have len: "length (pool_roots s) = ROOT_HISTORY"
      using holds by (simp add: evm_tree_holds_def represents_def evm_tree_def history_def)
    have "evm_is_known_root s r \<longleftrightarrow> is_known_root (evm_tree s) r"
      unfolding evm_is_known_root_def is_known_root_def evm_tree_def len [symmetric]
      by (auto simp: list_ex_iff in_set_conv_nth)
    then show ?thesis
      using holds is_known_root_represents [of _ H "evm_tree s" ls r] by (auto simp: evm_tree_holds_def)
  qed
qed

lemma evm_insert_cases:
  assumes "evm_tree_holds hash H s ls" and "field_elem leaf" and "evm_insert hash s leaf = Ok (s', i)"
  shows "evm_tree_holds hash H s' (ls @ [leaf])"
  using evm_pool_tree.ins_cases [OF assms(1,2)] assms(3) by (simp add: tree_insert_call_def)

text \<open>The Poseidon of the library is a total function that agrees with the hash on field elements.\<close>

lemma pool_constructor_tree:
  assumes "hashes_to (\<lambda>a b. Some (hash a b)) H" and "consts_match H"
  shows "evm_tree_holds hash H (pool_constructor verifier operator) []"
  using frontier_Nil [of H] history_Nil [of H] assms
  by (simp add: evm_tree_holds_def represents_def evm_tree_def pool_constructor_storage consts_match_def)

section \<open>Minting\<close>

text \<open>The nullifier a call attests or mints, with the hash of the destination it names.\<close>

fun pool_attests :: "(bytes \<Rightarrow> bytes32) \<Rightarrow> pool_call \<Rightarrow> (bytes32 \<times> bytes32) option" where
  "pool_attests keccak (AddPendingCall n d oc) = Some (n, keccak (abi_encode [d, oc]))"
| "pool_attests keccak _ = None"

fun pool_mints :: "(bytes \<Rightarrow> bytes32) \<Rightarrow> pool_call \<Rightarrow> (bytes32 \<times> bytes32) option" where
  "pool_mints keccak (MintCall p (r, n, d, oc)) = Some (n, keccak (abi_encode [d, oc]))"
| "pool_mints keccak _ = None"

lemma evm_xburn_Ok_iff:
  "evm_xburn proof (r, n, d, oc) s = Ok (s', ev) \<longleftrightarrow>
     evm_is_known_root s r \<and> \<not> nullifierSpent s n \<and> xburn_verifier s proof (r, n, d, oc) = Some True \<and>
     s' = s\<lparr>nullifierSpent := (nullifierSpent s)(n := True)\<rparr> \<and> ev = XBurned n d oc"
  by (auto simp: evm_xburn_def outcome_simps)

lemma evm_add_pending_Ok_iff:
  "evm_add_pending keccak msg n d oc s = Ok (s', ev) \<longleftrightarrow>
     msg_sender msg = pool_operator s \<and> \<not> minted s n \<and>
     s' = s\<lparr>pendingMint := (pendingMint s)(n := keccak (abi_encode [d, oc]))\<rparr> \<and>
     ev = PendingAdded n d oc"
  by (auto simp: evm_add_pending_def outcome_simps)

lemma evm_mint_Ok_iff:
  "evm_mint_from_xburn hash keccak msg proof (r, n, d, oc) s = Ok (s', ev) \<longleftrightarrow>
     \<not> minted s n \<and> pendingMint s n = keccak (abi_encode [d, oc]) \<and> keccak (abi_encode [d, oc]) \<noteq> 0 \<and>
     d = block_chainid msg \<and> xburn_verifier s proof (r, n, d, oc) = Some True \<and>
     (\<exists>i. evm_insert hash (s\<lparr>minted := (minted s)(n := True), pendingMint := (pendingMint s)(n := 0)\<rparr>) oc =
        Ok (s', i) \<and> ev = Minted n oc i)"
  by (auto simp: evm_mint_from_xburn_def Let_def outcome_simps)

lemmas pool_call_iffs = evm_xburn_Ok_iff evm_add_pending_Ok_iff evm_mint_Ok_iff

interpretation pool_guard:
  mint_guard "pool_exec hash keccak" msg_sender pool_operator pendingMint minted
    "pool_attests keccak" "pool_mints keccak" for hash keccak
proof
  fix msg c s s' ev n h
  assume run: "pool_exec hash keccak msg c s = Inr (s', ev)"
  show "pool_operator s' = pool_operator s"
    using run by (cases "(keccak, c)" rule: pool_mints.cases)
      (auto simp: pool_call_iffs dest!: evm_insert_Ok)
  show "msg_sender msg = pool_operator s \<and> \<not> minted s n \<and> pendingMint s' = (pendingMint s)(n := h) \<and>
      minted s' = minted s" if "pool_attests keccak c = Some (n, h)"
    using run that by (cases c) (auto simp: pool_call_iffs)
  show "pool_attests keccak c = None \<and> \<not> minted s n \<and> pendingMint s n = h \<and> h \<noteq> 0 \<and>
      pendingMint s' = (pendingMint s)(n := 0) \<and> minted s' = (minted s)(n := True)"
    if "pool_mints keccak c = Some (n, h)"
    using run that by (cases "(keccak, c)" rule: pool_mints.cases)
      (auto simp: pool_call_iffs dest!: evm_insert_Ok)
  show "pendingMint s' = pendingMint s \<and> minted s' = minted s"
    if "pool_attests keccak c = None" "pool_mints keccak c = None"
    using run that by (cases "(keccak, c)" rule: pool_mints.cases) (auto simp: pool_call_iffs)
qed

section \<open>What the storage says about the log\<close>

type_synonym pool_log = "(evm_msg \<times> pool_call) list"

fun call_burns :: "pool_call \<Rightarrow> bytes32 list" where
  "call_burns (XburnCall p (r, n, d, oc)) = [n]"
| "call_burns _ = []"

fun call_leaves :: "pool_call \<Rightarrow> bytes32 list" where
  "call_leaves (MintCall p (r, n, d, oc)) = [oc]"
| "call_leaves _ = []"

definition log_burns :: "pool_log \<Rightarrow> bytes32 list" where
  "log_burns log = concat (map (call_burns \<circ> snd) log)"

definition log_leaves :: "pool_log \<Rightarrow> bytes32 list" where
  "log_leaves log = concat (map (call_leaves \<circ> snd) log)"

lemma log_simps [simp]:
  "log_burns [] = []" "log_burns (xs @ ys) = log_burns xs @ log_burns ys"
  "log_burns (x # xs) = call_burns (snd x) @ log_burns xs"
  "log_leaves [] = []" "log_leaves (xs @ ys) = log_leaves xs @ log_leaves ys"
  "log_leaves (x # xs) = call_leaves (snd x) @ log_leaves xs"
  by (simp_all add: log_burns_def log_leaves_def)

text \<open>The verifier contract checks that every public input is a field element.\<close>

definition canonical_verifier :: "(groth_words \<Rightarrow> xburn_signals \<Rightarrow> bool option) \<Rightarrow> bool" where
  "canonical_verifier verify \<longleftrightarrow> (\<forall>p r n d oc. verify p (r, n, d, oc) = Some True \<longrightarrow>
     field_elem r \<and> field_elem n \<and> field_elem d \<and> field_elem oc)"

definition log_explains ::
    "hash2_fun \<Rightarrow> hash2_fun \<Rightarrow> pool_storage \<Rightarrow> pool_log \<Rightarrow> pool_storage \<Rightarrow> bool" where
  "log_explains hash H s0 log s \<longleftrightarrow>
     xburn_verifier s = xburn_verifier s0 \<and> evm_tree_holds hash H s (log_leaves log) \<and>
     distinct (log_burns log) \<and> (\<forall>n. nullifierSpent s n \<longleftrightarrow> n \<in> set (log_burns log))"

lemma evm_tree_holds_frame [simp]:
  "evm_tree_holds hash H (s\<lparr>minted := m\<rparr>) ls \<longleftrightarrow> evm_tree_holds hash H s ls"
  "evm_tree_holds hash H (s\<lparr>pendingMint := w\<rparr>) ls \<longleftrightarrow> evm_tree_holds hash H s ls"
  "evm_tree_holds hash H (s\<lparr>nullifierSpent := b\<rparr>) ls \<longleftrightarrow> evm_tree_holds hash H s ls"
  by (simp_all add: evm_tree_holds_def evm_tree_def)

lemma log_explains_call:
  assumes "log_explains hash H s0 log s" and "canonical_verifier (xburn_verifier s0)"
    and "pool_exec hash keccak msg c s = Ok (s', ev)"
  shows "log_explains hash H s0 (log @ [(msg, c)]) s'"
proof (cases c)
  case (XburnCall p sg)
  obtain r n d oc where sg: "sg = (r, n, d, oc)" by (cases sg)
  show ?thesis
    using assms(1,3) by (auto simp: XburnCall sg log_explains_def evm_xburn_Ok_iff split: if_splits)
next
  case (AddPendingCall n d oc)
  then show ?thesis
    using assms(1,3) by (auto simp: log_explains_def evm_add_pending_Ok_iff)
next
  case (MintCall p sg)
  obtain r n d oc where sg: "sg = (r, n, d, oc)" by (cases sg)
  let ?s1 = "s\<lparr>minted := (minted s)(n := True), pendingMint := (pendingMint s)(n := 0)\<rparr>"
  obtain i where ok: "xburn_verifier s p (r, n, d, oc) = Some True"
    and ins: "evm_insert hash ?s1 oc = Ok (s', i)"
    using assms(3) by (auto simp: MintCall sg evm_mint_Ok_iff)
  have "field_elem oc"
    using assms(1,2) ok unfolding log_explains_def canonical_verifier_def by metis
  then have "evm_tree_holds hash H s' (log_leaves log @ [oc])"
    using assms(1) by (intro evm_insert_cases [OF _ _ ins]) (simp_all add: log_explains_def)
  with evm_insert_Ok [OF ins] assms(1) show ?thesis
    by (auto simp: MintCall sg log_explains_def)
qed

text \<open>From deployment on: the tree and the burned nullifiers, and what the mint guard says.\<close>

lemma deployed_log:
  assumes "call_run (pool_exec hash keccak) s0 log s" and "s0 = pool_constructor verifier operator"
    and "hashes_to (\<lambda>a b. Some (hash a b)) H" and "consts_match H" and "canonical_verifier verifier"
  shows "log_explains hash H s0 log s"
proof (rule call_run_invariant [OF assms(1)])
  show "log_explains hash H s0 [] s0"
    using pool_constructor_tree [OF assms(3,4)]
    by (simp add: assms(2) log_explains_def pool_constructor_storage)
qed (use assms(2,5) log_explains_call in \<open>simp add: pool_constructor_storage\<close>)

lemma deployed_guard:
  assumes "s0 = pool_constructor verifier operator"
  shows "pendingMint s0 = (\<lambda>_. 0)" and "minted s0 = (\<lambda>_. False)" and "pool_operator s0 = operator"
    and "xburn_verifier s0 = verifier"
  by (simp_all add: assms pool_constructor_storage)

lemma run_verifier:
  assumes "call_run (pool_exec hash keccak) s0 log s"
  shows "xburn_verifier s = xburn_verifier s0"
proof (rule call_run_invariant [OF assms, where I = "\<lambda>log s. xburn_verifier s = xburn_verifier s0"])
  fix msg c s s' ev
  assume "xburn_verifier s = xburn_verifier s0" and "pool_exec hash keccak msg c s = Ok (s', ev)"
  then show "xburn_verifier s' = xburn_verifier s0"
    by (cases "(keccak, c)" rule: pool_mints.cases) (auto simp: pool_call_iffs dest!: evm_insert_Ok)
qed simp

lemma evm_current_root:
  assumes "evm_tree_holds hash H s ls"
  shows "pool_roots s ! unat (currentRootIndex s) = merkle_root H ls"
proof -
  have "unat (ucast (currentRootIndex s) :: u8) = unat (currentRootIndex s)"
    using assms by (simp add: evm_tree_holds_def represents_def evm_tree_def)
  then show ?thesis
    using assms represents_current_root [of _ H "evm_tree s" ls]
    by (auto simp: evm_tree_holds_def evm_tree_def current_root_def)
qed

end
