(* ===== verification/Evm_Mint.thy ===== *)
theory Evm_Mint
  imports Evm_Contract
begin

text \<open>
  The first EVM contract (\<open>evm/src/OpaqMint.sol\<close>): it credits the counterpart of a note burned on
  Solana in a ledger of balances. Storage, entry points, the interpretation of \<open>mint_guard\<close>, and the
  ledger: the balance of a holder is the sum of what the log minted to them.
\<close>

section \<open>Storage and entry points\<close>

text \<open>
  The public inputs of the burn circuit: root, nullifier, token, amount, destination chain and
  destination address.
\<close>

type_synonym burn_signals = "u256 \<times> u256 \<times> u256 \<times> u256 \<times> u256 \<times> u256"

record mint_storage =
  burn_verifier :: "groth_words \<Rightarrow> burn_signals \<Rightarrow> bool option"
  mint_operator :: address
  burn_pending :: "bytes32 \<Rightarrow> bytes32"
  burn_minted :: "bytes32 \<Rightarrow> bool"
  balance_of :: "bytes32 \<Rightarrow> address \<Rightarrow> u256"

datatype mint_event =
  BurnPendingAdded bytes32 bytes32 u256 u256 address
| BurnMinted bytes32 bytes32 address u256

definition mint_constructor ::
    "(groth_words \<Rightarrow> burn_signals \<Rightarrow> bool option) \<Rightarrow> address \<Rightarrow> mint_storage" where
  "mint_constructor verifier operator =
     \<lparr>burn_verifier = verifier, mint_operator = operator, burn_pending = (\<lambda>_. 0),
      burn_minted = (\<lambda>_. False), balance_of = (\<lambda>_ _. 0)\<rparr>"

text \<open>\<open>keccak256(abi.encode(tokenId, amount, destChain, to))\<close>; an address is padded to 32 bytes.\<close>

definition burn_tuple_hash ::
    "(bytes \<Rightarrow> bytes32) \<Rightarrow> bytes32 \<Rightarrow> u256 \<Rightarrow> u256 \<Rightarrow> address \<Rightarrow> bytes32" where
  "burn_tuple_hash keccak tokenId amount destChain dest =
     keccak (abi_encode [tokenId, amount, destChain, ucast dest])"

definition add_burn_pending ::
    "(bytes \<Rightarrow> bytes32) \<Rightarrow> evm_msg \<Rightarrow> bytes32 \<Rightarrow> bytes32 \<Rightarrow> u256 \<Rightarrow> u256 \<Rightarrow> address \<Rightarrow> mint_storage
      \<Rightarrow> (revert, mint_storage \<times> mint_event) outcome" where
  "add_burn_pending keccak msg nullifier tokenId amount destChain destAddress s =
     and_then (require (msg_sender msg = mint_operator s) ''not operator'') (\<lambda>_.
     and_then (require (\<not> burn_minted s nullifier) ''already minted'') (\<lambda>_.
       Ok (s\<lparr>burn_pending := (burn_pending s)
               (nullifier := burn_tuple_hash keccak tokenId amount destChain destAddress)\<rparr>,
           BurnPendingAdded nullifier tokenId amount destChain destAddress)))"

definition mint_burned ::
    "(bytes \<Rightarrow> bytes32) \<Rightarrow> evm_msg \<Rightarrow> groth_words \<Rightarrow> burn_signals \<Rightarrow> mint_storage
      \<Rightarrow> (revert, mint_storage \<times> mint_event) outcome" where
  "mint_burned keccak msg proof signals s =
     (case signals of (merkle_root, nullifier, tokenId, amount, destChain, dest_address) \<Rightarrow>
      and_then (require (\<not> burn_minted s nullifier) ''already minted'') (\<lambda>_.
      let dest = ucast dest_address :: address;
          expected = burn_tuple_hash keccak tokenId amount destChain dest in
      and_then (require (burn_pending s nullifier = expected \<and> expected \<noteq> 0)
        ''not pending / wrong destination'') (\<lambda>_.
      and_then (require (destChain = block_chainid msg) ''wrong dest chain'') (\<lambda>_.
      and_then (evm_check_proof (burn_verifier s) proof signals) (\<lambda>_.
      let s1 = s\<lparr>burn_minted := (burn_minted s)(nullifier := True)\<rparr>;
          s2 = s1\<lparr>burn_pending := (burn_pending s1)(nullifier := 0)\<rparr> in
      and_then (checked_add (balance_of s2 tokenId dest) amount) (\<lambda>balance.
        Ok (s2\<lparr>balance_of := (balance_of s2)(tokenId := (balance_of s2 tokenId)(dest := balance))\<rparr>,
            BurnMinted nullifier tokenId dest amount)))))))"

datatype mint_call =
  AddBurnPendingCall bytes32 bytes32 u256 u256 address
| MintBurnedCall groth_words burn_signals

fun mint_exec ::
    "(bytes \<Rightarrow> bytes32) \<Rightarrow> evm_msg \<Rightarrow> mint_call \<Rightarrow> mint_storage
      \<Rightarrow> (revert, mint_storage \<times> mint_event) outcome" where
  "mint_exec keccak msg (AddBurnPendingCall n t a d dest) s = add_burn_pending keccak msg n t a d dest s"
| "mint_exec keccak msg (MintBurnedCall p sg) s = mint_burned keccak msg p sg s"

section \<open>Minting against an attestation\<close>

fun mint_attests :: "(bytes \<Rightarrow> bytes32) \<Rightarrow> mint_call \<Rightarrow> (bytes32 \<times> bytes32) option" where
  "mint_attests keccak (AddBurnPendingCall n t a d dest) = Some (n, burn_tuple_hash keccak t a d dest)"
| "mint_attests keccak (MintBurnedCall p sg) = None"

fun mint_mints :: "(bytes \<Rightarrow> bytes32) \<Rightarrow> mint_call \<Rightarrow> (bytes32 \<times> bytes32) option" where
  "mint_mints keccak (MintBurnedCall p (r, n, t, a, d, w)) =
     Some (n, burn_tuple_hash keccak t a d (ucast w))"
| "mint_mints keccak (AddBurnPendingCall n t a d dest) = None"

lemma add_burn_pending_Ok_iff:
  "add_burn_pending keccak msg n t a d dest s = Ok (s', ev) \<longleftrightarrow>
     msg_sender msg = mint_operator s \<and> \<not> burn_minted s n \<and>
     s' = s\<lparr>burn_pending := (burn_pending s)(n := burn_tuple_hash keccak t a d dest)\<rparr> \<and>
     ev = BurnPendingAdded n t a d dest"
  by (auto simp: add_burn_pending_def outcome_simps)

lemma mint_burned_Ok_iff:
  "mint_burned keccak msg proof (r, n, t, a, d, w) s = Ok (s', ev) \<longleftrightarrow>
     \<not> burn_minted s n \<and> burn_pending s n = burn_tuple_hash keccak t a d (ucast w) \<and>
     burn_tuple_hash keccak t a d (ucast w) \<noteq> 0 \<and> d = block_chainid msg \<and>
     burn_verifier s proof (r, n, t, a, d, w) = Some True \<and>
     unat (balance_of s t (ucast w)) + unat a < 2 ^ 256 \<and> ev = BurnMinted n t (ucast w) a \<and>
     s' = s\<lparr>burn_minted := (burn_minted s)(n := True), burn_pending := (burn_pending s)(n := 0),
            balance_of := (balance_of s)(t := (balance_of s t)(ucast w := balance_of s t (ucast w) + a))\<rparr>"
  by (auto simp: mint_burned_def Let_def outcome_simps)

interpretation burn_guard:
  mint_guard "mint_exec keccak" msg_sender mint_operator burn_pending burn_minted
    "mint_attests keccak" "mint_mints keccak" for keccak
proof
  fix msg c s s' ev n h
  assume run: "mint_exec keccak msg c s = Inr (s', ev)"
  show "mint_operator s' = mint_operator s"
    using run by (cases "(keccak, c)" rule: mint_mints.cases)
      (auto simp: add_burn_pending_Ok_iff mint_burned_Ok_iff)
  show "msg_sender msg = mint_operator s \<and> \<not> burn_minted s n \<and>
      burn_pending s' = (burn_pending s)(n := h) \<and> burn_minted s' = burn_minted s"
    if "mint_attests keccak c = Some (n, h)"
    using run that by (cases c) (auto simp: add_burn_pending_Ok_iff)
  show "mint_attests keccak c = None \<and> \<not> burn_minted s n \<and> burn_pending s n = h \<and> h \<noteq> 0 \<and>
      burn_pending s' = (burn_pending s)(n := 0) \<and> burn_minted s' = (burn_minted s)(n := True)"
    if "mint_mints keccak c = Some (n, h)"
    using run that by (cases "(keccak, c)" rule: mint_mints.cases) (auto simp: mint_burned_Ok_iff)
  show "burn_pending s' = burn_pending s \<and> burn_minted s' = burn_minted s"
    if "mint_attests keccak c = None" "mint_mints keccak c = None"
    using that by (cases "(keccak, c)" rule: mint_mints.cases) simp_all
qed

section \<open>The ledger\<close>

text \<open>What a call credits to a holder of a token.\<close>

fun credit :: "bytes32 \<Rightarrow> address \<Rightarrow> mint_call \<Rightarrow> nat" where
  "credit token holder (MintBurnedCall p (r, n, t, a, d, w)) =
     (if t = token \<and> ucast w = holder then unat a else 0)"
| "credit token holder (AddBurnPendingCall n t a d dest) = 0"

definition credited :: "bytes32 \<Rightarrow> address \<Rightarrow> (evm_msg \<times> mint_call) list \<Rightarrow> nat" where
  "credited token holder log = sum_list (map (credit token holder \<circ> snd) log)"

lemma balance_credited:
  assumes "call_run (mint_exec keccak) s0 log s" and "balance_of s0 = (\<lambda>_ _. 0)"
  shows "unat (balance_of s token holder) = credited token holder log"
proof (rule call_run_invariant [OF assms(1)])
  show "unat (balance_of s0 token holder) = credited token holder []"
    by (simp add: assms(2) credited_def)
  fix log msg c s s' ev
  assume IH: "unat (balance_of s token holder) = credited token holder log"
    and run: "mint_exec keccak msg c s = Ok (s', ev)"
  show "unat (balance_of s' token holder) = credited token holder (log @ [(msg, c)])"
    using run IH
    by (cases "(keccak, c)" rule: mint_mints.cases)
      (auto simp: add_burn_pending_Ok_iff mint_burned_Ok_iff credited_def unat_word_ariths)
qed

end
