(* ===== verification/Bridge.thy ===== *)
theory Bridge
  imports Evm_Pool Evm_Mint Attestor Pool_Chain
begin

text \<open>
  The two pools and the canister together. Forward, the canister reads a burn off Solana
  (\<open>verify_xburn_transaction\<close>) and sends \<open>addPending\<close> to the EVM pool, where the note is minted;
  backward, it reads the EVM pool's storage and sends \<open>add_pending_xburn\<close> to the program. What an
  operator that attests only what the canister confirmed adds to the guarantees of each side.
\<close>

section \<open>From a signed transaction to a call of the pool\<close>

text \<open>An address is the number its 20 bytes spell.\<close>

definition address_of :: "bytes \<Rightarrow> address" where
  "address_of b = word_of_nat (nat_of_be b)"

text \<open>
  The call a chain makes of a legacy transaction that calls \<open>addPending\<close> on the pool: the sender is
  the address of the key the signature recovers.
\<close>

definition delivers :: "crates \<Rightarrow> u64 \<Rightarrow> bytes \<Rightarrow> bytes \<Rightarrow> evm_msg \<Rightarrow> pool_call \<Rightarrow> bool" where
  "delivers c chain_id pool raw msg call \<longleftrightarrow>
     (\<exists>t pubkey key selector n d oc.
        own_transaction c pubkey chain_id t raw \<and> tx_to t = pool \<and>
        sec1_uncompressed c pubkey = Some key \<and>
        msg_sender msg = address_of (evm_address_bytes c (tl key)) \<and>
        block_chainid msg = ucast chain_id \<and>
        hex_decode c SEL_ADD_PENDING = Some selector \<and>
        tx_data t = selector @ abi_encode [n, d, oc] \<and> call = AddPendingCall n d oc)"

lemma evm_pubkey_sec1_Ok:
  assumes "evm_pubkey_sec1 c m = Ok (pubkey, from_addr)"
  obtains key where "sec1_uncompressed c pubkey = Some key" and "from_addr = evm_address_bytes c (tl key)"
  using assms by (auto simp: evm_pubkey_sec1_def outcome_simps)

text \<open>What the canister broadcasts is delivered as the operator's attestation of the claims.\<close>

lemma submit_add_pending_delivered:
  assumes "submit_add_pending c m e chain_id rpc_url pool nh dh oh = Ok status"
    and "evm_admissible (c, m, e, chain_id, rpc_url, pool, nh, dh, oh)"
    and "hex_decode c (trim_0x pool) = Some to" and "evm_pubkey_sec1 c m = Ok (pubkey, from_addr)"
    and "parse_u256_hex c nh = Ok n" and "parse_u256_hex c dh = Ok d" and "parse_u256_hex c oh = Ok oc"
  obtains raw where "send_raw_transaction e chain_id rpc_url raw = Consistent (Some status)"
    and "delivers c chain_id to raw \<lparr>msg_sender = address_of from_addr, block_chainid = ucast chain_id\<rparr>
      (AddPendingCall n d oc)"
proof -
  have laws: "codec_laws c" using assms(2) by simp
  obtain raw where raw: "signed_add_pending c m e chain_id rpc_url pool nh dh oh = Ok raw"
    and send: "send_raw_transaction e chain_id rpc_url raw = Consistent (Some status)"
    by (rule submit_add_pending_Ok [OF assms(1) laws])
  obtain data nonce gas_price where
    data: "add_pending_data c nh dh oh = Ok data"
    and own: "own_transaction c pubkey chain_id
      \<lparr>tx_nonce = unat (nonce :: u64), tx_gas_price = nat_of_be gas_price, tx_gas_limit = 200000,
       tx_to = to, tx_value = 0, tx_data = data, tx_v = 0, tx_r = 0, tx_s = 0\<rparr> raw"
    by (rule evm_wire_reads [OF assms(2) raw]) (use assms(3,4) in auto)
  obtain key where key: "sec1_uncompressed c pubkey = Some key"
    and from_addr: "from_addr = evm_address_bytes c (tl key)"
    by (rule evm_pubkey_sec1_Ok [OF assms(4)])
  obtain selector where sel: "hex_decode c SEL_ADD_PENDING = Some selector"
    and eq: "data = selector @ abi_encode [n, d, oc]"
    using data assms(5-7) by (auto simp: add_pending_data_def outcome_simps abi_encode_def)
  have "delivers c chain_id to raw \<lparr>msg_sender = address_of from_addr, block_chainid = ucast chain_id\<rparr>
      (AddPendingCall n d oc)"
    unfolding delivers_def
    by (intro exI conjI) (rule own | use key sel eq from_addr in simp)+
  with send show ?thesis by (rule that)
qed

text \<open>An attestation of the pool's operator is accepted, and is all a mint of it needs.\<close>

lemma attestation_accepted:
  assumes "msg_sender msg = pool_operator s" and "\<not> minted s n"
  shows "pool_exec hash keccak msg (AddPendingCall n d oc) s =
    Ok (s\<lparr>pendingMint := (pendingMint s)(n := keccak (abi_encode [d, oc]))\<rparr>, PendingAdded n d oc)"
  using assms by (simp add: evm_add_pending_Ok_iff)

lemma attested_mint_succeeds:
  assumes "pendingMint s n = keccak (abi_encode [d, oc])" and "\<not> minted s n"
    and "evm_tree_holds hash H s ls" and "field_elem oc" and "length ls < 2 ^ TREE_DEPTH"
    and "keccak (abi_encode [d, oc]) \<noteq> 0" and "block_chainid msg = d"
    and "xburn_verifier s p (r, n, d, oc) = Some True"
  obtains s' where "pool_exec hash keccak msg (MintCall p (r, n, d, oc)) s =
      Ok (s', Minted n oc (word_of_nat (length ls)))"
    and "evm_tree_holds hash H s' (ls @ [oc])"
proof -
  let ?m = "s\<lparr>minted := (minted s)(n := True), pendingMint := (pendingMint s)(n := 0)\<rparr>"
  have "evm_tree_holds hash H ?m ls"
    using assms(3) by simp
  then obtain s' where "evm_insert hash ?m oc = Ok (s', word_of_nat (length ls))"
    and "evm_tree_holds hash H s' (ls @ [oc])"
    using evm_insert_holds assms(4,5) by blast
  then show ?thesis
    using that assms(1,2,6-8) by (simp add: evm_mint_Ok_iff)
qed

section \<open>Forward: burned on Solana, minted on EVM\<close>

text \<open>
  A transaction is truthful if, unless it failed, each of its instructions of the program was executed
  by the program. An answer of a provider is, if it has no transaction or shows a truthful one. The
  providers report what happened if fewer of the collected answers than the threshold are not.
\<close>

definition executed :: "string \<Rightarrow> (account_info list \<times> bytes) list \<Rightarrow> sol_transaction \<Rightarrow> bool" where
  "executed program_id h t \<longleftrightarrow>
     (\<not> st_failed t \<longrightarrow>
        (\<forall>(p, data) \<in> set (st_instructions t). p < length (st_keys t) \<longrightarrow> st_keys t ! p = program_id \<longrightarrow>
           (\<exists>accounts. (accounts, data) \<in> set h)))"

definition truthful ::
    "crates \<Rightarrow> 'j json \<Rightarrow> string \<Rightarrow> (account_info list \<times> bytes) list \<Rightarrow> 'j \<Rightarrow> bool" where
  "truthful c J program_id h reply \<longleftrightarrow>
     (case j_get J reply ''result'' of
        None \<Rightarrow> True
      | Some result \<Rightarrow> j_is_null J result \<or> (\<exists>t. shows_transaction c J reply t \<and> executed program_id h t))"

definition providers_report ::
    "crates \<Rightarrow> 'j json \<Rightarrow> outcalls \<Rightarrow> string list \<Rightarrow> nat \<Rightarrow> string \<Rightarrow> string
      \<Rightarrow> (account_info list \<times> bytes) list \<Rightarrow> bool" where
  "providers_report c J http urls k program_id signature h \<longleftrightarrow>
     length (filter (\<lambda>reply. \<not> truthful c J program_id h reply)
       (collect_responses J http 0 urls signature)) < k"

lemma truthful_data_executed:
  assumes "truthful c J program_id h reply" and "opaq_instruction_data c J reply program_id = Ok data"
  obtains accounts where "(accounts, data) \<in> set h"
proof -
  obtain t where shown: "shows_transaction c J reply t" and run: "executed program_id h t"
    using assms unfolding truthful_def opaq_instruction_data_def
    by (auto simp: Let_def outcome_simps split: option.splits)
  obtain p where "(p, data) \<in> set (st_instructions t)" "p < length (st_keys t)"
    "st_keys t ! p = program_id" "\<not> st_failed t"
    by (rule opaq_instruction_data_shown [OF assms(2) shown])
  with run show ?thesis
    using that by (fastforce simp: executed_def)
qed

text \<open>An answer with as many votes as the threshold is among the truthful ones.\<close>

lemma agreed_truthful:
  assumes "providers_report c J http urls k program_id signature h"
    and "k \<le> votes (collect_responses J http 0 urls signature) tx"
  shows "truthful c J program_id h tx"
proof (rule ccontr)
  let ?rs = "collect_responses J http 0 urls signature"
  assume "\<not> truthful c J program_id h tx"
  then have "filter (\<lambda>r. r = tx) ?rs = filter (\<lambda>r. r = tx) (filter (\<lambda>r. \<not> truthful c J program_id h r) ?rs)"
    by (induction ?rs) (auto intro!: filter_cong)
  then have "votes ?rs tx \<le> length (filter (\<lambda>r. \<not> truthful c J program_id h r) ?rs)"
    unfolding votes_def by (metis length_filter_le)
  with assms show False
    by (simp add: providers_report_def)
qed

text \<open>The canister confirmed the burn before it was attested.\<close>

definition confirmed_burn ::
    "crates \<Rightarrow> 'j json \<Rightarrow> string \<Rightarrow> (account_info list \<times> bytes) list \<Rightarrow> bytes32 \<Rightarrow> bytes32 \<Rightarrow> bytes32 \<Rightarrow> bool"
  where
  "confirmed_burn c J program_id h n d oc \<longleftrightarrow>
     (\<exists>http urls k signature nh dh oh reply.
        verify_xburn_transaction c J http urls k program_id signature nh dh oh = Ok reply \<and>
        solana_parse_bytes32 c nh = Ok n \<and> solana_parse_bytes32 c dh = Ok d \<and>
        solana_parse_bytes32 c oh = Ok oc \<and>
        providers_report c J http urls (unat k) program_id signature h)"

definition relays_solana ::
    "crates \<Rightarrow> 'j json \<Rightarrow> string \<Rightarrow> (account_info list \<times> bytes) list \<Rightarrow> pool_log \<Rightarrow> bool" where
  "relays_solana c J program_id h log \<longleftrightarrow>
     (\<forall>msg n d oc. (msg, AddPendingCall n d oc) \<in> set log \<longrightarrow> confirmed_burn c J program_id h n d oc)"

lemma confirmed_burn_executed:
  assumes "confirmed_burn c J program_id h n d oc"
  obtains root where "Xburn root n d oc \<in> set (actions_of h)"
proof -
  from assms obtain http urls k signature nh dh oh reply where
    v: "verify_xburn_transaction c J http urls k program_id signature nh dh oh = Ok reply"
    and p: "solana_parse_bytes32 c nh = Ok n" "solana_parse_bytes32 c dh = Ok d"
      "solana_parse_bytes32 c oh = Ok oc"
    and report: "providers_report c J http urls (unat k) program_id signature h"
    unfolding confirmed_burn_def by blast
  obtain tx data where agreed: "get_transaction_with_agreement J http urls (unat k) signature = Ok tx"
    and data: "opaq_instruction_data c J tx program_id = Ok data" and chk: "check_claims data n d oc = Ok ()"
    by (rule verify_xburn_transaction_Ok [OF v]) (use p in auto)
  obtain accounts where ex: "(accounts, data) \<in> set h"
    by (rule truthful_data_executed [OF agreed_truthful [OF report agreement_Ok(1) [OF agreed]] data])
  obtain args where "\<forall>accounts. decode accounts data = Some (Xburn (b32_at args 256) n d oc)"
    by (rule check_claims_Ok [OF chk])
  then have "Xburn (b32_at args 256) n d oc \<in> set (actions_of h)"
    using ex by (auto dest!: split_list)
  then show ?thesis by (rule that)
qed

text \<open>A nullifier that is spent once was burned for one destination.\<close>

lemma xburn_destination_unique:
  assumes "distinct (spends_of as)" and "Xburn r n d oc \<in> set as" and "Xburn r' n d' oc' \<in> set as"
  shows "d = d' \<and> oc = oc'"
proof -
  obtain xs ys where as: "as = xs @ Xburn r n d oc # ys"
    using split_list [OF assms(2)] by blast
  have "n \<notin> set (spends_of xs)" "n \<notin> set (spends_of ys)"
    using assms(1) as by auto
  moreover have "n \<in> set (spends_of zs)" if "Xburn r' n d' oc' \<in> set zs" for zs
    using that by (auto simp: spends_of_def intro!: bexI [of _ "Xburn r' n d' oc'"])
  ultimately show ?thesis
    using assms(3) as by auto
qed

lemma xburn_spends: "Xburn r n d oc \<in> set as \<Longrightarrow> n \<in> set (spends_of as)"
  by (auto simp: spends_of_def intro!: bexI [of _ "Xburn r n d oc"])

lemma pool_attestsE:
  assumes "pool_attests keccak c = Some (n, h)"
  obtains d oc where "c = AddPendingCall n d oc" and "h = keccak (abi_encode [d, oc])"
  using assms by (cases c) auto

lemma evm_mint_confirmed:
  assumes "call_run (pool_exec hash keccak) (pool_constructor verifier operator) log s"
    and "relays_solana c J program_id h log" and "(msg, MintCall p (r, n, d, oc)) \<in> set log"
  obtains root d' oc' m where "Xburn root n d' oc' \<in> set (actions_of h)"
    and "(m, AddPendingCall n d' oc') \<in> set log" and "msg_sender m = operator"
    and "keccak (abi_encode [d', oc']) = keccak (abi_encode [d, oc])"
proof -
  let ?s0 = "pool_constructor verifier operator"
  obtain g k where log: "log = g @ (msg, MintCall p (r, n, d, oc)) # k"
    using split_list [OF assms(3)] by blast
  note run = assms(1) [unfolded log]
  obtain m' c' where c': "(m', c') \<in> set g" "msg_sender m' = pool_operator ?s0"
      "pool_attests keccak c' = Some (n, keccak (abi_encode [d, oc]))"
    by (rule pool_guard.guarded_mint_attested [OF run deployed_guard(1,2) [OF refl]]) auto
  obtain d' oc' where eq: "c' = AddPendingCall n d' oc'"
    "keccak (abi_encode [d, oc]) = keccak (abi_encode [d', oc'])"
    by (rule pool_attestsE [OF c'(3)])
  have mem: "(m', AddPendingCall n d' oc') \<in> set log"
    using c'(1) eq(1) by (simp add: log)
  then obtain root where "Xburn root n d' oc' \<in> set (actions_of h)"
    using assms(2) unfolding relays_solana_def by (blast elim: confirmed_burn_executed)
  then show ?thesis
    using that mem c'(2) eq(2) deployed_guard(3) [OF refl] by simp
qed

lemma evm_mint_accepted:
  assumes "call_run (pool_exec hash keccak) (pool_constructor verifier operator) log s"
    and "(msg, MintCall p (r, n, d, oc)) \<in> set log"
  shows "d = block_chainid msg" and "verifier p (r, n, d, oc) = Some True"
proof -
  obtain g k where log: "log = g @ (msg, MintCall p (r, n, d, oc)) # k"
    using split_list [OF assms(2)] by blast
  obtain s1 s2 ev where pre: "call_run (pool_exec hash keccak) (pool_constructor verifier operator) g s1"
    and step: "pool_exec hash keccak msg (MintCall p (r, n, d, oc)) s1 = Ok (s2, ev)"
    by (rule call_run_middle [OF assms(1) [unfolded log]])
  have "xburn_verifier s1 = verifier"
    using run_verifier [OF pre] deployed_guard(4) [OF refl] by simp
  with step show "d = block_chainid msg" and "verifier p (r, n, d, oc) = Some True"
    unfolding pool_exec.simps evm_mint_Ok_iff by simp_all blast
qed

section \<open>Backward: burned on EVM, minted on Solana\<close>

text \<open>The words the getters of the pool return.\<close>

definition bool_word :: "bool \<Rightarrow> bytes32" where
  "bool_word b = (if b then 1 else 0)"

definition serves_pool ::
    "crates \<Rightarrow> evm_rpc \<Rightarrow> u64 \<Rightarrow> string \<Rightarrow> string \<Rightarrow> block_tag \<Rightarrow> pool_storage \<Rightarrow> bool" where
  "serves_pool c e chain_id rpc_url pool tag s \<longleftrightarrow>
     answers_getter c e chain_id rpc_url pool tag SEL_NULLIFIER_SPENT (\<lambda>n. bool_word (nullifierSpent s n)) \<and>
     answers_getter c e chain_id rpc_url pool tag SEL_PENDING_MINT (pendingMint s)"

lemma check_nullifier_spent_storage:
  assumes "codec_laws c" and "hex_decode c (trim_0x nh) = Some (b32_bytes n)"
    and "serves_pool c e chain_id rpc_url pool (if finalized then Finalized else Latest) s"
  shows "check_nullifier_spent c e chain_id rpc_url pool nh finalized = Ok (nullifierSpent s n)"
    and "read_pending_mint c e chain_id rpc_url pool nh finalized =
      Ok (hex0x c (b32_bytes (pendingMint s n)))"
proof -
  have "evm_parse_bytes32 c nh = Ok n"
    by (simp add: evm_parse_bytes32_def assms(2))
  moreover have "eth_call_bytes32 c e chain_id rpc_url pool SEL_NULLIFIER_SPENT n finalized =
      Ok (bool_word (nullifierSpent s n))"
    using assms(3) unfolding serves_pool_def by (intro eth_call_bytes32_getter [OF assms(1)]) simp
  moreover have "eth_call_bytes32 c e chain_id rpc_url pool SEL_PENDING_MINT n finalized =
      Ok (pendingMint s n)"
    using assms(3) unfolding serves_pool_def by (intro eth_call_bytes32_getter [OF assms(1)]) simp
  ultimately show "check_nullifier_spent c e chain_id rpc_url pool nh finalized = Ok (nullifierSpent s n)"
    and "read_pending_mint c e chain_id rpc_url pool nh finalized = Ok (hex0x c (b32_bytes (pendingMint s n)))"
    using bool_word_iff [of "bool_word (nullifierSpent s n)"]
    by (simp_all add: check_nullifier_spent_def read_pending_mint_def hex0x_def bool_word_def)
qed

text \<open>The storage of the pool does not keep the destination of a burn.\<close>

lemma xburn_destination_forgotten:
  assumes "evm_xburn p (r, n, d, oc) s = Ok (s1, ev1)" and "evm_xburn q (r', n, d', oc') s = Ok (s2, ev2)"
  shows "s1 = s2"
  using assms by (simp add: evm_xburn_Ok_iff)

text \<open>Every attestation of the operator was preceded by a query that found the nullifier burned.\<close>

definition relays_evm ::
    "crates \<Rightarrow> evm_rpc \<Rightarrow> u64 \<Rightarrow> string \<Rightarrow> string \<Rightarrow> pool_storage \<Rightarrow> action list \<Rightarrow> bool" where
  "relays_evm c e chain_id rpc_url pool s as \<longleftrightarrow>
     serves_pool c e chain_id rpc_url pool Finalized s \<and>
     (\<forall>op n dest oc. Attest op n dest oc \<in> set as \<longrightarrow>
        (\<exists>nh. hex_decode c (trim_0x nh) = Some (b32_bytes n) \<and>
           check_nullifier_spent c e chain_id rpc_url pool nh True = Ok True))"

lemma relayed_attestation_burned:
  assumes "codec_laws c" and "relays_evm c e chain_id rpc_url pool s as" and "Attest op n dest oc \<in> set as"
  shows "nullifierSpent s n"
proof -
  obtain nh where "hex_decode c (trim_0x nh) = Some (b32_bytes n)"
    and "check_nullifier_spent c e chain_id rpc_url pool nh True = Ok True"
    using assms(2,3) unfolding relays_evm_def by blast
  then show ?thesis
    using check_nullifier_spent_storage(1) [OF assms(1), of nh n e chain_id rpc_url pool True s] assms(2)
    by (simp add: relays_evm_def)
qed

lemma chain_mint_attest:
  assumes "deployment rt H pid" and "pool_holds rt H pid L0 empty_pool" and "chain rt pid L0 h L"
    and "n \<in> set (mints_of (actions_of h))"
  obtains op d oc where "Attest op n d oc \<in> set (actions_of h)"
proof -
  have "\<exists>r d oc. Mint r n d oc \<in> set as" if "n \<in> set (mints_of as)" for as
    using that
  proof (induction as)
    case (Cons a as)
    then show ?case by (cases a) auto
  qed simp
  then obtain r d oc where "Mint r n d oc \<in> set (actions_of h)"
    using assms(4) by blast
  then obtain accounts data where "(accounts, data) \<in> set h"
    and dec: "decode accounts data = Some (Mint r n d oc)"
    by (auto simp: actions_of_def List.map_filter_def split: if_splits)
  then obtain g k where h: "h = g @ (accounts, data) # k"
    using split_list by metis
  obtain op a rest data' d' oc' where "(a # rest, data') \<in> set g"
    and "decode (a # rest) data' = Some (Attest op n d' oc')"
    using chain_mint(2) [OF assms(1-3) h dec] by blast
  then have "Attest op n d' oc' \<in> set (actions_of h)"
    unfolding h by (force simp: actions_of_def List.map_filter_def)
  then show ?thesis by (rule that)
qed

end
