(* ===== verification/Demo_Evm.thy ===== *)
theory Demo_Evm
  imports Bridge Demo_Attestor
begin

text \<open>
  An EVM pool and an OpaqMint for the witnesses: a verifier that accepts field elements, the toy
  digest of \<open>Demo_Attestor\<close>, the canister's address as operator, and short runs of calls.
\<close>

definition demo_xburn_verifier :: "groth_words \<Rightarrow> xburn_signals \<Rightarrow> bool option" where
  "demo_xburn_verifier p sg =
     (case sg of (r, n, d, oc) \<Rightarrow> Some (list_all field_elem [r, n, d, oc]))"

definition demo_operator :: address where
  "demo_operator = address_of (evm_address_bytes demo_crates (b32_bytes 77 @ b32_bytes 77))"

definition demo_pool :: pool_storage where
  "demo_pool = pool_constructor demo_xburn_verifier demo_operator"

definition demo_msg :: "u256 \<Rightarrow> evm_msg" where
  "demo_msg chain_id = \<lparr>msg_sender = demo_operator, block_chainid = chain_id\<rparr>"

abbreviation demo_words :: groth_words where
  "demo_words \<equiv> ((1, 2), ((3, 4), (5, 6)), (7, 8))"

text \<open>
  Attest nullifier 21 for destination \<open>a\<close> and mint it on \<open>d\<close>, which need not be \<open>a\<close> under a digest
  that collides; or burn it.
\<close>

definition demo_mint_log :: "u256 \<Rightarrow> u256 \<Rightarrow> pool_log" where
  "demo_mint_log a d =
     [(demo_msg d, AddPendingCall 21 a 11), (demo_msg d, MintCall demo_words (EMPTY_ROOT, 21, d, 11))]"

definition demo_burn_log :: pool_log where
  "demo_burn_log = [(demo_msg 1, XburnCall demo_words (EMPTY_ROOT, 21, 101, 11))]"

lemma demo_t3: "hashes_to (\<lambda>a b. Some (demo_hash a b)) demo_hash"
  by (simp add: hashes_to_def field_elem_demo_hash)

lemma demo_canonical: "canonical_verifier demo_xburn_verifier"
  by (simp add: canonical_verifier_def demo_xburn_verifier_def)

lemma demo_pool_simps [simp]:
  "pool_operator demo_pool = demo_operator" "minted demo_pool = (\<lambda>_. False)"
  "pendingMint demo_pool = (\<lambda>_. 0)" "nullifierSpent demo_pool = (\<lambda>_. False)"
  "xburn_verifier demo_pool = demo_xburn_verifier"
  "msg_sender (demo_msg d) = demo_operator" "block_chainid (demo_msg d) = d"
  by (simp_all add: demo_pool_def pool_constructor_storage demo_msg_def)

lemma demo_pool_tree: "evm_tree_holds demo_hash demo_hash demo_pool []"
  unfolding demo_pool_def by (rule pool_constructor_tree [OF demo_t3 demo_consts_match])

lemma demo_accepts: "field_elem d \<Longrightarrow> demo_xburn_verifier p (EMPTY_ROOT, 21, d, 11) = Some True"
  by (simp add: demo_xburn_verifier_def field_elem_EMPTY_ROOT small_field_elem)

lemma demo_mint_runs:
  assumes "field_elem d" and "keccak (abi_encode [d, 11]) \<noteq> 0"
    and "keccak (abi_encode [a, 11]) = keccak (abi_encode [d, 11])"
  shows "\<exists>s. call_run (pool_exec demo_hash keccak) demo_pool (demo_mint_log a d) s"
proof -
  let ?s1 = "demo_pool\<lparr>pendingMint := (pendingMint demo_pool)(21 := keccak (abi_encode [a, 11]))\<rparr>"
  have one: "pool_exec demo_hash keccak (demo_msg d) (AddPendingCall 21 a 11) demo_pool =
      Ok (?s1, PendingAdded 21 a 11)"
    by (rule attestation_accepted) simp_all
  obtain s2 where two: "pool_exec demo_hash keccak (demo_msg d)
      (MintCall demo_words (EMPTY_ROOT, 21, d, 11)) ?s1 = Ok (s2, Minted 21 11 (word_of_nat (length [])))"
    by (rule attested_mint_succeeds [where s = ?s1 and n = 21 and keccak = keccak and d = d and oc = 11
          and hash = demo_hash and H = demo_hash and ls = "[]" and msg = "demo_msg d"
          and r = EMPTY_ROOT])
      (use assms demo_pool_tree demo_accepts in \<open>simp_all add: small_field_elem\<close>)
  have "call_run (pool_exec demo_hash keccak) demo_pool [(demo_msg d, AddPendingCall 21 a 11)] ?s1"
    using one_more [of "pool_exec demo_hash keccak", OF no_call one] by simp
  from one_more [of "pool_exec demo_hash keccak", OF this two] show ?thesis
    by (auto simp: demo_mint_log_def)
qed

lemma demo_burn_runs: "\<exists>s. call_run (pool_exec demo_hash keccak) demo_pool demo_burn_log s"
proof -
  have "evm_is_known_root demo_pool EMPTY_ROOT"
    using evm_pool_tree.current_known [OF demo_pool_tree] demo_empty_root by simp
  then obtain s ev where "pool_exec demo_hash keccak (demo_msg 1)
      (XburnCall demo_words (EMPTY_ROOT, 21, 101, 11)) demo_pool = Ok (s, ev)"
    using demo_accepts [of 101] by (simp add: evm_xburn_Ok_iff small_field_elem)
  from one_more [of "pool_exec demo_hash keccak", OF no_call this] show ?thesis
    by (auto simp: demo_burn_log_def)
qed

lemma demo_keccak: "keccak256 demo_crates (abi_encode [d, oc]) = d"
proof -
  have "take 32 (abi_encode [d, oc]) = b32_bytes d"
    by (simp add: abi_encode_def)
  then show ?thesis by (simp add: demo_crates_def)
qed

lemma demo_mint_run:
  "\<exists>s. call_run (pool_exec demo_hash (keccak256 demo_crates)) demo_pool (demo_mint_log 9 9) s"
  by (rule demo_mint_runs) (simp_all add: small_field_elem demo_keccak)

text \<open>Providers that answer from a storage.\<close>

definition demo_serving :: "pool_storage \<Rightarrow> evm_rpc" where
  "demo_serving s = demo_evm
     \<lparr>eth_call := (\<lambda>chain url to input tag. Consistent (Some (''0x'' @ demo_hex (b32_bytes
        (if take 4 input = [0x38, 0xc8, 0x69, 0x11] then bool_word (nullifierSpent s (b32_at input 4))
         else pendingMint s (b32_at input 4))))))\<rparr>"

lemma unhex_append: "demo_unhex sel = Some s \<Longrightarrow> demo_unhex (sel @ demo_hex b) = Some (s @ b)"
  by (induction sel arbitrary: s rule: demo_unhex.induct)
    (auto simp: unhex_hex split: option.splits prod.splits)

lemma demo_serving_getter:
  assumes "demo_unhex sel = Some s" and "length s = 4"
  shows "answers_getter demo_crates (demo_serving st) chain_id rpc_url demo_pool_address tag sel
    (\<lambda>n. if s = [0x38, 0xc8, 0x69, 0x11] then bool_word (nullifierSpent st n) else pendingMint st n)"
proof -
  have "b32_at (s @ b32_bytes n) 4 = n" and "take 4 (s @ b32_bytes n) = s" for n
    using assms(2) by (simp_all add: b32_at_end)
  then show ?thesis
    using unhex_append [OF assms(1)]
    by (auto simp: answers_getter_def demo_pool_address_parses encode_call_def
        demo_hex_from_str_def demo_serving_def hex0x_def)
qed

lemma demo_serves_pool: "serves_pool demo_crates (demo_serving s) chain_id rpc_url demo_pool_address tag s"
proof -
  have "demo_unhex SEL_NULLIFIER_SPENT = Some [0x38, 0xc8, 0x69, 0x11]"
    and "demo_unhex SEL_PENDING_MINT = Some [0x87, 0x48, 0x88, 0x92]"
    by (simp_all add: SEL_NULLIFIER_SPENT_def SEL_PENDING_MINT_def hex_digit_def)
  from this [THEN demo_serving_getter] show ?thesis
    by (simp add: serves_pool_def)
qed

text \<open>The burn of nullifier 21 for chain 9, as executed and as the providers report it.\<close>

lemma demo_xburn_confirmed:
  "confirmed_burn demo_crates (demo_json_api (demo_docs demo_xburn)) ''opaq''
     [(demo_spend_accounts, demo_xburn)] 21 9 11"
proof -
  let ?J = "demo_json_api (demo_docs demo_xburn)" and ?urls = "[''good'', ''bad'', ''good'']"
  have "check_claims demo_xburn 21 9 11 = Ok ()"
    unfolding demo_xburn_def by (rule check_claims_complete) (simp_all add: demo_args4)
  then have v: "verify_xburn_transaction demo_crates ?J demo_outcalls ?urls 2 ''opaq'' ''tx''
      (hex_b32 21) (hex_b32 9) (hex_b32 11) = Ok (''tx'', hex_b32 21, hex_b32 9, hex_b32 11)"
    by (simp add: verify_xburn_transaction_def demo_parse_b32 demo_agreed demo_instruction_data)
  have "executed ''opaq'' [(demo_spend_accounts, demo_xburn)] (demo_burn_transaction demo_xburn)"
    by (simp add: executed_def demo_burn_transaction_def)
  then have "truthful demo_crates ?J ''opaq'' [(demo_spend_accounts, demo_xburn)] (demo_burn_tx demo_xburn)"
    using demo_burn_shown unfolding truthful_def by (auto split: option.splits)
  moreover have "truthful demo_crates ?J ''opaq'' [(demo_spend_accounts, demo_xburn)]
      (JObj [(''result'', JNull)])"
    by (simp add: truthful_def demo_json_api_def)
  ultimately have "providers_report demo_crates ?J demo_outcalls ?urls (unat (2 :: u32)) ''opaq'' ''tx''
      [(demo_spend_accounts, demo_xburn)]"
    unfolding providers_report_def demo_collect by simp
  with v show ?thesis
    unfolding confirmed_burn_def using demo_parse_b32 by blast
qed

lemma demo_xburn_executed:
  "\<exists>L. chain demo_runtime demo_program demo_ledger [(demo_spend_accounts, demo_xburn)] L"
proof -
  have "set demo_spend_accounts \<subseteq> insert demo_payer (range demo_info)"
    by (auto simp: demo_spend_accounts_def)
  then show ?thesis
    using demo_xburn_succeeds demo_chain_step [OF chain_start] by fastforce
qed

text \<open>The canister's own address is the operator of the pool.\<close>

lemma demo_evm_key:
  "evm_pubkey_sec1 demo_crates demo_management =
     Ok (2 # b32_bytes 77, evm_address_bytes demo_crates (b32_bytes 77 @ b32_bytes 77))"
  by (simp add: evm_pubkey_sec1_def demo_management_def)

lemma demo_evm_admissible:
  "evm_admissible (demo_crates, demo_management, demo_evm, 11155111, ''http'', demo_pool_address,
     hex_b32 21, hex_b32 101, hex_b32 11)"
  using demo_codec_laws by (simp add: gas_price_reply_def raw_json_rpc_def demo_evm_def consistent_def)

text \<open>The attestations of the Solana demo, relayed from the EVM burn.\<close>

lemma demo_relays_evm:
  assumes "call_run (pool_exec demo_hash keccak) demo_pool demo_burn_log s"
  shows "relays_evm demo_crates (demo_serving s) 1 ''http'' demo_pool_address s
    (actions_of [(demo_registry_accounts, demo_init), (demo_registry_accounts, demo_attest),
       (demo_mint_accounts, demo_mint)])"
proof -
  have "log_burns demo_burn_log = [21]"
    by (simp add: demo_burn_log_def)
  then have spent: "nullifierSpent s 21"
    using deployed_log [OF assms [unfolded demo_pool_def] refl demo_t3 demo_consts_match demo_canonical]
    by (simp add: log_explains_def)
  have hex: "hex_decode demo_crates (trim_0x (hex_b32 n)) = Some (b32_bytes n)" for n
    by (simp add: hex_b32_def unhex_hex trim_0x_id [OF hex_no_x])
  have "check_nullifier_spent demo_crates (demo_serving s) 1 ''http'' demo_pool_address (hex_b32 21) True =
      Ok True"
    using check_nullifier_spent_storage(1) [where finalized = True and s = s and n = 21,
        OF demo_codec_laws hex demo_serves_pool] spent
    by simp
  then have "\<exists>nh. hex_decode demo_crates (trim_0x nh) = Some (b32_bytes 21) \<and>
      check_nullifier_spent demo_crates (demo_serving s) 1 ''http'' demo_pool_address nh True = Ok True"
    using hex by blast
  then show ?thesis
    using demo_serves_pool by (auto simp: relays_evm_def demo_decodes)
qed

text \<open>A credit of 5 of token 4, then of 2.\<close>

definition demo_mint_contract :: mint_storage where
  "demo_mint_contract = mint_constructor (\<lambda>p sg. Some True) demo_operator"

definition demo_credit_log :: "(evm_msg \<times> mint_call) list" where
  "demo_credit_log =
     [(demo_msg 1, AddBurnPendingCall 21 4 5 1 8), (demo_msg 1, MintBurnedCall demo_words (3, 21, 4, 5, 1, 8)),
      (demo_msg 1, AddBurnPendingCall 22 4 2 1 8), (demo_msg 1, MintBurnedCall demo_words (3, 22, 4, 2, 1, 8))]"

lemma demo_credits: "\<exists>s. call_run (mint_exec (\<lambda>_. 7)) demo_mint_contract demo_credit_log s"
  unfolding demo_credit_log_def
  by (intro exI)
    (rule one_more [of "mint_exec (\<lambda>_. 7)" _ "[a, b, c]" for a b c, simplified]
          one_more [of "mint_exec (\<lambda>_. 7)" _ "[a, b]" for a b, simplified]
          one_more [of "mint_exec (\<lambda>_. 7)" _ "[a]" for a, simplified]
          one_more [of "mint_exec (\<lambda>_. 7)" _ "[]", simplified] |
     simp add: add_burn_pending_Ok_iff mint_burned_Ok_iff demo_mint_contract_def mint_constructor_def
       burn_tuple_hash_def)+

end
