(* ===== verification/Bridge_Properties.thy ===== *)
theory Bridge_Properties
  imports Demo_Evm
begin

text \<open>
  What the EVM contracts guarantee by themselves, and what the two pools and the canister guarantee
  together. Claims C16 to C19, C28, C31 and C33.
\<close>

section \<open>The EVM pool\<close>

text \<open>
  C16: After any sequence of calls since deployment, by anyone, no nullifier was burned twice and
  none was minted twice; the storage marks exactly those burned and those minted and keeps exactly
  the attestations not yet minted; the tree holds exactly the minted commitments: its current root
  is the root of the full tree over them, and it accepts the nonzero roots of its last 32 states.
\<close>

theorem evm_pool_history:
  assumes "call_run (pool_exec hash keccak) (pool_constructor verifier operator) log s"
    and "hashes_to (\<lambda>a b. Some (hash a b)) H" and "consts_match H" and "canonical_verifier verifier"
  shows "distinct (log_burns log) \<and> (\<forall>n. nullifierSpent s n \<longleftrightarrow> n \<in> set (log_burns log)) \<and>
    distinct (minted_in (pool_mints keccak) log) \<and>
    (\<forall>n. minted s n \<longleftrightarrow> n \<in> set (minted_in (pool_mints keccak) log)) \<and>
    pendingMint s = pending_after (pool_attests keccak) (pool_mints keccak) log \<and>
    pool_roots s ! unat (currentRootIndex s) = merkle_root H (log_leaves log) \<and>
    (evm_is_known_root s r \<longleftrightarrow> recent_root H (log_leaves log) r)"
proof -
  have ex: "log_explains hash H (pool_constructor verifier operator) log s"
    by (rule deployed_log [OF assms(1) refl assms(2-4)])
  then have tree: "evm_tree_holds hash H s (log_leaves log)"
    by (simp add: log_explains_def)
  note guard = pool_guard.run_explained [OF assms(1) deployed_guard(1,2) [OF refl]]
  have "evm_is_known_root s r \<longleftrightarrow> recent_root H (log_leaves log) r"
    using evm_pool_tree.known_iff [OF tree] by (simp add: recent_root_def)
  with ex guard evm_current_root [OF tree] show ?thesis
    by (simp add: log_explains_def)
qed

theorem evm_pool_history_witness:
  "\<exists>s. call_run (pool_exec demo_hash (keccak256 demo_crates)) demo_pool (demo_mint_log 9 9) s \<and>
     minted s 21 \<and> pool_roots s ! unat (currentRootIndex s) = merkle_root demo_hash [11]"
proof -
  obtain s where run: "call_run (pool_exec demo_hash (keccak256 demo_crates)) demo_pool (demo_mint_log 9 9) s"
    using demo_mint_run by blast
  have "log_leaves (demo_mint_log 9 9) = [11]" "21 \<in> set (minted_in (pool_mints keccak) (demo_mint_log 9 9))"
    for keccak
    by (simp_all add: demo_mint_log_def)
  then show ?thesis
    using run evm_pool_history [OF run [unfolded demo_pool_def] demo_t3 demo_consts_match demo_canonical]
    by (metis (no_types, lifting))
qed

text \<open>
  C17: The pools of the two chains keep the same tree: where they inserted the same commitments,
  their current roots are equal and they accept the same roots.
\<close>

theorem pools_agree:
  assumes "deployment rt H pid" and "pool_holds rt H pid L0 empty_pool" and "chain rt pid L0 h L"
    and "call_run (pool_exec hash keccak) (pool_constructor verifier operator) log s"
    and "hashes_to (\<lambda>a b. Some (hash a b)) H" and "consts_match H" and "canonical_verifier verifier"
    and "log_leaves log = inserts_of (actions_of h)"
  shows "pool_roots s ! unat (currentRootIndex s) =
      current_root (tree_of_bytes (acc_data (L (tree_key rt pid)))) \<and>
    (evm_is_known_root s r \<longleftrightarrow> tree_is_known_root (acc_data (L (tree_key rt pid))) r = Ok True)"
proof -
  have tree: "evm_tree_holds hash H s (log_leaves log)"
    using deployed_log [OF assms(4) refl assms(5-7)] by (simp add: log_explains_def)
  have holds: "tree_holds (poseidon_syscall rt) H (acc_data (L (tree_key rt pid))) (inserts_of (actions_of h))"
    by (rule chain_no_double_spend(3) [OF assms(1-3)])
  show ?thesis
    using evm_current_root [OF tree] evm_pool_tree.known_iff [OF tree, of r] chain_root [OF assms(1-3)]
      pool_tree.known_iff [OF holds, of r]
    by (simp add: assms(8) known_in_def)
qed

theorem pools_agree_witness:
  "\<exists>L s. chain demo_runtime demo_program demo_ledger [(demo_deposit_accounts, 1 # demo_deposit_args)] L \<and>
     call_run (pool_exec demo_hash (keccak256 demo_crates)) demo_pool (demo_mint_log 9 9) s \<and>
     pool_roots s ! unat (currentRootIndex s) =
       current_root (tree_of_bytes (acc_data (L (tree_key demo_runtime demo_program))))"
proof -
  obtain s where run: "call_run (pool_exec demo_hash (keccak256 demo_crates)) demo_pool (demo_mint_log 9 9) s"
    using demo_mint_run by blast
  have "set demo_deposit_accounts \<subseteq> insert demo_payer (range demo_info)"
    by (auto simp: demo_deposit_accounts_def)
  then obtain L where c: "chain demo_runtime demo_program demo_ledger
      [(demo_deposit_accounts, 1 # demo_deposit_args)] L"
    using demo_deposit_succeeds demo_chain_step [OF chain_start] by fastforce
  have same: "log_leaves (demo_mint_log 9 9) =
      inserts_of (actions_of [(demo_deposit_accounts, 1 # demo_deposit_args)])"
    by (simp add: demo_mint_log_def demo_decodes)
  show ?thesis
    using run c pools_agree [OF demo_deployment demo_pool_holds c run [unfolded demo_pool_def] demo_t3
        demo_consts_match demo_canonical same] by blast
qed

section \<open>The bridge, forward\<close>

text \<open>
  C18: Suppose the operator attests only burns the canister confirmed, and in each confirmation fewer
  of the collected answers than the threshold were untrue: an answer is true if it has no transaction
  or shows one whose instructions of the program were executed unless it failed. Then every note
  minted by the EVM pool was burned on Solana: the executed burn spent the same nullifier, for a
  destination and commitment with the same hash; the operator attested it, the mint is on the chain it
  names, and the verifier accepted its proof.
\<close>

theorem evm_mint_was_burned:
  assumes "call_run (pool_exec hash keccak) (pool_constructor verifier operator) log s"
    and "relays_solana c J program_id h log" and "(msg, MintCall p (r, n, d, oc)) \<in> set log"
  shows "\<exists>root d' oc' m. Xburn root n d' oc' \<in> set (actions_of h) \<and> n \<in> set (spends_of (actions_of h)) \<and>
    (m, AddPendingCall n d' oc') \<in> set log \<and> msg_sender m = operator \<and>
    keccak (abi_encode [d', oc']) = keccak (abi_encode [d, oc]) \<and> d = block_chainid msg \<and>
    verifier p (r, n, d, oc) = Some True"
proof -
  obtain root d' oc' m where "Xburn root n d' oc' \<in> set (actions_of h)"
    and "(m, AddPendingCall n d' oc') \<in> set log" and "msg_sender m = operator"
    and "keccak (abi_encode [d', oc']) = keccak (abi_encode [d, oc])"
    by (rule evm_mint_confirmed [OF assms])
  then show ?thesis
    using xburn_spends evm_mint_accepted [OF assms(1,3)] by blast
qed

theorem evm_mint_was_burned_witness:
  "\<exists>s root d' oc'. call_run (pool_exec demo_hash (keccak256 demo_crates)) demo_pool (demo_mint_log 9 9) s \<and>
     Xburn root 21 d' oc' \<in> set (actions_of [(demo_spend_accounts, demo_xburn)])"
proof -
  obtain s where run: "call_run (pool_exec demo_hash (keccak256 demo_crates)) demo_pool (demo_mint_log 9 9) s"
    using demo_mint_run by blast
  have relay: "relays_solana demo_crates (demo_json_api (demo_docs demo_xburn)) ''opaq''
      [(demo_spend_accounts, demo_xburn)] (demo_mint_log 9 9)"
    using demo_xburn_confirmed by (simp add: relays_solana_def demo_mint_log_def)
  show ?thesis
    using run evm_mint_was_burned [OF run [unfolded demo_pool_def] relay, of "demo_msg 9" demo_words
        EMPTY_ROOT 21 9 11] by (auto simp: demo_mint_log_def)
qed

text \<open>
  C19: One burn is minted on one chain: if pools on two EVM chains, whose operators attest only
  burns the canister confirmed, from answers of which fewer than the threshold are untrue (as in the
  previous theorem), minted the same nullifier, then the destination burned for and one of those
  minted are a collision of \<open>keccak256\<close>.
\<close>

theorem burn_minted_on_one_chain:
  assumes "deployment rt H pid" and "pool_holds rt H pid L0 empty_pool" and "chain rt pid L0 h L"
    and "call_run (pool_exec hash keccak) (pool_constructor verifier operator) log s"
    and "relays_solana c J program_id h log" and "(msg, MintCall p (r, n, d, oc)) \<in> set log"
    and "call_run (pool_exec hash keccak) (pool_constructor verifier2 operator2) log2 s2"
    and "relays_solana c J program_id h log2" and "(msg2, MintCall p2 (r2, n, d2, oc2)) \<in> set log2"
    and "block_chainid msg \<noteq> block_chainid msg2"
  shows "\<exists>root d' oc'. Xburn root n d' oc' \<in> set (actions_of h) \<and>
    ((d', oc') \<noteq> (d, oc) \<and> keccak (abi_encode [d', oc']) = keccak (abi_encode [d, oc]) \<or>
     (d', oc') \<noteq> (d2, oc2) \<and> keccak (abi_encode [d', oc']) = keccak (abi_encode [d2, oc2]))"
proof -
  obtain root d' oc' m where one: "Xburn root n d' oc' \<in> set (actions_of h)"
    "keccak (abi_encode [d', oc']) = keccak (abi_encode [d, oc])"
    by (rule evm_mint_confirmed [OF assms(4-6)])
  obtain root2 d3 oc3 m2 where two: "Xburn root2 n d3 oc3 \<in> set (actions_of h)"
    "keccak (abi_encode [d3, oc3]) = keccak (abi_encode [d2, oc2])"
    by (rule evm_mint_confirmed [OF assms(7-9)])
  have "d' = d3 \<and> oc' = oc3"
    by (rule xburn_destination_unique [OF chain_no_double_spend(1) [OF assms(1-3)] one(1) two(1)])
  moreover have "d \<noteq> d2"
    using evm_mint_accepted(1) [OF assms(4,6)] evm_mint_accepted(1) [OF assms(7,9)] assms(10) by simp
  ultimately show ?thesis
    using one two by blast
qed

text \<open>The witness has a digest that collides, without which the hypotheses exclude each other.\<close>

theorem burn_minted_on_one_chain_witness:
  "\<exists>root d' oc'. Xburn root 21 d' oc' \<in> set (actions_of [(demo_spend_accounts, demo_xburn)]) \<and>
     (d', oc') \<noteq> (8 :: u256, 11 :: u256)"
proof -
  let ?k = "(\<lambda>_. 7) :: bytes \<Rightarrow> bytes32"
  obtain s9 where a: "call_run (pool_exec demo_hash ?k) demo_pool (demo_mint_log 9 9) s9"
    using demo_mint_runs [of 9 ?k 9] by (auto simp: small_field_elem)
  obtain s8 where b: "call_run (pool_exec demo_hash ?k) demo_pool (demo_mint_log 9 8) s8"
    using demo_mint_runs [of 8 ?k 9] by (auto simp: small_field_elem)
  obtain L where chain: "chain demo_runtime demo_program demo_ledger [(demo_spend_accounts, demo_xburn)] L"
    using demo_xburn_executed by blast
  have relay: "relays_solana demo_crates (demo_json_api (demo_docs demo_xburn)) ''opaq''
      [(demo_spend_accounts, demo_xburn)] (demo_mint_log 9 d)" for d
    using demo_xburn_confirmed by (simp add: relays_solana_def demo_mint_log_def)
  have actions: "actions_of [(demo_spend_accounts, demo_xburn)] = [Xburn EMPTY_ROOT 21 9 11]"
    by (simp add: demo_decodes)
  show ?thesis
    using burn_minted_on_one_chain [OF demo_deployment demo_pool_holds chain
        a [unfolded demo_pool_def] relay _ b [unfolded demo_pool_def] relay,
        of "demo_msg 9" demo_words EMPTY_ROOT 21 9 11 "demo_msg 8" demo_words EMPTY_ROOT 8 11]
    unfolding actions by (auto simp: demo_mint_log_def)
qed

text \<open>
  C33: A submission that reports success broadcast a transaction that the chain delivers to the pool as
  the attestation of the three claims, signed by the canister's key. If the canister is the pool's
  operator and the nullifier is not minted yet, the pool accepts it; and then, unless the digest of
  destination and commitment is zero, whoever has a proof the verifier accepts for these values, from
  any root, can mint the note as long as the tree has room.
\<close>

theorem evm_attestation_lands:
  assumes "submit_add_pending c m e chain_id rpc_url pool nh dh oh = Ok status"
    and "evm_admissible (c, m, e, chain_id, rpc_url, pool, nh, dh, oh)"
    and "hex_decode c (trim_0x pool) = Some to" and "evm_pubkey_sec1 c m = Ok (pubkey, from_addr)"
    and "parse_u256_hex c nh = Ok n" and "parse_u256_hex c dh = Ok d" and "parse_u256_hex c oh = Ok oc"
    and "pool_operator s = address_of from_addr" and "\<not> minted s n"
    and "evm_tree_holds hash H s ls" and "length ls < 2 ^ TREE_DEPTH" and "field_elem oc"
    and "keccak256 c (abi_encode [d, oc]) \<noteq> 0"
  shows "\<exists>raw msg s1. send_raw_transaction e chain_id rpc_url raw = Consistent (Some status) \<and>
    delivers c chain_id to raw msg (AddPendingCall n d oc) \<and>
    pool_exec hash (keccak256 c) msg (AddPendingCall n d oc) s = Ok (s1, PendingAdded n d oc) \<and>
    (\<forall>msg' p r. block_chainid msg' = d \<longrightarrow> xburn_verifier s p (r, n, d, oc) = Some True \<longrightarrow>
       (\<exists>s2. pool_exec hash (keccak256 c) msg' (MintCall p (r, n, d, oc)) s1 =
          Ok (s2, Minted n oc (word_of_nat (length ls))) \<and> evm_tree_holds hash H s2 (ls @ [oc])))"
proof -
  let ?msg = "\<lparr>msg_sender = address_of from_addr, block_chainid = ucast chain_id\<rparr> :: evm_msg"
  let ?s1 = "s\<lparr>pendingMint := (pendingMint s)(n := keccak256 c (abi_encode [d, oc]))\<rparr>"
  obtain raw where sent: "send_raw_transaction e chain_id rpc_url raw = Consistent (Some status)"
    and delivered: "delivers c chain_id to raw ?msg (AddPendingCall n d oc)"
    by (rule submit_add_pending_delivered [OF assms(1-7)])
  have "pool_exec hash (keccak256 c) ?msg (AddPendingCall n d oc) s = Ok (?s1, PendingAdded n d oc)"
    using assms(8,9) by (intro attestation_accepted) simp_all
  moreover have "\<exists>s2. pool_exec hash (keccak256 c) msg' (MintCall p (r, n, d, oc)) ?s1 =
      Ok (s2, Minted n oc (word_of_nat (length ls))) \<and> evm_tree_holds hash H s2 (ls @ [oc])"
    if "block_chainid msg' = d" and "xburn_verifier s p (r, n, d, oc) = Some True" for msg' p r
    by (rule attested_mint_succeeds [of ?s1 n "keccak256 c" d oc hash H ls msg' p r])
      (use assms(9-13) that in auto)
  ultimately show ?thesis
    using sent delivered by blast
qed

theorem evm_attestation_lands_witness:
  "\<exists>raw msg s1 s2. send_raw_transaction demo_evm 11155111 ''http'' raw = Consistent (Some ''Ok'') \<and>
     delivers demo_crates 11155111 (replicate 20 7) raw msg (AddPendingCall 21 101 11) \<and>
     pool_exec demo_hash (keccak256 demo_crates) (demo_msg 101)
       (MintCall demo_words (EMPTY_ROOT, 21, 101, 11)) s1 = Ok (s2, Minted 21 11 0)"
proof -
  have acc: "xburn_verifier demo_pool demo_words (EMPTY_ROOT, 21, 101, 11) = Some True"
    using demo_accepts [of 101] by (simp add: small_field_elem)
  have hex: "hex_decode demo_crates (trim_0x demo_pool_address) = Some (replicate 20 7)"
    using demo_pool_address_parses(1) by simp
  have p: "parse_u256_hex demo_crates (hex_b32 w) = Ok w" for w
    by (simp add: hex_b32_def demo_u256)
  have op: "pool_operator demo_pool = address_of (evm_address_bytes demo_crates (b32_bytes 77 @ b32_bytes 77))"
    by (simp add: demo_operator_def)
  have rest: "\<not> minted demo_pool 21" "length [] < (2 :: nat) ^ TREE_DEPTH" "field_elem 11"
    "keccak256 demo_crates (abi_encode [101, 11]) \<noteq> 0"
    by (simp_all add: small_field_elem demo_keccak)
  have here: "block_chainid (demo_msg 101) = 101"
    by simp
  obtain raw msg s1 where "send_raw_transaction demo_evm 11155111 ''http'' raw = Consistent (Some ''Ok'')"
    and "delivers demo_crates 11155111 (replicate 20 7) raw msg (AddPendingCall 21 101 11)"
    and mint: "\<forall>msg' p r. block_chainid msg' = 101 \<longrightarrow>
      xburn_verifier demo_pool p (r, 21, 101, 11) = Some True \<longrightarrow>
      (\<exists>s2. pool_exec demo_hash (keccak256 demo_crates) msg' (MintCall p (r, 21, 101, 11)) s1 =
         Ok (s2, Minted 21 11 (word_of_nat (length ([] :: bytes32 list)))) \<and> evm_tree_holds demo_hash demo_hash s2 ([] @ [11]))"
    using evm_attestation_lands [OF demo_evm_submits demo_evm_admissible hex demo_evm_key p p p op
        rest(1) demo_pool_tree rest(2,3,4)] by (elim exE conjE) (rule that)
  then show ?thesis
    using mint [rule_format, OF here acc] by (auto simp del: pool_exec.simps)
qed

section \<open>The bridge, backward\<close>

text \<open>
  C31: Against providers that serve the pool's finalized storage, the canister's queries say exactly
  whether a nullifier was burned in the log and what is pending for it; and with an operator of the
  Solana registry that attests only nullifiers the canister found burned, every note minted on Solana
  was burned by the EVM pool, and no burn is minted twice on Solana.
\<close>

theorem solana_mint_was_burned:
  assumes "deployment rt H pid" and "pool_holds rt H pid L0 empty_pool" and "chain rt pid L0 h L"
    and "call_run (pool_exec hash keccak) (pool_constructor verifier operator) log s"
    and "hashes_to (\<lambda>a b. Some (hash a b)) H" and "consts_match H" and "canonical_verifier verifier"
    and "codec_laws c" and "relays_evm c e chain_id rpc_url pool s (actions_of h)"
  shows "(\<forall>n nh. hex_decode c (trim_0x nh) = Some (b32_bytes n) \<longrightarrow>
      check_nullifier_spent c e chain_id rpc_url pool nh True = Ok (n \<in> set (log_burns log)) \<and>
      read_pending_mint c e chain_id rpc_url pool nh True =
        Ok (hex0x c (b32_bytes (pending_after (pool_attests keccak) (pool_mints keccak) log n)))) \<and>
    set (mints_of (actions_of h)) \<subseteq> set (log_burns log) \<and> distinct (mints_of (actions_of h))"
proof (intro conjI allI impI)
  have spent: "nullifierSpent s n \<longleftrightarrow> n \<in> set (log_burns log)" for n
    using deployed_log [OF assms(4) refl assms(5-7)] by (simp add: log_explains_def)
  have pending: "pendingMint s = pending_after (pool_attests keccak) (pool_mints keccak) log"
    using pool_guard.run_explained [OF assms(4) deployed_guard(1,2) [OF refl]] by simp
  have serves: "serves_pool c e chain_id rpc_url pool (if True then Finalized else Latest) s"
    using assms(9) by (simp add: relays_evm_def)
  show "check_nullifier_spent c e chain_id rpc_url pool nh True = Ok (n \<in> set (log_burns log))"
    and "read_pending_mint c e chain_id rpc_url pool nh True =
        Ok (hex0x c (b32_bytes (pending_after (pool_attests keccak) (pool_mints keccak) log n)))"
    if "hex_decode c (trim_0x nh) = Some (b32_bytes n)" for n nh
    using check_nullifier_spent_storage [OF assms(8) that serves] spent pending by simp_all
  show "distinct (mints_of (actions_of h))"
    by (rule chain_mint(1) [OF assms(1-3)])
  show "set (mints_of (actions_of h)) \<subseteq> set (log_burns log)"
  proof
    fix n assume "n \<in> set (mints_of (actions_of h))"
    then obtain op d' c' where "Attest op n d' c' \<in> set (actions_of h)"
      by (rule chain_mint_attest [OF assms(1-3)])
    then show "n \<in> set (log_burns log)"
      using relayed_attestation_burned [OF assms(8,9)] spent by blast
  qed
qed

theorem solana_mint_was_burned_witness:
  "\<exists>h L s. chain demo_runtime demo_program demo_ledger h L \<and>
     call_run (pool_exec demo_hash (keccak256 demo_crates)) demo_pool demo_burn_log s \<and>
     21 \<in> set (mints_of (actions_of h)) \<and> set (mints_of (actions_of h)) \<subseteq> {21}"
proof -
  let ?h = "[(demo_registry_accounts, demo_init), (demo_registry_accounts, demo_attest),
       (demo_mint_accounts, demo_mint)]"
  obtain L where c: "chain demo_runtime demo_program demo_ledger ?h L"
    using demo_mint_chain by blast
  obtain s where run: "call_run (pool_exec demo_hash (keccak256 demo_crates)) demo_pool demo_burn_log s"
    using demo_burn_runs by blast
  have "log_burns demo_burn_log = [21]" and "21 \<in> set (mints_of (actions_of ?h))"
    by (simp_all add: demo_burn_log_def demo_decodes)
  then show ?thesis
    using c run solana_mint_was_burned [OF demo_deployment demo_pool_holds c run [unfolded demo_pool_def]
        demo_t3 demo_consts_match demo_canonical demo_codec_laws demo_relays_evm [OF run]]
    by (metis (no_types, lifting) list.set(1,2))
qed

section \<open>The first EVM contract\<close>

text \<open>
  C28: In OpaqMint the balance of a holder is exactly the sum of the amounts minted to them, without
  wrap-around; no burned nullifier is minted twice; and every mint was attested before by the
  operator, for a tuple of token, amount, chain and address with the same hash.
\<close>

theorem mint_ledger_is_the_log:
  assumes "call_run (mint_exec keccak) (mint_constructor verifier operator) log s"
  shows "unat (balance_of s token holder) = credited token holder log \<and>
    distinct (minted_in (mint_mints keccak) log) \<and>
    (\<forall>g m p r n t a d w k. log = g @ (m, MintBurnedCall p (r, n, t, a, d, w)) # k \<longrightarrow>
       (\<exists>m' t' a' d' dest. (m', AddBurnPendingCall n t' a' d' dest) \<in> set g \<and> msg_sender m' = operator \<and>
          burn_tuple_hash keccak t' a' d' dest = burn_tuple_hash keccak t a d (ucast w)))"
proof (intro conjI allI impI)
  let ?s0 = "mint_constructor verifier operator"
  have s0: "burn_pending ?s0 = (\<lambda>_. 0)" "burn_minted ?s0 = (\<lambda>_. False)" "balance_of ?s0 = (\<lambda>_ _. 0)"
    "mint_operator ?s0 = operator"
    by (simp_all add: mint_constructor_def)
  show "unat (balance_of s token holder) = credited token holder log"
    by (rule balance_credited [OF assms s0(3)])
  show "distinct (minted_in (mint_mints keccak) log)"
    using burn_guard.run_explained [OF assms s0(1,2)] by simp
  fix g m p r n t a d w k
  assume log: "log = g @ (m, MintBurnedCall p (r, n, t, a, d, w)) # k"
  obtain m' c' where "(m', c') \<in> set g"
    "mint_attests keccak c' = Some (n, burn_tuple_hash keccak t a d (ucast w))" "msg_sender m' = operator"
    by (rule burn_guard.guarded_mint_attested [OF assms [unfolded log] s0(1,2)]) (auto simp: s0(4))
  then show "\<exists>m' t' a' d' dest. (m', AddBurnPendingCall n t' a' d' dest) \<in> set g \<and> msg_sender m' = operator \<and>
      burn_tuple_hash keccak t' a' d' dest = burn_tuple_hash keccak t a d (ucast w)"
    by (cases c') fastforce+
qed

theorem mint_ledger_is_the_log_witness:
  "\<exists>s. call_run (mint_exec (\<lambda>_. 7)) demo_mint_contract demo_credit_log s \<and>
     unat (balance_of s 4 8) = 7"
proof -
  obtain s where run: "call_run (mint_exec (\<lambda>_. 7)) demo_mint_contract demo_credit_log s"
    using demo_credits by blast
  have "credited 4 8 demo_credit_log = 7"
    by (simp add: credited_def demo_credit_log_def)
  then show ?thesis
    using run mint_ledger_is_the_log [OF run [unfolded demo_mint_contract_def], of 4 8] by auto
qed

end
