(* ===== verification/Unit_Tests.thy ===== *)
theory Unit_Tests
  imports Circuits Read_Path Nullifier_Set Tooling_Properties
begin

text \<open>
  The repository's own unit tests, as programs over the model: the \<open>#[test]\<close> functions of
  \<open>tree.rs\<close>, \<open>nullifier.rs\<close>, \<open>viewkey.rs\<close> and \<open>lib.rs\<close> of \<open>crates/common\<close> and the one of the wallet
  (\<open>crates/prover/src/main.rs\<close>). A test returns \<open>Ok ()\<close> when every assertion holds and panics
  otherwise, as does an \<open>unwrap\<close> or \<open>expect\<close> of a failure. Poseidon, the curve and the cipher are
  the parameters they are elsewhere, the keys and random bytes a test draws are arguments, and what
  a test prints is left out.
\<close>

section \<open>Assertions\<close>

definition asserting :: "bool \<Rightarrow> unit tool \<Rightarrow> unit tool" where
  "asserting b rest = (if b then rest else Panic)"

definition unwrap :: "('e, 'a) outcome \<Rightarrow> 'a tool" where
  "unwrap r = (case r of Inr x \<Rightarrow> Ok x | Inl _ \<Rightarrow> Panic)"

lemma asserting_simps [simp]:
  "asserting True rest = rest"
  "asserting False rest = Panic"
  by (simp_all add: asserting_def)

lemma asserting_Ok_iff: "asserting b rest = Ok () \<longleftrightarrow> b \<and> rest = Ok ()"
  by (simp add: asserting_def)

lemma unwrap_simps [simp]:
  "unwrap (Inr x) = Ok x"
  "unwrap (Inl e) = Panic"
  by (simp_all add: unwrap_def)

section \<open>The commitment tree\<close>

definition test_h :: "poseidon \<Rightarrow> hasher" where
  "test_h P = (\<lambda>a b. poseidon_hash2_be P a b)"

lemma test_h_poseidon2: "test_h P = poseidon2 P"
  by (simp add: test_h_def poseidon2_def poseidon_hash2_be_def poseidon_be_def)

definition empty_root_is_known_and_consistent :: "poseidon \<Rightarrow> unit tool" where
  "empty_root_is_known_and_consistent P =
     (let h = test_h P in
      and_then (expect (zero_hashes h)) (\<lambda>zeros.
      and_then (expect (tree_new h)) (\<lambda>t.
      and_then (expect (empty_root h zeros)) (\<lambda>empty.
        asserting (current_root t = empty)
          (asserting (is_known_root t (current_root t))
            (asserting (next_index t = 0) (Ok ())))))))"

definition insert_index0_matches_direct_fold :: "poseidon \<Rightarrow> unit tool" where
  "insert_index0_matches_direct_fold P =
     (let h = test_h P; leaf = be32 42 in
      and_then (expect (zero_hashes h)) (\<lambda>zeros.
      and_then (expect (tree_new h)) (\<lambda>t.
      and_then (unwrap (insert_leaf h zeros t leaf)) (\<lambda>(t, i).
        asserting (i = 0)
          (and_then (expect (merkle_root_be P leaf zeros (replicate TREE_DEPTH False))) (\<lambda>expected.
            asserting (current_root t = expected) (Ok ())))))))"

definition insert_index1_matches_direct_fold :: "poseidon \<Rightarrow> unit tool" where
  "insert_index1_matches_direct_fold P =
     (let h = test_h P; leaf0 = be32 42; leaf1 = be32 99 in
      and_then (expect (zero_hashes h)) (\<lambda>zeros.
      and_then (expect (tree_new h)) (\<lambda>t.
      and_then (unwrap (insert_leaf h zeros t leaf0)) (\<lambda>(t, _).
      and_then (unwrap (insert_leaf h zeros t leaf1)) (\<lambda>(t, i).
        asserting (i = 1)
          (let siblings = zeros[0 := leaf0]; right = (replicate TREE_DEPTH False)[0 := True] in
           and_then (expect (merkle_root_be P leaf1 siblings right)) (\<lambda>expected.
             asserting (current_root t = expected) (Ok ()))))))))"

definition path_test_leaves :: "bytes32 list" where
  "path_test_leaves = map (\<lambda>i. be32 (100 + word_of_nat i)) [0..<7]"

fun check_paths ::
    "poseidon \<Rightarrow> bytes32 list \<Rightarrow> bytes32 list \<Rightarrow> commitment_tree \<Rightarrow> bytes32 \<Rightarrow> nat list \<Rightarrow> unit tool" where
  "check_paths P zeros ls t root [] = Ok ()"
| "check_paths P zeros ls t root (i # is) =
     and_then (expect (reconstruct_path (test_h P) zeros ls (word_of_nat i)))
       (\<lambda>(siblings, right, recon_root).
         asserting (recon_root = root)
           (and_then (expect (merkle_root_be P (ls ! i) siblings right)) (\<lambda>folded.
             asserting (folded = root)
               (asserting (is_known_root t recon_root) (check_paths P zeros ls t root is)))))"

definition reconstructed_path_folds_to_the_live_tree_root :: "poseidon \<Rightarrow> unit tool" where
  "reconstructed_path_folds_to_the_live_tree_root P =
     (let h = test_h P in
      and_then (expect (zero_hashes h)) (\<lambda>zeros.
      and_then (expect (tree_new h)) (\<lambda>t.
      and_then (unwrap (insert_all (insert_leaf h zeros) t path_test_leaves)) (\<lambda>t.
        check_paths P zeros path_test_leaves t (current_root t) [0..<length path_test_leaves]))))"

definition reconstructed_path_for_lone_leaf_matches_empty_frontier :: "poseidon \<Rightarrow> unit tool" where
  "reconstructed_path_for_lone_leaf_matches_empty_frontier P =
     (let h = test_h P; leaf = be32 42 in
      and_then (expect (zero_hashes h)) (\<lambda>zeros.
      and_then (expect (tree_new h)) (\<lambda>t.
      and_then (unwrap (insert_leaf h zeros t leaf)) (\<lambda>(t, _).
      and_then (expect (reconstruct_path h zeros [leaf] 0)) (\<lambda>(siblings, right, recon_root).
        asserting (siblings = zeros)
          (asserting (right = replicate TREE_DEPTH False)
            (asserting (recon_root = current_root t) (Ok ()))))))))"

definition overflow_leaves :: "bytes32 list" where
  "overflow_leaves = map (\<lambda>i. be32 (1000 + word_of_nat i)) [0..<ROOT_HISTORY + 1]"

definition root_ring_buffer_evicts_old_roots :: "poseidon \<Rightarrow> unit tool" where
  "root_ring_buffer_evicts_old_roots P =
     (let h = test_h P in
      and_then (expect (zero_hashes h)) (\<lambda>zeros.
      and_then (expect (tree_new h)) (\<lambda>t.
      and_then (unwrap (insert_leaf h zeros t (be32 1))) (\<lambda>(t, _).
        let first_root = current_root t in
        asserting (is_known_root t first_root)
          (and_then (unwrap (insert_all (insert_leaf h zeros) t overflow_leaves)) (\<lambda>t.
            asserting (\<not> is_known_root t first_root)
              (asserting (is_known_root t (current_root t)) (Ok ()))))))))"

section \<open>The nullifier set\<close>

definition insert_new_then_reject_duplicate :: "unit tool" where
  "insert_new_then_reject_duplicate =
     (let set0 = nullifier_set_new; n = be32 7 in
      asserting (\<not> contains set0 n)
        (and_then (unwrap (try_insert set0 n)) (\<lambda>set1.
          asserting (contains set1 n)
            (asserting (nullifier_set_len set1 = 1)
              (asserting (try_insert set1 n = Err AlreadySpent)
                (asserting (nullifier_set_len set1 = 1) (Ok ())))))))"

definition distinct_nullifiers_coexist :: "unit tool" where
  "distinct_nullifiers_coexist =
     and_then (unwrap (add_all try_insert nullifier_set_new (map (\<lambda>i. be32 (word_of_nat i)) [0..<100])))
       (\<lambda>s. asserting (nullifier_set_len s = 100)
          (asserting (contains s (be32 50)) (asserting (\<not> contains s (be32 100)) (Ok ()))))"

section \<open>Viewing keys\<close>

definition test_opening :: "128 word \<Rightarrow> note_opening" where
  "test_opening seed =
     \<lparr>no_mint = be32 seed, no_amount = be32 (seed + 1), no_blinding_factor = be32 (seed + 2)\<rparr>"

definition round_trip :: "view_crypto \<Rightarrow> view_key \<Rightarrow> bytes32 \<Rightarrow> bytes \<Rightarrow> unit tool" where
  "round_trip X recipient esk nonce =
     (let opening_in = test_opening 100 in
      and_then (encrypt_for X esk nonce (viewing_pubkey X recipient) opening_in) (\<lambda>m.
      and_then (expect (try_decrypt X recipient m)) (\<lambda>opening_out.
        asserting (no_mint opening_out = no_mint opening_in)
          (asserting (no_amount opening_out = no_amount opening_in)
            (asserting (no_blinding_factor opening_out = no_blinding_factor opening_in) (Ok ()))))))"

definition wrong_view_key_fails ::
    "view_crypto \<Rightarrow> view_key \<Rightarrow> view_key \<Rightarrow> bytes32 \<Rightarrow> bytes \<Rightarrow> unit tool" where
  "wrong_view_key_fails X recipient eavesdropper esk nonce =
     and_then (encrypt_for X esk nonce (viewing_pubkey X recipient) (test_opening 200)) (\<lambda>m.
       asserting (try_decrypt X eavesdropper m = None) (Ok ()))"

definition independent_keys_never_collide :: "view_crypto \<Rightarrow> view_key \<Rightarrow> view_key \<Rightarrow> unit tool" where
  "independent_keys_never_collide X a b =
     asserting (viewing_pubkey X a \<noteq> viewing_pubkey X b) (Ok ())"

definition rotation_does_not_touch_owner_pubkey :: "poseidon \<Rightarrow> unit tool" where
  "rotation_does_not_touch_owner_pubkey P =
     (let spend_key = be32 987654321 in
      and_then (expect (poseidon_be P [spend_key])) (\<lambda>owner_pubkey_before.
      and_then (expect (poseidon_be P [spend_key])) (\<lambda>owner_pubkey_after.
        asserting (owner_pubkey_before = owner_pubkey_after) (Ok ()))))"

definition memo_wire_round_trip :: "view_crypto \<Rightarrow> view_key \<Rightarrow> bytes32 \<Rightarrow> bytes \<Rightarrow> unit tool" where
  "memo_wire_round_trip X recipient esk nonce =
     and_then (encrypt_for X esk nonce (viewing_pubkey X recipient) (test_opening 300)) (\<lambda>m.
     and_then (memo_to_bytes m) (\<lambda>b.
       asserting (length b = MEMO_LEN)
         (and_then (expect (try_decrypt X recipient (memo_from_bytes b))) (\<lambda>opening_out.
           asserting (no_amount opening_out = no_amount (test_opening 300)) (Ok ())))))"

definition view_key_persistence_round_trip ::
    "view_crypto \<Rightarrow> view_key \<Rightarrow> bytes32 \<Rightarrow> bytes \<Rightarrow> unit tool" where
  "view_key_persistence_round_trip X original esk nonce =
     (let reloaded = view_key_from_bytes (view_key_to_bytes original) in
      asserting (viewing_pubkey X original = viewing_pubkey X reloaded)
        (and_then (encrypt_for X esk nonce (viewing_pubkey X original) (test_opening 400)) (\<lambda>m.
          asserting (try_decrypt X reloaded m \<noteq> None) (Ok ()))))"

section \<open>The memo on an instruction\<close>

definition attach_recipient_memo_appends_a_decryptable_wire_memo ::
    "view_crypto \<Rightarrow> view_key \<Rightarrow> bytes32 \<Rightarrow> bytes \<Rightarrow> unit tool" where
  "attach_recipient_memo_appends_a_decryptable_wire_memo X recipient esk nonce =
     (let fixed_prefix = replicate 416 0xAB;
          opening = \<lparr>no_mint = be32 1, no_amount = be32 42, no_blinding_factor = be32 999\<rparr> in
      and_then (unwrap (attach_recipient_memo X esk nonce fixed_prefix (viewing_pubkey X recipient) opening))
        (\<lambda>(blob, n).
          asserting (n = MEMO_LEN)
            (asserting (length blob = 416 + MEMO_LEN)
              (asserting (take 416 blob = fixed_prefix)
                (and_then (expect (try_decrypt X recipient (memo_from_bytes (drop 416 blob)))) (\<lambda>recovered.
                  asserting (no_amount recovered = no_amount opening)
                    (asserting (no_mint recovered = no_mint opening)
                      (asserting (no_blinding_factor recovered = no_blinding_factor opening) (Ok ())))))))))"

section \<open>Parity of the two Poseidon libraries\<close>

text \<open>\<open>sol\<close> is \<open>solana_poseidon::hashv\<close> with the BN254 parameters, big endian.\<close>

definition parse_hex32 :: "crates \<Rightarrow> string \<Rightarrow> bytes32 tool" where
  "parse_hex32 c s =
     and_then (expect (hex_decode c (trim_0x s))) (\<lambda>b.
       if length b \<le> 32 then Ok (bytes_b32 (patch (replicate 32 0) (32 - length b) b)) else Panic)"

fun check_parity :: "poseidon \<Rightarrow> poseidon \<Rightarrow> bytes32 list list \<Rightarrow> unit tool" where
  "check_parity P sol [] = Ok ()"
| "check_parity P sol (v # vs) =
     and_then (expect (poseidon_be P v)) (\<lambda>light.
     and_then (expect (sol v)) (\<lambda>s. asserting (light = s) (check_parity P sol vs)))"

definition parity_light_vs_solana :: "crates \<Rightarrow> poseidon \<Rightarrow> poseidon \<Rightarrow> unit tool" where
  "parity_light_vs_solana c P sol =
     and_then (parse_hex32 c ''1111111111111111111111111111111111111111111111111111111111111111'') (\<lambda>ones.
     and_then (parse_hex32 c ''2222222222222222222222222222222222222222222222222222222222222222'') (\<lambda>twos.
       check_parity P sol [[be32 1, be32 2], [be32 0, be32 0], [be32 3, be32 4], [ones, twos]]))"

definition parity_light_vs_solana_hash1_hash4 :: "poseidon \<Rightarrow> poseidon \<Rightarrow> unit tool" where
  "parity_light_vs_solana_hash1_hash4 P sol =
     check_parity P sol
       ([[be32 1], [be32 42], [be32 987654321]] @
        [[be32 1, be32 2, be32 3, be32 4], [be32 0xAB, be32 1000000, be32 0xCD, be32 123456789]])"

section \<open>The tree tests\<close>

lemma unat_be32: "unat (be32 n) = unat n"
proof -
  have "unat n < 2 ^ 128"
    using unat_bound [of n] by simp
  then have "unat (word_of_nat (unat n) :: bytes32) = unat n"
    by (subst unat_of_nat) simp
  then show ?thesis
    by (metis be32_ucast of_nat_unat)
qed

lemma field_elem_be32 [simp]: "field_elem (be32 n)"
proof -
  have "unat n < 2 ^ 128"
    using unat_bound [of n] by simp
  then show ?thesis
    by (simp add: field_elem_def unat_be32 bn254_fr_def)
qed

lemma be32_eq_iff [simp]: "be32 m = be32 n \<longleftrightarrow> m = n"
  by (metis unat_be32 word_unat_eq_iff)

lemma field_elem_test_leaves:
  "list_all field_elem path_test_leaves" "list_all field_elem overflow_leaves"
  by (simp_all add: path_test_leaves_def overflow_leaves_def list_all_iff)

lemma length_test_leaves [simp]:
  "length path_test_leaves = 7" "length overflow_leaves = Suc ROOT_HISTORY"
  by (simp_all add: path_test_leaves_def overflow_leaves_def)

text \<open>What \<open>new\<close> and the insertions of a test leave: a tree that holds the leaves inserted.\<close>

lemma new_tree_run:
  assumes "hashes_to (poseidon2 P) H"
  obtains t where "tree_new (poseidon2 P) = Some t" and "represents (poseidon2 P) H t []"
  using represents_new [OF assms] by blast

lemma insert_run:
  assumes "represents (poseidon2 P) H t ls" and "field_elem x" and "length ls < 2 ^ TREE_DEPTH"
  obtains t' where "insert_leaf (poseidon2 P) (zeros_of H) t x = Inr (t', word_of_nat (length ls))"
    and "represents (poseidon2 P) H t' (ls @ [x])" and "current_root t' = merkle_root H (ls @ [x])"
  using insert_leaf_represents [OF assms] by blast

text \<open>The authentication paths the first tests write out by hand.\<close>

lemma first_path:
  "map fst (auth_path H [x] 0 [0..<TREE_DEPTH]) = zeros_of H"
  "map snd (auth_path H [x] 0 [0..<TREE_DEPTH]) = replicate TREE_DEPTH False"
  by (auto simp: auth_path_def sibling_def zeros_of_def node_empty intro!: nth_equalityI)

lemma second_path:
  "map fst (auth_path H [x, y] 1 [0..<TREE_DEPTH]) = (zeros_of H)[0 := x]"
  "map snd (auth_path H [x, y] 1 [0..<TREE_DEPTH]) = (replicate TREE_DEPTH False)[0 := True]"
proof -
  have up: "1 div 2 ^ l = (if l = 0 then 1 else (0 :: nat))" for l
  proof (cases l)
    case (Suc k)
    have "(1 :: nat) < 2 ^ Suc k" by (rule one_less_power) simp_all
    with Suc show ?thesis by (simp del: power_Suc)
  qed simp
  have sib: "node H [x, y] l (sibling (1 div 2 ^ l)) = (if l = 0 then x else zero_node H l)" for l
  proof (cases "l = 0")
    case False
    have "(1 :: nat) < 2 ^ l" using False by (intro one_less_power) simp_all
    then have "length [x, y] \<le> 1 * 2 ^ l" by simp
    with False show ?thesis
      unfolding up by (simp add: sibling_def node_empty)
  qed (simp add: sibling_def)
  have "map fst (auth_path H [x, y] 1 [0..<TREE_DEPTH]) =
      map (\<lambda>l. if l = 0 then x else zero_node H l) [0..<TREE_DEPTH]"
    unfolding auth_path_def map_map by (rule map_cong) (simp_all only: o_def fst_conv sib)
  then show "map fst (auth_path H [x, y] 1 [0..<TREE_DEPTH]) = (zeros_of H)[0 := x]"
    by (auto simp: zeros_of_def nth_list_update intro!: nth_equalityI)
  show "map snd (auth_path H [x, y] 1 [0..<TREE_DEPTH]) = (replicate TREE_DEPTH False)[0 := True]"
    by (rule nth_equalityI) (simp_all add: auth_path_def up nth_list_update del: One_nat_def)
qed

lemma fold_path:
  assumes "hashes_to (poseidon2 P) H" and "list_all field_elem ls" and "i < length ls"
    and "length ls \<le> 2 ^ TREE_DEPTH"
  shows "merkle_root_be P (ls ! i) (map fst (auth_path H ls i [0..<TREE_DEPTH]))
    (map snd (auth_path H ls i [0..<TREE_DEPTH])) = Some (merkle_root H ls)"
proof -
  have "merkle_fold P (node H ls 0 (i div 2 ^ 0)) (auth_path H ls i [0..<0 + TREE_DEPTH]) =
      Some (node H ls (0 + TREE_DEPTH) (i div 2 ^ (0 + TREE_DEPTH)))"
    by (rule merkle_fold_auth_path [OF assms(1,2)])
  then show ?thesis
    using assms(3,4) by (simp add: merkle_root_be_def merkle_root_def zip_map_fst_snd)
qed

lemma empty_root_test_passes:
  assumes "hashes_to (poseidon2 P) H" and "merkle_root H [] \<noteq> 0"
  shows "empty_root_is_known_and_consistent P = Ok ()"
proof -
  obtain t where t: "tree_new (poseidon2 P) = Some t" and r: "represents (poseidon2 P) H t []"
    by (rule new_tree_run [OF assms(1)])
  show ?thesis
    using host_tree.current_known [OF r assms(2)] represents_current_root [OF r] r
    by (simp add: empty_root_is_known_and_consistent_def test_h_poseidon2 t represents_def
        zero_hashes_spec [OF assms(1)] empty_root_spec [OF assms(1)])
qed

lemma index0_test_passes:
  assumes "hashes_to (poseidon2 P) H"
  shows "insert_index0_matches_direct_fold P = Ok ()"
proof -
  obtain t where t: "tree_new (poseidon2 P) = Some t" and r: "represents (poseidon2 P) H t []"
    by (rule new_tree_run [OF assms])
  obtain t' where "insert_leaf (poseidon2 P) (zeros_of H) t (be32 42) = Inr (t', 0)"
    and "current_root t' = merkle_root H [be32 42]"
    by (rule insert_run [OF r, of "be32 42"]) simp_all
  then show ?thesis
    using fold_path [OF assms, of "[be32 42]" 0] t
    by (simp add: insert_index0_matches_direct_fold_def test_h_poseidon2 zero_hashes_spec [OF assms]
        first_path)
qed

lemma index1_test_passes:
  assumes "hashes_to (poseidon2 P) H"
  shows "insert_index1_matches_direct_fold P = Ok ()"
proof -
  obtain t where t: "tree_new (poseidon2 P) = Some t" and r: "represents (poseidon2 P) H t []"
    by (rule new_tree_run [OF assms])
  obtain t1 where t1: "insert_leaf (poseidon2 P) (zeros_of H) t (be32 42) = Inr (t1, 0)"
    and r1: "represents (poseidon2 P) H t1 [be32 42]"
    by (rule insert_run [OF r, of "be32 42"]) simp_all
  obtain t2 where t2: "insert_leaf (poseidon2 P) (zeros_of H) t1 (be32 99) = Inr (t2, 1)"
    and "current_root t2 = merkle_root H [be32 42, be32 99]"
    by (rule insert_run [OF r1, of "be32 99"]) (simp_all add: TREE_DEPTH_def)
  moreover have "merkle_root_be P (be32 99) ((zeros_of H)[0 := be32 42]) ((replicate TREE_DEPTH False)[0 := True]) =
      Some (merkle_root H [be32 42, be32 99])"
    using fold_path [OF assms, of "[be32 42, be32 99]" 1]
    unfolding second_path by (simp add: TREE_DEPTH_def)
  ultimately show ?thesis
    using t t1
    by (simp add: insert_index1_matches_direct_fold_def test_h_poseidon2 zero_hashes_spec [OF assms]
        Let_def)
qed

lemma check_paths_pass:
  assumes "hashes_to (poseidon2 P) H" and "list_all field_elem ls" and "length ls \<le> 2 ^ TREE_DEPTH"
    and "is_known_root t (merkle_root H ls)" and "\<forall>i \<in> set is. i < length ls"
  shows "check_paths P (zeros_of H) ls t (merkle_root H ls) is = Ok ()"
  using assms(5)
proof (induction "is")
  case Nil
  then show ?case by simp
next
  case (Cons i "is")
  then have i: "i < length ls" and u: "unat (word_of_nat i :: u64) = i"
    using assms(3) by (simp_all add: unat_leaf_count)
  show ?case
    using Cons assms(4) fold_path [OF assms(1,2) i assms(3)]
    by (simp add: test_h_poseidon2 reconstruct_path_spec [OF assms(1,2)] u)
qed

lemma path_test_passes:
  assumes "hashes_to (poseidon2 P) H" and "merkle_root H path_test_leaves \<noteq> 0"
  shows "reconstructed_path_folds_to_the_live_tree_root P = Ok ()"
proof -
  have small: "length path_test_leaves \<le> 2 ^ TREE_DEPTH"
    by (simp add: TREE_DEPTH_def)
  obtain t t' where t: "tree_new (poseidon2 P) = Some t"
    and run: "insert_all (insert_leaf (poseidon2 P) (zeros_of H)) t path_test_leaves =
      (Inr t' :: (tree_error, _) outcome)"
    and r: "represents (poseidon2 P) H t' path_test_leaves"
    using tree_new_insert_all [OF assms(1) field_elem_test_leaves(1) small] by blast
  have "check_paths P (zeros_of H) path_test_leaves t' (merkle_root H path_test_leaves) [0..<7] = Ok ()"
    by (rule check_paths_pass [OF assms(1) field_elem_test_leaves(1) small
          host_tree.current_known [OF r assms(2)]]) simp
  then show ?thesis
    using t run represents_current_root [OF r]
    by (simp add: reconstructed_path_folds_to_the_live_tree_root_def test_h_poseidon2
        zero_hashes_spec [OF assms(1)])
qed

lemma lone_leaf_test_passes:
  assumes "hashes_to (poseidon2 P) H"
  shows "reconstructed_path_for_lone_leaf_matches_empty_frontier P = Ok ()"
proof -
  obtain t where t: "tree_new (poseidon2 P) = Some t" and r: "represents (poseidon2 P) H t []"
    by (rule new_tree_run [OF assms])
  obtain t' where "insert_leaf (poseidon2 P) (zeros_of H) t (be32 42) = Inr (t', 0)"
    and "current_root t' = merkle_root H [be32 42]"
    by (rule insert_run [OF r, of "be32 42"]) simp_all
  then show ?thesis
    using reconstruct_path_spec [OF assms, of "[be32 42]" 0] t
    by (simp add: reconstructed_path_for_lone_leaf_matches_empty_frontier_def test_h_poseidon2
        zero_hashes_spec [OF assms] first_path)
qed

text \<open>
  The 33 insertions of the eviction test leave a window of the roots with 3 to 34 leaves, so the
  test passes exactly when none of these is the first root.
\<close>

lemma eviction_test_passes_iff:
  assumes "hashes_to (poseidon2 P) H" and "merkle_root H [be32 1] \<noteq> 0"
    and "merkle_root H (be32 1 # overflow_leaves) \<noteq> 0"
  shows "root_ring_buffer_evicts_old_roots P = Ok () \<longleftrightarrow>
    (\<forall>m \<in> {3..34}. merkle_root H (take m (be32 1 # overflow_leaves)) \<noteq> merkle_root H [be32 1])"
proof -
  let ?all = "be32 1 # overflow_leaves"
  obtain t where t: "tree_new (poseidon2 P) = Some t" and r: "represents (poseidon2 P) H t []"
    by (rule new_tree_run [OF assms(1)])
  obtain t1 where t1: "insert_leaf (poseidon2 P) (zeros_of H) t (be32 1) = Inr (t1, 0)"
    and r1: "represents (poseidon2 P) H t1 [be32 1]"
    by (rule insert_run [OF r, of "be32 1"]) simp_all
  have "length [be32 1] + length overflow_leaves \<le> 2 ^ TREE_DEPTH"
    by (simp add: TREE_DEPTH_def ROOT_HISTORY_def)
  then obtain t2 where t2: "insert_all (insert_leaf (poseidon2 P) (zeros_of H)) t1 overflow_leaves =
      (Inr t2 :: (tree_error, _) outcome)" and r2: "represents (poseidon2 P) H t2 ?all"
    using host_tree.insert_all_ok [OF r1 field_elem_test_leaves(2)] by auto
  have known: "is_known_root t1 (merkle_root H [be32 1])" "is_known_root t2 (merkle_root H ?all)"
    by (rule host_tree.current_known [OF r1 assms(2)] host_tree.current_known [OF r2 assms(3)])+
  have window: "m \<le> 34 \<and> 34 < m + 32 \<longleftrightarrow> m \<in> {3..34}" for m :: nat
    by auto
  have "(\<exists>m \<le> 34. 34 < m + 32 \<and> merkle_root H [be32 1] = merkle_root H (take m ?all)) \<longleftrightarrow>
      (\<exists>m \<in> {3..34}. merkle_root H (take m ?all) = merkle_root H [be32 1])"
    using window by metis
  then have "is_known_root t2 (merkle_root H [be32 1]) \<longleftrightarrow>
      (\<exists>m \<in> {3..34}. merkle_root H (take m ?all) = merkle_root H [be32 1])"
    using host_tree.known_iff [OF r2, of "merkle_root H [be32 1]"] assms(2)
    by (simp add: ROOT_HISTORY_def)
  then show ?thesis
    using t t1 t2 known represents_current_root [OF r1] represents_current_root [OF r2]
    by (simp add: root_ring_buffer_evicts_old_roots_def test_h_poseidon2 Let_def asserting_Ok_iff
        zero_hashes_spec [OF assms(1)])
qed

section \<open>The nullifier, viewing key and parity tests\<close>

lemma add_all_distinct:
  "distinct (nullifiers s @ ns) \<Longrightarrow>
    add_all try_insert s ns = Ok (s\<lparr>nullifiers := nullifiers s @ ns\<rparr>)"
  by (induction ns arbitrary: s) (auto simp: try_insert_def contains_def list_ex_iff)

lemma small_word_eq_iff:
  "i < 2 ^ 64 \<Longrightarrow> j < 2 ^ 64 \<Longrightarrow> (word_of_nat i :: 128 word) = word_of_nat j \<longleftrightarrow> i = j"
  by (subst word_unat_eq_iff) (simp add: unat_of_nat)

lemma nullifier_tests_pass:
  "insert_new_then_reject_duplicate = Ok ()" "distinct_nullifiers_coexist = Ok ()"
proof -
  show "insert_new_then_reject_duplicate = Ok ()"
    by (simp add: insert_new_then_reject_duplicate_def Let_def try_insert_def contains_def
        nullifier_set_new_def nullifier_set_len_def)
  let ?ns = "map (\<lambda>i. be32 (word_of_nat i)) [0..<100]"
  have "distinct ?ns"
    by (auto simp: distinct_map inj_on_def small_word_eq_iff)
  then have run: "add_all try_insert nullifier_set_new ?ns =
      (Ok \<lparr>nullifiers = ?ns\<rparr> :: (nullifier_error, _) outcome)"
    by (subst add_all_distinct) (simp_all add: nullifier_set_new_def)
  have "be32 (word_of_nat n) \<in> set ?ns \<longleftrightarrow> n < 100" if "n < 2 ^ 64" for n
    using that by (auto simp: small_word_eq_iff)
  from this [of 50] this [of 100] have "be32 50 \<in> set ?ns" and "be32 100 \<notin> set ?ns"
    by simp_all
  then show "distinct_nullifiers_coexist = Ok ()"
    unfolding distinct_nullifiers_coexist_def run
    by (simp add: nullifier_set_len_def contains_def list_ex_iff del: set_map)
qed

lemma memo_tests_pass:
  assumes "view_laws X" and "length nonce = 12"
  shows "round_trip X vk esk nonce = Ok ()"
    and "memo_wire_round_trip X vk esk nonce = Ok ()"
    and "view_key_persistence_round_trip X vk esk nonce = Ok ()"
    and "attach_recipient_memo_appends_a_decryptable_wire_memo X vk esk nonce = Ok ()"
proof -
  have key: "view_key_from_bytes (view_key_to_bytes vk) = vk"
    by (simp add: view_key_from_bytes_def view_key_to_bytes_def)
  show "round_trip X vk esk nonce = Ok ()"
    by (rule encrypt_for_Ok [OF assms, of esk vk "test_opening 100"])
      (simp add: round_trip_def Let_def)
  show "memo_wire_round_trip X vk esk nonce = Ok ()"
    by (rule encrypt_for_Ok [OF assms, of esk vk "test_opening 300"])
      (simp add: memo_wire_round_trip_def)
  show "view_key_persistence_round_trip X vk esk nonce = Ok ()"
    by (rule encrypt_for_Ok [OF assms, of esk vk "test_opening 400"])
      (simp add: view_key_persistence_round_trip_def key Let_def)
  show "attach_recipient_memo_appends_a_decryptable_wire_memo X vk esk nonce = Ok ()"
    by (rule encrypt_for_Ok [OF assms, of esk vk
          "\<lparr>no_mint = be32 1, no_amount = be32 42, no_blinding_factor = be32 999\<rparr>"])
      (simp add: attach_recipient_memo_appends_a_decryptable_wire_memo_def Let_def
        attach_recipient_memo_def recipient_memo_def)
qed

text \<open>A stranger's key opens nothing exactly when the cipher rejects what another key sealed.\<close>

lemma wrong_key_test_passes:
  assumes "view_laws X" and "length nonce = 12"
    and "\<And>k k' p ct. k \<noteq> k' \<Longrightarrow> aead_encrypt X k nonce p = Some ct \<Longrightarrow> aead_decrypt X k' nonce ct = None"
    and "kdf X (diffie_hellman X esk (viewing_pubkey X vk)) \<noteq>
      kdf X (diffie_hellman X esk (viewing_pubkey X stranger))"
  shows "wrong_view_key_fails X vk stranger esk nonce = Ok ()"
proof -
  let ?k = "kdf X (diffie_hellman X esk (viewing_pubkey X vk))"
  obtain ct where ct: "aead_encrypt X ?k nonce (opening_to_bytes (test_opening 200)) = Some ct"
    using assms(1) unfolding view_laws_def by metis
  have "shared_secret X stranger (x25519_public X esk) =
      diffie_hellman X esk (viewing_pubkey X stranger)"
    using assms(1) by (simp add: view_laws_def shared_secret_def viewing_pubkey_def)
  then show ?thesis
    using ct assms(3) [OF assms(4) ct]
    by (simp add: wrong_view_key_fails_def encrypt_for_def try_decrypt_def Let_def)
qed

text \<open>A first byte below 48 makes a canonical field element.\<close>

lemma field_elem_first_byte:
  assumes "unat b < 48" and "length bs = 31"
  shows "field_elem (bytes_b32 (b # bs))"
proof -
  have "nat_of_be (b # bs) = unat b * 256 ^ 31 + nat_of_be bs"
    using nat_of_be_append [of "[b]" bs] assms(2) by (simp add: nat_of_be_def)
  moreover have "unat b * 256 ^ 31 + nat_of_be bs < (unat b + 1) * 256 ^ 31"
    using nat_of_be_less [of bs] assms(2) by simp
  moreover have "(unat b + 1) * 256 ^ 31 \<le> 48 * (256 :: nat) ^ 31"
    using assms(1) by (intro mult_right_mono) simp_all
  ultimately have small: "nat_of_be (b # bs) < 48 * 256 ^ 31"
    by linarith
  then have "unat (bytes_b32 (b # bs)) = nat_of_be (b # bs)"
    unfolding bytes_b32_def by (intro unat_b32_of_nat) simp
  with small show ?thesis
    by (simp add: field_elem_def bn254_fr_def)
qed

lemma replicate_32_Suc: "replicate 32 b = b # replicate 31 b"
  by (simp add: numeral_eq_Suc)

lemma check_parity_passes:
  "\<forall>v \<in> set vs. P v \<noteq> None \<and> sol v = P v \<Longrightarrow> check_parity P sol vs = Ok ()"
  by (induction vs) (auto simp: poseidon_be_def)

lemma parity_tests_pass:
  assumes "hashes_to (poseidon2 P) H" and "hashes_to (poseidon2 sol) H"
    and "\<And>xs. list_all field_elem xs \<Longrightarrow> length xs \<in> {1, 4} \<Longrightarrow>
      \<exists>y. P xs = Some y \<and> sol xs = Some y"
    and "codec_laws c"
    and "hex_encode c (replicate 32 0x11) = ''1111111111111111111111111111111111111111111111111111111111111111''"
    and "hex_encode c (replicate 32 0x22) = ''2222222222222222222222222222222222222222222222222222222222222222''"
  shows "parity_light_vs_solana c P sol = Ok ()"
    and "parity_light_vs_solana_hash1_hash4 P sol = Ok ()"
proof -
  have two: "P [a, b] = Some (H a b) \<and> sol [a, b] = Some (H a b)" if "field_elem a" and "field_elem b" for a b
    using hashes_toD(1) [OF assms(1) that] hashes_toD(1) [OF assms(2) that] by (simp add: poseidon2_def)
  have parse: "parse_hex32 c (hex_encode c (replicate 32 b)) = Ok (bytes_b32 (replicate 32 b))" for b
    by (simp add: parse_hex32_def codec_lawsD [OF assms(4)] patch_def)
  have "field_elem (bytes_b32 (replicate 32 0x11))" and "field_elem (bytes_b32 (replicate 32 0x22))"
    using field_elem_first_byte [of "0x11" "replicate 31 0x11"]
      field_elem_first_byte [of "0x22" "replicate 31 0x22"]
    by (simp_all only: replicate_32_Suc [symmetric] length_replicate) simp_all
  then have "check_parity P sol [[be32 1, be32 2], [be32 0, be32 0], [be32 3, be32 4],
      [bytes_b32 (replicate 32 0x11), bytes_b32 (replicate 32 0x22)]] = Ok ()"
    by (intro check_parity_passes) (simp add: two)
  then show "parity_light_vs_solana c P sol = Ok ()"
    unfolding parity_light_vs_solana_def assms(5,6) [symmetric] parse and_then_simps .
  show "parity_light_vs_solana_hash1_hash4 P sol = Ok ()"
    unfolding parity_light_vs_solana_hash1_hash4_def
  proof (rule check_parity_passes, rule ballI)
    fix v
    assume "v \<in> set ([[be32 1], [be32 42], [be32 987654321]] @
      [[be32 1, be32 2, be32 3, be32 4], [be32 0xAB, be32 1000000, be32 0xCD, be32 123456789]])"
    then have "list_all field_elem v" and "length v \<in> {1, 4}"
      by auto
    from assms(3) [OF this] show "P v \<noteq> None \<and> sol v = P v"
      by auto
  qed
qed

section \<open>They pass\<close>

text \<open>
  Thirteen of the tests pass on the model for every Poseidon, curve and cipher that behave as
  documented. (The two parity tests and the one with a wrong viewing key need more of the primitives
  and have lemmas of their own; that of independent keys compares random keys and is only defined.)
  The tree starts with the empty root; one and two insertions give the root
  the hand-written paths fold to; every path rebuilt from the leaf list folds to the live root, which
  is recognised; a spent nullifier is refused and others coexist; and a memo sealed for a key is
  opened by it, over the wire, after reloading the key and behind a proof blob. The eviction test
  needs that the first root is not the root of a later tree of the test, and the tests that look a
  root up need it to be nonzero.
\<close>

theorem unit_tests_pass:
  assumes "hashes_to (poseidon2 P) H" and "poseidon_be P [be32 987654321] = Some owner"
    and "merkle_root H [] \<noteq> 0" and "merkle_root H [be32 1] \<noteq> 0"
    and "merkle_root H path_test_leaves \<noteq> 0" and "merkle_root H (be32 1 # overflow_leaves) \<noteq> 0"
    and "\<forall>m \<in> {3..34}. merkle_root H (take m (be32 1 # overflow_leaves)) \<noteq> merkle_root H [be32 1]"
    and "view_laws X" and "length nonce = 12"
  shows "empty_root_is_known_and_consistent P = Ok () \<and>
    insert_index0_matches_direct_fold P = Ok () \<and> insert_index1_matches_direct_fold P = Ok () \<and>
    reconstructed_path_folds_to_the_live_tree_root P = Ok () \<and>
    reconstructed_path_for_lone_leaf_matches_empty_frontier P = Ok () \<and>
    root_ring_buffer_evicts_old_roots P = Ok () \<and>
    insert_new_then_reject_duplicate = Ok () \<and> distinct_nullifiers_coexist = Ok () \<and>
    rotation_does_not_touch_owner_pubkey P = Ok () \<and>
    round_trip X vk esk nonce = Ok () \<and> memo_wire_round_trip X vk esk nonce = Ok () \<and>
    view_key_persistence_round_trip X vk esk nonce = Ok () \<and>
    attach_recipient_memo_appends_a_decryptable_wire_memo X vk esk nonce = Ok ()"
proof -
  have "root_ring_buffer_evicts_old_roots P = Ok ()"
    using eviction_test_passes_iff [OF assms(1,4,6)] assms(7) by blast
  moreover have "rotation_does_not_touch_owner_pubkey P = Ok ()"
    by (simp add: rotation_does_not_touch_owner_pubkey_def assms(2))
  ultimately show ?thesis
    using empty_root_test_passes [OF assms(1,3)] index0_test_passes [OF assms(1)]
      index1_test_passes [OF assms(1)] path_test_passes [OF assms(1,5)]
      lone_leaf_test_passes [OF assms(1)] nullifier_tests_pass memo_tests_pass [OF assms(8,9)]
    by (intro conjI)
qed

text \<open>
  A hash for which the roots can be computed by hand: it adds, so that a root is the sum of the
  leaves and the number of inner nodes.
\<close>

definition sum_hash :: hash2_fun where
  "sum_hash a b = word_of_nat ((unat a + unat b + 1) mod bn254_fr)"

definition sum_poseidon :: poseidon where
  "sum_poseidon xs = Some (case xs of [a, b] \<Rightarrow> sum_hash a b | _ \<Rightarrow> 1)"

lemma unat_sum_hash: "unat (sum_hash a b) = (unat a + unat b + 1) mod bn254_fr"
proof -
  have "(unat a + unat b + 1) mod bn254_fr < bn254_fr"
    by (rule mod_less_divisor) (simp add: bn254_fr_def)
  then show ?thesis
    unfolding sum_hash_def by (intro unat_b32_of_nat) (simp add: bn254_fr_def)
qed

lemma sum_hashes_to: "hashes_to (poseidon2 sum_poseidon) sum_hash"
proof -
  have "field_elem (sum_hash a b)" for a b
    unfolding field_elem_def unat_sum_hash by (rule mod_less_divisor) (simp add: bn254_fr_def)
  then show ?thesis
    by (simp add: hashes_to_def poseidon2_def sum_poseidon_def)
qed

lemma node_sum_hash:
  assumes "list_all field_elem ls"
  shows "unat (node sum_hash ls l i) =
    (sum_list (map unat (take (2 ^ l) (drop (i * 2 ^ l) ls))) + (2 ^ l - 1)) mod bn254_fr"
proof (induction l arbitrary: i)
  case 0
  show ?case
  proof (cases "i < length ls")
    case True
    then have "take 1 (drop i ls) = [ls ! i]" and "field_elem (ls ! i)"
      using assms by (simp_all add: Cons_nth_drop_Suc [symmetric] list_all_length)
    with True show ?thesis by (simp add: field_elem_def)
  qed (simp add: ZERO_LEAF_def)
next
  case (Suc l)
  let ?s = "\<lambda>i. sum_list (map unat (take (2 ^ l) (drop (i * 2 ^ l) ls)))"
  have two_halves: "(a + (p - 1)) + (b + (p - 1)) + 1 = a + b + (2 * p - 1)" if "1 \<le> p" for a b p :: nat
    using that by linarith
  have "take (2 ^ Suc l) (drop (i * 2 ^ Suc l) ls) =
      take (2 ^ l) (drop (2 * i * 2 ^ l) ls) @ take (2 ^ l) (drop (Suc (2 * i) * 2 ^ l) ls)"
    by (simp add: mult_2 take_add add_ac mult_ac)
  then have "sum_list (map unat (take (2 ^ Suc l) (drop (i * 2 ^ Suc l) ls))) =
      ?s (2 * i) + ?s (Suc (2 * i))"
    by simp
  moreover have "(?s (2 * i) + (2 ^ l - 1)) + (?s (Suc (2 * i)) + (2 ^ l - 1)) + 1 =
      ?s (2 * i) + ?s (Suc (2 * i)) + (2 ^ Suc l - 1)"
    unfolding power_Suc by (rule two_halves) simp
  moreover have "(a mod r + b mod r + 1) mod r = (a + b + 1) mod r" for a b r :: nat
    by (metis mod_add_eq mod_add_left_eq)
  ultimately show ?case
    by (simp only: node.simps unat_sum_hash Suc.IH)
qed

lemma root_sum_hash:
  assumes "list_all field_elem ls" and "length ls \<le> 2 ^ TREE_DEPTH"
    and "sum_list (map unat ls) < 2 ^ 64"
  shows "unat (merkle_root sum_hash ls) = sum_list (map unat ls) + (2 ^ TREE_DEPTH - 1)"
proof -
  have "sum_list (map unat ls) + (2 ^ TREE_DEPTH - 1) < bn254_fr"
    using assms(3) by (simp add: TREE_DEPTH_def bn254_fr_def)
  then show ?thesis
    using node_sum_hash [OF assms(1), of TREE_DEPTH 0] assms(2) by (simp add: merkle_root_def)
qed

lemma root_sum_hash_nonzero:
  assumes "list_all field_elem ls" and "length ls \<le> 2 ^ TREE_DEPTH"
    and "sum_list (map unat ls) < 2 ^ 64"
  shows "merkle_root sum_hash ls \<noteq> 0"
proof -
  have "unat (merkle_root sum_hash ls) > 0"
    unfolding root_sum_hash [OF assms] by (simp add: TREE_DEPTH_def)
  then show ?thesis by auto
qed

lemma test_leaf_sums:
  "sum_list (map unat path_test_leaves) < 2 ^ 64"
  "sum_list (map unat (take m (be32 1 # overflow_leaves))) < 2 ^ 64"
proof -
  show "sum_list (map unat path_test_leaves) < 2 ^ 64"
    by (simp add: path_test_leaves_def unat_be32 upt_rec)
  have "sum_list (map unat (take m xs)) \<le> sum_list (map unat xs)" for xs :: "bytes32 list"
    by (metis append_take_drop_id le_add1 map_append sum_list_append)
  moreover have "sum_list (map unat (be32 1 # overflow_leaves)) < 2 ^ 64"
    by (simp add: overflow_leaves_def unat_be32 upt_rec ROOT_HISTORY_def)
  ultimately show "sum_list (map unat (take m (be32 1 # overflow_leaves))) < 2 ^ 64"
    using le_less_trans by blast
qed

lemma field_elem_overflow: "list_all field_elem (take m (be32 1 # overflow_leaves))"
proof -
  have "set (take m (be32 1 # overflow_leaves)) \<subseteq> set (be32 1 # overflow_leaves)"
    by (rule set_take_subset)
  then show ?thesis
    using field_elem_test_leaves(2) by (auto simp: list_all_iff)
qed

lemma overflow_bound: "length (take m (be32 1 # overflow_leaves)) \<le> 2 ^ TREE_DEPTH"
  by (simp add: ROOT_HISTORY_def TREE_DEPTH_def min_def)

lemmas overflow_root = root_sum_hash [OF field_elem_overflow overflow_bound test_leaf_sums(2)]
lemmas overflow_root_nonzero =
  root_sum_hash_nonzero [OF field_elem_overflow overflow_bound test_leaf_sums(2)]

lemma sum_roots_differ:
  assumes "3 \<le> m"
  shows "merkle_root sum_hash (take m (be32 1 # overflow_leaves)) \<noteq> merkle_root sum_hash [be32 1]"
proof -
  have m: "m = Suc (Suc (m - 2))"
    using assms by simp
  have "[0..<ROOT_HISTORY + 1] = 0 # [1..<ROOT_HISTORY + 1]"
    using upt_conv_Cons [of 0 "ROOT_HISTORY + 1"] by simp
  then have "overflow_leaves = be32 (1000 + word_of_nat 0) #
      map (\<lambda>i. be32 (1000 + word_of_nat i)) [1..<ROOT_HISTORY + 1]"
    by (simp only: overflow_leaves_def list.map)
  then have rest: "overflow_leaves = be32 1000 #
      map (\<lambda>i. be32 (1000 + word_of_nat i)) [1..<ROOT_HISTORY + 1]"
    by (simp del: upt_Suc)
  have "1001 \<le> sum_list (map unat (take (Suc (Suc k)) (be32 1 # overflow_leaves)))" for k
    unfolding rest by (simp add: unat_be32 del: upt_Suc)
  then have "1001 \<le> sum_list (map unat (take m (be32 1 # overflow_leaves)))"
    using m by metis
  then have "unat (merkle_root sum_hash (take m (be32 1 # overflow_leaves))) \<noteq>
      unat (merkle_root sum_hash (take 1 (be32 1 # overflow_leaves)))"
    unfolding overflow_root by (simp add: unat_be32)
  then show ?thesis by auto
qed

theorem unit_tests_pass_witness:
  "root_ring_buffer_evicts_old_roots sum_poseidon = Ok () \<and>
   reconstructed_path_folds_to_the_live_tree_root sum_poseidon = Ok () \<and>
   round_trip demo_view \<lparr>vk_secret = 3\<rparr> 6 (replicate 12 1) = Ok ()"
proof -
  have owner: "poseidon_be sum_poseidon [be32 987654321] = Some 1"
    by (simp add: poseidon_be_def sum_poseidon_def)
  have empty: "merkle_root sum_hash [] \<noteq> 0"
    using overflow_root_nonzero [of 0] by simp
  have one: "merkle_root sum_hash [be32 1] \<noteq> 0"
    using overflow_root_nonzero [of 1] by simp
  have all: "merkle_root sum_hash (be32 1 # overflow_leaves) \<noteq> 0"
    using overflow_root_nonzero [of "Suc (length overflow_leaves)"] by simp
  have paths: "merkle_root sum_hash path_test_leaves \<noteq> 0"
    by (rule root_sum_hash_nonzero [OF field_elem_test_leaves(1) _ test_leaf_sums(1)])
      (simp add: TREE_DEPTH_def)
  have differ: "\<forall>m \<in> {3..34}. merkle_root sum_hash (take m (be32 1 # overflow_leaves)) \<noteq>
      merkle_root sum_hash [be32 1]"
    using sum_roots_differ by simp
  have nonce: "length (replicate 12 (1 :: byte)) = 12" by simp
  from unit_tests_pass [OF sum_hashes_to owner empty one paths all differ demo_view_laws nonce]
  show ?thesis by blast
qed

end
