(* ===== verification/Payout.thy ===== *)
theory Payout
  imports Wallet_Properties Pool_Chain Pool_Errors
begin

text \<open>
  The way out of the pool, end to end: the wallet rebuilds the path of a note from the leaves the
  chain has shown, the prover makes a proof of what satisfies the withdraw circuit, the emitter lays
  out the instruction, and the program executes it and pays. What lies outside the repository is
  named: a prover that is complete, a token program that moves tokens its vault authority may move,
  and a payer that can top up the nullifier account.
\<close>

section \<open>What the outside must do\<close>

text \<open>Completeness of the proof system: what satisfies the circuit has an accepted proof.\<close>

type_synonym withdraw_prover =
  "bytes32 list \<Rightarrow> bytes32 \<Rightarrow> bytes32 \<Rightarrow> bytes32 list \<Rightarrow> bool list \<Rightarrow> proof_bytes"

definition prover_complete :: "runtime \<Rightarrow> withdraw_prover \<Rightarrow> bool" where
  "prover_complete rt prove \<longleftrightarrow>
     (\<forall>root nf t a r sk bl siblings right.
        withdraw_circuit (poseidon_syscall rt) root nf t a r sk bl siblings right \<longrightarrow>
        list_all field_elem [root, nf, t, a, r] \<longrightarrow>
        (let p = prove [root, nf, t, a, r] sk bl siblings right in
         proof_ok p \<and> groth16_verify rt WITHDRAW_VK (pb_a p) (pb_b p) (pb_c p) [root, nf, t, a, r]))"

text \<open>An initialised SPL token account: 165 bytes, the state byte at 108.\<close>

definition token_account :: "ledger \<Rightarrow> pubkey \<Rightarrow> bool" where
  "token_account L k \<longleftrightarrow>
     acc_owner (L k) = SPL_TOKEN_PROGRAM_ID \<and> length (acc_data (L k)) = 165 \<and> acc_data (L k) ! 108 = 1"

text \<open>
  The token program executes a Transfer between two initialised accounts of a mint when the source
  has the amount, the sum fits, and its owner signs; a program's vault authority signs with its seeds.
\<close>

definition vault_seeds :: "runtime \<Rightarrow> pubkey \<Rightarrow> bytes32 \<Rightarrow> bytes list" where
  "vault_seeds rt pid t =
     [VAULT_SEED, b32_bytes t, [snd (find_program_address rt [VAULT_SEED, b32_bytes t] pid)]]"

definition token_program_serves :: "runtime \<Rightarrow> pubkey \<Rightarrow> bool" where
  "token_program_serves rt pid \<longleftrightarrow>
     (\<forall>s d t n infos L.
        token_account L s \<longrightarrow> token_account L d \<longrightarrow> s \<noteq> d \<longrightarrow>
        token_mint (acc_data (L s)) = token_mint (acc_data (L d)) \<longrightarrow>
        token_owner (acc_data (L s)) = vault_authority_key rt pid t \<longrightarrow>
        unat n \<le> token_amount (acc_data (L s)) \<longrightarrow>
        token_amount (acc_data (L d)) + unat n < 2 ^ 64 \<longrightarrow>
        (\<exists>L'. cpi rt (token_transfer_ix s d (vault_authority_key rt pid t) n) infos
           [vault_seeds rt pid t] L = Ok L'))"

text \<open>The accounts of a withdrawal, and a recipient account that can take the amount.\<close>

definition withdraw_accounts ::
    "runtime \<Rightarrow> pubkey \<Rightarrow> bytes32 \<Rightarrow> account_info list \<Rightarrow> bool" where
  "withdraw_accounts rt pid t accounts \<longleftrightarrow>
     length accounts = 8 \<and> is_signer (accounts ! 0) \<and>
     ai_key (accounts ! 1) = vault_authority_key rt pid t \<and> ai_key (accounts ! 2) = vault_key rt pid t \<and>
     ai_key (accounts ! 4) = tree_key rt pid \<and> ai_key (accounts ! 5) = nullifier_key rt pid \<and>
     ai_key (accounts ! 6) = SPL_TOKEN_PROGRAM_ID"

definition can_receive ::
    "runtime \<Rightarrow> pubkey \<Rightarrow> bytes32 \<Rightarrow> pubkey \<Rightarrow> u64 \<Rightarrow> ledger \<Rightarrow> pubkey \<Rightarrow> bool" where
  "can_receive rt pid t recipient n L k \<longleftrightarrow>
     token_account L k \<and> token_mint (acc_data (L k)) = t \<and> token_owner (acc_data (L k)) = recipient \<and>
     k \<noteq> vault_key rt pid t \<and> token_amount (acc_data (L k)) + unat n < 2 ^ 64"

text \<open>The payer can fund the larger nullifier account and the runtime can grow it.\<close>

definition spend_funded :: "runtime \<Rightarrow> account_info list \<Rightarrow> ledger \<Rightarrow> bool" where
  "spend_funded rt accounts L \<longleftrightarrow>
     (\<exists>L1 L2. let n = length (data_of L (accounts ! 5)) + 32 in
        fund_rent rt (accounts ! 0) (accounts ! 5) (accounts ! 7) n L = Ok L1 \<and>
        resize rt (ai_key (accounts ! 5)) n L1 = Ok L2)"

lemma eight_accounts:
  "length xs = 8 \<Longrightarrow> xs = [xs ! 0, xs ! 1, xs ! 2, xs ! 3, xs ! 4, xs ! 5, xs ! 6, xs ! 7]"
  by (rule nth_equalityI) (auto simp: less_Suc_eq numeral_eq_Suc)

section \<open>Each step\<close>

lemma spend_succeeds:
  assumes "deployment rt H pid" and "pool_holds rt H pid L s" and "withdraw_accounts rt pid t accounts"
    and "spend_funded rt accounts L" and "nf \<notin> set (spent s)"
  obtains L1 where "check_and_append rt (accounts ! 0) (accounts ! 5) (accounts ! 7) L nf = Ok L1"
    and "spl_same L L1"
proof -
  have key: "ai_key (accounts ! 5) = nullifier_key rt pid"
    using assms(3) by (simp add: withdraw_accounts_def)
  have hold: "nullifiers_hold (data_of L (accounts ! 5)) (spent s)"
    using pool_holdsD(4) [OF assms(2)] by (simp add: data_of_def key)
  note laws = runtime_lawsD(1,4) [OF deploymentD(1) [OF assms(1)]]
  obtain L1 where "nullifier_append rt (accounts ! 0) (accounts ! 5) (accounts ! 7) nf L = Ok L1"
    using nullifier_append_succeeds [OF laws hold] assms(4) unfolding spend_funded_def Let_def by blast
  then have c: "check_and_append rt (accounts ! 0) (accounts ! 5) (accounts ! 7) L nf = Ok L1"
    using assms(5) by (simp add: check_and_append_def nullifier_contains_iff [OF hold])
  then show thesis
    using that spend_spl_same [OF assms(1,2) key c] by blast
qed

lemma payment_succeeds:
  assumes "token_program_serves rt pid" and "vault_ok rt pid t L" and "token_account L (vault_key rt pid t)"
    and "can_receive rt pid t recipient n L (ai_key (accounts ! 3))"
    and "unat n \<le> vault_balance rt pid t L" and "withdraw_accounts rt pid t accounts" and "spl_same L L1"
  obtains L' where "spl_transfer rt (accounts ! 6) (accounts ! 2) (accounts ! 3) (accounts ! 1) n
    [vault_seeds rt pid t] L1 = Ok L'"
proof -
  let ?s = "vault_key rt pid t" and ?d = "ai_key (accounts ! 3)"
  have same: "acc_data (L1 ?s) = acc_data (L ?s)" "acc_data (L1 ?d) = acc_data (L ?d)"
    "token_account L1 ?s" "token_account L1 ?d"
    using assms(3,4,7) by (auto simp: spl_same_def token_account_def can_receive_def)
  have "\<exists>L'. cpi rt (token_transfer_ix ?s ?d (vault_authority_key rt pid t) n)
      [accounts ! 2, accounts ! 3, accounts ! 1, accounts ! 6] [vault_seeds rt pid t] L1 = Ok L'"
    using assms(1) [unfolded token_program_serves_def, rule_format, OF same(3,4)] assms(2,4,5) same(1,2)
    by (auto simp: can_receive_def vault_ok_def vault_balance_def Let_def)
  then show thesis
    using that assms(6) by (auto simp: withdraw_accounts_def spl_transfer_eq)
qed

text \<open>The emitted instruction, field by field.\<close>

lemma emitted_withdrawal:
  assumes "proof_ok p"
  obtains args where
    "opaq_instruction ''withdraw'' p \<lparr>of_mint = t, of_amount = n, of_commitment = 0, of_nullifier = nf,
       of_merkle_root = root, of_recipient = recipient, of_dest_chain = 0\<rparr> = Ok (2 # args)"
    and "length args = 392" and "carries_proof p args" and "b32_at args 256 = root"
    and "b32_at args 288 = nf" and "b32_at args 320 = t" and "u64_from_le (sub args 352 8) = n"
    and "b32_at args 360 = recipient"
proof -
  let ?f = "\<lparr>of_mint = t, of_amount = n, of_commitment = 0, of_nullifier = nf, of_merkle_root = root,
    of_recipient = recipient, of_dest_chain = 0\<rparr>"
  obtain data where data: "opaq_instruction ''withdraw'' p ?f = Ok data"
    by (simp add: opaq_instruction_def)
  obtain tag args where a: "data = tag # args" "args_ok tag (length args)" "carries_proof p args"
    and d: "\<forall>accounts. decode accounts data = action_of ''withdraw'' ?f"
    by (rule opaq_instruction_decodes [OF data assms])
  have "decode [] data = Some (Withdraw root nf t n recipient)"
    using d by (simp add: action_of_def)
  then have "tag = 2" and "b32_at args 256 = root" "b32_at args 288 = nf" "b32_at args 320 = t"
    "u64_from_le (sub args 352 8) = n" "b32_at args 360 = recipient"
    by (simp_all add: a(1) decode_def split: if_splits)
  then show thesis
    using that data a by (simp add: args_ok_def)
qed

lemma withdraw_executes:
  assumes "deployment rt H pid" and "pool_holds rt H pid L s" and "withdraw_accounts rt pid t accounts"
    and "spend_funded rt accounts L" and "nf \<notin> set (spent s)" and "recent_root H (leaves s) root"
    and "token_program_serves rt pid" and "vault_ok rt pid t L" and "token_account L (vault_key rt pid t)"
    and "can_receive rt pid t recipient n L (ai_key (accounts ! 3))"
    and "unat n \<le> vault_balance rt pid t L"
    and "to_field (poseidon_syscall rt) t = Some tf" and "to_field (poseidon_syscall rt) recipient = Some rf"
    and "groth16_verify rt WITHDRAW_VK (pb_a p) (pb_b p) (pb_c p) [root, nf, tf, be32_u64 n, rf]"
    and "length args = 392" and "carries_proof p args" and "b32_at args 256 = root"
    and "b32_at args 288 = nf" and "b32_at args 320 = t" and "u64_from_le (sub args 352 8) = n"
    and "b32_at args 360 = recipient"
  shows "\<exists>L'. withdraw rt pid accounts args L = Ok (L', WithdrawOk)"
proof -
  obtain L1 where spend: "check_and_append rt (accounts ! 0) (accounts ! 5) (accounts ! 7) L nf = Ok L1"
    and same: "spl_same L L1"
    by (rule spend_succeeds [OF assms(1-5)])
  obtain L' where pay: "spl_transfer rt (accounts ! 6) (accounts ! 2) (accounts ! 3) (accounts ! 1) n
      [vault_seeds rt pid t] L1 = Ok L'"
    by (rule payment_succeeds [OF assms(7-11,3) same])
  have acc: "accounts = [accounts ! 0, accounts ! 1, accounts ! 2, accounts ! 3, accounts ! 4,
      accounts ! 5, accounts ! 6, accounts ! 7]"
    using assms(3) by (intro eight_accounts) (simp add: withdraw_accounts_def)
  have keys: "is_signer (accounts ! 0)" "ai_key (accounts ! 1) = vault_authority_key rt pid t"
    "ai_key (accounts ! 2) = vault_key rt pid t" "ai_key (accounts ! 4) = tree_key rt pid"
    "ai_key (accounts ! 5) = nullifier_key rt pid" "ai_key (accounts ! 6) = SPL_TOKEN_PROGRAM_ID"
    using assms(3) by (simp_all add: withdraw_accounts_def)
  have known: "tree_is_known_root (data_of L (accounts ! 4)) root = Ok True"
    using known_recent [OF assms(2) keys(4)] assms(6) by simp
  have vault: "check_vault L (accounts ! 2) t (vault_authority_key rt pid t) = Ok ()"
    using assms(8,9) keys(3)
    by (simp add: check_vault_Ok_iff data_of_def vault_ok_def token_account_def Let_def)
  have dst: "64 \<le> length (data_of L (accounts ! 3))" "token_owner (data_of L (accounts ! 3)) = recipient"
    "token_mint (data_of L (accounts ! 3)) = t"
    using assms(10) by (simp_all add: can_receive_def token_account_def data_of_def)
  have proof_at: "sub args 0 64 = pb_a p" "sub args 64 128 = pb_b p" "sub args 192 64 = pb_c p"
    using assms(16) by (simp_all add: carries_proof_def)
  have "withdraw rt pid accounts args L = Ok (L', WithdrawOk)"
    unfolding withdraw_Ok_iff assms(17-21) proof_at
    using acc assms(12-15) keys known vault dst spend pay
    by (intro exI conjI) (assumption | simp add: tree_key_def nullifier_key_def vault_key_def
        vault_authority_key_def vault_seeds_def)+
  then show ?thesis by blast
qed

section \<open>The whole way\<close>

lemma chain_state:
  assumes "deployment rt H pid" and "pool_holds rt H pid L0 empty_pool" and "chain rt pid L0 h L"
  obtains s where "pool_holds rt H pid L s" and "spent s = spends_of (actions_of h)"
    and "leaves s = inserts_of (actions_of h)"
proof -
  obtain s where run: "pool_run (poseidon_syscall rt) H empty_pool (actions_of h) s"
    and holds: "pool_holds rt H pid L s"
    using chain_refines [OF assms(3,1,2)] by blast
  then show thesis
    using that run_history [OF run] by (simp add: empty_pool_def)
qed

lemma leaves_are_fields:
  assumes "pool_holds rt H pid L s"
  shows "list_all field_elem (leaves s)" and "length (leaves s) \<le> 2 ^ TREE_DEPTH"
  using pool_holdsD(2) [OF assms] by (simp_all add: tree_holds_def represents_def)

text \<open>The public inputs of a note's withdrawal are field elements.\<close>

lemma withdrawal_publics:
  assumes "hashes_to (poseidon2 P) H" and "list_all field_elem ls" and "field_elem cm" and "field_elem sk"
    and "P [cm, sk] = Some nf" and "to_field_be P t = Some tf" and "to_field_be P r = Some rf"
  shows "list_all field_elem [merkle_root H ls, nf, tf, be32 (ucast (n :: u64)), rf]"
proof -
  have fe: "field_elem z" if "P [x, y] = Some z" and "field_elem x" and "field_elem y" for x y z
    using hashes_toD [OF assms(1) that(2,3)] that(1) by (simp add: poseidon2_def)
  have "field_elem tf" and "field_elem rf"
    using assms(6,7) field_elem_limbs fe by (auto simp: to_field_be_limbs poseidon_be_def)
  moreover have "field_elem nf"
    by (rule fe [OF assms(5,3,4)])
  moreover have "unat (be32 (ucast n)) < bn254_fr"
    using unat_bound [of n] by (simp add: bn254_fr_def)
  ultimately show ?thesis
    using field_elem_node [OF assms(1,2)] by (simp add: merkle_root_def field_elem_def)
qed

text \<open>
  C12: An honest note is paid out. Take any history of the deployed pool, and a note whose commitment
  was inserted and whose nullifier was not spent. With the leaves as they were at any point fewer
  than 32 insertions ago, the wallet finds the leaf and rebuilds its path; the proof a complete prover
  makes of the note, laid out by \<open>emit_opaq_instruction\<close>, is a withdrawal the program executes, and the
  recipient's token account grows by the note's amount. It needs a payer that can fund the nullifier
  account, a recipient account of the mint, a token program that executes what its vault authority
  signs, and a vault that the history left with at least the amount.
\<close>

theorem honest_note_is_paid:
  assumes "deployment rt H pid" and "pool_holds rt H pid L0 empty_pool" and "chain rt pid L0 (g @ h) L"
    and "poseidon_syscall rt [sk] = Some owner" and "to_field_be (poseidon_syscall rt) t = Some tf"
    and "poseidon_syscall rt [tf, be32 (ucast n), owner, bl] = Some cm"
    and "poseidon_syscall rt [cm, sk] = Some nf" and "field_elem sk"
    and "ls = inserts_of (actions_of g)" and "cm \<in> set ls" and "merkle_root H ls \<noteq> 0"
    and "length (inserts_of (actions_of h)) < ROOT_HISTORY" and "nf \<notin> set (spends_of (actions_of (g @ h)))"
    and "prover_complete rt prove" and "token_program_serves rt pid"
    and "vault_ok rt pid t L0" and "token_account L (vault_key rt pid t)"
    and "unat n + total_out t (actions_of (g @ h)) \<le> vault_balance rt pid t L0 + total_in t (actions_of (g @ h))"
    and "withdraw_accounts rt pid t accounts" and "spend_funded rt accounts L"
    and "can_receive rt pid t recipient n L (ai_key (accounts ! 3))"
  shows "\<exists>i siblings right rf data L'.
    leaf_position cm ls [] = Ok i \<and>
    rebuild_path (poseidon_syscall rt) ls i = Ok (siblings, right, merkle_root H ls) \<and>
    to_field_be (poseidon_syscall rt) recipient = Some rf \<and>
    opaq_instruction ''withdraw''
      (prove [merkle_root H ls, nf, tf, be32 (ucast n), rf] sk bl siblings right)
      \<lparr>of_mint = t, of_amount = n, of_commitment = 0, of_nullifier = nf,
       of_merkle_root = merkle_root H ls, of_recipient = recipient, of_dest_chain = 0\<rparr> = Ok data \<and>
    process_instruction rt pid accounts data L = Ok (L', WithdrawOk) \<and>
    token_amount (acc_data (L' (ai_key (accounts ! 3)))) =
      token_amount (acc_data (L (ai_key (accounts ! 3)))) + unat n \<and>
    vault_balance rt pid t L' + unat n = vault_balance rt pid t L"
proof -
  let ?P = "poseidon_syscall rt" and ?root = "merkle_root H ls"
  obtain s where holds: "pool_holds rt H pid L s" and spent: "spent s = spends_of (actions_of (g @ h))"
    and lvs: "leaves s = ls @ inserts_of (actions_of h)"
    using chain_state [OF assms(1-3)] assms(9) by (metis actions_of_simps(2) history_simps(5))
  have fields: "list_all field_elem ls" and bound: "length ls \<le> 2 ^ TREE_DEPTH"
    using leaves_are_fields [OF holds] by (simp_all add: lvs)
  have hash: "hashes_to (poseidon2 ?P) H"
    by (rule deploymentD(2) [OF assms(1)])
  obtain rf where rf: "to_field_be ?P recipient = Some rf"
    using to_field_total [OF hash] by blast
  obtain i siblings right where pos: "\<forall>msg. leaf_position cm ls msg = Ok i"
    and path: "rebuild_path ?P ls i = Ok (siblings, right, ?root)"
    by (rule path_exists [OF hash fields assms(10)])
  let ?public = "[?root, nf, tf, be32 (ucast n), rf]"
  let ?p = "prove ?public sk bl siblings right"
  have "withdraw_circuit ?P ?root nf tf (be32 (ucast n)) rf sk bl siblings right"
    by (rule withdraw_circuit_path [of ?P, OF assms(4,6,7) hash fields bound pos [THEN spec] path])
  moreover have "list_all field_elem ?public"
    using fields assms(10) by (intro withdrawal_publics [OF hash fields _ assms(8,7,5) rf])
      (simp add: list_all_iff)
  ultimately have p: "proof_ok ?p" "groth16_verify rt WITHDRAW_VK (pb_a ?p) (pb_b ?p) (pb_c ?p) ?public"
    using assms(14) unfolding prover_complete_def Let_def by blast+
  obtain args where args: "opaq_instruction ''withdraw'' ?p \<lparr>of_mint = t, of_amount = n,
      of_commitment = 0, of_nullifier = nf, of_merkle_root = ?root, of_recipient = recipient,
      of_dest_chain = 0\<rparr> = Ok (2 # args)" "length args = 392" "carries_proof ?p args"
    "b32_at args 256 = ?root" "b32_at args 288 = nf" "b32_at args 320 = t"
    "u64_from_le (sub args 352 8) = n" "b32_at args 360 = recipient"
    by (rule emitted_withdrawal [OF p(1)])
  have fresh: "nf \<notin> set (spent s)"
    using assms(13) by (simp add: spent)
  have recent: "recent_root H (leaves s) ?root"
    unfolding recent_root_def lvs using assms(11,12) by (intro conjI exI [of _ "length ls"]) simp_all
  note vault = chain_vault [OF assms(3,1,2,16)]
  have rich: "unat n \<le> vault_balance rt pid t L"
    using vault assms(18) by linarith
  obtain L' where w: "withdraw rt pid accounts args L = Ok (L', WithdrawOk)"
    using withdraw_executes [OF assms(1) holds assms(19,20) fresh recent assms(15) vault [THEN conjunct1]
        assms(17,21) rich _ _ p(2) [unfolded be32_amount_u64]
        args(2) args(3) [unfolded be32_amount_u64] args(4,5,6,7,8)] assms(5) rf
    by (auto simp: to_field_eq)
  have "ai_key (accounts ! 3) \<noteq> vault_key rt pid (b32_at args 320)"
    using assms(21) by (simp add: args(6) can_receive_def)
  note pays = withdraw_pays_lemma(2,3) [OF assms(1) holds w this, unfolded args(6,7)]
  have "process_instruction rt pid accounts (2 # args) L = Ok (L', WithdrawOk)"
    using w by (simp add: process_instruction_def)
  then show ?thesis
    using pos path rf args(1) pays by blast
qed

text \<open>A deposit of 7 to a note with commitment 11, then its withdrawal.\<close>

definition demo_prove :: withdraw_prover where
  "demo_prove public sk bl siblings right =
     \<lparr>pb_a = replicate 64 0, pb_b = replicate 128 0, pb_c = replicate 64 0\<rparr>"

lemma demo_prover: "prover_complete demo_runtime demo_prove"
  by (simp add: prover_complete_def demo_prove_def proof_ok_def demo_verify WITHDRAW_VK_def)

lemma demo_serves: "token_program_serves demo_runtime demo_program"
proof -
  have "\<exists>L'. demo_token (token_transfer_ix s d a n) L = Ok L'"
    if "token_account L s" "token_account L d" "token_mint (acc_data (L s)) = token_mint (acc_data (L d))"
      "token_owner (acc_data (L s)) = a" "unat n \<le> token_amount (acc_data (L s))"
      "token_amount (acc_data (L d)) + unat n < 2 ^ 64" for s d a n L
    using that by (simp add: demo_token_def token_transfer_ix_def meta_new_def meta_readonly_def
        token_account_def Let_def)
  then show ?thesis
    by (simp add: token_program_serves_def demo_cpi_token)
qed

lemma set_amount_state:
  assumes "length d = 165"
  shows "length (set_amount d n) = 165" and "set_amount d n ! 108 = d ! 108"
  using assms by (simp_all add: set_amount_def patch_def nth_append)

lemma demo_deposited:
  obtains L where "chain demo_runtime demo_program demo_ledger [(demo_deposit_accounts, 1 # demo_deposit_args)] L"
    and "token_account L demo_vault" and "L 8 = demo_ledger 8"
proof -
  let ?tree = "tree_key demo_runtime demo_program"
  obtain L i where p: "process_instruction demo_runtime demo_program demo_deposit_accounts
      (1 # demo_deposit_args) demo_ledger = Ok (L, DepositOk i)"
    using demo_deposit_succeeds by blast
  then have "deposit demo_runtime demo_program demo_deposit_accounts demo_deposit_args demo_ledger =
      Ok (L, DepositOk i)"
    by (simp add: process_instruction_def)
  then obtain L1 d where t: "demo_token (token_transfer_ix 4 17 2 7) demo_ledger = Ok L1"
    and L: "L = set_data L1 ?tree d"
    unfolding deposit_Ok_iff demo_deposit_fields demo_deposit_accounts_def
    by (auto simp: spl_transfer_eq demo_cpi_token)
  have keys: "?tree \<noteq> 17" "?tree \<noteq> 8"
    using demo_key_distinct by auto
  note at = demo_token_cases(9) [OF t]
  have "L 8 = demo_ledger 8" and "acc_owner (L 17) = acc_owner (demo_ledger 17)"
    and "acc_data (L 17) = set_amount (acc_data (demo_ledger 17))
      (token_amount (acc_data (demo_ledger 17)) + unat (7 :: u64))"
    using keys by (simp_all add: L at set_data_apply set_data_def)
  then have "token_account L 17" and "L 8 = demo_ledger 8"
    using demo_ledger_at set_amount_state [of "token_bytes 5 15 50"]
    by (simp_all add: token_account_def token_bytes_fields)
  moreover have "chain demo_runtime demo_program demo_ledger
      ([] @ [(demo_deposit_accounts, 1 # demo_deposit_args)]) L"
    by (rule demo_chain_step [OF chain_start p]) (auto simp: demo_deposit_accounts_def)
  ultimately show thesis
    using that by (simp add: demo_vault_eq)
qed

lemma demo_funded:
  assumes "nullifiers_hold (acc_data (L (nullifier_key demo_runtime demo_program))) []"
  shows "spend_funded demo_runtime demo_withdraw_accounts L"
  using assms by (simp add: spend_funded_def demo_withdraw_accounts_def fund_rent_def demo_runtime_def
      data_of_def nullifiers_hold_def MAX_ACCOUNT_SIZE_def Let_def)

theorem honest_note_is_paid_witness:
  "\<exists>L L' data. chain demo_runtime demo_program demo_ledger
       [(demo_deposit_accounts, 1 # demo_deposit_args)] L \<and>
     process_instruction demo_runtime demo_program demo_withdraw_accounts data L = Ok (L', WithdrawOk) \<and>
     token_amount (acc_data (L' 8)) = 7"
proof -
  let ?g = "[(demo_deposit_accounts, 1 # demo_deposit_args)]"
  obtain L where c: "chain demo_runtime demo_program demo_ledger ?g L"
    and vault: "token_account L demo_vault" and dst: "L 8 = demo_ledger 8"
    by (rule demo_deposited)
  have hist: "actions_of ?g = [Deposit 5 7 11]"
    by (simp add: demo_decodes)
  obtain tf where tf: "to_field_be demo_poseidon 5 = Some tf"
    using to_field_total [OF demo_hashes_to] by blast
  have nf: "demo_poseidon [11, 9] = Some (demo_hash 11 9)" and sk: "field_elem 9"
    by (simp_all add: small_field_elem)
  have acc: "withdraw_accounts demo_runtime demo_program 5 demo_withdraw_accounts"
    by (simp add: withdraw_accounts_def demo_withdraw_accounts_def demo_vault_eq demo_authority_eq)
  have "nullifiers_hold (acc_data (L (nullifier_key demo_runtime demo_program))) []"
    using chain_no_double_spend(2) [OF demo_deployment demo_pool_holds c, unfolded hist]
    by (simp add: nullifiers_hold_def MAX_ACCOUNT_SIZE_def)
  note funded = demo_funded [of L, OF this]
  have eight: "ai_key (demo_withdraw_accounts ! 3) = 8"
    by (simp add: demo_withdraw_accounts_def)
  have recv: "can_receive demo_runtime demo_program 5 6 7 L (ai_key (demo_withdraw_accounts ! 3))"
    by (simp add: eight can_receive_def token_account_def dst demo_ledger_at token_bytes_fields demo_vault_eq)
  obtain data L' where w: "process_instruction demo_runtime demo_program demo_withdraw_accounts data L =
      Ok (L', WithdrawOk)" and paid: "token_amount (acc_data (L' 8)) = token_amount (acc_data (L 8)) + 7"
    using honest_note_is_paid [of demo_runtime demo_hash demo_program demo_ledger ?g "[]" L 9 9 5 tf 7 0 11
        "demo_hash 11 9" "[11]" demo_prove demo_withdraw_accounts 6]
      demo_deployment demo_pool_holds c tf nf sk demo_prover demo_serves demo_vault_ok vault acc funded recv
    by (auto simp: demo_poseidon_simp demo_decodes demo_root_nonzero ROOT_HISTORY_def eight total_in_def total_out_def)
  then have "token_amount (acc_data (L' 8)) = 7"
    by (simp add: dst demo_ledger_at token_bytes_fields)
  with c w show ?thesis by blast
qed

end
