(* ===== verification/Spec2Isabelle.thy ===== *)
theory Spec2Isabelle
  imports Pool_Chain Pool_Errors Read_Path Demo_Runtime Attestor_Properties Tooling_Properties
    Wallet_Properties Generator_Properties Artifact_Properties Sample_Properties Bridge_Properties
    Unit_Tests Payout
begin

text \<open>
  Opaq: a shielded pool on Solana with a bridge to EVM chains. Notes are commitments in an incremental Merkle tree; spending a
  note reveals its nullifier and a zero-knowledge proof against a recent root; tokens sit in one
  vault per mint; a cross-chain note is minted once, for a burn an operator attested.

  Parts and their theories.
  \<^item> \<open>Opaq_Prelude\<close>: bytes, machine integers, results (\<open>Ok\<close>, \<open>Err\<close>, \<open>Panic\<close>), slices and tables.
  \<^item> \<open>Merkle_Tree\<close> (\<open>crates/common/src/lib.rs\<close>, \<open>tree.rs\<close>): \<open>poseidon_be\<close>, \<open>to_field_be\<close>,
    \<open>merkle_root_be\<close>, \<open>zero_hashes\<close>, \<open>empty_root\<close>, and the specification \<open>node\<close> / \<open>merkle_root\<close> of the
    full tree; authentication paths and their binding.
  \<^item> \<open>Commitment_Tree\<close> (\<open>tree.rs\<close>): \<open>CommitmentTree\<close> with \<open>new\<close>, \<open>insert\<close>, \<open>current_root\<close>,
    \<open>known_roots\<close>, \<open>is_known_root\<close>; the interface \<open>root_history\<close>, interpreted on the host tree.
  \<^item> \<open>Read_Path\<close> (\<open>tree.rs\<close>): \<open>reconstruct_path\<close>.
  \<^item> \<open>Nullifier_Set\<close> (\<open>nullifier.rs\<close>): the host set; the interface \<open>nullifier_store\<close>.
  \<^item> \<open>Tree_Consts\<close> (\<open>programs/opaq/src/tree_consts.rs\<close>, \<open>emit_tree_consts.rs\<close>): the generated table.
  \<^item> \<open>Solana_Runtime\<close>, \<open>Runtime_Laws\<close>: accounts, account infos, the external calls as the fields of
    a record \<open>runtime\<close>, and their documented behaviour as named hypotheses.
  \<^item> \<open>Pool_Constants\<close>, \<open>Pool_Tree\<close>, \<open>Pool_Nullifiers\<close>, \<open>Pool_Xburn\<close>, \<open>Pool_Program\<close>
    (\<open>programs/opaq/src/lib.rs\<close>): constants, zero-copy tree, nullifier account, pending-burn account,
    the nine handlers and \<open>process_instruction\<close>. Both interfaces are interpreted on the accounts'
    bytes.
  \<^item> \<open>Pool_Handlers\<close>: exactly when each handler succeeds. \<open>Pool_Spec\<close>: the pool as a state machine
    and its safety. \<open>Pool_Safety\<close>: the program refines it. \<open>Pool_Vault\<close>: the token vaults.
    \<open>Pool_Chain\<close>: all of it over sequences of instructions with foreign transactions in between.
    \<open>Pool_Errors\<close>: what each handler refuses, and the statement each proof is checked against.
  \<^item> \<open>Attestor_Env\<close> (\<open>canister/opaq-attestor/src/lib.rs\<close>): the canister's environment (crates,
    management canister, EVM RPC canister, HTTPS outcalls, JSON) as records of functions, its keys,
    addresses and signing checks. \<open>Evm_Read\<close> (\<open>evm.rs\<close>): the two queries of the EVM pool. \<open>Rlp\<close>,
    \<open>Evm_Tx\<close> (\<open>evm_tx.rs\<close>): the encoder with a reference decoder, the EIP-155 transaction,
    \<open>submit_add_pending\<close>. \<open>Solana_Read\<close> (\<open>solana.rs\<close>): provider agreement and
    \<open>verify_xburn_transaction\<close>. \<open>Solana_Tx\<close> (\<open>solana_tx.rs\<close>): compact lengths, the registry's
    address, the message with a reference reader, \<open>submit_add_pending_xburn\<close>. \<open>Attestor\<close>: the
    interface \<open>attestation_sink\<close>, interpreted on both legs, and the Solana transaction run through
    the on-chain program.
  \<^item> \<open>Evm_Contract\<close>, \<open>Evm_Pool\<close> (\<open>evm/src/OpaqPool.sol\<close>), \<open>Evm_Mint\<close> (\<open>evm/src/OpaqMint.sol\<close>): the EVM
    contracts, storage as records, entry points as functions to storage or a revert; the interface
    \<open>mint_guard\<close> (minting against an operator's attestation) interpreted on both, \<open>root_history\<close> on the
    pool's tree. \<open>Bridge\<close>: the two pools and the canister composed.
  \<^item> \<open>Instruction_Codec\<close> (\<open>crates/groth16-verify\<close>): points and public inputs from snarkjs JSON,
    \<open>opaq_instruction\<close> and the tool \<open>emit_opaq_instruction\<close>.
  \<^item> \<open>Artifacts\<close> (\<open>emit_artifacts.rs\<close>, \<open>emit_tree_consts.rs\<close>): the Rust sources the generators write; the
    interface \<open>literal\<close>, interpreted on byte and array literals. \<open>Probes\<close> (\<open>programs/cu-probe\<close>,
    \<open>programs/poseidon-syscall-check\<close>, \<open>programs/groth16-verify-check\<close>): the measuring programs.
  \<^item> \<open>Circuits\<close> (\<open>circuits/*/src/main.nr\<close>): the relation each circuit enforces, as a check of a witness.
  \<^item> \<open>View_Key\<close> (\<open>viewkey.rs\<close>, \<open>attach_recipient_memo\<close> and the scan of \<open>list_unspent\<close>): memos and note
    discovery.
  \<^item> \<open>Wallet_Env\<close>, \<open>Wallet\<close> (\<open>crates/prover/src/main.rs\<close>, \<open>warn.rs\<close>): the environment of a command
    (files, random draws, programs started, the record \<open>wallet\<close>), flags, numbers, JSON text, note files
    and warnings; then the six commands and \<open>main\<close>. \<open>Wallet_Notes\<close>, \<open>Wallet_Laws\<close>: what a command that
    succeeds has read and written, and the interface \<open>proof_sidecar\<close>, interpreted on the sidecars of
    deposit, withdrawal and burn.
  \<^item> \<open>Witness_Gen\<close> (\<open>crates/common/src/bin/gen_witness.rs\<close>): the fixtures of the five circuits.
  \<^item> \<open>Sample_Programs\<close> (\<open>programs/rplace\<close>, \<open>programs/tamagotchi\<close>).
  \<^item> \<open>Payout\<close>: the way out of the pool end to end, from the leaves on chain to the tokens paid.
  \<^item> \<open>Unit_Tests\<close>: the repository's unit tests (\<open>crates/common\<close>, the wallet) as programs over the model,
    thirteen of which pass for every hash, curve and cipher that behave as documented; the other four
    compare libraries or random keys and have lemmas with further hypotheses, or a definition only.
  \<^item> \<open>Demo_Runtime\<close>, \<open>Demo_Attestor\<close>, \<open>Demo_Evm\<close>: instances that satisfy every law, for the witnesses.

  How the parts meet. A wallet command writes a circuit's inputs, whose relation \<open>Circuits\<close> states, and
  starts the prover with a sidecar; the converter turns proof and sidecar into instruction data, which
  \<open>decode\<close> and \<open>statement_of\<close> read as the program does. A transfer carries a memo behind the bytes the
  program reads, which the recipient's scan opens. The canister reads a burn off one chain
  (\<open>Solana_Read\<close>, \<open>Evm_Read\<close>) and attests it on the other; on Solana the attestation is the program's
  \<open>add_pending_xburn\<close>, on the EVM pool \<open>addPending\<close>, after which the burn can be minted once. Both pools keep
  the same tree. \<open>Payout\<close> runs wallet, circuit, converter and program one after the other. The properties of the pool are in this theory, those of the EVM contracts and of the
  bridge in \<open>Bridge_Properties\<close>, the others in \<open>Attestor_Properties\<close>, \<open>Tooling_Properties\<close>, \<open>Wallet_Properties\<close>,
  \<open>Generator_Properties\<close>, \<open>Artifact_Properties\<close> and \<open>Sample_Properties\<close>.

  How state corresponds. A ledger maps public keys to accounts. The tree account's 1801 bytes are
  read by \<open>tree_of_bytes\<close> as the host's \<open>commitment_tree\<close>; the nullifier account is the borsh
  serialisation \<open>nullifier_set_bytes\<close> of a list; the pending account is \<open>xpending_bytes\<close> of an
  operator and a list of entries. \<open>pool_holds\<close> puts the three together and relates a ledger to a
  \<open>pool\<close> (leaves, spent nullifiers, registry).

  Hypotheses. \<open>hashes_to\<close>: Poseidon returns a canonical field element for two canonical field
  elements. \<open>consts_match\<close>: the generated table is the one the generator computes with that hash.
  \<open>runtime_laws\<close>: the laws of \<open>Runtime_Laws\<close>. \<open>deployment\<close> adds that the program id is neither of the
  two programs it calls and that its three addresses differ. \<open>no_pda_signer\<close> and \<open>foreign_step\<close> say
  what other programs cannot do. \<open>codec_laws\<close> (hex and base58 decode what they encode),
  \<open>schnorr_law\<close> (signatures have 64 bytes), \<open>view_laws\<close> (key exchange agrees, the cipher decrypts
  what it encrypted), \<open>canonical_verifier\<close> (the EVM verifier accepts field elements only), \<open>derives_registry\<close> (the runtime derives addresses by the documented hash),
  \<open>serde_law\<close> (JSON text of an object reads back as its fields) and \<open>hex_zeros\<close> (the hex of zero bytes)
  are the canister's and the wallet's. \<open>relays_solana\<close> and \<open>relays_evm\<close> say that an operator attests only
  what the canister confirmed. \<open>providers_report\<close> says that fewer answers than the threshold are untrue,
  where an answer is true (\<open>truthful\<close>) if it has no transaction or shows (\<open>shows_transaction\<close>, the
  documented JSON, with the error of a failed transaction in its metadata) one whose instructions of the
  program were executed unless it failed; \<open>serves_pool\<close> says that the providers answer from the finalized
  storage. \<open>transfer_served_law\<close>, \<open>resize_served_law\<close> and \<open>can_fund\<close> say that the runtime serves a transfer
  and a resize within their limits and that the payer has the rent. \<open>prover_complete\<close>, \<open>token_program_serves\<close>, \<open>spend_funded\<close> and \<open>can_receive\<close> (\<open>Payout\<close>) say what the
  prover, the token program, the payer and the recipient's account must do for a payment to go
  through. No cryptographic assumption is used: where collision resistance
  matters the theorems produce the collision.

  Bounds. The program's loops are bounded by the 24 levels, the 32 root slots or a counter read from
  an account; there is no fuel. Account sizes are at most 10 MiB, which keeps every offset below
  \<open>2 ^ 64\<close>; offsets are computed in \<open>u64\<close>, as the code does, and shown not to wrap. The loop of
  \<open>shortvec_encode\<close> ends because its number shrinks; the reference readers of the wire formats
  recurse on shorter inputs. \<open>evm_admissible\<close> bounds the chain id so that the EIP-155 \<open>v\<close> fits its
  \<open>u64\<close>, and the gas price reply by 4 GiB, the address space of the canister.

  The decimal text \<open>nat_text\<close> recurses on the quotient. Draws are numbered, so that every draw of a
  command is an argument of its result; a program that is started may change any file.

  Not modelled: the lines a command prints and the text the operating system adds to an error; the
  prose of the warnings, of which the findings are kept; client set-up in the canister; dead code
  (\<open>read_account\<close>). Out of scope, as parameters: proof verification and the proof system under the
  circuits, Poseidon, curve and field arithmetic, ciphers, key derivation and signatures, JSON parsing,
  RPC; on the EVM side \<open>keccak256\<close>, the vendored \<open>PoseidonT3\<close>, the generated verifier contract, gas. Not
  this program's language: the scripts and the end-to-end drivers.
\<close>

section \<open>The pool over time\<close>

text \<open>
  C1: In any sequence of successful instructions since the pool was initialised, with arbitrary
  transactions of other programs in between, no nullifier is spent twice, and the nullifier
  account is the borsh serialisation of exactly the nullifiers spent, in order.
\<close>

theorem no_double_spend:
  assumes "deployment rt H pid" and "pool_holds rt H pid L0 empty_pool" and "chain rt pid L0 h L"
  shows "distinct (spends_of (actions_of h)) \<and>
    acc_data (L (nullifier_key rt pid)) = nullifier_set_bytes (spends_of (actions_of h))"
  using chain_no_double_spend(1,2) [OF assms] by blast

lemma demo_xburn_chain:
  "\<exists>L. chain demo_runtime demo_program demo_ledger [(demo_spend_accounts, demo_xburn)] L"
proof -
  have "set demo_spend_accounts \<subseteq> insert demo_payer (range demo_info)"
    by (auto simp: demo_spend_accounts_def)
  then show ?thesis
    using demo_xburn_succeeds demo_chain_step [OF chain_start] by fastforce
qed

theorem no_double_spend_witness:
  "\<exists>L. chain demo_runtime demo_program demo_ledger [(demo_spend_accounts, demo_xburn)] L \<and>
     acc_data (L (nullifier_key demo_runtime demo_program)) = nullifier_set_bytes [21]"
proof -
  obtain L where c: "chain demo_runtime demo_program demo_ledger [(demo_spend_accounts, demo_xburn)] L"
    using demo_xburn_chain by blast
  then show ?thesis
    using no_double_spend [OF demo_deployment demo_pool_holds c] by (auto simp: demo_decodes)
qed

text \<open>
  C2: The vault of a mint holds at least what it held at the start plus everything deposited less
  everything withdrawn, and it stays the program's vault: no instruction, and nothing another
  program can do, takes tokens out of it except a withdrawal of that mint for its own amount.
\<close>

theorem vault_conservation:
  assumes "deployment rt H pid" and "pool_holds rt H pid L0 s0" and "vault_ok rt pid t L0"
    and "chain rt pid L0 h L"
  shows "vault_ok rt pid t L \<and>
    vault_balance rt pid t L0 + total_in t (actions_of h) \<le>
      vault_balance rt pid t L + total_out t (actions_of h)"
  by (rule chain_vault [OF assms(4,1,2,3)])

theorem vault_conservation_witness:
  "\<exists>L. chain demo_runtime demo_program demo_ledger [(demo_withdraw_accounts, 2 # demo_withdraw_args)] L \<and>
     vault_balance demo_runtime demo_program 5 demo_ledger \<le> vault_balance demo_runtime demo_program 5 L + 3"
proof -
  have "set demo_withdraw_accounts \<subseteq> insert demo_payer (range demo_info)"
    by (auto simp: demo_withdraw_accounts_def)
  then obtain L where c: "chain demo_runtime demo_program demo_ledger
      [(demo_withdraw_accounts, 2 # demo_withdraw_args)] L"
    using demo_withdraw_succeeds demo_chain_step [OF chain_start] by fastforce
  show ?thesis
    using c vault_conservation [OF demo_deployment demo_pool_holds demo_vault_ok c]
    by (auto simp: demo_decodes total_in_def total_out_def)
qed

text \<open>
  C3: A cross-chain mint is preceded by an attestation of the same source nullifier, signed by the
  operator the registry was created with, for a destination tuple with the same Poseidon hash as
  the minted one.
\<close>

theorem mint_was_attested:
  assumes "deployment rt H pid" and "pool_holds rt H pid L0 empty_pool" and "chain rt pid L0 h L"
    and "h = g @ (accounts, data) # k" and "decode accounts data = Some (Mint r n chn c)"
  shows "\<exists>op a rest data' chn' c' hash. (a # rest, data') \<in> set g \<and> is_signer a \<and> ai_key a = op \<and>
    decode (a # rest) data' = Some (Attest op n chn' c') \<and> InitRegistry op \<in> set (actions_of g) \<and>
    poseidon_syscall rt [chn', c'] = Some hash \<and> poseidon_syscall rt [chn, c] = Some hash"
  by (rule chain_mint(2) [OF assms])

theorem mint_was_attested_witness:
  "\<exists>op a rest data' chn' c' hash.
    (a # rest, data') \<in> set [(demo_registry_accounts, demo_init), (demo_registry_accounts, demo_attest)] \<and>
    is_signer a \<and> ai_key a = op \<and> decode (a # rest) data' = Some (Attest op 21 chn' c') \<and>
    InitRegistry op \<in> set (actions_of [(demo_registry_accounts, demo_init), (demo_registry_accounts, demo_attest)]) \<and>
    poseidon_syscall demo_runtime [chn', c'] = Some hash \<and>
    poseidon_syscall demo_runtime [be32_u64 SOLANA_CHAIN_ID, 11] = Some hash"
proof -
  let ?g = "[(demo_registry_accounts, demo_init), (demo_registry_accounts, demo_attest)]"
  obtain L where c: "chain demo_runtime demo_program demo_ledger
      [(demo_registry_accounts, demo_init), (demo_registry_accounts, demo_attest),
       (demo_mint_accounts, demo_mint)] L"
    using demo_mint_chain by blast
  show ?thesis
    by (rule mint_was_attested [OF demo_deployment demo_pool_holds c _ demo_decodes(3),
          where g = ?g and k = "[]"]) simp
qed

text \<open>C4: No source nullifier is minted twice.\<close>

theorem mint_once:
  assumes "deployment rt H pid" and "pool_holds rt H pid L0 empty_pool" and "chain rt pid L0 h L"
  shows "distinct (mints_of (actions_of h))"
  by (rule chain_mint(1) [OF assms])

theorem mint_once_witness:
  "\<exists>h L. chain demo_runtime demo_program demo_ledger h L \<and> mints_of (actions_of h) = [21] \<and>
     distinct (mints_of (actions_of h))"
proof -
  let ?h = "[(demo_registry_accounts, demo_init), (demo_registry_accounts, demo_attest),
       (demo_mint_accounts, demo_mint)]"
  obtain L where c: "chain demo_runtime demo_program demo_ledger ?h L"
    using demo_mint_chain by blast
  have "mints_of (actions_of ?h) = [21]"
    by (simp add: demo_decodes)
  with c mint_once [OF demo_deployment demo_pool_holds c] show ?thesis by blast
qed

text \<open>
  C5: The commitment tree on chain is the tree of all commitments the executed instructions
  carried: its current root is the root of the full tree over them, and it accepts exactly the
  nonzero roots of its last 32 states, without panicking.
\<close>

theorem tree_account_history:
  assumes "deployment rt H pid" and "pool_holds rt H pid L0 empty_pool" and "chain rt pid L0 h L"
  shows "current_root (tree_of_bytes (acc_data (L (tree_key rt pid)))) =
      merkle_root H (inserts_of (actions_of h)) \<and>
    (tree_is_known_root (acc_data (L (tree_key rt pid))) r = Ok True \<longleftrightarrow>
      recent_root H (inserts_of (actions_of h)) r)"
proof -
  have "tree_holds (poseidon_syscall rt) H (acc_data (L (tree_key rt pid))) (inserts_of (actions_of h))"
    by (rule chain_no_double_spend(3) [OF assms])
  then show ?thesis
    using chain_root [OF assms] pool_tree.known_iff by (simp add: known_in_def recent_root_def)
qed

theorem tree_account_history_witness:
  "\<exists>h L. chain demo_runtime demo_program demo_ledger h L \<and> inserts_of (actions_of h) = [11] \<and>
     current_root (tree_of_bytes (acc_data (L (tree_key demo_runtime demo_program)))) =
       merkle_root demo_hash [11]"
proof -
  let ?h = "[(demo_deposit_accounts, 1 # demo_deposit_args)]"
  have "set demo_deposit_accounts \<subseteq> insert demo_payer (range demo_info)"
    by (auto simp: demo_deposit_accounts_def)
  then obtain L where c: "chain demo_runtime demo_program demo_ledger ?h L"
    using demo_deposit_succeeds demo_chain_step [OF chain_start] by fastforce
  have "inserts_of (actions_of ?h) = [11]"
    by (simp add: demo_decodes)
  with c tree_account_history [OF demo_deployment demo_pool_holds c] show ?thesis by metis
qed

text \<open>C6: An instruction that spends a nullifier already in the history never succeeds.\<close>

theorem spent_nullifier_refused:
  assumes "deployment rt H pid" and "pool_holds rt H pid L0 empty_pool" and "chain rt pid L0 h L"
    and "decode accounts data = Some a" and "n \<in> set (action_spends a)"
    and "n \<in> set (spends_of (actions_of h))"
  shows "process_instruction rt pid accounts data L \<noteq> Ok (L', ev)"
  by (rule chain_spent_refused [OF assms])

theorem spent_nullifier_refused_witness:
  "\<exists>L. chain demo_runtime demo_program demo_ledger [(demo_spend_accounts, demo_xburn)] L \<and>
     (\<forall>L' ev. process_instruction demo_runtime demo_program demo_withdraw_accounts
        (2 # demo_withdraw_args) L \<noteq> Ok (L', ev))"
proof -
  obtain L where c: "chain demo_runtime demo_program demo_ledger [(demo_spend_accounts, demo_xburn)] L"
    using demo_xburn_chain by blast
  have "process_instruction demo_runtime demo_program demo_withdraw_accounts (2 # demo_withdraw_args) L
      \<noteq> Ok (L', ev)" for L' ev
    by (rule spent_nullifier_refused [OF demo_deployment demo_pool_holds c demo_decodes(6), of 21])
      (simp_all add: demo_decodes)
  with c show ?thesis by blast
qed

section \<open>The program refines the pool machine\<close>

text \<open>
  C7: Every successful instruction is a step of the pool machine, for the action its first byte and
  arguments decode to: its guards held, and the accounts hold the machine's next state.
\<close>

theorem program_refines_pool:
  assumes "deployment rt H pid" and "pool_holds rt H pid L s"
    and "process_instruction rt pid accounts data L = Ok (L', ev)"
  shows "\<exists>a s'. decode accounts data = Some a \<and> pool_step (poseidon_syscall rt) H a s s' \<and>
    pool_holds rt H pid L' s'"
  using process_refines [OF assms] by (auto simp: refines_def)

theorem program_refines_pool_witness:
  "\<exists>s' L'. pool_step demo_poseidon demo_hash (Withdraw EMPTY_ROOT 21 5 3 6) empty_pool s' \<and>
     pool_holds demo_runtime demo_hash demo_program L' s'"
proof -
  obtain L where "process_instruction demo_runtime demo_program demo_withdraw_accounts
      (2 # demo_withdraw_args) demo_ledger = Ok (L, WithdrawOk)"
    using demo_withdraw_succeeds by blast
  from program_refines_pool [OF demo_deployment demo_pool_holds this] show ?thesis
    by (auto simp: demo_decodes demo_poseidon_simp)
qed

text \<open>
  C8: \<open>initialize_pool\<close>, where it succeeds, leaves accounts that hold the empty pool.
\<close>

theorem initialize_pool_establishes:
  assumes "deployment rt H pid" and "registry_unallocated rt pid L"
    and "initialize_pool rt pid accounts L = Ok (L', ev)"
  shows "pool_holds rt H pid L' empty_pool"
  by (rule initialize_pool_holds [OF assms])

theorem initialize_pool_establishes_witness:
  "\<exists>L. pool_holds demo_runtime demo_hash demo_program L empty_pool"
proof -
  obtain L ev where i: "initialize_pool demo_runtime demo_program demo_spend_accounts demo_genesis = Ok (L, ev)"
    using demo_initialize_succeeds by blast
  have "registry_unallocated demo_runtime demo_program demo_genesis"
    by (simp add: registry_unallocated_def demo_genesis_def)
  from initialize_pool_establishes [OF demo_deployment this i] show ?thesis by blast
qed

text \<open>
  C9: A withdrawal to any token account but the vault itself pays the public amount from the canonical
  vault of the public mint to it; the owner of the account is the recipient the proof binds, and the
  verifier accepted exactly these public values.
\<close>

theorem withdraw_pays_recipient:
  assumes "deployment rt H pid" and "pool_holds rt H pid L s"
    and "withdraw rt pid accounts args L = Ok (L', ev)"
    and "ai_key (accounts ! 3) \<noteq> vault_key rt pid (b32_at args 320)"
  shows "token_owner (acc_data (L (ai_key (accounts ! 3)))) = b32_at args 360 \<and>
    token_amount (acc_data (L' (ai_key (accounts ! 3)))) =
      token_amount (acc_data (L (ai_key (accounts ! 3)))) + unat (u64_from_le (sub args 352 8)) \<and>
    vault_balance rt pid (b32_at args 320) L' + unat (u64_from_le (sub args 352 8)) =
      vault_balance rt pid (b32_at args 320) L \<and>
    (\<exists>token_field recipient_field.
      to_field (poseidon_syscall rt) (b32_at args 320) = Some token_field \<and>
      to_field (poseidon_syscall rt) (b32_at args 360) = Some recipient_field \<and>
      groth16_verify rt WITHDRAW_VK (sub args 0 64) (sub args 64 128) (sub args 192 64)
        [b32_at args 256, b32_at args 288, token_field, be32_u64 (u64_from_le (sub args 352 8)),
         recipient_field])"
  using withdraw_pays_lemma [OF assms] by blast

theorem withdraw_pays_recipient_witness:
  "\<exists>L'. withdraw demo_runtime demo_program demo_withdraw_accounts demo_withdraw_args demo_ledger =
       Ok (L', WithdrawOk) \<and>
     token_amount (acc_data (L' 8)) = 3 \<and> vault_balance demo_runtime demo_program 5 L' = 47"
proof -
  obtain L' where w: "withdraw demo_runtime demo_program demo_withdraw_accounts demo_withdraw_args
      demo_ledger = Ok (L', WithdrawOk)"
    using demo_withdraw_succeeds by (auto simp: process_instruction_def)
  have a: "ai_key (demo_withdraw_accounts ! 3) = 8"
    by (simp add: demo_withdraw_accounts_def)
  have ne: "ai_key (demo_withdraw_accounts ! 3) \<noteq>
      vault_key demo_runtime demo_program (b32_at demo_withdraw_args 320)"
    by (simp add: a demo_withdraw_fields demo_vault_eq)
  show ?thesis
    using w withdraw_pays_recipient [OF demo_deployment demo_pool_holds w ne]
    by (simp add: a demo_withdraw_fields vault_balance_def demo_vault_eq demo_ledger_at token_bytes_fields)
qed

text \<open>
  C10: A deposit adds exactly its public amount to the vault of its mint, and reports the index at
  which its commitment was inserted.
\<close>

theorem deposit_funds_vault:
  assumes "deployment rt H pid" and "pool_holds rt H pid L s" and "vault_ok rt pid t L"
    and "no_pda_signer rt pid accounts" and "deposit rt pid accounts args L = Ok (L', ev)"
  shows "vault_balance rt pid t L' = vault_balance rt pid t L +
      (if b32_at args 256 = t then unat (u64_from_le (sub args 288 8)) else 0) \<and>
    ev = DepositOk (word_of_nat (length (leaves s)))"
  using deposit_vault(2) [OF assms] deposit_refines(2) [OF assms(1,2,5)] by blast

theorem deposit_funds_vault_witness:
  "\<exists>L' ev. deposit demo_runtime demo_program demo_deposit_accounts demo_deposit_args demo_ledger = Ok (L', ev) \<and>
     vault_balance demo_runtime demo_program 5 L' = 57 \<and> ev = DepositOk 0"
proof -
  obtain L' ev where d: "deposit demo_runtime demo_program demo_deposit_accounts demo_deposit_args
      demo_ledger = Ok (L', ev)"
    using demo_deposit_succeeds by (auto simp: process_instruction_def)
  have s: "no_pda_signer demo_runtime demo_program demo_deposit_accounts"
    by (rule demo_signers) (auto simp: demo_deposit_accounts_def)
  show ?thesis
    using d deposit_funds_vault [OF demo_deployment demo_pool_holds demo_vault_ok s d]
    by (simp add: demo_deposit_fields vault_balance_def demo_vault_eq demo_ledger_at token_bytes_fields
        empty_pool_def)
qed

section \<open>The trees\<close>

text \<open>
  C11: The zero-copy insertion on the account's bytes is the host tree's insertion, error case
  included, it leaves the length and the bytes behind the tree alone, and the two root checks agree.
\<close>

theorem tree_insert_mirrors_host:
  assumes "COMMITMENT_TREE_SIZE \<le> length data"
  shows "map_ok (\<lambda>(d, i). (tree_of_bytes d, i)) (tree_insert P data leaf) =
      map_err (\<lambda>_. Custom E_TREE_FULL) (insert_leaf (poseidon2 P) ZEROS (tree_of_bytes data) leaf) \<and>
    (\<forall>d i. tree_insert P data leaf = Ok (d, i) \<longrightarrow>
      length d = length data \<and> drop COMMITMENT_TREE_SIZE d = drop COMMITMENT_TREE_SIZE data) \<and>
    tree_is_known_root data r = Ok (is_known_root (tree_of_bytes data) r)"
  using tree_insert_refines_host [OF assms] tree_insert_frame [OF assms]
    tree_is_known_root_refines [OF assms] by blast

theorem tree_insert_mirrors_host_witness:
  "\<exists>d. tree_insert demo_poseidon (tree_to_bytes initial_tree) 11 = Ok (d, 0) \<and> length d = 1801 \<and>
     tree_is_known_root d EMPTY_ROOT = Ok (is_known_root (tree_of_bytes d) EMPTY_ROOT)"
proof -
  obtain d where d: "tree_insert demo_poseidon (tree_to_bytes initial_tree) 11 = Ok (d, 0)"
    using tree_insert_holds [OF demo_tree_holds demo_fields(1)] by auto
  have "length d = COMMITMENT_TREE_SIZE"
    using tree_insert_mirrors_host [of "tree_to_bytes initial_tree" demo_poseidon 11] d demo_tree_length by simp
  then show ?thesis
    using d tree_insert_mirrors_host [of d] by (simp add: layout)
qed

text \<open>
  C24: Building the host tree leaf by leaf, with the table \<open>zero_hashes\<close> computes, never fails while
  there is room, counts the leaves, and ends with the root of the full tree recomputed over all of
  them; the full tree refuses another.
\<close>

theorem incremental_root_is_full_root:
  assumes "hashes_to h H" and "list_all field_elem xs" and "length xs \<le> 2 ^ TREE_DEPTH"
  shows "\<exists>zeros t t'. zero_hashes h = Some zeros \<and> tree_new h = Some t \<and>
    insert_all (insert_leaf h zeros) t xs = Ok t' \<and>
    next_index t' = word_of_nat (length xs) \<and> current_root t' = merkle_root H xs \<and>
    (length xs = 2 ^ TREE_DEPTH \<longrightarrow> insert_leaf h zeros t' leaf = Err Full)"
proof -
  obtain t t' where t: "tree_new h = Some t" "insert_all (insert_leaf h (zeros_of H)) t xs = Ok t'"
    and r: "represents h H t' xs"
    using tree_new_insert_all [OF assms] by blast
  then have "next_index t' = word_of_nat (length xs)"
    by (simp add: represents_def)
  with t zero_hashes_spec [OF assms(1)] represents_current_root [OF r] insert_leaf_full [OF r]
  show ?thesis by blast
qed

theorem incremental_root_is_full_root_witness:
  "\<exists>zeros t t'. zero_hashes (poseidon2 demo_poseidon) = Some zeros \<and>
     tree_new (poseidon2 demo_poseidon) = Some t \<and>
     insert_all (insert_leaf (poseidon2 demo_poseidon) zeros) t [11, 21] = Ok t' \<and>
     current_root t' = merkle_root demo_hash [11, 21]"
proof -
  have "list_all field_elem [11, 21]" and "length [11, 21] \<le> 2 ^ TREE_DEPTH"
    by (simp_all add: demo_fields TREE_DEPTH_def)
  from incremental_root_is_full_root [OF demo_hashes_to this] show ?thesis by blast
qed

text \<open>
  C13: A root of the account stays accepted during the next 31 insertions; after 32 it is refused,
  unless the tree came back to that root in between.
\<close>

theorem accepted_root_window:
  assumes "tree_holds P H data ls" and "list_all field_elem xs"
    and "insert_all (tree_insert P) data xs = Ok d" and "merkle_root H ls \<noteq> 0"
  shows "(length xs < ROOT_HISTORY \<longrightarrow> tree_is_known_root d (merkle_root H ls) = Ok True) \<and>
    (ROOT_HISTORY \<le> length xs \<longrightarrow>
       tree_is_known_root d (merkle_root H ls) = Ok False \<or>
       (\<exists>k. 0 < k \<and> k \<le> length xs \<and> merkle_root H (ls @ take k xs) = merkle_root H ls))"
proof -
  have d: "tree_holds P H d (ls @ xs)"
    by (rule pool_tree.insert_all_rep [OF assms(1-3)])
  then have known: "tree_is_known_root d r = Ok (is_known_root (tree_of_bytes d) r)" for r
    by (simp add: tree_holds_def tree_is_known_root_refines)
  have "\<exists>k. 0 < k \<and> k \<le> length xs \<and> merkle_root H (ls @ take k xs) = merkle_root H ls"
    if long: "ROOT_HISTORY \<le> length xs" and still: "known_in d (merkle_root H ls)"
  proof -
    obtain ys zs where "xs = ys @ zs" "ys \<noteq> []" and "merkle_root H (ls @ ys) = merkle_root H ls"
      using pool_tree.root_expires [OF assms(1-3) long still] by blast
    then show ?thesis by (intro exI [of _ "length ys"]) simp
  qed
  then show ?thesis
    using pool_tree.root_survives [OF assms(1-3) _ assms(4)] known by (auto simp: known_in_def)
qed

theorem accepted_root_window_witness:
  "\<exists>d. insert_all (tree_insert demo_poseidon) (tree_to_bytes initial_tree) [11] = Ok d \<and>
     tree_is_known_root d EMPTY_ROOT = Ok True"
proof -
  have fe: "list_all field_elem [11]" by (simp add: demo_fields)
  obtain d where d: "insert_all (tree_insert demo_poseidon) (tree_to_bytes initial_tree) [11] = Ok d"
    using pool_tree.insert_all_ok [OF demo_tree_holds fe] by (auto simp: TREE_DEPTH_def)
  show ?thesis
    using d accepted_root_window [OF demo_tree_holds fe d]
    by (simp add: demo_empty_root ROOT_HISTORY_def)
qed

text \<open>
  C14: The path a withdrawer reconstructs from the list of leaves opens the leaf at its index to the
  current root of the incremental tree, and its direction bits are the bits of the index.
\<close>

theorem path_opens_to_current_root:
  assumes "hashes_to (poseidon2 P) H" and "list_all field_elem ls" and "length ls \<le> 2 ^ TREE_DEPTH"
    and "unat index < length ls" and "tree_new (poseidon2 P) = Some t0"
    and "insert_all (insert_leaf (poseidon2 P) (zeros_of H)) t0 ls = Ok t"
  shows "\<exists>siblings right. reconstruct_path (poseidon2 P) (zeros_of H) ls index =
      Some (siblings, right, current_root t) \<and>
    merkle_root_be P (ls ! unat index) siblings right = Some (current_root t) \<and>
    length siblings = TREE_DEPTH \<and> right = map (\<lambda>l. odd (unat index div 2 ^ l)) [0..<TREE_DEPTH]"
proof -
  let ?path = "auth_path H ls (unat index) [0..<TREE_DEPTH]"
  have r: "represents (poseidon2 P) H t ls"
    using represents_new [OF assms(1)] host_tree.insert_all_rep [of "poseidon2 P" H t0 "[]" ls t]
      assms(2,5,6) by auto
  have path: "reconstruct_path (poseidon2 P) (zeros_of H) ls index =
      Some (map fst ?path, map snd ?path, current_root t)"
    using reconstruct_path_spec [OF assms(1,2)] represents_current_root [OF r] by simp
  moreover have "unat index < 2 ^ TREE_DEPTH"
    using assms(3,4) by simp
  ultimately have "merkle_root_be P (ls ! unat index) (map fst ?path) (map snd ?path) =
      Some (current_root t)"
    using reconstructed_path_opens(1) [OF assms(1,2) _ path] assms(4) by simp
  moreover have "length (map fst ?path) = TREE_DEPTH"
    and "map snd ?path = map (\<lambda>l. odd (unat index div 2 ^ l)) [0..<TREE_DEPTH]"
    by (simp_all add: auth_path_def)
  ultimately show ?thesis using path by blast
qed

theorem path_opens_to_current_root_witness:
  "\<exists>t0 t siblings right. tree_new (poseidon2 demo_poseidon) = Some t0 \<and>
     insert_all (insert_leaf (poseidon2 demo_poseidon) (zeros_of demo_hash)) t0 [11, 21] = Ok t \<and>
     merkle_root_be demo_poseidon 21 siblings right = Some (current_root t)"
proof -
  have ls: "list_all field_elem [11, 21]" "length [11, 21 :: bytes32] \<le> 2 ^ TREE_DEPTH"
    by (simp_all add: demo_fields TREE_DEPTH_def)
  obtain t0 t where t: "tree_new (poseidon2 demo_poseidon) = Some t0"
    "insert_all (insert_leaf (poseidon2 demo_poseidon) (zeros_of demo_hash)) t0 [11, 21] = Ok t"
    using tree_new_insert_all [OF demo_hashes_to ls] by blast
  have "unat (1 :: u64) < length [11, 21 :: bytes32]" by simp
  from path_opens_to_current_root [OF demo_hashes_to ls this t] t show ?thesis by auto
qed

text \<open>
  C15: A root binds the leaf at each position: two openings of different leaves with the same
  directions contain a collision of the hash, and \<open>path_collision\<close> computes it.
\<close>

theorem merkle_root_binds_leaf:
  assumes "merkle_root_be P a ss right = Some root" and "merkle_root_be P b ts right = Some root"
    and "length ss = length right" and "length ts = length right" and "a \<noteq> b"
  shows "\<exists>x y. path_collision P a b ss ts right = Some (x, y) \<and> x \<noteq> y \<and> P x = P y \<and> P x \<noteq> None"
  by (rule path_collision_found [OF assms])

theorem merkle_root_binds_leaf_witness:
  "path_collision (\<lambda>_. Some 0) 1 2 [3] [4] [True] = Some ([3, 1], [4, 2])"
  using merkle_root_binds_leaf [of "\<lambda>_. Some 0" 1 "[3]" "[True]" 0 2 "[4]"]
  by (simp add: merkle_root_be_def poseidon_be_def)

text \<open>
  \<open>zero_hashes\<close> and \<open>empty_root\<close> compute the empty subtrees of the full tree, and the generator
  writes the program's constants exactly when the hash has them as its empty subtrees and root.
\<close>

theorem tree_constants_generated:
  assumes "hashes_to (poseidon2 P) H"
  shows "zero_hashes (poseidon2 P) = Some (map (\<lambda>l. node H [] l 0) [0..<TREE_DEPTH]) \<and>
    empty_root (poseidon2 P) (zeros_of H) = Some (node H [] TREE_DEPTH 0) \<and>
    (emit_tree_consts P = Some (ZEROS, EMPTY_ROOT) \<longleftrightarrow>
      zeros_of H = ZEROS \<and> merkle_root H [] = EMPTY_ROOT)"
  using zero_hashes_spec [OF assms] empty_root_spec [OF assms] consts_match_emitted [OF assms]
  by (simp add: zeros_of_def node_empty merkle_root_def consts_match_def)

theorem tree_constants_generated_witness:
  "emit_tree_consts demo_poseidon = Some (ZEROS, EMPTY_ROOT)"
  using tree_constants_generated [OF demo_hashes_to] demo_consts_match by (simp add: consts_match_def)

text \<open>
  The field encoding of a 32-byte value hashes its two 128-bit halves, which are canonical
  field elements, on chain as on the host; two values with one encoding are a collision of the hash.
\<close>

theorem field_encoding_binds:
  assumes "to_field P a = Some v" and "to_field_be P b = Some v"
  shows "P [drop_bit 128 a, take_bit 128 a] = Some v \<and> P [drop_bit 128 b, take_bit 128 b] = Some v \<and>
    list_all field_elem [drop_bit 128 a, take_bit 128 a, drop_bit 128 b, take_bit 128 b] \<and>
    (a = b \<longleftrightarrow> [drop_bit 128 a, take_bit 128 a] = [drop_bit 128 b, take_bit 128 b])"
  using assms field_elem_limbs limbs_eq_iff [of a b]
  by (simp add: to_field_eq to_field_be_limbs poseidon_be_def)

theorem field_encoding_binds_witness:
  "demo_poseidon [drop_bit 128 5, take_bit 128 5] = to_field demo_poseidon 5"
  using field_encoding_binds [of demo_poseidon 5 _ 5] demo_to_field [of 5] by (simp add: to_field_eq)

section \<open>The accounts\<close>

text \<open>
  On an account that holds a list of distinct nullifiers the scan decides membership without
  panicking, and appending a new one gives the serialisation of the longer list, found from then on,
  and changes the data of no other account.
\<close>

theorem nullifier_account_appends:
  assumes "runtime_laws rt" and "nullifiers_hold (data_of L nf) ns" and "n \<notin> set ns"
    and "nullifier_append rt payer nf system n L = Ok L'"
  shows "nullifier_contains (data_of L nf) m = Ok (m \<in> set ns) \<and>
    data_of L' nf = nullifier_set_bytes (ns @ [n]) \<and>
    nullifier_contains (data_of L' nf) m = Ok (m \<in> set ns \<or> m = n) \<and>
    (k = ai_key nf \<or> acc_data (L' k) = acc_data (L k))"
proof -
  have h': "nullifiers_hold (data_of L' nf) (ns @ [n])" and c: "changes_only {ai_key nf} L L'"
    using nullifier_append_holds [OF runtime_lawsD(1,4) [OF assms(1)] assms(2-4)] by simp_all
  have "data_of L' nf = nullifier_set_bytes (ns @ [n])"
    using h' by (simp add: nullifiers_hold_def)
  then show ?thesis
    using nullifier_contains_iff [OF assms(2)] nullifier_contains_iff [OF h'] changes_onlyD(2) [OF c]
    by auto
qed

theorem nullifier_account_appends_witness:
  "\<exists>L. nullifier_append demo_runtime demo_payer (demo_info (nullifier_key demo_runtime demo_program))
       (demo_info 0) 21 demo_ledger = Ok L \<and>
     nullifier_contains (acc_data (L (nullifier_key demo_runtime demo_program))) 21 = Ok True \<and>
     nullifier_contains (acc_data (L (nullifier_key demo_runtime demo_program))) 22 = Ok False"
proof -
  let ?nf = "demo_info (nullifier_key demo_runtime demo_program)"
  have h: "nullifiers_hold (data_of demo_ledger ?nf) []"
    using pool_holdsD(4) [OF demo_pool_holds] by (simp add: data_of_def empty_pool_def)
  then have "length (data_of demo_ledger ?nf) + 32 \<le> MAX_ACCOUNT_SIZE"
    by (simp add: nullifiers_hold_def MAX_ACCOUNT_SIZE_def)
  from demo_nullifier_append [OF h this] obtain L
    where L: "nullifier_append demo_runtime demo_payer ?nf (demo_info 0) 21 demo_ledger = Ok L"
    by blast
  show ?thesis
    using L nullifier_account_appends [OF demo_laws h _ L, where m = 21]
      nullifier_account_appends [OF demo_laws h _ L, where m = 22]
    by (fastforce simp: data_of_def)
qed

text \<open>
  On an account that holds an operator and entries the registry's reads return that operator
  and the offset of a nullifier's entry, and appending a new entry gives the serialisation of the
  longer registry, whose new entry is unminted and carries the attested hash.
\<close>

theorem registry_account_appends:
  assumes "runtime_laws rt" and "xpending_hold (data_of L xp) op es" and "n \<notin> xe_nullifier ` set es"
    and "xpending_append rt payer xp system n h L = Ok L'"
  shows "xpending_find (data_of L xp) n = Ok None \<and>
    data_of L' xp = xpending_bytes op (es @ [fresh_entry n h]) \<and>
    xpending_operator (data_of L' xp) = Ok op \<and>
    xpending_find (data_of L' xp) n = Ok (Some (40 + length es * 65)) \<and>
    xpending_expected_hash (data_of L' xp) (40 + length es * 65) = Ok h \<and>
    byte_at (data_of L' xp) (40 + length es * 65 + 64) = (Ok 0 :: (program_error, byte) outcome)"
proof -
  let ?es = "es @ [fresh_entry n h]" and ?i = "length es"
  have h': "xpending_hold (data_of L' xp) op ?es"
    using xpending_append_holds [OF runtime_lawsD(1,4) [OF assms(1)] assms(2-4)] by simp
  then have d: "data_of L' xp = xpending_bytes op ?es"
    by (simp add: xpending_hold_def)
  have i: "?i < length ?es" and e: "?es ! ?i = fresh_entry n h"
    by simp_all
  have "xpending_find (data_of L' xp) n = Ok (Some (40 + ?i * 65))"
    by (rule xpending_find_present [OF h' i]) (simp add: fresh_entry_def)
  moreover have "xpending_expected_hash (data_of L' xp) (40 + ?i * 65) = Ok h"
    and "byte_at (data_of L' xp) (40 + ?i * 65 + 64) = (Ok 0 :: (program_error, byte) outcome)"
    using entry_fields(2,3) [OF i, of op] unfolding d e
    by (simp_all add: xpending_expected_hash_def fresh_entry_def)
  ultimately show ?thesis
    using xpending_find_absent [OF assms(2,3)] xpending_operator_holds [OF h'] d by blast
qed

theorem registry_account_appends_witness:
  "\<exists>L L'. data_of L (demo_info 9) = xpending_bytes 2 [] \<and>
     xpending_append demo_runtime demo_payer (demo_info 9) (demo_info 0) 21 33 L = Ok L' \<and>
     xpending_find (data_of L' (demo_info 9)) 21 = Ok (Some 40) \<and>
     xpending_expected_hash (data_of L' (demo_info 9)) 40 = Ok 33"
proof -
  define L where "L = set_data demo_ledger 9 (xpending_bytes 2 [])"
  have d: "data_of L (demo_info 9) = xpending_bytes 2 []"
    by (simp add: L_def data_of_def)
  then have xp: "xpending_hold (data_of L (demo_info 9)) 2 []"
    by (simp add: xpending_hold_def MAX_ACCOUNT_SIZE_def)
  obtain L' where L': "xpending_append demo_runtime demo_payer (demo_info 9) (demo_info 0) 21 33 L = Ok L'"
    using demo_xpending_append [OF xp, of demo_payer "demo_info 0" 21 33]
    by (auto simp: d MAX_ACCOUNT_SIZE_def)
  show ?thesis
    using d L' registry_account_appends [OF demo_laws xp _ L'] by auto
qed

text \<open>
  Reading the serialised tree back gives the tree, also with bytes behind it, and the
  serialisation has the size the account is created with.
\<close>

theorem tree_serialisation_roundtrip:
  assumes "length (filled_subtrees t) = TREE_DEPTH" and "length (roots t) = ROOT_HISTORY"
  shows "tree_of_bytes (tree_to_bytes t @ rest) = t \<and> length (tree_to_bytes t) = COMMITMENT_TREE_SIZE"
  using tree_of_to_bytes [OF assms] length_tree_to_bytes [OF assms] by blast

theorem tree_serialisation_roundtrip_witness:
  "current_root (tree_of_bytes (tree_to_bytes initial_tree @ [1, 2, 3])) = EMPTY_ROOT"
  using tree_serialisation_roundtrip [of initial_tree "[1, 2, 3]"]
  by (simp add: initial_tree_def current_root_def ROOT_HISTORY_def)

text \<open>
  The host set records exactly the nullifiers inserted, in order, and refuses a second
  insertion whatever was inserted in between.
\<close>

theorem host_set_refuses_second_insert:
  assumes "add_all try_insert nullifier_set_new (xs @ [n] @ ys) = Ok s"
  shows "nullifiers s = xs @ [n] @ ys \<and> distinct (nullifiers s) \<and> contains s n \<and>
    try_insert s n = Err AlreadySpent \<and> nullifier_set_len s = length xs + 1 + length ys"
proof -
  have new: "nullifiers nullifier_set_new = []"
    by (simp add: nullifier_set_new_def)
  show ?thesis
    using host_nullifiers.add_all_holds [OF new _ assms] host_nullifiers.no_second_add [OF new _ assms]
    by (auto simp: contains_def nullifier_set_len_def list_ex_iff)
qed

theorem host_set_refuses_second_insert_witness:
  "\<exists>s. add_all try_insert nullifier_set_new [4, 5, 6] = Ok s \<and> try_insert s 5 = Err AlreadySpent"
proof -
  obtain s where s: "add_all try_insert nullifier_set_new [4, 5, 6] = Ok s"
    by (simp add: try_insert_def contains_def nullifier_set_new_def)
  with host_set_refuses_second_insert [of "[4]" 5 "[6]" s] show ?thesis by simp
qed

section \<open>What is refused, and what success means\<close>

text \<open>
  An instruction that is empty, has an unknown tag or a wrong length is refused with
  \<open>InvalidInstructionData\<close>, whatever the accounts: no handler panics on its argument bytes.
\<close>

theorem malformed_instruction_refused:
  assumes "\<forall>tag args. data = tag # args \<longrightarrow> \<not> args_ok tag (length args)"
  shows "process_instruction rt pid accounts data L = Err InvalidInstructionData"
  using assms by (intro malformed_refused) blast

theorem malformed_instruction_refused_witness:
  "\<forall>rt pid accounts L.
     process_instruction rt pid accounts [] L = Err InvalidInstructionData \<and>
     process_instruction rt pid accounts [9, 1] L = Err InvalidInstructionData \<and>
     process_instruction rt pid accounts (1 # replicate 327 0) L = Err InvalidInstructionData"
  by (intro allI conjI malformed_instruction_refused) (auto simp: args_ok_def)

text \<open>
  C23: Where the verifier rejects the proof for the statement the arguments make, the instruction
  is refused with \<open>E_PROOF_INVALID\<close> before any account is looked at. (A mint that names another chain
  is refused for that before its proof is checked.)
\<close>

theorem rejected_proof_is_refused:
  assumes "args_ok tag (length args)"
    and "statement_of (poseidon_syscall rt) tag args = Some (vk, public)"
    and "\<not> groth16_verify rt vk (sub args 0 64) (sub args 64 128) (sub args 192 64) public"
    and "tag = 7 \<longrightarrow> b32_at args 320 = be32_u64 SOLANA_CHAIN_ID"
  shows "process_instruction rt pid accounts (tag # args) L = Err (Custom E_PROOF_INVALID)"
  using assms by (intro rejected_proof_refused) auto

theorem rejected_proof_is_refused_witness:
  "process_instruction demo_runtime demo_program [] (8 # demo_args [EMPTY_ROOT, - 1, 9, 11]) demo_ledger =
     Err (Custom E_PROOF_INVALID)"
proof (rule rejected_proof_is_refused)
  have "\<not> field_elem (- 1)"
    by (simp add: field_elem_def bn254_fr_def unsigned_minus_1_eq_mask mask_eq_exp_minus_1)
  then show "\<not> groth16_verify demo_runtime XBURN_VK (sub (demo_args [EMPTY_ROOT, - 1, 9, 11]) 0 64)
      (sub (demo_args [EMPTY_ROOT, - 1, 9, 11]) 64 128) (sub (demo_args [EMPTY_ROOT, - 1, 9, 11]) 192 64)
      [EMPTY_ROOT, - 1, 9, 11]"
    by (simp add: demo_verify)
qed (simp_all add: args_ok_def statement_of_def Let_def demo_args4)

text \<open>
  A successful deposit, withdrawal, transfer, burn, mint or cross-chain burn carried a proof
  the verifier accepted, under the key of that instruction, for the public values in its arguments.
\<close>

theorem success_was_verified:
  assumes "process_instruction rt pid accounts (tag # args) L = Ok (L', ev)"
    and "tag \<in> {1, 2, 3, 4, 7, 8}"
  shows "\<exists>vk public. statement_of (poseidon_syscall rt) tag args = Some (vk, public) \<and>
    groth16_verify rt vk (sub args 0 64) (sub args 64 128) (sub args 192 64) public"
  by (rule success_was_proven [OF assms])

theorem success_was_verified_witness:
  "\<exists>public. statement_of demo_poseidon 2 demo_withdraw_args = Some (WITHDRAW_VK, public)"
proof -
  obtain L where "process_instruction demo_runtime demo_program demo_withdraw_accounts
      (2 # demo_withdraw_args) demo_ledger = Ok (L, WithdrawOk)"
    using demo_withdraw_succeeds by blast
  from success_was_verified [OF this] show ?thesis
    by (auto simp: demo_poseidon_simp statement_of_def Let_def bind_eq_Some_conv)
qed

text \<open>
  C25: A well-formed attestation by a signer who is not the registry's operator, or of a nullifier
  already in the registry, is refused with the code's error for each.
\<close>

theorem attestation_refused:
  assumes "length args = 96" and "accounts = operator # xp_ai # system # rest" and "is_signer operator"
    and "hash2 (poseidon_syscall rt) (b32_at args 32) (b32_at args 64) = Some h"
    and "pool_holds rt H pid L s" and "registry s = Some (op, es)"
    and "ai_key xp_ai = xpending_key rt pid"
    and "ai_key operator \<noteq> op \<or> b32_at args 0 \<in> xe_nullifier ` set es"
  shows "add_pending_xburn rt pid accounts args L =
    Err (Custom (if ai_key operator \<noteq> op then E_WRONG_OPERATOR else E_ALREADY_SPENT))"
  using attest_refusals [OF assms(1-7)] assms(8) by auto

theorem attestation_refused_witness:
  "add_pending_xburn demo_runtime demo_program demo_registry_accounts
     (b32_bytes 21 @ b32_bytes 9 @ b32_bytes 11) (demo_registry_ledger [fresh_entry 21 33]) =
   Err (Custom E_ALREADY_SPENT)"
proof -
  let ?args = "b32_bytes 21 @ b32_bytes 9 @ b32_bytes 11"
  have "field_elem 9" by (rule small_field_elem) simp
  then have hash: "hash2 (poseidon_syscall demo_runtime) (b32_at ?args 32) (b32_at ?args 64) =
      Some (demo_hash 9 11)"
    by (simp add: demo_poseidon_simp hash2_def demo_attest_fields demo_fields)
  have pool: "pool_holds demo_runtime demo_hash demo_program (demo_registry_ledger [fresh_entry 21 33])
      (empty_pool\<lparr>registry := Some (2, [fresh_entry 21 33])\<rparr>)"
    by (rule demo_registry_holds) simp_all
  show ?thesis
    using attestation_refused [OF _ demo_registry_accounts_def _ hash pool]
    by (simp add: demo_attest_fields fresh_entry_def)
qed

text \<open>
  C26: A mint whose proof is accepted is refused when its source nullifier was never attested, when
  it was minted before, and when its destination tuple is not the attested one.
\<close>

theorem mint_refused:
  assumes "length args = 384" and "b32_at args 320 = be32_u64 SOLANA_CHAIN_ID"
    and "groth16_verify rt XBURN_VK (sub args 0 64) (sub args 64 128) (sub args 192 64)
      [b32_at args 256, b32_at args 288, b32_at args 320, b32_at args 352]"
    and "accounts = payer # tree_ai # xp_ai # system # rest" and "is_signer payer"
    and "ai_key tree_ai = tree_key rt pid" and "ai_key xp_ai = xpending_key rt pid"
    and "pool_holds rt H pid L s" and "registry s = Some (op, es)"
  shows "(b32_at args 288 \<notin> xe_nullifier ` set es \<longrightarrow>
      mint_from_xburn rt pid accounts args L = Err (Custom E_NOT_PENDING)) \<and>
    (\<forall>e \<in> set es. xe_nullifier e = b32_at args 288 \<longrightarrow>
      (xe_minted e \<longrightarrow> mint_from_xburn rt pid accounts args L = Err (Custom E_ALREADY_SPENT)) \<and>
      (\<not> xe_minted e \<and>
       (\<exists>h. hash2 (poseidon_syscall rt) (b32_at args 320) (b32_at args 352) = Some h \<and> h \<noteq> xe_expected e)
       \<longrightarrow> mint_from_xburn rt pid accounts args L = Err (Custom E_WRONG_DESTINATION)))"
  using mint_refusals [OF assms] by blast

theorem mint_refused_witness:
  "mint_from_xburn demo_runtime demo_program demo_mint_accounts
     (demo_args [EMPTY_ROOT, 21, be32_u64 SOLANA_CHAIN_ID, 11]) (demo_registry_ledger [fresh_entry 22 33]) =
   Err (Custom E_NOT_PENDING)"
proof -
  let ?args = "demo_args [EMPTY_ROOT, 21, be32_u64 SOLANA_CHAIN_ID, 11]"
  have pool: "pool_holds demo_runtime demo_hash demo_program (demo_registry_ledger [fresh_entry 22 33])
      (empty_pool\<lparr>registry := Some (2, [fresh_entry 22 33])\<rparr>)"
    by (rule demo_registry_holds) simp_all
  have ok: "groth16_verify demo_runtime XBURN_VK (sub ?args 0 64) (sub ?args 64 128) (sub ?args 192 64)
      [b32_at ?args 256, b32_at ?args 288, b32_at ?args 320, b32_at ?args 352]"
    by (simp add: demo_args4 demo_verify XBURN_VK_def field_elem_EMPTY_ROOT demo_fields demo_amount_field)
  show ?thesis
    using mint_refused [OF _ _ ok demo_mint_accounts_def _ _ _ pool]
    by (simp add: demo_args4 fresh_entry_def)
qed

text \<open>
  C27: A shielded transfer moves no tokens: it records two distinct unspent nullifiers, appends its
  two commitments at consecutive positions, which it reports, and leaves every token account alone.
\<close>

theorem transfer_stays_shielded:
  assumes "deployment rt H pid" and "pool_holds rt H pid L s"
    and "transfer rt pid accounts args L = Ok (L', ev)"
  shows "pool_holds rt H pid L' (s\<lparr>spent := spent s @ [b32_at args 288, b32_at args 320],
      leaves := leaves s @ [b32_at args 352, b32_at args 384]\<rparr>) \<and>
    b32_at args 288 \<noteq> b32_at args 320 \<and> {b32_at args 288, b32_at args 320} \<inter> set (spent s) = {} \<and>
    recent_root H (leaves s) (b32_at args 256) \<and>
    (acc_owner (L k) = SPL_TOKEN_PROGRAM_ID \<longrightarrow> acc_data (L' k) = acc_data (L k)) \<and>
    ev = TransferOk (word_of_nat (length (leaves s))) (word_of_nat (Suc (length (leaves s))))"
  using transfer_refines [OF assms] transfer_spl_same [OF assms]
  by (auto simp: refines_def spl_same_def elim!: pool_step_TransferE)

theorem transfer_stays_shielded_witness:
  "\<exists>L'. transfer demo_runtime demo_program demo_spend_accounts demo_transfer_args demo_ledger =
       Ok (L', TransferOk 0 1) \<and>
     pool_holds demo_runtime demo_hash demo_program L' (empty_pool\<lparr>spent := [21, 22], leaves := [11, 12]\<rparr>)"
proof -
  obtain L' ev where t: "transfer demo_runtime demo_program demo_spend_accounts demo_transfer_args
      demo_ledger = Ok (L', ev)"
    using demo_transfer_succeeds by blast
  show ?thesis
    using t transfer_stays_shielded [OF demo_deployment demo_pool_holds t]
    by (simp add: demo_transfer_fields empty_pool_def)
qed

text \<open>
  Neither the pool nor the registry can be set up a second time, so neither the nullifiers nor
  the operator can be reset.
\<close>

theorem no_second_setup:
  assumes "deployment rt H pid" and "pool_holds rt H pid L s"
  shows "initialize_pool rt pid accounts L \<noteq> Ok r \<and>
    (registry s \<noteq> None \<longrightarrow> initialize_xburn_pending rt pid accounts args L \<noteq> Ok r)"
  using initialize_pool_refused [OF assms] initialize_registry_refused [OF assms]
  by (cases r) auto

theorem no_second_setup_witness:
  "\<forall>r. initialize_xburn_pending demo_runtime demo_program demo_registry_accounts (b32_bytes 4)
      (demo_registry_ledger []) \<noteq> Ok r"
  using no_second_setup [OF demo_deployment demo_registry_holds [of "[]"]] by simp

end
